(* ===== verification/Py_Float.thy ===== *)
theory Py_Float
  imports Complex_Main "HOL-Library.Log_Nat"
begin

text \<open>
  Python floats. The program computes with binary64 values; this theory gives the part of
  binary64 that the models of the components use.

  \<^item> \<open>fl\<close> rounds an exact rational to 53 significant bits, ties to even: the result of one
    Python \<open>+\<close>, \<open>-\<close>, \<open>*\<close> or \<open>/\<close> on finite floats is \<open>fl\<close> of the exact result. The exponent
    range is not bounded, so overflow to infinity and underflow are outside the model
    (magnitudes between 2e-308 and 1e308).
  \<^item> \<open>pyfloat\<close> is the value of a float that the code has not yet checked with
    \<open>math.isfinite\<close>; comparisons with a NaN are false, as in Python.

  The lemmas are the four laws the components rest on: \<open>fl\<close> is monotone, odd, keeps the sign
  and leaves every representable number (in particular every integer up to 2 to the 53) alone.
\<close>

subsection \<open>Rounding to an integer, ties to even\<close>

definition rne :: "rat \<Rightarrow> int" where
  "rne x = (let f = \<lfloor>x\<rfloor>; d = x - of_int f in
     if d < 1 / 2 then f else if 1 / 2 < d then f + 1 else if even f then f else f + 1)"

lemma rne_bounds: "\<lfloor>x\<rfloor> \<le> rne x" "rne x \<le> \<lfloor>x\<rfloor> + 1"
  by (auto simp: rne_def Let_def)

lemma rne_of_int [simp]: "rne (of_int n) = n"
  by (simp add: rne_def Let_def)

lemma rne_mono:
  assumes "x \<le> y" shows "rne x \<le> rne y"
proof (cases "\<lfloor>x\<rfloor> = \<lfloor>y\<rfloor>")
  case True
  with assms show ?thesis by (auto simp: rne_def Let_def)
next
  case False
  from assms have "\<lfloor>x\<rfloor> \<le> \<lfloor>y\<rfloor>" by (rule floor_mono)
  with False have "\<lfloor>x\<rfloor> + 1 \<le> \<lfloor>y\<rfloor>" by simp
  with rne_bounds [of x] rne_bounds [of y] show ?thesis by linarith
qed

lemma rne_minus: "rne (- x) = - rne x"
proof (cases "of_int \<lfloor>x\<rfloor> = x")
  case True
  then obtain n where "x = of_int n" by metis
  then have "rne (- x) = rne (of_int (- n))" by simp
  also have "\<dots> = - n" by (rule rne_of_int)
  finally show ?thesis using \<open>x = of_int n\<close> by simp
next
  case False
  have le: "of_int \<lfloor>x\<rfloor> \<le> x" "x < of_int \<lfloor>x\<rfloor> + 1" by linarith+
  with False have lt: "of_int \<lfloor>x\<rfloor> < x" by linarith
  have f: "\<lfloor>- x\<rfloor> = - \<lfloor>x\<rfloor> - 1"
    using lt le by (intro floor_unique) simp_all
  show ?thesis unfolding rne_def Let_def f
    using le by (auto simp: algebra_simps)
qed

subsection \<open>The binary exponent\<close>

definition ilog2 :: "rat \<Rightarrow> int" where
  "ilog2 x = (let (p, q) = quotient_of x; e = bitlen p - bitlen q in
     if 2 powi e \<le> x then e else e - 1)"

lemma rat_of_int_power2: "(of_int (2 ^ n) :: rat) = 2 ^ n"
  by simp

lemma powi_2_pos [simp]: "0 < (2::rat) powi e"
  by simp

lemma powi_2_Suc: "(2::rat) powi (e + 1) = 2 * 2 powi e"
  by (simp add: power_int_add)

lemma powi_2_mono: "e \<le> k \<Longrightarrow> (2::rat) powi e \<le> 2 powi k"
  by (simp add: power_int_increasing)

lemma powi_2_less_iff: "((2::rat) powi e < 2 powi k) = (e < k)"
  using power_int_strict_increasing [of e k "2::rat"] power_int_increasing [of k e "2::rat"]
  by (cases "e < k") auto

lemma bitlen_rat_bounds:
  assumes "0 < p"
  shows "(2::rat) powi (bitlen p - 1) \<le> of_int p" "(of_int p :: rat) < 2 powi bitlen p"
proof -
  from assms have b: "2 ^ nat (bitlen p - 1) \<le> p" "p < 2 ^ nat (bitlen p)"
    using bitlen_bounds by auto
  have pos: "0 < bitlen p" using assms bitlen_nonneg [of p] bitlen_eq_zero_iff [of p] by linarith
  have "(of_int (2 ^ nat (bitlen p - 1)) :: rat) \<le> of_int p"
    using b(1) by (simp only: of_int_le_iff)
  with pos show "(2::rat) powi (bitlen p - 1) \<le> of_int p"
    by (simp add: power_int_def)
  have "(of_int p :: rat) < of_int (2 ^ nat (bitlen p))"
    using b(2) by (simp only: of_int_less_iff)
  with pos show "(of_int p :: rat) < 2 powi bitlen p"
    by (simp add: power_int_def)
qed

lemma ilog2_spec:
  assumes "0 < x"
  shows "2 powi ilog2 x \<le> x" "x < 2 powi (ilog2 x + 1)"
proof -
  obtain p q where pq: "quotient_of x = (p, q)" by fastforce
  then have q: "0 < q" and x: "x = of_int p / of_int q"
    by (auto simp: quotient_of_denom_pos quotient_of_div)
  with assms have p: "0 < p" by (simp add: zero_less_divide_iff)
  define e where "e = bitlen p - bitlen q"
  have lo: "2 powi (e - 1) < x"
  proof -
    have "2 powi (e - 1) = 2 powi (bitlen p - 1) / (2::rat) powi bitlen q"
      by (simp add: e_def power_int_diff)
    also have "\<dots> \<le> of_int p / 2 powi bitlen q"
      using bitlen_rat_bounds(1) [OF p] by (simp add: divide_right_mono)
    also have "\<dots> < of_int p / of_int q"
      using p q bitlen_rat_bounds(2) [OF q] by (intro divide_strict_left_mono) auto
    finally show ?thesis using x by simp
  qed
  have hi: "x < 2 powi (e + 1)"
  proof -
    have "of_int p / of_int q < 2 powi bitlen p / (of_int q :: rat)"
      using q bitlen_rat_bounds(2) [OF p] by (simp add: divide_strict_right_mono)
    also have "\<dots> \<le> 2 powi bitlen p / 2 powi (bitlen q - 1)"
      using q bitlen_rat_bounds(1) [OF q] by (intro divide_left_mono) auto
    also have "\<dots> = 2 powi (e + 1)"
      by (simp add: e_def power_int_diff power_int_add)
    finally show ?thesis using x by simp
  qed
  have "ilog2 x = (if 2 powi e \<le> x then e else e - 1)"
    by (simp add: ilog2_def pq e_def)
  with lo hi show "2 powi ilog2 x \<le> x" "x < 2 powi (ilog2 x + 1)"
    by (auto split: if_splits)
qed

lemma ilog2_unique:
  assumes "2 powi k \<le> x" "x < 2 powi (k + 1)"
  shows "ilog2 x = k"
proof -
  have "0 < x" using assms(1) powi_2_pos less_le_trans by blast
  from ilog2_spec [OF this] assms have "2 powi ilog2 x < (2::rat) powi (k + 1)"
    "2 powi k < (2::rat) powi (ilog2 x + 1)" by (auto intro: le_less_trans)
  then show ?thesis by (simp only: powi_2_less_iff)
qed

lemma ilog2_mono:
  assumes "0 < x" "x \<le> y" shows "ilog2 x \<le> ilog2 y"
proof -
  have "2 powi ilog2 x < (2::rat) powi (ilog2 y + 1)"
    using ilog2_spec(1) [OF assms(1)] ilog2_spec(2) [of y] assms by (meson le_less_trans less_le_trans)
  then show ?thesis by (simp only: powi_2_less_iff)
qed

subsection \<open>Rounding to 53 significant bits\<close>

definition fl :: "rat \<Rightarrow> rat" where
  "fl x = (if x = 0 then 0
           else let e = ilog2 \<bar>x\<bar> - 52 in of_int (rne (x / 2 powi e)) * 2 powi e)"

lemma fl_0 [simp]: "fl 0 = 0"
  by (simp add: fl_def)

lemma fl_minus [simp]: "fl (- x) = - fl x"
  by (simp add: fl_def Let_def rne_minus)

lemma scaled_bounds:
  assumes "0 < x"
  shows "2 ^ 52 \<le> x / 2 powi (ilog2 x - 52)" "x / 2 powi (ilog2 x - 52) < 2 ^ 53"
proof -
  have "2 powi (ilog2 x - 52) * 2 ^ 52 = (2::rat) powi ilog2 x"
    "2 powi (ilog2 x - 52) * 2 ^ 53 = (2::rat) powi (ilog2 x + 1)"
    by (simp_all add: power_int_diff power_int_add)
  with ilog2_spec [OF assms]
  show "2 ^ 52 \<le> x / 2 powi (ilog2 x - 52)" "x / 2 powi (ilog2 x - 52) < 2 ^ 53"
    by (simp_all add: pos_le_divide_eq pos_divide_less_eq mult.commute)
qed

lemma fl_bounds:
  assumes "0 < x"
  shows "2 powi ilog2 x \<le> fl x" "fl x \<le> 2 powi (ilog2 x + 1)"
proof -
  let ?s = "x / 2 powi (ilog2 x - 52)"
  have "rne (of_int (2 ^ 52)) \<le> rne ?s" "rne ?s \<le> rne (of_int (2 ^ 53))"
    using scaled_bounds [OF assms] by (intro rne_mono; simp)+
  then have "2 ^ 52 \<le> rne ?s" "rne ?s \<le> 2 ^ 53" by (simp_all only: rne_of_int)
  then have "(of_int (2 ^ 52) :: rat) \<le> of_int (rne ?s)" "(of_int (rne ?s) :: rat) \<le> of_int (2 ^ 53)"
    by (simp_all only: of_int_le_iff)
  then have s: "(2::rat) ^ 52 \<le> of_int (rne ?s)" "of_int (rne ?s) \<le> (2::rat) ^ 53"
    by simp_all
  have f: "fl x = of_int (rne ?s) * 2 powi (ilog2 x - 52)"
    using assms by (simp add: fl_def Let_def)
  have "2 ^ 52 * 2 powi (ilog2 x - 52) = (2::rat) powi ilog2 x"
    "2 ^ 53 * 2 powi (ilog2 x - 52) = (2::rat) powi (ilog2 x + 1)"
    by (simp_all add: power_int_diff power_int_add)
  with s show "2 powi ilog2 x \<le> fl x" "fl x \<le> 2 powi (ilog2 x + 1)"
    unfolding f by (metis mult_right_mono powi_2_pos less_imp_le)+
qed

lemma fl_pos: "0 < x \<Longrightarrow> 0 < fl x"
  using fl_bounds(1) [of x] powi_2_pos less_le_trans by blast

lemma fl_mono_pos:
  assumes "0 < x" "x \<le> y" shows "fl x \<le> fl y"
proof (cases "ilog2 x = ilog2 y")
  case True
  let ?e = "ilog2 x - 52"
  have "x / 2 powi ?e \<le> y / 2 powi ?e" using assms by (simp add: divide_right_mono)
  then have "rne (x / 2 powi ?e) \<le> rne (y / 2 powi ?e)" by (rule rne_mono)
  with True assms show ?thesis by (simp add: fl_def Let_def)
next
  case False
  with ilog2_mono [OF assms] have "ilog2 x + 1 \<le> ilog2 y" by simp
  then have "(2::rat) powi (ilog2 x + 1) \<le> 2 powi ilog2 y" by (rule powi_2_mono)
  with fl_bounds(2) [OF assms(1)] fl_bounds(1) [of y] assms show ?thesis by simp
qed

lemma fl_nonneg [simp]: "0 \<le> x \<Longrightarrow> 0 \<le> fl x"
  using fl_pos [of x] by (cases "x = 0") auto

theorem fl_mono: "x \<le> y \<Longrightarrow> fl x \<le> fl y"
proof -
  assume le: "x \<le> y"
  consider "0 < x" | "x \<le> 0" "0 \<le> y" | "y < 0" using le by linarith
  then show ?thesis
  proof cases
    case 1 with le show ?thesis by (rule fl_mono_pos [rotated])
  next
    case 2
    from 2(1) have "0 \<le> fl (- x)" by (intro fl_nonneg) simp
    moreover from 2(2) have "0 \<le> fl y" by (rule fl_nonneg)
    ultimately show ?thesis by simp
  next
    case 3
    with le have "fl (- y) \<le> fl (- x)" by (intro fl_mono_pos) auto
    then show ?thesis by simp
  qed
qed

lemma fl_neg: "x < 0 \<Longrightarrow> fl x < 0"
  using fl_pos [of "- x"] by simp

lemma fl_sign_simps [simp]:
  "(0 < fl x) = (0 < x)" "(fl x < 0) = (x < 0)" "(0 \<le> fl x) = (0 \<le> x)"
  "(fl x \<le> 0) = (x \<le> 0)" "(fl x = 0) = (x = 0)"
  using fl_pos [of x] fl_neg [of x] fl_0 by (metis linorder_neqE less_asym less_irrefl not_le order.order_iff_strict)+

subsection \<open>Representable numbers\<close>

definition representable :: "rat \<Rightarrow> bool" where
  "representable x \<longleftrightarrow> fl x = x"

lemma int_powi_rep:
  assumes "k \<le> j" shows "\<exists>n. (of_int m * 2 powi j :: rat) / 2 powi k = of_int n"
proof -
  have "(2::rat) powi j / 2 powi k = 2 powi (j - k)" by (simp add: power_int_diff)
  also have "\<dots> = of_int (2 ^ nat (j - k))" using assms by (simp add: power_int_def)
  finally show ?thesis by (metis of_int_mult times_divide_eq_right)
qed

lemma fl_dyadic_pos:
  assumes m: "0 < m" "m \<le> 2 ^ 53"
  shows "fl (of_int m * 2 powi k) = of_int m * 2 powi k"
proof -
  let ?x = "of_int m * 2 powi k :: rat"
  have x: "0 < ?x" using m by simp
  have "\<exists>n. ?x / 2 powi (ilog2 ?x - 52) = of_int n"
  proof (cases "m = 2 ^ 53")
    case True
    then have "?x = 2 powi (k + 53)" by (simp add: power_int_add)
    then have l: "ilog2 ?x = k + 53"
      by (metis ilog2_unique order_refl powi_2_less_iff less_add_one)
    have "?x / 2 powi (k + 1) = of_int (2 ^ 52)"
      using True by (simp add: power_int_add field_simps)
    moreover have "ilog2 ?x - 52 = k + 1" using l by simp
    ultimately show ?thesis by metis
  next
    case False
    with m have "m < 2 ^ 53" by simp
    then have "(of_int m :: rat) < of_int (2 ^ 53)" by (simp only: of_int_less_iff)
    then have "?x < 2 powi (k + 53)" by (simp add: power_int_add)
    with ilog2_spec(1) [OF x] have "2 powi ilog2 ?x < (2::rat) powi (k + 53)"
      by (rule le_less_trans)
    then have "ilog2 ?x - 52 \<le> k" by (simp only: powi_2_less_iff)
    then show ?thesis by (rule int_powi_rep)
  qed
  then obtain n where n: "?x / 2 powi (ilog2 ?x - 52) = of_int n" ..
  have "fl ?x = of_int (rne (?x / 2 powi (ilog2 ?x - 52))) * 2 powi (ilog2 ?x - 52)"
    using x by (simp only: fl_def Let_def abs_of_pos if_False less_irrefl order_less_imp_not_eq2)
  also have "\<dots> = of_int n * 2 powi (ilog2 ?x - 52)"
    unfolding n by simp
  also have "\<dots> = ?x" unfolding n [symmetric] by simp
  finally show ?thesis .
qed

lemma fl_dyadic:
  assumes "\<bar>m\<bar> \<le> 2 ^ 53"
  shows "fl (of_int m * 2 powi k) = of_int m * 2 powi k"
proof -
  consider "m = 0" | "0 < m" | "m < 0" by linarith
  then show ?thesis
  proof cases
    case 1 then show ?thesis by simp
  next
    case 2 with assms show ?thesis by (intro fl_dyadic_pos) auto
  next
    case 3
    with assms have "fl (of_int (- m) * 2 powi k) = of_int (- m) * 2 powi k"
      by (intro fl_dyadic_pos) auto
    then show ?thesis by simp
  qed
qed

lemma fl_of_int: "\<bar>m\<bar> \<le> 2 ^ 53 \<Longrightarrow> fl (of_int m) = of_int m"
  using fl_dyadic [of m 0] by simp

lemma fl_numeral [simp]: "(numeral w :: int) \<le> 2 ^ 53 \<Longrightarrow> fl (numeral w) = numeral w"
  using fl_of_int [of "numeral w"] by simp

lemma fl_1 [simp]: "fl 1 = 1"
  using fl_of_int [of 1] by simp

lemma fl_fl [simp]: "fl (fl x) = fl x"
proof -
  have pos: "fl (fl x) = fl x" if "0 < x" for x
  proof -
    let ?s = "x / 2 powi (ilog2 x - 52)"
    have "rne (of_int 0) \<le> rne ?s" "rne ?s \<le> rne (of_int (2 ^ 53))"
      using scaled_bounds [OF that] that by (intro rne_mono; simp)+
    then have "\<bar>rne ?s\<bar> \<le> 2 ^ 53" by (simp only: rne_of_int)
    moreover have "fl x = of_int (rne ?s) * 2 powi (ilog2 x - 52)"
      using that by (simp add: fl_def Let_def)
    ultimately show ?thesis by (metis fl_dyadic)
  qed
  consider "x = 0" | "0 < x" | "x < 0" by linarith
  then show ?thesis
  proof cases
    case 3
    then show ?thesis using pos [of "- x"] by simp
  qed (use pos in auto)
qed

lemma representable_fl [simp]: "representable (fl x)"
  by (simp add: representable_def)

lemma representable_0 [simp]: "representable 0"
  by (simp add: representable_def)

lemma representable_1 [simp]: "representable 1"
  by (simp add: representable_def)

lemma representable_numeral [simp]:
  "(numeral w :: int) \<le> 2 ^ 53 \<Longrightarrow> representable (numeral w)"
  by (simp add: representable_def)

lemma fl_add_nonneg_ge: "representable x \<Longrightarrow> 0 \<le> d \<Longrightarrow> x \<le> fl (x + d)"
  using fl_mono [of x "x + d"] by (simp add: representable_def)

lemma fl_le_rep: "representable y \<Longrightarrow> x \<le> y \<Longrightarrow> fl x \<le> y"
  using fl_mono [of x y] by (simp add: representable_def)

lemma fl_ge_rep: "representable y \<Longrightarrow> y \<le> x \<Longrightarrow> y \<le> fl x"
  using fl_mono [of y x] by (simp add: representable_def)

subsection \<open>The rounding error\<close>

lemma rne_error: "\<bar>of_int (rne x) - x\<bar> \<le> 1 / 2"
proof -
  have "of_int \<lfloor>x\<rfloor> \<le> x" "x < of_int \<lfloor>x\<rfloor> + 1" by linarith+
  then show ?thesis by (auto simp: rne_def Let_def)
qed

lemma fl_error_pos:
  assumes "0 < x" shows "\<bar>fl x - x\<bar> \<le> x / 2 ^ 53"
proof -
  let ?p = "(2::rat) powi (ilog2 x - 52)" and ?s = "x / 2 powi (ilog2 x - 52)"
  have f: "fl x = of_int (rne ?s) * ?p" using assms by (simp add: fl_def Let_def)
  have x: "x = ?s * ?p" by simp
  have "fl x - x = (of_int (rne ?s) - ?s) * ?p" unfolding f left_diff_distrib using x by simp
  then have "\<bar>fl x - x\<bar> = \<bar>of_int (rne ?s) - ?s\<bar> * ?p" by (simp add: abs_mult)
  also have "\<dots> \<le> 1 / 2 * ?p" using rne_error [of ?s] by (rule mult_right_mono) simp
  also have "1 / 2 * ?p = 2 ^ 52 * ?p / 2 ^ 53" by simp
  also have "2 ^ 52 * ?p \<le> ?s * ?p" using scaled_bounds(1) [OF assms] by (rule mult_right_mono) simp
  finally show ?thesis using x by (simp add: divide_right_mono)
qed

lemma fl_relative:
  assumes "0 \<le> x"
  shows "fl x \<le> x * (1 + 1 / 2 ^ 53)" "x * (1 - 1 / 2 ^ 53) \<le> fl x"
proof -
  have "\<bar>fl x - x\<bar> \<le> x / 2 ^ 53"
    using assms fl_error_pos [of x] by (cases "x = 0") auto
  then have "fl x \<le> x + x / 2 ^ 53" "x - x / 2 ^ 53 \<le> fl x" by linarith+
  then show "fl x \<le> x * (1 + 1 / 2 ^ 53)" "x * (1 - 1 / 2 ^ 53) \<le> fl x"
    by (simp_all only: distrib_left right_diff_distrib mult_1_right times_divide_eq_right)
qed

subsection \<open>Unchecked floats\<close>

datatype pyfloat = Fin rat | PInf | NInf | NaN

fun isfinite :: "pyfloat \<Rightarrow> bool" where
  "isfinite (Fin _) = True"
| "isfinite _ = False"

fun finval :: "pyfloat \<Rightarrow> rat" where
  "finval (Fin x) = x"
| "finval _ = 0"

fun flt :: "pyfloat \<Rightarrow> pyfloat \<Rightarrow> bool" where
  "flt NaN _ = False"
| "flt _ NaN = False"
| "flt (Fin x) (Fin y) = (x < y)"
| "flt (Fin _) PInf = True"
| "flt NInf (Fin _) = True"
| "flt NInf PInf = True"
| "flt _ _ = False"

fun fle :: "pyfloat \<Rightarrow> pyfloat \<Rightarrow> bool" where
  "fle NaN _ = False"
| "fle _ NaN = False"
| "fle (Fin x) (Fin y) = (x \<le> y)"
| "fle (Fin _) PInf = True"
| "fle NInf _ = True"
| "fle PInf PInf = True"
| "fle _ _ = False"

text \<open>\<open>x + y\<close>, and \<open>x / c\<close> for a positive constant \<open>c\<close>.\<close>

fun fadd :: "pyfloat \<Rightarrow> pyfloat \<Rightarrow> pyfloat" where
  "fadd (Fin x) (Fin y) = Fin (fl (x + y))"
| "fadd NaN _ = NaN"
| "fadd _ NaN = NaN"
| "fadd PInf NInf = NaN"
| "fadd NInf PInf = NaN"
| "fadd PInf _ = PInf"
| "fadd _ PInf = PInf"
| "fadd NInf _ = NInf"
| "fadd _ NInf = NInf"

fun fdivc :: "pyfloat \<Rightarrow> rat \<Rightarrow> pyfloat" where
  "fdivc (Fin x) c = Fin (fl (x / c))"
| "fdivc x c = x"

lemma isfinite_conv: "isfinite x = (\<exists>v. x = Fin v)"
  by (cases x) auto

end
