(* ===== verification/Chronos_Prelude.thy ===== *)
theory Chronos_Prelude
  imports Py_Float "HOL-Library.AList"
begin

text \<open>
  What every component shares: Python exceptions as values of a sum type, insertion-ordered
  dictionaries as association lists, the string methods the code uses, and decoded JSON values
  with the conversions \<open>float(..)\<close>, \<open>int(..)\<close>, \<open>bool(..)\<close> and \<open>str.upper\<close> the code
  applies to them. Strings are ASCII.

  Collections: \<open>res_simps\<close> (the result type), \<open>dict_simps\<close> (dictionaries) and \<open>str_simps\<close>
  (string methods).
\<close>

named_theorems res_simps
named_theorems dict_simps
named_theorems str_simps

subsection \<open>Exceptions as values\<close>

datatype py_exc =
    TypeError
  | KeyError
  | ZeroDivisionError
  | AttributeError
  | OverflowError
  | ValueError string   \<comment> \<open>the string names the check that failed\<close>
  | OrderBookGapError string
  | JournalError
  | DatabaseError string   \<comment> \<open>an SQLite error, by the name of its class\<close>

type_synonym 'a res = "py_exc + 'a"

definition bindE :: "'e + 'a \<Rightarrow> ('a \<Rightarrow> 'e + 'b) \<Rightarrow> 'e + 'b" where
  "bindE m f = (case m of Inl e \<Rightarrow> Inl e | Inr x \<Rightarrow> f x)"

definition checkE :: "bool \<Rightarrow> 'e \<Rightarrow> 'e + unit" where
  "checkE b e = (if b then Inr () else Inl e)"

lemma bindE_simps [simp, res_simps]:
  "bindE (Inl e) f = Inl e" "bindE (Inr x) f = f x"
  by (simp_all add: bindE_def)

lemma bindE_Inr_iff [res_simps]: "(bindE m f = Inr y) = (\<exists>x. m = Inr x \<and> f x = Inr y)"
  by (cases m) auto

lemma bindE_Inl_iff [res_simps]:
  "(bindE m f = Inl e) = (m = Inl e \<or> (\<exists>x. m = Inr x \<and> f x = Inl e))"
  by (cases m) auto

lemma checkE_iff [simp, res_simps]:
  "(checkE b e = Inr u) = b" "(checkE b e = Inl e') = (\<not> b \<and> e' = e)"
  by (auto simp: checkE_def)

text \<open>\<open>[f(x) for x in xs]\<close>, where \<open>f\<close> may raise.\<close>

fun mapE :: "('a \<Rightarrow> 'e + 'b) \<Rightarrow> 'a list \<Rightarrow> 'e + 'b list" where
  "mapE f [] = Inr []"
| "mapE f (x # xs) = bindE (f x) (\<lambda>y. bindE (mapE f xs) (\<lambda>ys. Inr (y # ys)))"

lemma mapE_length: "mapE f xs = Inr ys \<Longrightarrow> length ys = length xs"
  by (induction xs arbitrary: ys) (auto simp: res_simps)

lemma mapE_Inr_nth:
  "mapE f xs = Inr ys \<Longrightarrow> i < length xs \<Longrightarrow> f (xs ! i) = Inr (ys ! i)"
  by (induction xs arbitrary: ys i) (auto simp: res_simps nth_Cons split: nat.splits)

lemma mapE_total: "(\<And>x. x \<in> set xs \<Longrightarrow> f x = Inr (g x)) \<Longrightarrow> mapE f xs = Inr (map g xs)"
  by (induction xs) auto

subsection \<open>Dictionaries\<close>

text \<open>
  A Python \<open>dict\<close> keeps insertion order: storing at a present key keeps its place, a new key goes
  to the end, a deleted key leaves the order of the others. \<open>AList.update\<close> and \<open>AList.delete\<close>
  behave so.
\<close>

type_synonym ('k, 'v) dict = "('k \<times> 'v) list"

abbreviation dget :: "('k, 'v) dict \<Rightarrow> 'k \<Rightarrow> 'v option" where
  "dget d k \<equiv> map_of d k"

definition dgetd :: "('k, 'v) dict \<Rightarrow> 'k \<Rightarrow> 'v \<Rightarrow> 'v" where
  "dgetd d k v = (case map_of d k of None \<Rightarrow> v | Some x \<Rightarrow> x)"

abbreviation dset :: "'k \<Rightarrow> 'v \<Rightarrow> ('k, 'v) dict \<Rightarrow> ('k, 'v) dict" where
  "dset \<equiv> AList.update"

abbreviation ddel :: "'k \<Rightarrow> ('k, 'v) dict \<Rightarrow> ('k, 'v) dict" where
  "ddel \<equiv> AList.delete"

abbreviation dkeys :: "('k, 'v) dict \<Rightarrow> 'k list" where
  "dkeys d \<equiv> map fst d"

abbreviation wf_dict :: "('k, 'v) dict \<Rightarrow> bool" where
  "wf_dict d \<equiv> distinct (map fst d)"

lemma dget_dset [simp, dict_simps]: "dget (dset k v d) j = (if j = k then Some v else dget d j)"
  by (simp add: update_conv')

lemma dget_ddel [simp, dict_simps]: "dget (ddel k d) j = (if j = k then None else dget d j)"
  by (simp add: delete_conv')

lemma dgetd_dset [simp, dict_simps]: "dgetd (dset k v d) j w = (if j = k then v else dgetd d j w)"
  by (simp add: dgetd_def)

lemma dgetd_ddel [simp, dict_simps]: "dgetd (ddel k d) j w = (if j = k then w else dgetd d j w)"
  by (simp add: dgetd_def)

lemma dgetd_Nil [simp, dict_simps]: "dgetd [] k v = v"
  by (simp add: dgetd_def)

lemma wf_dict_dset [simp, dict_simps]: "wf_dict d \<Longrightarrow> wf_dict (dset k v d)"
  by (rule distinct_update)

lemma wf_dict_ddel [simp, dict_simps]: "wf_dict d \<Longrightarrow> wf_dict (ddel k d)"
  by (induction d) (auto simp: AList.delete_eq)

lemma set_dset_keys [simp, dict_simps]: "fst ` set (dset k v d) = insert k (fst ` set d)"
  by (induction d) auto

lemma set_ddel_keys [simp, dict_simps]: "fst ` set (ddel k d) = fst ` set d - {k}"
  by (auto simp: AList.delete_eq)

lemma mem_ddel [simp, dict_simps]: "(p \<in> set (ddel k d)) = (p \<in> set d \<and> fst p \<noteq> k)"
  by (auto simp: AList.delete_eq)

lemma mem_dset: "p \<in> set (dset k v d) \<Longrightarrow> p = (k, v) \<or> p \<in> set d"
  by (induction d) (auto split: if_splits)

lemma fold_max_ge: "(c::int) \<le> fold max xs c" "x \<in> set xs \<Longrightarrow> x \<le> fold max xs c"
proof -
  show ge: "(c::int) \<le> fold max xs c" for c xs
  proof (induction xs arbitrary: c)
    case (Cons a xs)
    from Cons [of "max a c"] show ?case by simp
  qed simp
  show "x \<in> set xs \<Longrightarrow> x \<le> fold max xs c"
  proof (induction xs arbitrary: c)
    case (Cons a xs)
    then show ?case using ge [of "max a c" xs] by auto
  qed simp
qed

lemma dset_not_Nil [simp, dict_simps]: "dset k v d \<noteq> []"
  by (cases d) auto

lemma wf_dict_mem: "wf_dict d \<Longrightarrow> ((k, v) \<in> set d) = (dget d k = Some v)"
  by (simp add: map_of_eq_Some_iff)

lemma length_ddel_le: "length (ddel k d) \<le> length d"
  by (simp add: AList.delete_eq)

lemma length_dset_le: "length (dset k v d) \<le> Suc (length d)"
  by (induction d) auto

subsection \<open>Strings\<close>

definition upper_char :: "char \<Rightarrow> char" where
  "upper_char c = (let n = (of_char c :: nat) in if 97 \<le> n \<and> n \<le> 122 then char_of (n - 32) else c)"

definition lower_char :: "char \<Rightarrow> char" where
  "lower_char c = (let n = (of_char c :: nat) in if 65 \<le> n \<and> n \<le> 90 then char_of (n + 32) else c)"

definition upper :: "string \<Rightarrow> string" where "upper s = map upper_char s"

definition lower :: "string \<Rightarrow> string" where "lower s = map lower_char s"

definition is_space :: "char \<Rightarrow> bool" where
  "is_space c = (let n = (of_char c :: nat) in n = 32 \<or> (9 \<le> n \<and> n \<le> 13) \<or> (28 \<le> n \<and> n \<le> 31))"

definition strip :: "string \<Rightarrow> string" where
  "strip s = rev (dropWhile is_space (rev (dropWhile is_space s)))"

definition endswith :: "string \<Rightarrow> string \<Rightarrow> bool" where
  "endswith s suf = (length suf \<le> length s \<and> drop (length s - length suf) s = suf)"

text \<open>\<open>x or default\<close> on strings: the empty string is false.\<close>

definition str_or :: "string \<Rightarrow> string \<Rightarrow> string" where
  "str_or s d = (if s = [] then d else s)"

lemma upper_char_idem [simp]: "upper_char (upper_char c) = upper_char c"
proof -
  let ?n = "of_char c :: nat"
  have "(of_char (char_of (?n - 32) :: char) :: nat) = ?n - 32" if "97 \<le> ?n" "?n \<le> 122"
    using that by (simp add: of_char_of)
  then show ?thesis by (auto simp: upper_char_def Let_def)
qed

lemma upper_idem [simp, str_simps]: "upper (upper s) = upper s"
  by (simp add: upper_def)

lemma upper_Nil [simp, str_simps]: "(upper s = []) = (s = [])" "upper [] = []"
  by (simp_all add: upper_def)

lemma str_or_simps [simp, str_simps]:
  "str_or [] d = d" "s \<noteq> [] \<Longrightarrow> str_or s d = s" "(str_or s d = []) = (s = [] \<and> d = [])"
  by (auto simp: str_or_def)

text \<open>\<open>str.split(sep)\<close> for a one-character separator.\<close>

fun split_on :: "char \<Rightarrow> string \<Rightarrow> string list" where
  "split_on c [] = [[]]"
| "split_on c (x # xs) =
     (if x = c then [] # split_on c xs
      else case split_on c xs of [] \<Rightarrow> [[x]] | w # ws \<Rightarrow> (x # w) # ws)"

subsection \<open>Numbers in text\<close>

definition is_digit :: "char \<Rightarrow> bool" where
  "is_digit c = (let n = (of_char c :: nat) in 48 \<le> n \<and> n \<le> 57)"

definition digit_val :: "char \<Rightarrow> nat" where
  "digit_val c = of_char c - 48"

text \<open>
  The longest run of digits at the front, with single underscores allowed between two digits:
  its value, its number of digits and the rest.
\<close>

fun take_digits :: "bool \<Rightarrow> nat \<Rightarrow> nat \<Rightarrow> string \<Rightarrow> nat \<times> nat \<times> string" where
  "take_digits prev acc n [] = (acc, n, [])"
| "take_digits prev acc n (c # cs) =
     (if is_digit c then take_digits True (acc * 10 + digit_val c) (Suc n) cs
      else if c = CHR ''_'' \<and> prev \<and> cs \<noteq> [] \<and> is_digit (hd cs) then take_digits False acc n cs
      else (acc, n, c # cs))"

definition take_sign :: "string \<Rightarrow> bool \<times> string" where
  "take_sign s = (case s of
      c # cs \<Rightarrow> (if c = CHR ''-'' then (True, cs) else if c = CHR ''+'' then (False, cs) else (False, s))
    | [] \<Rightarrow> (False, []))"

text \<open>\<open>str(n)\<close>.\<close>

fun str_of_nat :: "nat \<Rightarrow> string" where
  "str_of_nat n = (if n < 10 then [char_of (48 + n)]
                   else str_of_nat (n div 10) @ [char_of (48 + n mod 10)])"

declare str_of_nat.simps [simp del]

definition str_of_int :: "int \<Rightarrow> string" where
  "str_of_int n = (if n < 0 then CHR ''-'' # str_of_nat (nat (- n)) else str_of_nat (nat n))"

text \<open>\<open>int(s)\<close> for a string in base ten.\<close>

definition int_of_string :: "string \<Rightarrow> int res" where
  "int_of_string s0 =
     (let (neg, s) = take_sign (strip s0); (v, n, rest) = take_digits False 0 0 s in
      if n = 0 \<or> rest \<noteq> [] then Inl (ValueError ''int'')
      else Inr (if neg then - int v else int v))"

definition pow10 :: "int \<Rightarrow> rat" where
  "pow10 e = (if 0 \<le> e then 10 ^ nat e else 1 / 10 ^ nat (- e))"

definition take_exponent :: "string \<Rightarrow> (int \<times> string) option" where
  "take_exponent s = (case s of
      c # cs \<Rightarrow>
        (if lower_char c = CHR ''e'' then
           let (neg, t) = take_sign cs; (v, n, rest) = take_digits False 0 0 t in
           if n = 0 then None else Some (if neg then - int v else int v, rest)
         else Some (0, s))
    | [] \<Rightarrow> Some (0, []))"

text \<open>\<open>float(s)\<close> for a string: decimal literals, \<open>inf\<close>, \<open>infinity\<close> and \<open>nan\<close>.\<close>

definition float_of_string :: "string \<Rightarrow> pyfloat res" where
  "float_of_string s0 =
     (let (neg, s) = take_sign (strip s0) in
      if lower s = ''inf'' \<or> lower s = ''infinity'' then Inr (if neg then NInf else PInf)
      else if lower s = ''nan'' then Inr NaN
      else
        let (ip, n1, r1) = take_digits False 0 0 s;
            (fp, n2, r2) = (case r1 of
                c # cs \<Rightarrow> (if c = CHR ''.'' then take_digits False 0 0 cs else (0, 0, r1))
              | [] \<Rightarrow> (0, 0, [])) in
        if n1 + n2 = 0 then Inl (ValueError ''float'')
        else case take_exponent r2 of
            None \<Rightarrow> Inl (ValueError ''float'')
          | Some (ex, rest) \<Rightarrow>
              if rest \<noteq> [] then Inl (ValueError ''float'')
              else let v = fl (of_nat (ip * 10 ^ n2 + fp) * pow10 (ex - int n2))
                   in Inr (Fin (if neg then - v else v)))"

subsection \<open>Decoded JSON values\<close>

datatype pyval =
    PNone
  | PBool bool
  | PInt int
  | PFloat pyfloat
  | PStr string
  | PList "pyval list"
  | PDict "(string \<times> pyval) list"

text \<open>Truth of a value, \<open>bool(v)\<close>.\<close>

fun truthy :: "pyval \<Rightarrow> bool" where
  "truthy PNone = False"
| "truthy (PBool b) = b"
| "truthy (PInt n) = (n \<noteq> 0)"
| "truthy (PFloat x) = (x \<noteq> Fin 0)"
| "truthy (PStr s) = (s \<noteq> [])"
| "truthy (PList xs) = (xs \<noteq> [])"
| "truthy (PDict d) = (d \<noteq> [])"

fun float_of :: "pyval \<Rightarrow> pyfloat res" where
  "float_of (PBool b) = Inr (Fin (if b then 1 else 0))"
| "float_of (PInt n) = Inr (Fin (fl (of_int n)))"
| "float_of (PFloat x) = Inr x"
| "float_of (PStr s) = float_of_string s"
| "float_of _ = Inl TypeError"

fun trunc_float :: "pyfloat \<Rightarrow> int res" where
  "trunc_float (Fin x) = Inr (if 0 \<le> x then \<lfloor>x\<rfloor> else \<lceil>x\<rceil>)"
| "trunc_float NaN = Inl (ValueError ''int'')"
| "trunc_float _ = Inl OverflowError"

fun int_of :: "pyval \<Rightarrow> int res" where
  "int_of (PBool b) = Inr (if b then 1 else 0)"
| "int_of (PInt n) = Inr n"
| "int_of (PFloat x) = trunc_float x"
| "int_of (PStr s) = int_of_string s"
| "int_of _ = Inl TypeError"

definition vget :: "(string \<times> pyval) list \<Rightarrow> string \<Rightarrow> pyval \<Rightarrow> pyval" where
  "vget d k v = dgetd d k v"

definition vitem :: "(string \<times> pyval) list \<Rightarrow> string \<Rightarrow> pyval res" where
  "vitem d k = (case dget d k of None \<Rightarrow> Inl KeyError | Some v \<Rightarrow> Inr v)"

end
