(* ===== verification/Event_Types.thy ===== *)
theory Event_Types
  imports Chronos_Prelude
begin

text \<open>
  The enumerations and order messages of \<open>event/type.py\<close>: one datatype per enum with its wire
  value, and the two order dataclasses with the normalisation their \<open>__post_init__\<close> performs.
  The lemmas show that the normalisation is idempotent and that a normalised order never rests
  as a plain GTC limit order while being marked post-only.
\<close>

subsection \<open>Enumerations\<close>

datatype side = BUY | SELL

datatype order_status =
    CREATED | REJECTED_LOCALLY | SUBMITTING | SUBMIT_UNKNOWN | PENDING_ACK | NEW
  | PARTIALLY_FILLED | FILLED | CANCELLING | CANCEL_UNKNOWN | CANCELLED | REJECTED | EXPIRED

datatype lifecycle_state = LS_BOOTSTRAP | LS_LIVE | LS_FROZEN | LS_RECONCILING | LS_HALTED

datatype oms_capability_mode =
    CM_LIVE | CM_DEGRADED | CM_PASSIVE_ONLY | CM_REDUCE_ONLY | CM_CANCEL_ONLY | CM_READ_ONLY
  | CM_LOCKDOWN

datatype execution_policy = AGGRESSIVE | PASSIVE

text \<open>The \<open>.value\<close> of a member, and the lookup by value \<open>Enum(v)\<close>, which raises on any other value.\<close>

fun side_value :: "side \<Rightarrow> string" where
  "side_value BUY = ''BUY''"
| "side_value SELL = ''SELL''"

fun order_status_value :: "order_status \<Rightarrow> string" where
  "order_status_value CREATED = ''CREATED''"
| "order_status_value REJECTED_LOCALLY = ''REJECTED_LOCALLY''"
| "order_status_value SUBMITTING = ''SUBMITTING''"
| "order_status_value SUBMIT_UNKNOWN = ''SUBMIT_UNKNOWN''"
| "order_status_value PENDING_ACK = ''PENDING_ACK''"
| "order_status_value NEW = ''NEW''"
| "order_status_value PARTIALLY_FILLED = ''PARTIALLY_FILLED''"
| "order_status_value FILLED = ''FILLED''"
| "order_status_value CANCELLING = ''CANCELLING''"
| "order_status_value CANCEL_UNKNOWN = ''CANCEL_UNKNOWN''"
| "order_status_value CANCELLED = ''CANCELLED''"
| "order_status_value REJECTED = ''REJECTED''"
| "order_status_value EXPIRED = ''EXPIRED''"

fun policy_value :: "execution_policy \<Rightarrow> string" where
  "policy_value AGGRESSIVE = ''AGGRESSIVE''"
| "policy_value PASSIVE = ''PASSIVE''"

fun lifecycle_value :: "lifecycle_state \<Rightarrow> string" where
  "lifecycle_value LS_BOOTSTRAP = ''BOOTSTRAP''"
| "lifecycle_value LS_LIVE = ''LIVE''"
| "lifecycle_value LS_FROZEN = ''FROZEN''"
| "lifecycle_value LS_RECONCILING = ''RECONCILING''"
| "lifecycle_value LS_HALTED = ''HALTED''"

fun capability_value :: "oms_capability_mode \<Rightarrow> string" where
  "capability_value CM_LIVE = ''LIVE''"
| "capability_value CM_DEGRADED = ''DEGRADED''"
| "capability_value CM_PASSIVE_ONLY = ''PASSIVE_ONLY''"
| "capability_value CM_REDUCE_ONLY = ''REDUCE_ONLY''"
| "capability_value CM_CANCEL_ONLY = ''CANCEL_ONLY''"
| "capability_value CM_READ_ONLY = ''READ_ONLY''"
| "capability_value CM_LOCKDOWN = ''LOCKDOWN''"

definition all_order_status :: "order_status list" where
  "all_order_status = [CREATED, REJECTED_LOCALLY, SUBMITTING, SUBMIT_UNKNOWN, PENDING_ACK, NEW,
     PARTIALLY_FILLED, FILLED, CANCELLING, CANCEL_UNKNOWN, CANCELLED, REJECTED, EXPIRED]"

definition enum_lookup :: "('a \<Rightarrow> string) \<Rightarrow> 'a list \<Rightarrow> pyval \<Rightarrow> 'a res" where
  "enum_lookup val members v = (case v of
      PStr s \<Rightarrow> (case List.find (\<lambda>m. val m = s) members of
                  Some m \<Rightarrow> Inr m | None \<Rightarrow> Inl (ValueError ''enum''))
    | _ \<Rightarrow> Inl (ValueError ''enum''))"

definition side_of :: "pyval \<Rightarrow> side res" where
  "side_of = enum_lookup side_value [BUY, SELL]"

definition order_status_of :: "pyval \<Rightarrow> order_status res" where
  "order_status_of = enum_lookup order_status_value all_order_status"

definition policy_of :: "pyval \<Rightarrow> execution_policy res" where
  "policy_of = enum_lookup policy_value [AGGRESSIVE, PASSIVE]"

lemma side_roundtrip [simp]: "side_of (PStr (side_value s)) = Inr s"
  by (cases s) (simp_all add: side_of_def enum_lookup_def)

lemma policy_roundtrip [simp]: "policy_of (PStr (policy_value p)) = Inr p"
  by (cases p) (simp_all add: policy_of_def enum_lookup_def)

lemma order_status_roundtrip [simp]: "order_status_of (PStr (order_status_value s)) = Inr s"
  by (cases s) (simp_all add: order_status_of_def enum_lookup_def all_order_status_def)

subsection \<open>Order intents\<close>

definition POST_ONLY_TIME_IN_FORCE :: "string list" where
  "POST_ONLY_TIME_IN_FORCE = [''GTX'', ''RPI'']"

record order_intent =
  oi_strategy_id :: string
  oi_symbol :: string
  oi_side :: side
  oi_price :: rat
  oi_volume :: rat
  oi_order_type :: string
  oi_time_in_force :: string
  oi_is_post_only :: bool
  oi_reduce_only :: bool
  oi_policy :: execution_policy
  oi_tag :: string
  oi_calibration_permit_id :: string
  oi_calibration_depth_bps :: "rat option"
  oi_calibration_reference_mid :: "rat option"

definition intent_post_init :: "order_intent \<Rightarrow> order_intent" where
  "intent_post_init i0 =
     (let i = i0\<lparr>oi_order_type := upper (str_or (oi_order_type i0) ''LIMIT''),
                oi_time_in_force := upper (str_or (oi_time_in_force i0) ''GTC'')\<rparr> in
      if oi_time_in_force i \<in> set POST_ONLY_TIME_IN_FORCE then i\<lparr>oi_is_post_only := True\<rparr>
      else if oi_is_post_only i \<and> oi_order_type i = ''LIMIT'' \<and> oi_time_in_force i = ''GTC''
      then i\<lparr>oi_time_in_force := ''GTX''\<rparr>
      else i)"

definition intent_is_rpi :: "order_intent \<Rightarrow> bool" where
  "intent_is_rpi i \<longleftrightarrow> oi_time_in_force i = ''RPI''"

definition intent_normalised :: "order_intent \<Rightarrow> bool" where
  "intent_normalised i \<longleftrightarrow> intent_post_init i = i"

subsection \<open>Order requests\<close>

record order_request =
  rq_symbol :: string
  rq_price :: rat
  rq_volume :: rat
  rq_side :: string
  rq_order_type :: string
  rq_time_in_force :: string
  rq_post_only :: bool
  rq_reduce_only :: bool
  rq_self_trade_prevention_mode :: string

text \<open>The shared first part of the normalisation, then the clearing of the self-trade prevention mode.\<close>

definition request_normalise_tif :: "order_request \<Rightarrow> order_request" where
  "request_normalise_tif r0 =
     (let r = r0\<lparr>rq_order_type := upper (str_or (rq_order_type r0) ''LIMIT''),
                rq_time_in_force := upper (str_or (rq_time_in_force r0) ''GTC'')\<rparr> in
      if rq_time_in_force r \<in> set POST_ONLY_TIME_IN_FORCE then r\<lparr>rq_post_only := True\<rparr>
      else if rq_post_only r \<and> rq_order_type r = ''LIMIT'' \<and> rq_time_in_force r = ''GTC''
      then r\<lparr>rq_time_in_force := ''GTX''\<rparr>
      else r)"

definition request_post_init :: "order_request \<Rightarrow> order_request" where
  "request_post_init r0 =
     (let r = request_normalise_tif r0 in
      if \<not> (rq_order_type r = ''LIMIT'' \<and> rq_time_in_force r \<in> {''GTC'', ''IOC'', ''GTD''})
      then r\<lparr>rq_self_trade_prevention_mode := []\<rparr> else r)"

definition request_is_rpi :: "order_request \<Rightarrow> bool" where
  "request_is_rpi r \<longleftrightarrow> rq_time_in_force r = ''RPI''"

subsection \<open>Normalisation\<close>

lemma upper_literals [simp]:
  "upper ''LIMIT'' = ''LIMIT''" "upper ''GTC'' = ''GTC''" "upper ''GTX'' = ''GTX''"
  "upper ''RPI'' = ''RPI''" "upper ''CANCELED'' = ''CANCELED''"
  by code_simp+

lemma upper_str_or_idem [simp]:
  "upper (str_or (upper (str_or s d)) e) = upper (str_or s d)" if "d \<noteq> []"
  using that by (simp add: str_or_def)

lemma intent_post_init_idem [simp]:
  "intent_post_init (intent_post_init i) = intent_post_init i"
  by (auto simp: intent_post_init_def Let_def POST_ONLY_TIME_IN_FORCE_def)

lemma intent_normalised_post_init [simp]: "intent_normalised (intent_post_init i)"
  by (simp add: intent_normalised_def)

lemma intent_post_init_frame [simp]:
  "oi_strategy_id (intent_post_init i) = oi_strategy_id i"
  "oi_symbol (intent_post_init i) = oi_symbol i"
  "oi_side (intent_post_init i) = oi_side i"
  "oi_price (intent_post_init i) = oi_price i"
  "oi_volume (intent_post_init i) = oi_volume i"
  "oi_reduce_only (intent_post_init i) = oi_reduce_only i"
  "oi_policy (intent_post_init i) = oi_policy i"
  "oi_tag (intent_post_init i) = oi_tag i"
  "oi_calibration_permit_id (intent_post_init i) = oi_calibration_permit_id i"
  "oi_calibration_depth_bps (intent_post_init i) = oi_calibration_depth_bps i"
  "oi_calibration_reference_mid (intent_post_init i) = oi_calibration_reference_mid i"
  by (simp_all add: intent_post_init_def Let_def)

lemma intent_post_only_sound:
  "oi_time_in_force (intent_post_init i) \<in> {''GTX'', ''RPI''} \<Longrightarrow>
     oi_is_post_only (intent_post_init i)"
  by (auto simp: intent_post_init_def Let_def POST_ONLY_TIME_IN_FORCE_def split: if_splits)

lemma intent_no_post_only_gtc:
  "oi_is_post_only (intent_post_init i) \<Longrightarrow> oi_order_type (intent_post_init i) = ''LIMIT'' \<Longrightarrow>
     oi_time_in_force (intent_post_init i) \<noteq> ''GTC''"
  by (auto simp: intent_post_init_def Let_def POST_ONLY_TIME_IN_FORCE_def split: if_splits)

lemma request_normalise_tif_idem [simp]:
  "request_normalise_tif (request_normalise_tif r) = request_normalise_tif r"
  by (auto simp: request_normalise_tif_def Let_def POST_ONLY_TIME_IN_FORCE_def)

lemma request_normalise_tif_stp [simp]:
  "request_normalise_tif (r\<lparr>rq_self_trade_prevention_mode := m\<rparr>) =
     (request_normalise_tif r)\<lparr>rq_self_trade_prevention_mode := m\<rparr>"
  by (simp add: request_normalise_tif_def Let_def)

lemma request_post_init_idem: "request_post_init (request_post_init r) = request_post_init r"
  unfolding request_post_init_def Let_def
  by (cases "rq_order_type (request_normalise_tif r) = ''LIMIT'' \<and>
      rq_time_in_force (request_normalise_tif r) \<in> {''GTC'', ''IOC'', ''GTD''}") auto

end
