(* ===== verification/Op_System.thy ===== *)
theory Op_System
  imports Main
begin

text \<open>
  The contract every stateful component satisfies: a set of operations on a state, an invariant
  that each operation keeps, and (in the extension) a quantity that never decreases. The lemmas
  lift the contract from one operation to any sequence of operations; each component interprets
  the locales on its own operations.
\<close>

fun run_ops :: "('op \<Rightarrow> 's \<Rightarrow> 's) \<Rightarrow> 'op list \<Rightarrow> 's \<Rightarrow> 's" where
  "run_ops step [] s = s"
| "run_ops step (x # xs) s = run_ops step xs (step x s)"

lemma run_ops_append: "run_ops step (xs @ ys) s = run_ops step ys (run_ops step xs s)"
  by (induction xs arbitrary: s) auto

locale invariant_system =
  fixes step :: "'op \<Rightarrow> 's \<Rightarrow> 's"
    and inv :: "'s \<Rightarrow> bool"
  assumes step_inv: "inv s \<Longrightarrow> inv (step x s)"
begin

lemma run_inv: "inv s \<Longrightarrow> inv (run_ops step xs s)"
  by (induction xs arbitrary: s) (auto intro: step_inv)

end

locale monotone_system = invariant_system step inv
  for step :: "'op \<Rightarrow> 's \<Rightarrow> 's" and inv :: "'s \<Rightarrow> bool" +
  fixes val :: "'s \<Rightarrow> 'v::order"
  assumes step_mono: "inv s \<Longrightarrow> val s \<le> val (step x s)"
begin

lemma run_mono: "inv s \<Longrightarrow> val s \<le> val (run_ops step xs s)"
proof (induction xs arbitrary: s)
  case (Cons x xs)
  have "val s \<le> val (step x s)" using Cons.prems by (rule step_mono)
  also have "\<dots> \<le> val (run_ops step xs (step x s))"
    using step_inv [OF Cons.prems] by (rule Cons.IH)
  finally show ?case by simp
qed simp

lemma run_mono_append: "inv s \<Longrightarrow> val (run_ops step xs s) \<le> val (run_ops step (xs @ ys) s)"
  by (simp add: run_ops_append run_mono run_inv)

end

text \<open>A system whose every step is a step of a preorder; what an observer compares at two moments
  then constrains every moment in between.\<close>

locale history_system =
  fixes step :: "'op \<Rightarrow> 's \<Rightarrow> 's"
    and rel :: "'s \<Rightarrow> 's \<Rightarrow> bool"
  assumes rel_refl: "rel s s"
    and rel_trans: "rel s s' \<Longrightarrow> rel s' s'' \<Longrightarrow> rel s s''"
    and step_rel: "rel s (step x s)"
begin

lemma run_rel: "rel s (run_ops step xs s)"
  by (induction xs arbitrary: s) (auto intro: rel_refl rel_trans step_rel)

lemma run_between:
  "rel s (run_ops step xs s)" "rel (run_ops step xs s) (run_ops step (xs @ ys) s)"
  by (simp_all add: run_rel run_ops_append)

end

text \<open>A system whose operations carry evidence: what the invariant says of the state rests on the evidence
  gathered so far.\<close>

locale evidence_system =
  fixes step :: "'op \<Rightarrow> 's \<Rightarrow> 's"
    and evidence :: "'op \<Rightarrow> 'e set"
    and backed :: "'e set \<Rightarrow> 's \<Rightarrow> bool"
  assumes step_backs: "backed H s \<Longrightarrow> backed (H \<union> evidence x) (step x s)"
begin

lemma run_backs: "backed H s \<Longrightarrow> backed (H \<union> (\<Union>x\<in>set xs. evidence x)) (run_ops step xs s)"
proof (induction xs arbitrary: H s)
  case (Cons x xs)
  show ?case using Cons.IH [OF step_backs [OF Cons.prems, of x]] by (simp add: Un_assoc)
qed simp

end

end
