(* ===== verification/OMS_Order.thy ===== *)
theory OMS_Order
  imports Event_Types Op_System
begin

text \<open>
  The OMS order of \<open>oms/order.py\<close>: its transition table, every operation of class \<open>Order\<close>, the
  journal record it writes (\<open>to_record\<close>) and the validated recovery from one (\<open>from_record\<close>).

  An operation mutates the order and may raise; it is a function from the order to the mutated
  order and the result, because Python keeps the mutations made before a raise. The clock
  (\<open>time.time()\<close> and \<open>time.perf_counter()\<close>) is an argument. \<open>None\<close> and \<open>0.0\<close> are both false as an
  \<open>update_time\<close>. The text fields of a journal payload are strings, as \<open>to_record\<close> writes them; a
  value of another type there is reported as \<open>TypeError\<close>.

  The lemmas: the table and the guards decide every status change; terminal states are absorbing
  except that a late fill may reopen a cancelled or expired order; the fill state stays
  consistent under binary64 rounding; recovery inverts \<open>to_record\<close> and only yields valid orders.
\<close>

subsection \<open>State\<close>

record clock =
  wall :: rat
  mono :: rat

record order =
  o_client_oid :: string
  o_intent :: order_intent
  o_exchange_oid :: string
  o_status :: order_status
  o_filled_volume :: rat
  o_avg_price :: rat
  o_cumulative_cost :: rat
  o_created_at :: rat
  o_updated_at :: rat
  o_created_monotonic :: rat
  o_updated_monotonic :: rat
  o_recovered_from_journal :: bool
  o_error_msg :: string
  o_last_update_seq :: int
  o_last_exchange_status :: string
  o_last_exchange_update_time :: rat

definition eps6 :: rat where "eps6 = fl (1 / 1000000)"
definition eps8 :: rat where "eps8 = fl (1 / 100000000)"
definition eps9 :: rat where "eps9 = fl (1 / 1000000000)"

definition TERMINAL_STATUSES :: "order_status list" where
  "TERMINAL_STATUSES = [FILLED, CANCELLED, REJECTED, REJECTED_LOCALLY, EXPIRED]"

fun allowed_transitions :: "order_status \<Rightarrow> order_status list" where
  "allowed_transitions CREATED = [SUBMITTING, REJECTED_LOCALLY]"
| "allowed_transitions SUBMITTING = [SUBMIT_UNKNOWN, PENDING_ACK, NEW, PARTIALLY_FILLED, FILLED,
     CANCELLING, CANCELLED, REJECTED, EXPIRED, REJECTED_LOCALLY]"
| "allowed_transitions SUBMIT_UNKNOWN = [PENDING_ACK, NEW, PARTIALLY_FILLED, FILLED, CANCELLING,
     CANCEL_UNKNOWN, CANCELLED, REJECTED, EXPIRED, REJECTED_LOCALLY]"
| "allowed_transitions PENDING_ACK = [NEW, PARTIALLY_FILLED, FILLED, CANCELLING, CANCEL_UNKNOWN,
     CANCELLED, REJECTED, EXPIRED, REJECTED_LOCALLY]"
| "allowed_transitions NEW = [PARTIALLY_FILLED, FILLED, CANCELLING, CANCEL_UNKNOWN, CANCELLED,
     REJECTED, EXPIRED]"
| "allowed_transitions PARTIALLY_FILLED = [PARTIALLY_FILLED, FILLED, CANCELLING, CANCEL_UNKNOWN,
     CANCELLED, EXPIRED]"
| "allowed_transitions CANCELLING = [NEW, PARTIALLY_FILLED, FILLED, CANCEL_UNKNOWN, CANCELLED,
     EXPIRED]"
| "allowed_transitions CANCEL_UNKNOWN = [NEW, PARTIALLY_FILLED, FILLED, CANCELLING, CANCELLED,
     REJECTED, EXPIRED]"
| "allowed_transitions FILLED = []"
| "allowed_transitions CANCELLED = [PARTIALLY_FILLED, FILLED]"
| "allowed_transitions REJECTED = []"
| "allowed_transitions REJECTED_LOCALLY = []"
| "allowed_transitions EXPIRED = [PARTIALLY_FILLED, FILLED]"

definition order_init :: "clock \<Rightarrow> string \<Rightarrow> order_intent \<Rightarrow> order" where
  "order_init clk client_oid intent =
     \<lparr>o_client_oid = client_oid, o_intent = intent, o_exchange_oid = [], o_status = CREATED,
      o_filled_volume = 0, o_avg_price = 0, o_cumulative_cost = 0,
      o_created_at = wall clk, o_updated_at = wall clk,
      o_created_monotonic = mono clk, o_updated_monotonic = mono clk,
      o_recovered_from_journal = False, o_error_msg = [], o_last_update_seq = 0,
      o_last_exchange_status = [], o_last_exchange_update_time = 0\<rparr>"

definition is_active :: "order \<Rightarrow> bool" where
  "is_active ord \<longleftrightarrow> o_status ord \<in> set [SUBMITTING, SUBMIT_UNKNOWN, PENDING_ACK, NEW,
     PARTIALLY_FILLED, CANCELLING, CANCEL_UNKNOWN]"

definition is_terminal :: "order \<Rightarrow> bool" where
  "is_terminal ord \<longleftrightarrow> o_status ord \<in> set TERMINAL_STATUSES"

subsection \<open>Operations\<close>

definition given :: "rat option \<Rightarrow> bool" where
  "given t \<longleftrightarrow> t \<noteq> None \<and> t \<noteq> Some 0"

definition note_exchange_update ::
  "clock \<Rightarrow> string \<Rightarrow> rat option \<Rightarrow> int \<Rightarrow> string \<Rightarrow> order \<Rightarrow> order" where
  "note_exchange_update clk exchange_status update_time seq exchange_oid o0 =
     (let o1 = (if exchange_oid \<noteq> [] then o0\<lparr>o_exchange_oid := exchange_oid\<rparr> else o0);
          o2 = (if exchange_status \<noteq> [] then
                  let oa = o1\<lparr>o_last_exchange_status := exchange_status\<rparr> in
                  if given update_time
                  then oa\<lparr>o_last_exchange_update_time :=
                         max (o_last_exchange_update_time oa) (the update_time)\<rparr>
                  else oa
                else o1);
          o3 = (if seq \<noteq> 0 then o2\<lparr>o_last_update_seq := max (o_last_update_seq o2) seq\<rparr> else o2)
      in o3\<lparr>o_updated_at := (if given update_time then the update_time else wall clk),
            o_updated_monotonic := mono clk\<rparr>)"

definition transition ::
  "clock \<Rightarrow> order_status \<Rightarrow> string \<Rightarrow> string \<Rightarrow> string \<Rightarrow> rat option \<Rightarrow> int \<Rightarrow> order
    \<Rightarrow> order \<times> bool res" where
  "transition clk next_status reason exchange_oid exchange_status update_time seq o0 =
     (if next_status = o_status o0 then
        let o1 = note_exchange_update clk exchange_status update_time seq exchange_oid o0;
            o2 = (if reason \<noteq> [] then o1\<lparr>o_error_msg := reason\<rparr> else o1)
        in (o2, Inr False)
      else if next_status \<notin> set (allowed_transitions (o_status o0)) then
        (o0, Inl (ValueError ''transition''))
      else
        let o1 = o0\<lparr>o_status := next_status\<rparr>;
            o2 = (if reason \<noteq> [] then o1\<lparr>o_error_msg := reason\<rparr> else o1);
            o3 = (if exchange_oid \<noteq> [] then o2\<lparr>o_exchange_oid := exchange_oid\<rparr> else o2)
        in (note_exchange_update clk exchange_status update_time seq exchange_oid o3, Inr True))"

definition mark_submitting :: "clock \<Rightarrow> order \<Rightarrow> order \<times> bool res" where
  "mark_submitting clk = transition clk SUBMITTING [] [] [] None 0"

definition mark_pending_ack :: "clock \<Rightarrow> string \<Rightarrow> order \<Rightarrow> order \<times> bool res" where
  "mark_pending_ack clk exchange_oid = transition clk PENDING_ACK [] exchange_oid [] None 0"

definition mark_submit_unknown :: "clock \<Rightarrow> string \<Rightarrow> order \<Rightarrow> order \<times> bool res" where
  "mark_submit_unknown clk reason = transition clk SUBMIT_UNKNOWN reason [] [] None 0"

definition mark_new :: "clock \<Rightarrow> string \<Rightarrow> rat option \<Rightarrow> int \<Rightarrow> order \<Rightarrow> order \<times> bool res" where
  "mark_new clk exchange_oid update_time seq =
     transition clk NEW [] exchange_oid ''NEW'' update_time seq"

definition mark_cancelling :: "clock \<Rightarrow> order \<Rightarrow> order \<times> bool res" where
  "mark_cancelling clk = transition clk CANCELLING [] [] [] None 0"

definition mark_cancel_unknown :: "clock \<Rightarrow> string \<Rightarrow> order \<Rightarrow> order \<times> bool res" where
  "mark_cancel_unknown clk reason = transition clk CANCEL_UNKNOWN reason [] [] None 0"

definition mark_cancelled ::
  "clock \<Rightarrow> rat option \<Rightarrow> int \<Rightarrow> string \<Rightarrow> order \<Rightarrow> order \<times> bool res" where
  "mark_cancelled clk update_time seq exchange_status =
     transition clk CANCELLED [] [] exchange_status update_time seq"

definition mark_expired :: "clock \<Rightarrow> rat option \<Rightarrow> int \<Rightarrow> order \<Rightarrow> order \<times> bool res" where
  "mark_expired clk update_time seq = transition clk EXPIRED [] [] ''EXPIRED'' update_time seq"

definition mark_rejected ::
  "clock \<Rightarrow> string \<Rightarrow> rat option \<Rightarrow> int \<Rightarrow> string \<Rightarrow> order \<Rightarrow> order \<times> bool res" where
  "mark_rejected clk reason update_time seq exchange_status =
     transition clk REJECTED reason [] exchange_status update_time seq"

definition mark_rejected_locally :: "clock \<Rightarrow> string \<Rightarrow> order \<Rightarrow> order \<times> bool res" where
  "mark_rejected_locally clk reason = transition clk REJECTED_LOCALLY reason [] [] None 0"

text \<open>The booking part of \<open>add_fill\<close>, after its arguments have been validated: the quantities
  are changed first, the status transition that may raise comes after.\<close>

definition remaining_volume :: "order \<Rightarrow> rat" where
  "remaining_volume ord = max 0 (fl (oi_volume (o_intent ord) - o_filled_volume ord))"

definition apply_fill :: "rat \<Rightarrow> rat \<Rightarrow> order \<Rightarrow> order" where
  "apply_fill fill_qty fill_price o0 =
     (let applied_qty = min fill_qty (remaining_volume o0);
          o1 = o0\<lparr>o_cumulative_cost := fl (o_cumulative_cost o0 + fl (applied_qty * fill_price)),
                 o_filled_volume := fl (o_filled_volume o0 + applied_qty)\<rparr>
      in if 0 < o_filled_volume o1
         then o1\<lparr>o_avg_price := fl (o_cumulative_cost o1 / o_filled_volume o1)\<rparr> else o1)"

definition volume_complete :: "order \<Rightarrow> bool" where
  "volume_complete ord \<longleftrightarrow> fl (oi_volume (o_intent ord) - eps8) \<le> o_filled_volume ord"

definition book_fill ::
  "clock \<Rightarrow> rat \<Rightarrow> rat \<Rightarrow> rat option \<Rightarrow> int \<Rightarrow> string \<Rightarrow> order \<Rightarrow> order \<times> bool res" where
  "book_fill clk fill_qty fill_price update_time seq exchange_status o0 =
     (if fl (remaining_volume o0 + eps6) < fill_qty then (o0, Inl (ValueError ''exceeds_remaining''))
      else
        let o1 = apply_fill fill_qty fill_price o0;
            next_status = (if volume_complete o1 then FILLED else PARTIALLY_FILLED);
            (o2, r) = transition clk next_status [] [] exchange_status update_time seq o1
        in (o2, bindE r (\<lambda>_. Inr True)))"

definition add_fill ::
  "clock \<Rightarrow> pyval \<Rightarrow> pyval \<Rightarrow> rat option \<Rightarrow> int \<Rightarrow> string \<Rightarrow> order \<Rightarrow> order \<times> bool res" where
  "add_fill clk fill_qty fill_price update_time seq exchange_status o0 =
     (case (float_of fill_qty, float_of fill_price) of
        (Inr q, Inr p) \<Rightarrow>
          (if \<not> isfinite q then (o0, Inl (ValueError ''quantity_not_finite''))
           else if finval q \<le> 0 then (o0, Inr False)
           else if \<not> isfinite p \<or> finval p \<le> 0 then (o0, Inl (ValueError ''price''))
           else if oi_volume (o_intent o0) \<le> 0 \<or> o_filled_volume o0 < 0 \<or> o_cumulative_cost o0 < 0
           then (o0, Inl (ValueError ''fill_state''))
           else book_fill clk (finval q) (finval p) update_time seq exchange_status o0)
      | _ \<Rightarrow> (o0, Inl (ValueError ''not_numeric'')))"

definition mark_filled :: "clock \<Rightarrow> rat option \<Rightarrow> int \<Rightarrow> order \<Rightarrow> order \<times> bool res" where
  "mark_filled clk update_time seq o0 =
     (if \<not> volume_complete o0
      then (o0, Inl (ValueError ''volume_incomplete''))
      else transition clk FILLED [] [] ''FILLED'' update_time seq o0)"

text \<open>Every public mutation of an order, as one call, and a sequence of calls whose exceptions the
  caller catches: the order keeps whatever the raising call left.\<close>

datatype order_call =
    Note_exchange_update string "rat option" int string
  | Mark_submitting
  | Mark_pending_ack string
  | Mark_submit_unknown string
  | Mark_new string "rat option" int
  | Mark_cancelling
  | Mark_cancel_unknown string
  | Mark_cancelled "rat option" int string
  | Mark_expired "rat option" int
  | Mark_rejected string "rat option" int string
  | Mark_rejected_locally string
  | Add_fill pyval pyval "rat option" int string
  | Mark_filled "rat option" int

fun do_order_call :: "clock \<Rightarrow> order_call \<Rightarrow> order \<Rightarrow> order \<times> bool res" where
  "do_order_call clk (Note_exchange_update st ut seq oid) ord =
     (note_exchange_update clk st ut seq oid ord, Inr True)"
| "do_order_call clk Mark_submitting ord = mark_submitting clk ord"
| "do_order_call clk (Mark_pending_ack oid) ord = mark_pending_ack clk oid ord"
| "do_order_call clk (Mark_submit_unknown r) ord = mark_submit_unknown clk r ord"
| "do_order_call clk (Mark_new oid ut seq) ord = mark_new clk oid ut seq ord"
| "do_order_call clk Mark_cancelling ord = mark_cancelling clk ord"
| "do_order_call clk (Mark_cancel_unknown r) ord = mark_cancel_unknown clk r ord"
| "do_order_call clk (Mark_cancelled ut seq st) ord = mark_cancelled clk ut seq st ord"
| "do_order_call clk (Mark_expired ut seq) ord = mark_expired clk ut seq ord"
| "do_order_call clk (Mark_rejected r ut seq st) ord = mark_rejected clk r ut seq st ord"
| "do_order_call clk (Mark_rejected_locally r) ord = mark_rejected_locally clk r ord"
| "do_order_call clk (Add_fill q p ut seq st) ord = add_fill clk q p ut seq st ord"
| "do_order_call clk (Mark_filled ut seq) ord = mark_filled clk ut seq ord"

abbreviation order_step :: "clock \<times> order_call \<Rightarrow> order \<Rightarrow> order" where
  "order_step x ord \<equiv> fst (do_order_call (fst x) (snd x) ord)"

definition order_run :: "(clock \<times> order_call) list \<Rightarrow> order \<Rightarrow> order" where
  "order_run cs ord = run_ops order_step cs ord"

subsection \<open>Journal record\<close>

definition opt_float :: "rat option \<Rightarrow> pyval" where
  "opt_float x = (case x of None \<Rightarrow> PNone | Some v \<Rightarrow> PFloat (Fin v))"

definition intent_record :: "order_intent \<Rightarrow> pyval" where
  "intent_record i = PDict
     [(''strategy_id'', PStr (oi_strategy_id i)),
      (''symbol'', PStr (oi_symbol i)),
      (''side'', PStr (side_value (oi_side i))),
      (''price'', PFloat (Fin (oi_price i))),
      (''volume'', PFloat (Fin (oi_volume i))),
      (''order_type'', PStr (oi_order_type i)),
      (''time_in_force'', PStr (oi_time_in_force i)),
      (''is_post_only'', PBool (oi_is_post_only i)),
      (''reduce_only'', PBool (oi_reduce_only i)),
      (''policy'', PStr (policy_value (oi_policy i))),
      (''tag'', PStr (oi_tag i)),
      (''calibration_permit_id'', PStr (oi_calibration_permit_id i)),
      (''calibration_depth_bps'', opt_float (oi_calibration_depth_bps i)),
      (''calibration_reference_mid'', opt_float (oi_calibration_reference_mid i))]"

definition to_record :: "order \<Rightarrow> pyval" where
  "to_record ord = PDict
     [(''client_oid'', PStr (o_client_oid ord)),
      (''exchange_oid'', PStr (o_exchange_oid ord)),
      (''status'', PStr (order_status_value (o_status ord))),
      (''filled_volume'', PFloat (Fin (o_filled_volume ord))),
      (''avg_price'', PFloat (Fin (o_avg_price ord))),
      (''cumulative_cost'', PFloat (Fin (o_cumulative_cost ord))),
      (''created_at'', PFloat (Fin (o_created_at ord))),
      (''updated_at'', PFloat (Fin (o_updated_at ord))),
      (''created_monotonic'', PFloat (Fin (o_created_monotonic ord))),
      (''updated_monotonic'', PFloat (Fin (o_updated_monotonic ord))),
      (''recovered_from_journal'', PBool (o_recovered_from_journal ord)),
      (''error_msg'', PStr (o_error_msg ord)),
      (''last_update_seq'', PInt (o_last_update_seq ord)),
      (''last_exchange_status'', PStr (o_last_exchange_status ord)),
      (''last_exchange_update_time'', PFloat (Fin (o_last_exchange_update_time ord))),
      (''intent'', intent_record (o_intent ord))]"

definition text_field :: "(string \<times> pyval) list \<Rightarrow> string \<Rightarrow> string \<Rightarrow> string res" where
  "text_field d k dflt = (case vget d k (PStr dflt) of PStr s \<Rightarrow> Inr s | _ \<Rightarrow> Inl TypeError)"

definition float_field :: "(string \<times> pyval) list \<Rightarrow> string \<Rightarrow> rat \<Rightarrow> pyfloat res" where
  "float_field d k dflt = float_of (vget d k (PFloat (Fin dflt)))"

text \<open>
  \<open>_validate_recovered_state\<close>: \<open>raws\<close> are the eight numeric fields before the finiteness check,
  \<open>depth\<close> and \<open>ref\<close> the two optional calibration values as read from the payload.
\<close>

definition calibration_value :: "pyval \<Rightarrow> rat option res" where
  "calibration_value v = (case v of
      PNone \<Rightarrow> Inr None
    | _ \<Rightarrow> (case float_of v of
         Inl _ \<Rightarrow> Inl (ValueError ''calibration'')
       | Inr x \<Rightarrow> if isfinite x then Inr (Some (finval x)) else Inl (ValueError ''calibration'')))"

definition validate_fill_cost :: "order \<Rightarrow> unit res" where
  "validate_fill_cost ord =
     (if eps9 < o_filled_volume ord then
        bindE (checkE (0 < o_avg_price ord) (ValueError ''no_fill_price'')) (\<lambda>_.
          let expected_cost = fl (o_filled_volume ord * o_avg_price ord);
              tolerance = max eps8 (fl (\<bar>expected_cost\<bar> * eps8))
          in checkE (\<bar>fl (o_cumulative_cost ord - expected_cost)\<bar> \<le> tolerance)
                    (ValueError ''inconsistent_cost''))
      else checkE (\<not> (eps9 < o_avg_price ord \<or> eps9 < o_cumulative_cost ord))
                  (ValueError ''cost_without_fills''))"

definition validate_recovered_state ::
  "pyfloat list \<Rightarrow> pyval \<Rightarrow> pyval \<Rightarrow> order \<Rightarrow> order res" where
  "validate_recovered_state raws depth ref ord =
     bindE (checkE (o_client_oid ord \<noteq> []) (ValueError ''client_oid'')) (\<lambda>_.
     bindE (checkE (oi_symbol (o_intent ord) \<noteq> []) (ValueError ''symbol'')) (\<lambda>_.
     bindE (checkE (list_all isfinite raws) (ValueError ''non_finite'')) (\<lambda>_.
     bindE (checkE (\<not> (oi_price (o_intent ord) \<le> 0 \<or> oi_volume (o_intent ord) \<le> 0))
              (ValueError ''intent_values'')) (\<lambda>_.
     bindE (checkE (\<not> (o_filled_volume ord < 0 \<or> o_avg_price ord < 0 \<or> o_cumulative_cost ord < 0
                \<or> o_created_at ord < 0 \<or> o_updated_at ord < 0
                \<or> o_last_exchange_update_time ord < 0 \<or> o_last_update_seq ord < 0))
              (ValueError ''negative_state'')) (\<lambda>_.
     bindE (checkE (o_filled_volume ord \<le> fl (oi_volume (o_intent ord) + eps6))
              (ValueError ''overfilled'')) (\<lambda>_.
     bindE (validate_fill_cost ord) (\<lambda>_.
     bindE (calibration_value depth) (\<lambda>d.
     bindE (calibration_value ref) (\<lambda>r.
     Inr (ord\<lparr>o_intent := (o_intent ord)\<lparr>oi_calibration_depth_bps := d,
                                      oi_calibration_reference_mid := r\<rparr>\<rparr>))))))))))"

definition intent_from_record :: "(string \<times> pyval) list \<Rightarrow> (order_intent \<times> pyfloat list) res" where
  "intent_from_record d =
     bindE (text_field d ''strategy_id'' ''recovered'') (\<lambda>strategy_id.
     bindE (text_field d ''symbol'' []) (\<lambda>symbol.
     bindE (side_of (vget d ''side'' (PStr (side_value BUY)))) (\<lambda>sd.
     bindE (float_field d ''price'' 0) (\<lambda>price.
     bindE (float_field d ''volume'' 0) (\<lambda>volume.
     bindE (text_field d ''order_type'' ''LIMIT'') (\<lambda>order_type.
     bindE (text_field d ''time_in_force'' ''GTC'') (\<lambda>tif.
     bindE (policy_of (vget d ''policy'' (PStr (policy_value PASSIVE)))) (\<lambda>policy.
     bindE (text_field d ''tag'' []) (\<lambda>tag.
     bindE (text_field d ''calibration_permit_id'' []) (\<lambda>permit.
     Inr (intent_post_init
       \<lparr>oi_strategy_id = strategy_id, oi_symbol = symbol, oi_side = sd,
        oi_price = finval price, oi_volume = finval volume, oi_order_type = order_type,
        oi_time_in_force = tif, oi_is_post_only = truthy (vget d ''is_post_only'' (PBool False)),
        oi_reduce_only = truthy (vget d ''reduce_only'' (PBool False)), oi_policy = policy,
        oi_tag = tag, oi_calibration_permit_id = permit, oi_calibration_depth_bps = None,
        oi_calibration_reference_mid = None\<rparr>, [price, volume])))))))))))"

definition from_record :: "clock \<Rightarrow> pyval \<Rightarrow> order res" where
  "from_record clk payload = (case payload of
     PDict d \<Rightarrow> (case vget d ''intent'' (PDict []) of
       PDict ip \<Rightarrow>
         bindE (intent_from_record ip) (\<lambda>(intent, raws).
         bindE (text_field d ''client_oid'' []) (\<lambda>client_oid.
         bindE (text_field d ''exchange_oid'' []) (\<lambda>exchange_oid.
         bindE (order_status_of (vget d ''status'' (PStr (order_status_value CREATED)))) (\<lambda>status.
         bindE (float_field d ''filled_volume'' 0) (\<lambda>filled.
         bindE (float_field d ''avg_price'' 0) (\<lambda>avg.
         bindE (float_field d ''cumulative_cost'' 0) (\<lambda>cost.
         bindE (float_field d ''created_at'' (wall clk)) (\<lambda>created.
         bindE (float_of (vget d ''updated_at'' (PFloat created))) (\<lambda>updated.
         bindE (text_field d ''error_msg'' []) (\<lambda>error_msg.
         bindE (int_of (vget d ''last_update_seq'' (PInt 0))) (\<lambda>seq.
         bindE (text_field d ''last_exchange_status'' []) (\<lambda>exst.
         bindE (float_field d ''last_exchange_update_time'' 0) (\<lambda>exut.
         validate_recovered_state (raws @ [filled, avg, cost, created, updated, exut])
           (vget ip ''calibration_depth_bps'' PNone) (vget ip ''calibration_reference_mid'' PNone)
           ((order_init clk client_oid intent)
             \<lparr>o_exchange_oid := exchange_oid, o_status := status,
              o_filled_volume := finval filled, o_avg_price := finval avg,
              o_cumulative_cost := finval cost, o_created_at := finval created,
              o_updated_at := finval updated, o_error_msg := error_msg,
              o_last_update_seq := seq, o_last_exchange_status := exst,
              o_last_exchange_update_time := finval exut,
              o_recovered_from_journal := True\<rparr>))))))))))))))
     | _ \<Rightarrow> Inl (ValueError ''intent_not_object''))
   | _ \<Rightarrow> Inl (ValueError ''snapshot_not_object''))"

subsection \<open>Status changes\<close>

lemma note_exchange_update_frame [simp]:
  "o_status (note_exchange_update clk st ut seq oid ord) = o_status ord"
  "o_intent (note_exchange_update clk st ut seq oid ord) = o_intent ord"
  "o_client_oid (note_exchange_update clk st ut seq oid ord) = o_client_oid ord"
  "o_filled_volume (note_exchange_update clk st ut seq oid ord) = o_filled_volume ord"
  "o_avg_price (note_exchange_update clk st ut seq oid ord) = o_avg_price ord"
  "o_cumulative_cost (note_exchange_update clk st ut seq oid ord) = o_cumulative_cost ord"
  "o_created_at (note_exchange_update clk st ut seq oid ord) = o_created_at ord"
  "o_error_msg (note_exchange_update clk st ut seq oid ord) = o_error_msg ord"
  by (simp_all add: note_exchange_update_def Let_def)

lemma note_exchange_update_mono:
  "o_last_update_seq ord \<le> o_last_update_seq (note_exchange_update clk st ut seq oid ord)"
  "o_last_exchange_update_time ord
     \<le> o_last_exchange_update_time (note_exchange_update clk st ut seq oid ord)"
  by (simp_all add: note_exchange_update_def Let_def)

lemma transition_frame [simp]:
  "o_intent (fst (transition clk n r oid st ut seq ord)) = o_intent ord"
  "o_client_oid (fst (transition clk n r oid st ut seq ord)) = o_client_oid ord"
  "o_filled_volume (fst (transition clk n r oid st ut seq ord)) = o_filled_volume ord"
  "o_avg_price (fst (transition clk n r oid st ut seq ord)) = o_avg_price ord"
  "o_cumulative_cost (fst (transition clk n r oid st ut seq ord)) = o_cumulative_cost ord"
  by (simp_all add: transition_def Let_def)

lemma transition_mono:
  "o_last_update_seq ord \<le> o_last_update_seq (fst (transition clk n r oid st ut seq ord))"
  using note_exchange_update_mono(1) [of ord] note_exchange_update_mono(1)
  by (auto simp: transition_def Let_def intro!: order_trans [OF _ note_exchange_update_mono(1)])

lemma transition_status:
  "o_status (fst (transition clk n r oid st ut seq ord)) =
     (if n \<in> set (allowed_transitions (o_status ord)) then n else o_status ord)"
  by (auto simp: transition_def Let_def)

lemma transition_raises_iff:
  "(\<exists>e. snd (transition clk n r oid st ut seq ord) = Inl e) \<longleftrightarrow>
     n \<noteq> o_status ord \<and> n \<notin> set (allowed_transitions (o_status ord))"
  by (auto simp: transition_def Let_def)

lemma transition_raise_keeps: "snd (transition clk n r oid st ut seq ord) = Inl e \<Longrightarrow>
    fst (transition clk n r oid st ut seq ord) = ord"
  by (auto simp: transition_def Let_def split: if_splits)

lemmas mark_defs = mark_submitting_def mark_pending_ack_def mark_submit_unknown_def mark_new_def
  mark_cancelling_def mark_cancel_unknown_def mark_cancelled_def mark_expired_def
  mark_rejected_def mark_rejected_locally_def

text \<open>Every call either leaves the fill state and moves by the table, or is \<open>add_fill\<close>.\<close>

lemma apply_fill_frame [simp]:
  "o_intent (apply_fill q p ord) = o_intent ord"
  "o_status (apply_fill q p ord) = o_status ord"
  "o_filled_volume (apply_fill q p ord) = fl (o_filled_volume ord + min q (remaining_volume ord))"
  "o_cumulative_cost (apply_fill q p ord) =
     fl (o_cumulative_cost ord + fl (min q (remaining_volume ord) * p))"
  by (simp_all add: apply_fill_def Let_def)

lemma apply_fill_avg: "0 < o_filled_volume (apply_fill q p ord) \<Longrightarrow> o_avg_price (apply_fill q p ord) =
    fl (o_cumulative_cost (apply_fill q p ord) / o_filled_volume (apply_fill q p ord))"
  by (auto simp: apply_fill_def Let_def split: if_splits)

definition fill_status :: "order \<Rightarrow> order_status" where
  "fill_status ord = (if volume_complete ord then FILLED else PARTIALLY_FILLED)"

lemma book_fill_cases:
  obtains "fst (book_fill clk q p ut seq st ord) = ord"
  | r where "book_fill clk q p ut seq st ord =
      (fst (transition clk (fill_status (apply_fill q p ord)) [] [] st ut seq (apply_fill q p ord)), r)"
  by (cases "fl (remaining_volume ord + eps6) < q")
     (auto simp: book_fill_def fill_status_def Let_def split_beta)

lemma add_fill_cases:
  obtains "fst (add_fill clk q p ut seq st ord) = ord"
  | x y where "0 < x" "0 < y" "0 < oi_volume (o_intent ord)" "0 \<le> o_filled_volume ord"
      "0 \<le> o_cumulative_cost ord" "add_fill clk q p ut seq st ord = book_fill clk x y ut seq st ord"
proof (cases "fst (add_fill clk q p ut seq st ord) = ord")
  case False
  then obtain a b where ab: "float_of q = Inr a" "float_of p = Inr b"
    by (auto simp: add_fill_def split: sum.splits)
  with False have "0 < finval a" "0 < finval b" "0 < oi_volume (o_intent ord)"
    "0 \<le> o_filled_volume ord" "0 \<le> o_cumulative_cost ord"
    by (auto simp: add_fill_def split: if_splits)
  moreover from this ab False have
    "add_fill clk q p ut seq st ord = book_fill clk (finval a) (finval b) ut seq st ord"
    by (auto simp: add_fill_def split: if_splits)
  ultimately show ?thesis using that(2) by blast
qed (use that(1) in blast)

lemma add_fill_outcomes:
  obtains "fst (add_fill clk q p ut seq st ord) = ord"
  | x y where "0 < x" "0 < y" "0 < oi_volume (o_intent ord)" "0 \<le> o_filled_volume ord"
      "0 \<le> o_cumulative_cost ord"
      "fst (add_fill clk q p ut seq st ord) =
         fst (transition clk (fill_status (apply_fill x y ord)) [] [] st ut seq (apply_fill x y ord))"
  by (rule add_fill_cases [of clk q p ut seq st ord]; metis book_fill_cases fst_conv)

lemma order_call_status:
  "o_status (fst (do_order_call clk c ord)) = o_status ord \<or>
   o_status (fst (do_order_call clk c ord)) \<in> set (allowed_transitions (o_status ord))"
proof (cases c)
  case (Add_fill q p ut seq st)
  show ?thesis unfolding Add_fill do_order_call.simps
    by (rule add_fill_outcomes [of clk q p ut seq st ord]) (auto simp: transition_status)
qed (simp_all add: mark_defs transition_status mark_filled_def)

text \<open>A status with no edges is final.\<close>

interpretation status_fixed: invariant_system order_step
  "\<lambda>o1. allowed_transitions (o_status o1) = [] \<and> o_status o1 = st"
proof
  fix s :: order and x assume "allowed_transitions (o_status s) = [] \<and> o_status s = st"
  then show "allowed_transitions (o_status (order_step x s)) = [] \<and> o_status (order_step x s) = st"
    using order_call_status [of "fst x" "snd x" s] by auto
qed

text \<open>Example data used to instantiate the theorems.\<close>

definition demo_clock :: clock where "demo_clock = \<lparr>wall = 1000, mono = 10\<rparr>"

definition demo_intent :: order_intent where
  "demo_intent = \<lparr>oi_strategy_id = ''glft'', oi_symbol = ''BTCUSDT'', oi_side = BUY, oi_price = 100,
     oi_volume = 2, oi_order_type = ''LIMIT'', oi_time_in_force = ''GTC'', oi_is_post_only = False,
     oi_reduce_only = False, oi_policy = PASSIVE, oi_tag = [], oi_calibration_permit_id = [],
     oi_calibration_depth_bps = None, oi_calibration_reference_mid = None\<rparr>"

definition demo_order :: order where
  "demo_order = order_init demo_clock ''c1'' demo_intent"

lemmas demo_defs = demo_clock_def demo_intent_def demo_order_def order_init_def



text \<open>Terminal states are final. No sequence of calls takes an order out of FILLED, REJECTED
  or REJECTED\_LOCALLY; a call on a CANCELLED or EXPIRED order leaves its status or reopens it by a
  fill (PARTIALLY\_FILLED or FILLED), and nothing else.\<close>

theorem terminal_absorbing:
  assumes "is_terminal ord"
  shows "if o_status ord \<in> {CANCELLED, EXPIRED}
         then o_status (fst (do_order_call clk c ord)) \<in> {o_status ord, PARTIALLY_FILLED, FILLED}
         else o_status (order_run cs ord) = o_status ord"
proof -
  have "o_status (order_run cs ord) = o_status ord" if "o_status ord \<notin> {CANCELLED, EXPIRED}"
    using status_fixed.run_inv [of ord "o_status ord" cs] assms that
    by (auto simp: order_run_def is_terminal_def TERMINAL_STATUSES_def)
  moreover have "o_status (fst (do_order_call clk c ord)) \<in> {o_status ord, PARTIALLY_FILLED, FILLED}"
    if "o_status ord \<in> {CANCELLED, EXPIRED}"
    using order_call_status [of clk c ord] that by auto
  ultimately show ?thesis by simp
qed

theorem terminal_absorbing_witness:
  "o_status (order_run [(demo_clock, Mark_new ''7'' None 0)] (demo_order\<lparr>o_status := FILLED\<rparr>)) = FILLED"
  using terminal_absorbing [of "demo_order\<lparr>o_status := FILLED\<rparr>" demo_clock Mark_cancelling
      "[(demo_clock, Mark_new ''7'' None 0)]"]
  by (simp add: is_terminal_def TERMINAL_STATUSES_def)

subsection \<open>Fill accounting\<close>

text \<open>The unit roundoff of binary64.\<close>

definition uro :: rat where "uro = 1 / 2 ^ 53"

definition fill_inv :: "order \<Rightarrow> bool" where
  "fill_inv ord \<longleftrightarrow>
     representable (o_filled_volume ord) \<and> 0 \<le> o_filled_volume ord \<and> 0 \<le> o_cumulative_cost ord \<and>
     o_filled_volume ord \<le> \<bar>oi_volume (o_intent ord)\<bar> * (1 + uro) ^ 2 \<and>
     (if o_filled_volume ord = 0 then o_cumulative_cost ord = 0 \<and> o_avg_price ord = 0
      else o_avg_price ord = fl (o_cumulative_cost ord / o_filled_volume ord)) \<and>
     (o_status ord = FILLED \<longrightarrow> volume_complete ord)"

lemma remaining_nonneg [simp]: "0 \<le> remaining_volume ord"
  by (simp add: remaining_volume_def)

lemma filled_mono_apply:
  assumes "representable (o_filled_volume ord)" "0 < q"
  shows "o_filled_volume ord \<le> o_filled_volume (apply_fill q p ord)"
  using assms by (simp add: fl_add_nonneg_ge)

lemma filled_upper_apply:
  assumes V: "0 < oi_volume (o_intent ord)" and f: "0 \<le> o_filled_volume ord"
    and rep: "representable (o_filled_volume ord)"
    and ub: "o_filled_volume ord \<le> oi_volume (o_intent ord) * (1 + uro) ^ 2" and q: "0 < q"
  shows "o_filled_volume (apply_fill q p ord) \<le> oi_volume (o_intent ord) * (1 + uro) ^ 2"
proof (cases "o_filled_volume ord \<le> oi_volume (o_intent ord)")
  case True
  let ?V = "oi_volume (o_intent ord)" and ?f = "o_filled_volume ord"
  have "remaining_volume ord \<le> (?V - ?f) * (1 + uro)"
    using fl_relative(1) [of "?V - ?f"] True by (simp add: remaining_volume_def uro_def)
  then have "?f + min q (remaining_volume ord) \<le> ?f + (?V - ?f) * (1 + uro)" by linarith
  also have "\<dots> = ?V * (1 + uro) - ?f * uro" by (simp add: algebra_simps)
  also have "\<dots> \<le> ?V * (1 + uro)" using f by (simp add: uro_def)
  finally have "fl (?f + min q (remaining_volume ord)) \<le> fl (?V * (1 + uro))" by (rule fl_mono)
  also have "\<dots> \<le> ?V * (1 + uro) * (1 + uro)"
    using fl_relative(1) [of "?V * (1 + uro)"] V by (simp add: uro_def)
  finally show ?thesis by (simp add: power2_eq_square algebra_simps)
next
  case False
  then have "remaining_volume ord = 0" by (simp add: remaining_volume_def max_def)
  with q rep ub show ?thesis by (simp add: representable_def)
qed

lemma filled_pos_apply:
  assumes "0 < oi_volume (o_intent ord)" "0 \<le> o_filled_volume ord" "0 < q"
    "representable (o_filled_volume ord)"
  shows "0 < o_filled_volume (apply_fill q p ord)"
  using assms by (cases "o_filled_volume ord = 0")
    (auto simp: remaining_volume_def add_pos_nonneg)

lemma volume_complete_mono:
  "volume_complete ord \<Longrightarrow> o_intent o' = o_intent ord \<Longrightarrow> o_filled_volume ord \<le> o_filled_volume o' \<Longrightarrow>
     volume_complete o'"
  by (simp add: volume_complete_def)

lemma fill_inv_apply:
  assumes inv: "fill_inv ord" and V: "0 < oi_volume (o_intent ord)" and q: "0 < q" "0 < p"
  shows "fill_inv (apply_fill q p ord)"
proof -
  have pos: "0 < o_filled_volume (apply_fill q p ord)"
    using inv V q by (intro filled_pos_apply) (auto simp: fill_inv_def)
  moreover have "o_filled_volume (apply_fill q p ord) \<le> oi_volume (o_intent ord) * (1 + uro) ^ 2"
    using inv V q by (intro filled_upper_apply) (auto simp: fill_inv_def)
  moreover have "0 \<le> o_cumulative_cost (apply_fill q p ord)"
    using inv q by (auto simp: fill_inv_def)
  moreover have "o_status ord = FILLED \<longrightarrow> volume_complete (apply_fill q p ord)"
    using inv q filled_mono_apply [of ord q p] volume_complete_mono [of ord "apply_fill q p ord"]
    by (auto simp: fill_inv_def)
  moreover have "representable (o_filled_volume (apply_fill q p ord))" by simp
  ultimately show ?thesis using V apply_fill_avg [OF pos] unfolding fill_inv_def
    by (simp only: apply_fill_frame(1,2) abs_of_pos less_imp_le) auto
qed

lemma fill_inv_transition:
  assumes "fill_inv ord" "n = FILLED \<longrightarrow> volume_complete ord"
  shows "fill_inv (fst (transition clk n r oid st ut seq ord))"
  using assms transition_status [of clk n r oid st ut seq ord]
  by (auto simp: fill_inv_def volume_complete_def)

lemma fill_inv_order_call:
  assumes inv: "fill_inv ord" shows "fill_inv (fst (do_order_call clk c ord))"
proof (cases c)
  case (Add_fill q p ut seq st)
  show ?thesis unfolding Add_fill do_order_call.simps
  proof (rule add_fill_outcomes [of clk q p ut seq st ord])
    fix x y :: rat assume "0 < x" "0 < y" "0 < oi_volume (o_intent ord)"
    then have "fill_inv (apply_fill x y ord)" using inv by (intro fill_inv_apply)
    moreover assume "fst (add_fill clk q p ut seq st ord) =
      fst (transition clk (fill_status (apply_fill x y ord)) [] [] st ut seq (apply_fill x y ord))"
    ultimately show "fill_inv (fst (add_fill clk q p ut seq st ord))"
      by (simp add: fill_inv_transition fill_status_def)
  qed (use inv in simp)
next
  case (Mark_filled ut seq)
  with inv show ?thesis by (simp add: mark_filled_def fill_inv_transition)
next
  case (Note_exchange_update st ut seq oid)
  with inv show ?thesis by (simp add: fill_inv_def volume_complete_def)
qed (use inv in \<open>simp_all add: mark_defs fill_inv_transition\<close>)

lemma filled_mono_order_call:
  assumes inv: "fill_inv ord"
  shows "o_filled_volume ord \<le> o_filled_volume (fst (do_order_call clk c ord))"
proof (cases c)
  case (Add_fill q p ut seq st)
  show ?thesis unfolding Add_fill do_order_call.simps
    by (rule add_fill_outcomes [of clk q p ut seq st ord])
       (use inv in \<open>auto simp: fill_inv_def intro!: fl_add_nonneg_ge\<close>)
qed (simp_all add: mark_defs mark_filled_def)

interpretation fills: monotone_system order_step fill_inv o_filled_volume
  by unfold_locales (auto intro: fill_inv_order_call filled_mono_order_call)

lemma fill_inv_init [simp]: "fill_inv (order_init clk oid i)"
  by (simp add: fill_inv_def order_init_def uro_def)

text \<open>Claim C19: the fill accounting of an order is consistent in binary64 arithmetic, whatever calls are
  made on it and whichever of them raise: the filled volume is never negative and never exceeds the
  ordered volume by more than two roundings, the average price is the rounded quotient of
  cumulative cost and filled volume (both zero before the first fill), and an order that is FILLED
  has reached its volume within 1e-8.\<close>

theorem fill_accounting_sound: "fill_inv (order_run cs (order_init clk oid i))"
  unfolding order_run_def by (rule fills.run_inv) simp

text \<open>The filled volume of an order never decreases along any sequence of calls that starts
  from a fresh order.\<close>

theorem filled_volume_monotone:
  "o_filled_volume (order_run cs (order_init clk oid i))
     \<le> o_filled_volume (order_run (cs @ ds) (order_init clk oid i))"
  unfolding order_run_def by (rule fills.run_mono_append) simp

text \<open>\<open>add_fill\<close> is not atomic with respect to its exceptions. On an order that is REJECTED,
  or otherwise in a status with no edge to the fill status, it raises the invalid-transition error
  after the fill has been booked: the volume and cost have changed, the status has not.\<close>

theorem add_fill_raises_after_booking:
  assumes "o_status ord \<in> {REJECTED, REJECTED_LOCALLY, CREATED}"
    and "0 < q" "0 < p" "0 < oi_volume (o_intent ord)" "0 \<le> o_filled_volume ord"
    and "0 \<le> o_cumulative_cost ord" "q \<le> fl (remaining_volume ord + eps6)"
  shows "add_fill clk (PFloat (Fin q)) (PFloat (Fin p)) ut seq st ord =
     (apply_fill q p ord, Inl (ValueError ''transition''))"
  using assms by (auto simp: add_fill_def book_fill_def transition_def Let_def not_less not_le)

theorem add_fill_raises_after_booking_witness:
  "\<exists>o'. add_fill demo_clock (PFloat (Fin 1)) (PFloat (Fin 100)) None 0 ''FILLED''
       (demo_order\<lparr>o_status := REJECTED\<rparr>) = (o', Inl (ValueError ''transition''))
     \<and> o_filled_volume o' = 1 \<and> o_status o' = REJECTED"
proof -
  let ?o = "demo_order\<lparr>o_status := REJECTED\<rparr>"
  have r: "remaining_volume ?o = 2" by (simp add: remaining_volume_def demo_defs)
  have "1 \<le> fl (2 + eps6)" by (rule fl_ge_rep) (simp_all add: eps6_def add_increasing2)
  with r add_fill_raises_after_booking [of ?o 1 100 demo_clock None 0 "''FILLED''"] show ?thesis
    by (intro exI [of _ "apply_fill 1 100 ?o"]) (simp add: demo_defs)
qed

subsection \<open>Recovery from the journal\<close>

text \<open>What \<open>_validate_recovered_state\<close> accepts.\<close>

definition recoverable :: "order \<Rightarrow> bool" where
  "recoverable ord \<longleftrightarrow>
     o_client_oid ord \<noteq> [] \<and> oi_symbol (o_intent ord) \<noteq> [] \<and>
     0 < oi_price (o_intent ord) \<and> 0 < oi_volume (o_intent ord) \<and>
     0 \<le> o_filled_volume ord \<and> 0 \<le> o_avg_price ord \<and> 0 \<le> o_cumulative_cost ord \<and>
     0 \<le> o_created_at ord \<and> 0 \<le> o_updated_at ord \<and> 0 \<le> o_last_exchange_update_time ord \<and>
     0 \<le> o_last_update_seq ord \<and>
     o_filled_volume ord \<le> fl (oi_volume (o_intent ord) + eps6) \<and>
     validate_fill_cost ord = Inr ()"

lemma validate_fill_cost_cong:
  "o_filled_volume o' = o_filled_volume ord \<Longrightarrow> o_avg_price o' = o_avg_price ord \<Longrightarrow>
   o_cumulative_cost o' = o_cumulative_cost ord \<Longrightarrow> validate_fill_cost o' = validate_fill_cost ord"
  by (simp add: validate_fill_cost_def)

lemma validate_recovered_state_Inr:
  "validate_recovered_state raws depth ref ord = Inr o' \<longleftrightarrow>
     list_all isfinite raws \<and> recoverable ord \<and>
     (\<exists>d r. calibration_value depth = Inr d \<and> calibration_value ref = Inr r \<and>
        o' = ord\<lparr>o_intent := (o_intent ord)\<lparr>oi_calibration_depth_bps := d,
                                          oi_calibration_reference_mid := r\<rparr>\<rparr>)"
  by (auto simp: validate_recovered_state_def recoverable_def res_simps not_less not_le)

lemma calibration_opt_float [simp]: "calibration_value (opt_float x) = Inr x"
  by (cases x) (simp_all add: calibration_value_def opt_float_def)

text \<open>The order as recovery rebuilds it: marked as recovered, with fresh monotonic times.\<close>

definition recovered_copy :: "clock \<Rightarrow> order \<Rightarrow> order" where
  "recovered_copy clk ord = ord\<lparr>o_created_monotonic := mono clk, o_updated_monotonic := mono clk,
     o_recovered_from_journal := True\<rparr>"

lemma intent_from_intent_record:
  assumes "intent_record i = PDict d" "intent_normalised i"
  shows "intent_from_record d = Inr (i\<lparr>oi_calibration_depth_bps := None,
     oi_calibration_reference_mid := None\<rparr>, [Fin (oi_price i), Fin (oi_volume i)])"
proof -
  have norm: "intent_post_init (i\<lparr>oi_calibration_depth_bps := None, oi_calibration_reference_mid := None\<rparr>)
      = (intent_post_init i)\<lparr>oi_calibration_depth_bps := None, oi_calibration_reference_mid := None\<rparr>"
    by (simp add: intent_post_init_def Let_def)
  have d: "d = (case intent_record i of PDict d \<Rightarrow> d | _ \<Rightarrow> [])" using assms(1) by simp
  show ?thesis unfolding d intent_record_def intent_from_record_def text_field_def float_field_def
      vget_def dgetd_def
    using norm assms(2) by (cases i) (simp add: intent_normalised_def)
qed

lemma from_record_to_record:
  assumes "recoverable ord" "intent_normalised (o_intent ord)"
  shows "from_record clk (to_record ord) = Inr (recovered_copy clk ord)"
proof -
  let ?i = "(o_intent ord)\<lparr>oi_calibration_depth_bps := None, oi_calibration_reference_mid := None\<rparr>"
  obtain d where d: "intent_record (o_intent ord) = PDict d" by (simp add: intent_record_def)
  have calib: "vget d ''calibration_depth_bps'' PNone = opt_float (oi_calibration_depth_bps (o_intent ord))"
    "vget d ''calibration_reference_mid'' PNone = opt_float (oi_calibration_reference_mid (o_intent ord))"
    using d by (auto simp: intent_record_def vget_def dgetd_def)
  have rec: "recoverable (recovered_copy clk ord\<lparr>o_intent := ?i\<rparr>)"
    using assms(1) by (simp add: recoverable_def recovered_copy_def cong: validate_fill_cost_cong)
  have "from_record clk (to_record ord) =
      validate_recovered_state (map Fin [oi_price (o_intent ord), oi_volume (o_intent ord),
          o_filled_volume ord, o_avg_price ord, o_cumulative_cost ord, o_created_at ord,
          o_updated_at ord, o_last_exchange_update_time ord])
        (vget d ''calibration_depth_bps'' PNone) (vget d ''calibration_reference_mid'' PNone)
        (recovered_copy clk ord\<lparr>o_intent := ?i\<rparr>)"
    unfolding from_record_def to_record_def d
    using intent_from_intent_record [OF d assms(2)]
    by (cases ord) (simp add: vget_def dgetd_def text_field_def float_field_def order_init_def
        recovered_copy_def)
  also have "\<dots> = Inr (recovered_copy clk ord)"
    unfolding validate_recovered_state_Inr using rec calib by (simp add: recovered_copy_def)
  finally show ?thesis .
qed

text \<open>Claim C35: recovery inverts the journal record. For every valid order whose intent is normalised,
  reading back what \<open>to_record\<close> wrote yields the same order, marked as recovered and with its
  monotonic timestamps restarted.\<close>

theorem order_record_roundtrip:
  assumes "recoverable ord" "intent_normalised (o_intent ord)"
  shows "from_record clk (to_record ord) = Inr (recovered_copy clk ord)"
  using assms by (rule from_record_to_record)

lemma demo_recoverable: "recoverable demo_order" "intent_normalised (o_intent demo_order)"
proof -
  have "0 \<le> eps6" "0 \<le> eps9" by (simp_all add: eps6_def eps9_def)
  then show "recoverable demo_order"
    by (simp add: recoverable_def demo_defs validate_fill_cost_def not_less)
  show "intent_normalised (o_intent demo_order)"
    by (simp add: intent_normalised_def intent_post_init_def demo_defs POST_ONLY_TIME_IN_FORCE_def)
qed

theorem order_record_roundtrip_witness:
  "from_record demo_clock (to_record demo_order) = Inr (recovered_copy demo_clock demo_order)"
  by (rule order_record_roundtrip [OF demo_recoverable])

text \<open>A journal record with a number that is not finite is never recovered. Whatever else the payload
  holds, if one of the eight numbers of the order or of its intent that recovery reads is NaN or an infinity, \<open>from_record\<close>
  raises.\<close>

theorem from_record_refuses_nonfinite:
  assumes "vget d ''intent'' (PDict []) = PDict ip"
    and "x \<in> {vget ip ''price'' (PFloat (Fin 0)), vget ip ''volume'' (PFloat (Fin 0)), vget d ''filled_volume'' (PFloat (Fin 0)),
      vget d ''avg_price'' (PFloat (Fin 0)), vget d ''cumulative_cost'' (PFloat (Fin 0)), vget d ''created_at'' (PFloat (Fin 0)),
      vget d ''updated_at'' (PFloat (Fin 0)), vget d ''last_exchange_update_time'' (PFloat (Fin 0))}"
    and "float_of x = Inr y" and "\<not> isfinite y"
  shows "\<exists>e. from_record clk (PDict d) = Inl e"
proof (rule ccontr)
  assume "\<not> ?thesis"
  then obtain ord where "from_record clk (PDict d) = Inr ord" by (cases "from_record clk (PDict d)") auto
  then obtain i price volume filled avg cost created updated exut depth ref o0 where
    "intent_from_record ip = Inr (i, [price, volume])" "float_field d ''filled_volume'' 0 = Inr filled" "float_field d ''avg_price'' 0 = Inr avg"
    "float_field d ''cumulative_cost'' 0 = Inr cost" "float_field d ''created_at'' (wall clk) = Inr created"
    "float_of (vget d ''updated_at'' (PFloat created)) = Inr updated" "float_field d ''last_exchange_update_time'' 0 = Inr exut"
    "validate_recovered_state ([price, volume] @ [filled, avg, cost, created, updated, exut]) depth ref o0 = Inr ord"
    "float_field ip ''price'' 0 = Inr price" "float_field ip ''volume'' 0 = Inr volume"
    using assms(1) by (fastforce simp: from_record_def intent_from_record_def res_simps)
  note recovered = this
  have fin: "list_all isfinite [price, volume, filled, avg, cost, created, updated, exut]"
    using recovered(8) unfolding validate_recovered_state_Inr by simp
  have dflt: "float_of (vget d k (PFloat (Fin 0))) = Inr z \<Longrightarrow> \<not> isfinite z \<Longrightarrow> float_of (vget d k (PFloat u)) = Inr z" for k z u
    by (auto simp: vget_def dgetd_def split: option.splits)
  show False using assms(2-4) recovered fin dflt [of "''created_at''" y] dflt [of "''updated_at''" y]
    by (auto simp: float_field_def)
qed

theorem from_record_refuses_nonfinite_witness:
  "\<exists>e. from_record demo_clock (PDict [(''client_oid'', PStr ''c1''), (''cumulative_cost'', PFloat NaN),
     (''intent'', intent_record demo_intent)]) = Inl e"
proof -
  obtain ip where "intent_record demo_intent = PDict ip" by (simp add: intent_record_def)
  then show ?thesis
    by (intro from_record_refuses_nonfinite [where ip = ip and x = "PFloat NaN" and y = NaN]) (simp_all add: vget_def dgetd_def)
qed

end
