(* ===== verification/Guard_Table.thy ===== *)
theory Guard_Table
  imports Chronos_Prelude
begin

text \<open>
  The freeze guards of \<open>oms/guard_manager.py\<close>. A symbol or venue is frozen by owners; each owner has
  one record with its reason and a fencing epoch, and the effective guard is the newest record.
  The symbol and the venue guards are two tables with the same bookkeeping and different owner
  functions. The audits and effects around the bookkeeping are in the theory of the OMS safety
  state; here are the table operations with their interface, the locale \<open>freeze_registry\<close>: who
  holds a guard after a freeze or a release, and when a key counts as frozen.
\<close>

subsection \<open>State\<close>

record guard_table =
  gt_guards :: "(string, string) dict"
  gt_epochs :: "(string, int) dict"
  gt_records :: "(string, (string, string \<times> int) dict) dict"
  gt_counters :: "(string, int) dict"

definition empty_guards :: guard_table where
  "empty_guards = \<lparr>gt_guards = [], gt_epochs = [], gt_records = [], gt_counters = []\<rparr>"

definition join_colon :: "string list \<Rightarrow> string" where
  "join_colon ps = (case ps of [] \<Rightarrow> [] | p # qs \<Rightarrow> p @ concat (map (\<lambda>q. CHR '':'' # q) qs))"

definition starts :: "string \<Rightarrow> string \<Rightarrow> bool" where
  "starts pre s \<longleftrightarrow> take (length pre) s = pre"

definition symbol_guard_owner :: "string \<Rightarrow> string" where
  "symbol_guard_owner reason0 =
     (let reason = strip reason0; parts = split_on CHR '':'' reason;
          prefix = (case parts of [] \<Rightarrow> [] | p # _ \<Rightarrow> p) in
      if prefix \<in> {''latency'', ''divergence'', ''stale_market_data''} then prefix
      else if prefix = ''truth_plane'' \<and> 1 < length parts then join_colon (take 2 parts)
      else if prefix = ''system_health'' \<and> 2 < length parts then
        (if parts ! 1 \<in> {''FATAL_GAP'', ''ORDERBOOK_RESYNC_FAILED''} then ''system_health:orderbook''
         else join_colon (take 2 parts))
      else if prefix = ''order_truth'' \<and> 2 < length parts then ''order_truth:'' @ last parts
      else reason)"

definition venue_guard_owner :: "string \<Rightarrow> string" where
  "venue_guard_owner reason0 =
     (let reason = strip reason0; parts = split_on CHR '':'' reason;
          prefix = (case parts of [] \<Rightarrow> [] | p # _ \<Rightarrow> p) in
      if prefix = ''system_health'' then
        (if 1 < length parts \<and> parts ! 1 = ''TRANSPORT'' then ''system_health:transport''
         else if 1 < length parts \<and>
            (starts ''WS_'' (parts ! 1) \<or> starts ''USER_STREAM_'' (parts ! 1)
              \<or> starts ''MARKET_DATA_'' (parts ! 1)) then ''system_health:transport''
         else if 1 < length parts then join_colon (take 2 parts) else reason)
      else if prefix = ''truth_plane'' \<and> 1 < length parts then join_colon (take 2 parts)
      else str_or prefix reason)"

subsection \<open>Operations on a table\<close>

definition records_of :: "string \<Rightarrow> guard_table \<Rightarrow> (string, string \<times> int) dict" where
  "records_of k t = dgetd (gt_records t) k []"

definition ensure_records :: "(string \<Rightarrow> string) \<Rightarrow> string \<Rightarrow> guard_table \<Rightarrow> guard_table" where
  "ensure_records owner k t = (case dget (gt_records t) k of
      Some _ \<Rightarrow> t
    | None \<Rightarrow>
        (let legacy_reason = dgetd (gt_guards t) k [] in
         if legacy_reason \<noteq> [] then
           let epoch = max 1 (dgetd (gt_epochs t) k 0) in
           t\<lparr>gt_counters := dset k (max epoch (dgetd (gt_counters t) k 0)) (gt_counters t),
             gt_records := dset k [(owner legacy_reason, (legacy_reason, epoch))] (gt_records t)\<rparr>
         else t\<lparr>gt_records := dset k [] (gt_records t)\<rparr>))"

text \<open>\<open>max(items, key=epoch)\<close>: the first record with the largest epoch.\<close>

fun newest :: "string \<times> int \<Rightarrow> (string \<times> (string \<times> int)) list \<Rightarrow> string \<times> int" where
  "newest b [] = b"
| "newest b ((_, r) # rs) = newest (if snd b < snd r then r else b) rs"

definition refresh_effective :: "string \<Rightarrow> guard_table \<Rightarrow> guard_table" where
  "refresh_effective k t = (case records_of k t of
      [] \<Rightarrow> t\<lparr>gt_records := ddel k (gt_records t), gt_guards := ddel k (gt_guards t),
             gt_epochs := ddel k (gt_epochs t)\<rparr>
    | (_, r) # rs \<Rightarrow>
        t\<lparr>gt_guards := dset k (fst (newest r rs)) (gt_guards t),
          gt_epochs := dset k (snd (newest r rs)) (gt_epochs t)\<rparr>)"

definition next_epoch :: "string \<Rightarrow> guard_table \<Rightarrow> int" where
  "next_epoch k t = fold max (map (snd \<circ> snd) (records_of k t)) (dgetd (gt_counters t) k 0) + 1"

definition commit_guard :: "string \<Rightarrow> string \<Rightarrow> string \<Rightarrow> int \<Rightarrow> guard_table \<Rightarrow> guard_table" where
  "commit_guard k owner reason epoch t =
     refresh_effective k
       (t\<lparr>gt_counters := dset k epoch (gt_counters t),
         gt_records := dset k (dset owner (reason, epoch) (records_of k t)) (gt_records t)\<rparr>)"

text \<open>The whole table part of a freeze whose audit succeeds.\<close>

definition install_guard :: "(string \<Rightarrow> string) \<Rightarrow> string \<Rightarrow> string \<Rightarrow> guard_table \<Rightarrow> guard_table" where
  "install_guard owner k reason t =
     (let t1 = ensure_records owner k t in commit_guard k (owner reason) reason (next_epoch k t1) t1)"

text \<open>
  The records a conditional clear applies to: \<open>None\<close> stands for an expectation the caller did not
  give. Without any expectation only a single record is cleared.
\<close>

definition clear_candidates ::
  "string option \<Rightarrow> int option \<Rightarrow> string \<Rightarrow> (string, string \<times> int) dict
    \<Rightarrow> (string \<times> (string \<times> int)) list" where
  "clear_candidates expected_reason expected_epoch expected_owner records =
     (if expected_owner = [] \<and> expected_reason = None \<and> expected_epoch = None then
        (if length records = 1 then records else [])
      else
        filter (\<lambda>(_, (reason, epoch)).
            (case expected_reason of None \<Rightarrow> True | Some r \<Rightarrow> reason = r) \<and>
            (case expected_epoch of None \<Rightarrow> True | Some e \<Rightarrow> epoch = e))
          (if expected_owner \<noteq> [] then
             (case dget records expected_owner of None \<Rightarrow> [] | Some r \<Rightarrow> [(expected_owner, r)])
           else records))"

definition release_guard :: "string \<Rightarrow> string \<Rightarrow> guard_table \<Rightarrow> guard_table" where
  "release_guard k owner t =
     refresh_effective k (t\<lparr>gt_records := dset k (ddel owner (records_of k t)) (gt_records t)\<rparr>)"

subsection \<open>Well-formed tables\<close>

definition guards_agree :: "string \<Rightarrow> guard_table \<Rightarrow> bool" where
  "guards_agree k t \<longleftrightarrow>
     (case records_of k t of
        [] \<Rightarrow> dget (gt_guards t) k = None \<and> dget (gt_epochs t) k = None
      | (_, r) # rs \<Rightarrow> dget (gt_guards t) k = Some (fst (newest r rs)) \<and>
                     dget (gt_epochs t) k = Some (snd (newest r rs)))"

definition records_ok :: "string \<Rightarrow> guard_table \<Rightarrow> bool" where
  "records_ok k t \<longleftrightarrow> wf_dict (records_of k t) \<and>
     (\<forall>ow r e. (ow, (r, e)) \<in> set (records_of k t) \<longrightarrow> e \<le> dgetd (gt_counters t) k 0)"

definition gt_wf :: "guard_table \<Rightarrow> bool" where
  "gt_wf t \<longleftrightarrow> (\<forall>k. guards_agree k t \<and> records_ok k t)"

definition owners :: "guard_table \<Rightarrow> string \<Rightarrow> string set" where
  "owners t k = fst ` set (records_of k t)"

lemma records_of_simps [simp]:
  "records_of j (t\<lparr>gt_records := d\<rparr>) = dgetd d j []"
  "records_of j (t\<lparr>gt_guards := g\<rparr>) = records_of j t"
  "records_of j (t\<lparr>gt_epochs := e\<rparr>) = records_of j t"
  "records_of j (t\<lparr>gt_counters := c\<rparr>) = records_of j t"
  "dgetd (gt_records t) j [] = records_of j t"
  by (simp_all add: records_of_def)

lemma records_of_refresh [simp]: "records_of j (refresh_effective k t) = records_of j t"
  by (auto simp: refresh_effective_def split: list.splits)

lemma counters_refresh [simp]: "gt_counters (refresh_effective k t) = gt_counters t"
  by (auto simp: refresh_effective_def split: list.splits)

lemma guards_agree_refresh: "guards_agree k (refresh_effective k t)"
  by (auto simp: guards_agree_def refresh_effective_def split: list.splits)

lemma refresh_other [simp]:
  "j \<noteq> k \<Longrightarrow> dget (gt_guards (refresh_effective k t)) j = dget (gt_guards t) j"
  "j \<noteq> k \<Longrightarrow> dget (gt_epochs (refresh_effective k t)) j = dget (gt_epochs t) j"
  by (auto simp: refresh_effective_def split: list.splits)

lemma guards_agree_cong:
  "records_of k t' = records_of k t \<Longrightarrow> dget (gt_guards t') k = dget (gt_guards t) k \<Longrightarrow>
   dget (gt_epochs t') k = dget (gt_epochs t) k \<Longrightarrow> guards_agree k t' = guards_agree k t"
  by (simp add: guards_agree_def split: list.split)

lemma ensure_records_wf:
  assumes "gt_wf t" shows "records_of j (ensure_records owner k t) = records_of j t"
    and "gt_guards (ensure_records owner k t) = gt_guards t"
    and "gt_epochs (ensure_records owner k t) = gt_epochs t"
    and "gt_counters (ensure_records owner k t) = gt_counters t"
proof -
  have "dget (gt_guards t) k = None" if "dget (gt_records t) k = None"
    using assms that by (auto simp: gt_wf_def guards_agree_def records_of_def dgetd_def dest: spec [of _ k])
  then show "records_of j (ensure_records owner k t) = records_of j t"
    "gt_guards (ensure_records owner k t) = gt_guards t"
    "gt_epochs (ensure_records owner k t) = gt_epochs t"
    "gt_counters (ensure_records owner k t) = gt_counters t"
    by (auto simp: ensure_records_def records_of_def dgetd_def split: option.splits)
qed

lemma gt_wf_ensure: "gt_wf t \<Longrightarrow> gt_wf (ensure_records owner k t)"
  unfolding gt_wf_def [of "ensure_records owner k t"]
proof (intro allI conjI)
  fix j assume wf: "gt_wf t"
  have "guards_agree j (ensure_records owner k t) = guards_agree j t"
    by (rule guards_agree_cong) (simp_all add: ensure_records_wf wf)
  then show "guards_agree j (ensure_records owner k t)" using wf by (simp add: gt_wf_def)
  show "records_ok j (ensure_records owner k t)"
    using wf by (simp add: records_ok_def ensure_records_wf gt_wf_def)
qed

lemma next_epoch_gt:
  "dgetd (gt_counters t) k 0 < next_epoch k t"
  "(ow, (r, e)) \<in> set (records_of k t) \<Longrightarrow> e < next_epoch k t"
  using fold_max_ge(1) [of "dgetd (gt_counters t) k 0"]
    fold_max_ge(2) [of e "map (snd \<circ> snd) (records_of k t)" "dgetd (gt_counters t) k 0"]
  by (force simp: next_epoch_def)+

lemma gt_wf_commit:
  assumes wf: "gt_wf t" shows "gt_wf (commit_guard k ow r (next_epoch k t) t)"
proof -
  show ?thesis unfolding gt_wf_def
  proof (intro allI conjI)
    fix j
    show "guards_agree j (commit_guard k ow r (next_epoch k t) t)"
    proof (cases "j = k")
      case True then show ?thesis by (simp add: commit_guard_def guards_agree_refresh)
    next
      case False
      then have "guards_agree j (commit_guard k ow r (next_epoch k t) t) = guards_agree j t"
        by (intro guards_agree_cong) (simp_all add: commit_guard_def)
      then show ?thesis using wf by (simp add: gt_wf_def)
    qed
    show "records_ok j (commit_guard k ow r (next_epoch k t) t)"
      using wf next_epoch_gt(2) [of _ _ _ k t]
      by (fastforce simp: commit_guard_def records_ok_def gt_wf_def dest: mem_dset)
  qed
qed

lemma gt_wf_release:
  assumes wf: "gt_wf t" shows "gt_wf (release_guard k ow t)"
  unfolding gt_wf_def
proof (intro allI conjI)
  fix j
  show "guards_agree j (release_guard k ow t)"
  proof (cases "j = k")
    case True then show ?thesis by (simp add: release_guard_def guards_agree_refresh)
  next
    case False
    then have "guards_agree j (release_guard k ow t) = guards_agree j t"
      by (intro guards_agree_cong) (simp_all add: release_guard_def)
    then show ?thesis using wf by (simp add: gt_wf_def)
  qed
  show "records_ok j (release_guard k ow t)"
    using wf by (auto simp: release_guard_def records_ok_def gt_wf_def)
qed

lemma gt_wf_empty [simp]: "gt_wf empty_guards"
  by (simp add: gt_wf_def guards_agree_def records_ok_def records_of_def empty_guards_def)

subsection \<open>The interface\<close>

datatype guard_op = Freeze string string | Release string string

locale freeze_registry =
  fixes owner_of :: "string \<Rightarrow> string"
    and freeze :: "string \<Rightarrow> string \<Rightarrow> 't \<Rightarrow> 't"
    and release :: "string \<Rightarrow> string \<Rightarrow> 't \<Rightarrow> 't"
    and frozen :: "'t \<Rightarrow> string \<Rightarrow> bool"
    and holders :: "'t \<Rightarrow> string \<Rightarrow> string set"
    and wf :: "'t \<Rightarrow> bool"
  assumes wf_freeze: "wf t \<Longrightarrow> wf (freeze k r t)"
    and wf_release: "wf t \<Longrightarrow> wf (release k ow t)"
    and holders_freeze: "wf t \<Longrightarrow>
      holders (freeze k r t) j = (if j = k then insert (owner_of r) (holders t k) else holders t j)"
    and holders_release: "wf t \<Longrightarrow>
      holders (release k ow t) j = (if j = k then holders t k - {ow} else holders t j)"
    and frozen_iff: "wf t \<Longrightarrow> frozen t k \<longleftrightarrow> holders t k \<noteq> {}"
begin

definition gstep :: "guard_op \<Rightarrow> 't \<Rightarrow> 't" where
  "gstep g t = (case g of Freeze k r \<Rightarrow> freeze k r t | Release k ow \<Rightarrow> release k ow t)"

lemma wf_gstep: "wf t \<Longrightarrow> wf (gstep g t)"
  by (cases g) (auto simp: gstep_def wf_freeze wf_release)

lemma holder_kept:
  assumes "wf t" "ow \<in> holders t k" "Release k ow \<notin> set gs"
  shows "wf (fold gstep gs t) \<and> ow \<in> holders (fold gstep gs t) k"
  using assms
proof (induction gs arbitrary: t)
  case (Cons g gs)
  have "ow \<in> holders (gstep g t) k"
    using Cons.prems by (cases g) (auto simp: gstep_def holders_freeze holders_release)
  with Cons wf_gstep [of t g] show ?case by simp
qed simp

lemma frozen_until_released:
  assumes "wf t" "Release k (owner_of r) \<notin> set gs"
  shows "frozen (fold gstep gs (freeze k r t)) k"
  using holder_kept [of "freeze k r t" "owner_of r" k gs] assms
  by (auto simp: wf_freeze holders_freeze frozen_iff)

end

definition is_frozen :: "guard_table \<Rightarrow> string \<Rightarrow> bool" where
  "is_frozen t k \<longleftrightarrow> dget (gt_guards t) k \<noteq> None"

lemma owners_install:
  "gt_wf t \<Longrightarrow> owners (install_guard owner k r t) j =
     (if j = k then insert (owner r) (owners t k) else owners t j)"
  by (simp add: install_guard_def commit_guard_def owners_def Let_def ensure_records_wf)

lemma owners_release:
  "owners (release_guard k ow t) j = (if j = k then owners t k - {ow} else owners t j)"
  by (simp add: release_guard_def owners_def)

lemma is_frozen_iff: "gt_wf t \<Longrightarrow> is_frozen t k \<longleftrightarrow> owners t k \<noteq> {}"
proof -
  assume "gt_wf t"
  then have "guards_agree k t" by (simp add: gt_wf_def)
  then show ?thesis
    by (cases "records_of k t") (auto simp: is_frozen_def owners_def guards_agree_def)
qed

lemma gt_wf_install: "gt_wf t \<Longrightarrow> gt_wf (install_guard owner k r t)"
  by (simp add: install_guard_def Let_def gt_wf_commit gt_wf_ensure)

text \<open>Both tables of the OMS provide the interface.\<close>

interpretation symbol_registry: freeze_registry symbol_guard_owner
  "install_guard symbol_guard_owner" release_guard is_frozen owners gt_wf
  by unfold_locales (auto simp: gt_wf_install gt_wf_release owners_install owners_release is_frozen_iff)

interpretation venue_registry: freeze_registry venue_guard_owner
  "install_guard venue_guard_owner" release_guard is_frozen owners gt_wf
  by unfold_locales (auto simp: gt_wf_install gt_wf_release owners_install owners_release is_frozen_iff)

subsection \<open>Fencing epochs\<close>

lemma newest_in: "newest b rs \<in> insert b (snd ` set rs)"
proof (induction b rs rule: newest.induct)
  case (2 b ow r rs)
  then show ?case by (cases "snd b < snd r") (simp_all only: newest.simps if_True if_False, auto)
qed simp

lemma newest_ge: "snd b \<le> snd (newest b rs)" "r \<in> snd ` set rs \<Longrightarrow> snd r \<le> snd (newest b rs)"
  by (induction b rs rule: newest.induct) (auto split: if_splits)

lemma newest_unique:
  assumes "(ow, r) \<in> set (x # rs)" "\<And>o' r'. (o', r') \<in> set (x # rs) \<Longrightarrow> r' = r \<or> snd r' < snd r"
  shows "newest (snd x) rs = r"
proof -
  have "newest (snd x) rs \<in> snd ` set (x # rs)" using newest_in [of "snd x" rs] by auto
  moreover have "snd r \<le> snd (newest (snd x) rs)" using newest_ge(1) [of "snd x" rs] newest_ge(2) [of r rs "snd x"] assms(1) by force
  ultimately show ?thesis using assms(2) by fastforce
qed

lemma install_effective:
  assumes "gt_wf t"
  shows "dget (gt_guards (install_guard owner k r t)) k = Some r"
    "dget (gt_epochs (install_guard owner k r t)) k = Some (next_epoch k t)"
proof -
  let ?e = "next_epoch k t" and ?t = "install_guard owner k r t"
  have e: "next_epoch k (ensure_records owner k t) = ?e"
    by (simp add: next_epoch_def ensure_records_wf assms)
  have rs: "records_of k ?t = dset (owner r) (r, ?e) (records_of k t)"
    by (simp add: install_guard_def commit_guard_def Let_def e ensure_records_wf assms)
  obtain x rs' where x: "records_of k ?t = x # rs'"
    using rs by (metis dset_not_Nil neq_Nil_conv)
  have mem: "(owner r, (r, ?e)) \<in> set (x # rs')"
    using rs x dget_dset [of "owner r" "(r, ?e)" "records_of k t" "owner r"] by (metis map_of_SomeD)
  have "newest (snd x) rs' = (r, ?e)"
  proof (rule newest_unique [OF mem])
    fix o' r' assume "(o', r') \<in> set (x # rs')"
    with rs x have "(o', r') = (owner r, (r, ?e)) \<or> (o', r') \<in> set (records_of k t)"
      using mem_dset by metis
    then show "r' = (r, ?e) \<or> snd r' < snd (r, ?e)"
      using next_epoch_gt(2) [of o' "fst r'" "snd r'" k t] by auto
  qed
  moreover have "guards_agree k ?t" using gt_wf_install [OF assms] by (simp add: gt_wf_def)
  ultimately show "dget (gt_guards ?t) k = Some r" "dget (gt_epochs ?t) k = Some ?e"
    using x by (auto simp: guards_agree_def split: prod.splits)
qed

text \<open>Freezing a symbol takes effect at once and is fenced. After the guard for a reason has
  been installed, the reported freeze reason of the symbol is that reason, its epoch is the
  symbol's new epoch counter and exceeds the epoch of every guard the symbol had before, and the
  guards of every other symbol are untouched.\<close>

theorem freeze_symbol_effective:
  fixes k r :: string
  assumes "gt_wf t"
  defines "t' \<equiv> install_guard symbol_guard_owner k r t"
  shows "dget (gt_guards t') k = Some r \<and> dget (gt_epochs t') k = dget (gt_counters t') k \<and>
    (\<forall>ow reason e. (ow, (reason, e)) \<in> set (records_of k t) \<longrightarrow> e < dgetd (gt_epochs t') k 0) \<and>
    (\<forall>j. j \<noteq> k \<longrightarrow> dget (gt_guards t') j = dget (gt_guards t) j \<and> records_of j t' = records_of j t)"
proof -
  have e: "next_epoch k (ensure_records symbol_guard_owner k t) = next_epoch k t"
    by (simp add: next_epoch_def ensure_records_wf assms(1))
  have c: "dget (gt_counters t') k = Some (next_epoch k t)"
    by (simp add: t'_def install_guard_def commit_guard_def Let_def e)
  have "dget (gt_guards t') j = dget (gt_guards t) j \<and> records_of j t' = records_of j t" if "j \<noteq> k" for j
    using that by (simp add: t'_def install_guard_def commit_guard_def Let_def ensure_records_wf assms(1))
  then show ?thesis
    using install_effective [OF assms(1), of symbol_guard_owner k r] c next_epoch_gt(2) [of _ _ _ k t]
    by (simp add: t'_def dgetd_def)
qed

theorem freeze_symbol_effective_witness:
  "dget (gt_guards (install_guard symbol_guard_owner ''BTCUSDT'' ''latency:80'' empty_guards)) ''BTCUSDT''
     = Some ''latency:80''"
  using freeze_symbol_effective [OF gt_wf_empty, of "''BTCUSDT''" "''latency:80''"] by blast

text \<open>A frozen symbol or venue stays frozen until the owner that froze it is released: no
  sequence of further freezes, and of releases of other owners or of other symbols, lifts the
  guard.\<close>

theorem frozen_until_owner_released:
  assumes "gt_wf t" "Release k (symbol_guard_owner r) \<notin> set gs"
  shows "is_frozen (fold (\<lambda>g t. case g of Freeze k r \<Rightarrow> install_guard symbol_guard_owner k r t
       | Release k ow \<Rightarrow> release_guard k ow t) gs (install_guard symbol_guard_owner k r t)) k"
  using symbol_registry.frozen_until_released [OF assms] by (simp add: symbol_registry.gstep_def [abs_def])

theorem frozen_until_owner_released_witness:
  "is_frozen (release_guard ''BTCUSDT'' ''divergence''
     (install_guard symbol_guard_owner ''BTCUSDT'' ''latency:80'' empty_guards)) ''BTCUSDT''"
proof -
  have "symbol_guard_owner ''latency:80'' = ''latency''" by code_simp
  then show ?thesis
    using frozen_until_owner_released [of empty_guards "''BTCUSDT''" "''latency:80''"
        "[Release ''BTCUSDT'' ''divergence'']"] by simp
qed

text \<open>The records a clear with an expected epoch selects all carry that epoch.\<close>

lemma clear_candidates_epoch:
  assumes "(ow, (r, e')) \<in> set (clear_candidates reason (Some e) owner records)" shows "e' = e"
  using assms by (auto simp: clear_candidates_def split: if_splits option.splits)

lemma clear_candidates_sub:
  "set (clear_candidates reason epoch owner records) \<subseteq> set records"
  by (auto simp: clear_candidates_def split: if_splits option.splits) (metis map_of_SomeD)+

lemma clear_owner_empty:
  assumes "\<And>x. (owner, x) \<notin> set (clear_candidates reason epoch owner records)" "owner \<noteq> []"
  shows "clear_candidates reason epoch owner records = []"
proof (cases "dget records owner")
  case None
  with assms(2) show ?thesis by (simp add: clear_candidates_def)
next
  case (Some r)
  with assms(1) [of r] assms(2) show ?thesis by (auto simp: clear_candidates_def)
qed

text \<open>Claim C22: a stale recovery cannot lift a newer guard. A clear that names the epoch it observed
  selects nothing once any later freeze of the same symbol by the same owner has replaced that
  record, so the newer guard survives.\<close>

theorem stale_clear_refused:
  assumes "gt_wf t" "e \<le> dgetd (gt_counters t) k 0"
  shows "(symbol_guard_owner r, x) \<notin> set (clear_candidates reason (Some e) owner
     (records_of k (install_guard symbol_guard_owner k r t)))"
proof
  let ?t = "install_guard symbol_guard_owner k r t"
  assume mem: "(symbol_guard_owner r, x) \<in> set (clear_candidates reason (Some e) owner (records_of k ?t))"
  have in_recs: "(symbol_guard_owner r, x) \<in> set (records_of k ?t)"
    using mem clear_candidates_sub by (rule set_mp [rotated])
  have x: "snd x = e"
    by (rule clear_candidates_epoch [of "symbol_guard_owner r" "fst x"]) (use mem in simp)
  have wf: "wf_dict (records_of k ?t)"
    using gt_wf_install [OF assms(1)] by (simp add: gt_wf_def records_ok_def)
  have "records_of k ?t = dset (symbol_guard_owner r) (r, next_epoch k t) (records_of k t)"
    by (simp add: install_guard_def commit_guard_def Let_def next_epoch_def ensure_records_wf assms(1))
  then have "dget (records_of k ?t) (symbol_guard_owner r) = Some (r, next_epoch k t)" by simp
  with wf_dict_mem [OF wf, THEN iffD1, OF in_recs] have "x = (r, next_epoch k t)" by simp
  with x assms(2) next_epoch_gt(1) [of t k] show False by simp
qed

theorem stale_clear_refused_witness:
  "clear_candidates None (Some 1) ''latency'' (records_of ''BTCUSDT''
     (install_guard symbol_guard_owner ''BTCUSDT'' ''latency:90''
       (install_guard symbol_guard_owner ''BTCUSDT'' ''latency:80'' empty_guards))) = []"
proof -
  let ?t = "install_guard symbol_guard_owner ''BTCUSDT'' ''latency:80'' empty_guards"
  have ow: "symbol_guard_owner ''latency:90'' = ''latency''" by code_simp
  have "1 \<le> dgetd (gt_counters ?t) ''BTCUSDT'' 0" by code_simp
  moreover have "gt_wf ?t" by (simp add: gt_wf_install)
  ultimately have no: "\<And>x. (''latency'', x) \<notin> set (clear_candidates None (Some 1) ''latency''
      (records_of ''BTCUSDT'' (install_guard symbol_guard_owner ''BTCUSDT'' ''latency:90'' ?t)))"
    using stale_clear_refused [of ?t 1 "''BTCUSDT''" "''latency:90''" _ None "''latency''"] ow by auto
  show ?thesis by (rule clear_owner_empty) (use no in auto)
qed

end
