(* ===== verification/OMS_State.thy ===== *)
theory OMS_State
  imports OMS_Order Guard_Table "HOL-Library.List_Lexorder" "HOL-Library.Char_ord"
begin

text \<open>
  The OMS safety state and the components that share it: the outbound gate with its send permits
  (\<open>oms/outbound_gate.py\<close>), the capability modes (\<open>oms/capability_manager.py\<close>), the journal-failure
  latch (\<open>oms/durability_manager.py\<close>), the lifecycle (\<open>oms/lifecycle_controller.py\<close>, and the resume
  step of \<open>oms/full_reset.py\<close>) and the symbol and venue freezes (\<open>oms/guard_manager.py\<close>).

  The code runs these sections under one lock; each is a function on the state. Waits for other
  threads, published events and mass cancels are recorded in \<open>s_effects\<close> in the order the code
  issues them, and the result of a wait is an argument (a drain that times out also writes an audit whose
  failure it only logs; that belongs to the effect). \<open>_audit\<close> may raise at any call: the state
  carries the outcomes of the coming audits (\<open>s_audit_script\<close>, all succeed when it is empty), so a
  theorem for every state is a theorem for every pattern of journal failures.
\<close>

subsection \<open>State\<close>

datatype effect =
    Publish_halt string
  | Wait_risk_sends string string      \<comment> \<open>context, symbol\<close>
  | Wait_order_sends string
  | Cancel_all string string           \<comment> \<open>symbol, source\<close>
  | Cancel_non_reduce_only
  | Cancel_strategy string string      \<comment> \<open>strategy, symbol\<close>
  | Schedule_reconcile
  | Schedule_reconcile_retry string
  | Start_reconcile int                \<comment> \<open>generation\<close>

text \<open>The guards a recovery captured: (symbol, owner, reason, epoch), (venue, reason, epoch),
  (strategy, reason) and (strategy, symbol, reason).\<close>

record cleanup_snapshot =
  cs_symbols :: "(string \<times> string \<times> string \<times> int) list"
  cs_venues :: "(string \<times> string \<times> int) list"
  cs_strategies :: "(string \<times> string) list"
  cs_strategy_symbols :: "(string \<times> string \<times> string) list"

record oms =
  s_stopped :: bool
  s_shutdown_requested :: bool
  s_shutdown_reason :: string
  s_shutdown_cancel_verified :: bool
  s_state :: lifecycle_state
  s_lifecycle_generation :: int
  s_manual_rearm_required :: bool
  s_last_freeze_reason :: string
  s_last_halt_reason :: string
  s_capability_mode :: oms_capability_mode
  s_capability_reason :: string
  s_mode_override :: "oms_capability_mode option"
  s_mode_override_reason :: string
  s_mode_constraints :: "(string, oms_capability_mode \<times> string) dict"
  s_mode_constraint_generations :: "(string, int) dict"
  s_mode_constraint_generation :: int
  s_gate_open :: bool
  s_gate_epoch :: int
  s_gate_reason :: string
  s_gate_holds :: "string set"
  s_all_order_seal_reason :: string
  s_order_inflight :: int
  s_risk_inflight :: int
  s_risk_by_symbol :: "(string, int) dict"
  s_settling :: "string list"
  s_orders :: "(string, order) dict"
  s_symbol_guards :: guard_table
  s_venue_guards :: guard_table
  s_strategy_guards :: "(string, string) dict"
  s_strategy_symbol_guards :: "(string \<times> string, string) dict"
  s_recovered_pending :: bool
  s_recovered_snapshot :: "cleanup_snapshot option"
  s_pending_reconcile :: "(string \<times> string) list"
  s_max_pending_reconcile :: nat
  s_background_rejections :: nat
  s_cancel_symbols :: "string list"     \<comment> \<open>the result of \<open>_account_cancel_symbols()\<close>\<close>
  s_audit_script :: "bool list"
  s_audit_log :: "string list"
  s_effects :: "effect list"

definition oms_init :: "string list \<Rightarrow> bool list \<Rightarrow> oms" where
  "oms_init symbols script =
     \<lparr>s_stopped = False, s_shutdown_requested = False, s_shutdown_reason = [],
      s_shutdown_cancel_verified = False, s_state = LS_BOOTSTRAP, s_lifecycle_generation = 0,
      s_manual_rearm_required = False, s_last_freeze_reason = [], s_last_halt_reason = [],
      s_capability_mode = CM_READ_ONLY, s_capability_reason = ''startup_bootstrap'',
      s_mode_override = None, s_mode_override_reason = [], s_mode_constraints = [],
      s_mode_constraint_generations = [], s_mode_constraint_generation = 0,
      s_gate_open = False, s_gate_epoch = 0, s_gate_reason = ''startup_bootstrap'',
      s_gate_holds = {}, s_all_order_seal_reason = [],
      s_order_inflight = 0, s_risk_inflight = 0, s_risk_by_symbol = [], s_settling = [],
      s_orders = [], s_symbol_guards = empty_guards, s_venue_guards = empty_guards,
      s_strategy_guards = [], s_strategy_symbol_guards = [], s_recovered_pending = False,
      s_recovered_snapshot = None, s_pending_reconcile = [], s_max_pending_reconcile = 256,
      s_background_rejections = 0, s_cancel_symbols = symbols, s_audit_script = script, s_audit_log = [], s_effects = []\<rparr>"

text \<open>\<open>self._audit(kind, ...)\<close>: whether the record was committed.\<close>

definition audit :: "string \<Rightarrow> oms \<Rightarrow> oms \<times> bool" where
  "audit kind s = (case s_audit_script s of
      [] \<Rightarrow> (s\<lparr>s_audit_log := s_audit_log s @ [kind]\<rparr>, True)
    | ok # rest \<Rightarrow> (if ok then (s\<lparr>s_audit_script := rest, s_audit_log := s_audit_log s @ [kind]\<rparr>, True)
                   else (s\<lparr>s_audit_script := rest\<rparr>, False)))"

definition emit :: "effect list \<Rightarrow> oms \<Rightarrow> oms" where
  "emit es s = s\<lparr>s_effects := s_effects s @ es\<rparr>"

subsection \<open>Outbound gate\<close>

definition trading_mode :: "oms_capability_mode \<Rightarrow> bool" where
  "trading_mode m \<longleftrightarrow> m \<in> {CM_LIVE, CM_DEGRADED, CM_PASSIVE_ONLY}"

definition outbound_gate_should_open :: "oms \<Rightarrow> bool" where
  "outbound_gate_should_open s \<longleftrightarrow>
     \<not> s_stopped s \<and> \<not> s_shutdown_requested s \<and> s_state s = LS_LIVE \<and>
     gt_guards (s_venue_guards s) = [] \<and> s_gate_holds s = {} \<and> trading_mode (s_capability_mode s)"

definition close_outbound_gate_locked :: "string \<Rightarrow> string \<Rightarrow> oms \<Rightarrow> oms" where
  "close_outbound_gate_locked reason hold s =
     s\<lparr>s_gate_holds := (if hold \<noteq> [] then insert hold (s_gate_holds s) else s_gate_holds s),
       s_gate_epoch := (if s_gate_open s then s_gate_epoch s + 1 else s_gate_epoch s),
       s_gate_open := False,
       s_gate_reason := str_or reason ''risk_send_gate_closed''\<rparr>"

definition refresh_outbound_gate_locked :: "string \<Rightarrow> oms \<Rightarrow> oms" where
  "refresh_outbound_gate_locked reason s =
     (let should_open = outbound_gate_should_open s in
      s\<lparr>s_gate_epoch := (if should_open \<noteq> s_gate_open s then s_gate_epoch s + 1 else s_gate_epoch s),
        s_gate_open := should_open,
        s_gate_reason := (if should_open then [] else if reason \<noteq> [] then reason
                          else s_gate_reason s)\<rparr>)"

text \<open>A granted permit is the gate epoch it was granted in.\<close>

definition acquire_outbound_order_send_permit_locked ::
  "bool \<Rightarrow> string \<Rightarrow> bool \<Rightarrow> oms \<Rightarrow> oms \<times> (string + int)" where
  "acquire_outbound_order_send_permit_locked risk_increasing symbol0 allow_shutdown_emergency s =
     (let symbol = upper symbol0 in
      if s_stopped s then
        (s, Inl (''shutdown_requested:'' @ str_or (s_shutdown_reason s) ''oms_stopping''))
      else if s_all_order_seal_reason s \<noteq> [] then
        (s, Inl (''outbound_order_gate_closed:'' @ s_all_order_seal_reason s))
      else if s_shutdown_requested s \<and> \<not> allow_shutdown_emergency then
        (s, Inl (''shutdown_requested:'' @ str_or (s_shutdown_reason s) ''oms_stopping''))
      else if risk_increasing \<and> \<not> s_gate_open s then
        (s, Inl (''outbound_gate_closed:'' @ str_or (s_gate_reason s) ''closed''))
      else if risk_increasing \<and> dget (gt_guards (s_symbol_guards s)) symbol \<noteq> None then
        (s, Inl (''symbol_guarded:'' @ symbol @ '':'' @ dgetd (gt_guards (s_symbol_guards s)) symbol []))
      else
        (let s1 = s\<lparr>s_order_inflight := s_order_inflight s + 1\<rparr>;
             s2 = (if risk_increasing then s1\<lparr>s_risk_inflight := s_risk_inflight s1 + 1\<rparr> else s1);
             s3 = (if risk_increasing \<and> symbol \<noteq> []
                   then s2\<lparr>s_risk_by_symbol :=
                          dset symbol (dgetd (s_risk_by_symbol s2) symbol 0 + 1) (s_risk_by_symbol s2)\<rparr>
                   else s2)
         in (s3, Inr (s_gate_epoch s3))))"

definition release_outbound_order_send_permit :: "bool \<Rightarrow> string \<Rightarrow> oms \<Rightarrow> oms" where
  "release_outbound_order_send_permit risk_increasing symbol0 s =
     (let symbol = upper symbol0 in
      if s_order_inflight s \<le> 0 then s
      else
        let s1 = s\<lparr>s_order_inflight := s_order_inflight s - 1\<rparr> in
        if \<not> risk_increasing then s1
        else
          let s2 = (if s_risk_inflight s1 \<le> 0 then s1
                    else s1\<lparr>s_risk_inflight := s_risk_inflight s1 - 1\<rparr>);
              n = dgetd (s_risk_by_symbol s2) symbol 0
          in if symbol = [] \<or> n \<le> 0 then s2
             else if n = 1 then s2\<lparr>s_risk_by_symbol := ddel symbol (s_risk_by_symbol s2)\<rparr>
             else s2\<lparr>s_risk_by_symbol := dset symbol (n - 1) (s_risk_by_symbol s2)\<rparr>)"

definition submit_settlement_count_locked :: "bool \<Rightarrow> string \<Rightarrow> oms \<Rightarrow> nat" where
  "submit_settlement_count_locked risk_increasing_only symbol0 s =
     (let symbol = upper symbol0 in
      length (filter (\<lambda>client_oid. case dget (s_orders s) client_oid of
          None \<Rightarrow> \<not> risk_increasing_only \<and> symbol = []
        | Some order \<Rightarrow>
            \<not> (risk_increasing_only \<and> oi_reduce_only (o_intent order)) \<and>
            \<not> (symbol \<noteq> [] \<and> upper (oi_symbol (o_intent order)) \<noteq> symbol))
        (s_settling s)))"

text \<open>The exit test of the two bounded drain loops.\<close>

definition risk_sends_drained :: "string \<Rightarrow> oms \<Rightarrow> bool" where
  "risk_sends_drained symbol0 s =
     (let symbol = upper symbol0;
          inflight = (if symbol \<noteq> [] then dgetd (s_risk_by_symbol s) symbol 0 else s_risk_inflight s)
      in inflight \<le> 0 \<and> submit_settlement_count_locked True symbol s = 0)"

definition order_sends_drained :: "oms \<Rightarrow> bool" where
  "order_sends_drained s \<longleftrightarrow>
     s_order_inflight s \<le> 0 \<and> submit_settlement_count_locked False [] s = 0"

definition close_outbound_gate :: "string \<Rightarrow> bool \<Rightarrow> oms \<Rightarrow> oms" where
  "close_outbound_gate reason wait s =
     (let s1 = close_outbound_gate_locked reason ''operator'' s in
      if wait then emit [Wait_risk_sends (str_or reason ''operator'') []] s1 else s1)"

subsection \<open>Capability modes\<close>

fun mode_rank :: "oms_capability_mode \<Rightarrow> nat" where
  "mode_rank CM_LIVE = 0"
| "mode_rank CM_DEGRADED = 1"
| "mode_rank CM_PASSIVE_ONLY = 2"
| "mode_rank CM_REDUCE_ONLY = 3"
| "mode_rank CM_CANCEL_ONLY = 4"
| "mode_rank CM_READ_ONLY = 5"
| "mode_rank CM_LOCKDOWN = 6"

definition mode_constraint_key :: "string \<Rightarrow> string" where
  "mode_constraint_key reason0 =
     (let reason = strip reason0 in
      if reason = [] then ''unspecified''
      else if CHR '':'' \<in> set reason then takeWhile (\<lambda>c. c \<noteq> CHR '':'') reason @ '':''
      else reason)"

text \<open>\<open>max\<close> of the constraints by rank, then by key.\<close>

definition constraint_less ::
  "string \<times> (oms_capability_mode \<times> string) \<Rightarrow> string \<times> (oms_capability_mode \<times> string) \<Rightarrow> bool" where
  "constraint_less a b \<longleftrightarrow>
     mode_rank (fst (snd a)) < mode_rank (fst (snd b)) \<or>
     mode_rank (fst (snd a)) = mode_rank (fst (snd b)) \<and> fst a < fst b"

definition refresh_selected_mode_constraint :: "oms \<Rightarrow> oms" where
  "refresh_selected_mode_constraint s = (case s_mode_constraints s of
      [] \<Rightarrow> s\<lparr>s_mode_override := None, s_mode_override_reason := []\<rparr>
    | c # cs \<Rightarrow>
        (let best = fold (\<lambda>x b. if constraint_less b x then x else b) cs c in
         s\<lparr>s_mode_override := Some (fst (snd best)), s_mode_override_reason := snd (snd best)\<rparr>))"

definition capability_mode_for_state :: "lifecycle_state \<Rightarrow> oms_capability_mode" where
  "capability_mode_for_state st =
     (if st = LS_LIVE then CM_LIVE
      else if st \<in> {LS_BOOTSTRAP, LS_RECONCILING} then CM_READ_ONLY
      else if st \<in> {LS_FROZEN, LS_HALTED} then CM_CANCEL_ONLY
      else CM_LOCKDOWN)"

definition effective_mode :: "oms \<Rightarrow> oms_capability_mode" where
  "effective_mode s =
     (let base_mode = capability_mode_for_state (s_state s) in
      case s_mode_override s of
        Some m \<Rightarrow> if mode_rank base_mode < mode_rank m then m else base_mode
      | None \<Rightarrow> base_mode)"

definition sync_capability_mode :: "string \<Rightarrow> oms \<Rightarrow> oms \<times> bool" where
  "sync_capability_mode reason s =
     (let base_mode = capability_mode_for_state (s_state s);
          next_mode = effective_mode s;
          base_reason = str_or reason (lower (lifecycle_value (s_state s)));
          next_reason = (case s_mode_override s of
              Some m \<Rightarrow> if mode_rank base_mode < mode_rank m
                        then str_or (s_mode_override_reason s) base_reason else base_reason
            | None \<Rightarrow> base_reason);
          changed = (s_capability_mode s \<noteq> next_mode \<or> s_capability_reason s \<noteq> next_reason);
          s1 = refresh_outbound_gate_locked next_reason
                 (s\<lparr>s_capability_mode := next_mode, s_capability_reason := next_reason\<rparr>)
      in if changed then audit ''capability_mode_changed'' s1 else (s1, True))"

definition ensure_capability_mode_consistent :: "oms \<Rightarrow> oms \<times> bool" where
  "ensure_capability_mode_consistent s =
     (if s_capability_mode s \<noteq> effective_mode s
      then sync_capability_mode (''state_sync:'' @ lifecycle_value (s_state s)) s else (s, True))"

definition can_cancel_orders :: "oms \<Rightarrow> bool" where
  "can_cancel_orders s \<longleftrightarrow>
     s_capability_mode (fst (ensure_capability_mode_consistent s)) \<in>
       {CM_LIVE, CM_DEGRADED, CM_PASSIVE_ONLY, CM_REDUCE_ONLY, CM_CANCEL_ONLY}"

definition can_open_new_risk :: "oms \<Rightarrow> bool" where
  "can_open_new_risk s \<longleftrightarrow>
     s_capability_mode (fst (ensure_capability_mode_consistent s)) \<in>
       {CM_LIVE, CM_DEGRADED, CM_PASSIVE_ONLY}"

definition can_query_exchange :: "oms \<Rightarrow> bool" where
  "can_query_exchange s \<longleftrightarrow>
     s_capability_mode (fst (ensure_capability_mode_consistent s)) \<noteq> CM_LOCKDOWN"

subsection \<open>Journal failure\<close>

definition latch_journal_failure_locked :: "string \<Rightarrow> string \<Rightarrow> string \<Rightarrow> oms \<Rightarrow> oms \<times> string" where
  "latch_journal_failure_locked exc context symbol s =
     (let reason0 = ''durable_journal_unavailable:'' @ context @ '':'' @ exc;
          already_latched = (''journal_failure'' \<in> s_gate_holds s);
          keep = (already_latched \<and> s_all_order_seal_reason s \<noteq> []);
          reason = (if keep then s_all_order_seal_reason s else reason0);
          s1 = (if keep then s else s\<lparr>s_all_order_seal_reason := reason\<rparr>);
          s2 = (close_outbound_gate_locked reason ''journal_failure'' s1)
                 \<lparr>s_state := LS_HALTED,
                  s_lifecycle_generation := (if already_latched then s_lifecycle_generation s
                                             else s_lifecycle_generation s + 1),
                  s_manual_rearm_required := True, s_last_halt_reason := reason,
                  s_last_freeze_reason := [], s_capability_mode := CM_CANCEL_ONLY,
                  s_capability_reason := reason\<rparr>;
          s3 = (if symbol = [] then s2
                else let target = upper symbol;
                         t = ensure_records symbol_guard_owner target (s_symbol_guards s2);
                         owner = symbol_guard_owner reason
                     in if dget (records_of target t) owner \<noteq> None then s2\<lparr>s_symbol_guards := t\<rparr>
                        else s2\<lparr>s_symbol_guards := commit_guard target owner reason (next_epoch target t) t\<rparr>)
      in (s3, reason))"

definition fail_closed_on_journal_error :: "string \<Rightarrow> string \<Rightarrow> string \<Rightarrow> oms \<Rightarrow> oms" where
  "fail_closed_on_journal_error exc context symbol s =
     (let (s1, reason) = latch_journal_failure_locked exc context symbol s in
      emit ([Publish_halt (''HALT:'' @ reason), Wait_order_sends (''journal_failure:'' @ context)]
            @ map (\<lambda>sym. Cancel_all sym ''journal_failure'') (s_cancel_symbols s1)) s1)"

text \<open>
  In the handlers below \<open>exc\<close> is the text of the journal error, should an audit raise one. \<open>afail\<close>
  is the common \<open>except JournalError\<close> branch around an audited section.
\<close>

definition afail :: "string \<Rightarrow> string \<Rightarrow> oms \<times> bool \<Rightarrow> (oms \<Rightarrow> oms) \<Rightarrow> oms" where
  "afail exc context r k = (if snd r then k (fst r) else fail_closed_on_journal_error exc context [] (fst r))"

subsection \<open>Trading-mode constraints\<close>

definition audit_after :: "string \<Rightarrow> oms \<times> bool \<Rightarrow> oms \<times> bool" where
  "audit_after kind r = (if snd r then audit kind (fst r) else r)"

definition add_constraint :: "string \<Rightarrow> oms_capability_mode \<Rightarrow> string \<Rightarrow> oms \<Rightarrow> oms" where
  "add_constraint key mode reason s =
     (let generation = s_mode_constraint_generation s + 1 in
      s\<lparr>s_mode_constraint_generation := generation,
        s_mode_constraints := dset key (mode, reason) (s_mode_constraints s),
        s_mode_constraint_generations := dset key generation (s_mode_constraint_generations s)\<rparr>)"

definition set_trading_mode ::
  "string \<Rightarrow> oms_capability_mode \<Rightarrow> string \<Rightarrow> oms \<Rightarrow> oms \<times> bool res" where
  "set_trading_mode exc mode reason s =
     (if mode \<notin> {CM_DEGRADED, CM_PASSIVE_ONLY, CM_REDUCE_ONLY} then (s, Inl (ValueError ''mode''))
      else
        let key = mode_constraint_key reason;
            previous = dget (s_mode_constraints s) key in
        if key \<noteq> ''venue_dead_man_switch:'' \<and> previous = Some (mode, reason) then
          (s, Inr (s_mode_override s = Some mode \<and> s_mode_override_reason s = reason))
        else
          let s1 = refresh_selected_mode_constraint (add_constraint key mode reason s);
              r = audit_after ''trading_mode_override_set''
                    (sync_capability_mode (str_or (s_mode_override_reason s1) reason) s1);
              selected = (s_mode_override s1 = Some mode \<and> s_mode_override_reason s1 = reason);
              reduce_only_selected = (s_mode_override s1 = Some CM_REDUCE_ONLY
                                      \<and> previous \<noteq> Some (mode, reason))
          in if \<not> snd r then
               (fail_closed_on_journal_error exc ''set_trading_mode'' [] (fst r), Inr False)
             else if reduce_only_selected then
               (emit [Wait_risk_sends (''trading_mode_reduce_only:'' @ reason) [],
                      Cancel_non_reduce_only] (fst r), Inr selected)
             else (fst r, Inr selected))"

definition constraint_matches ::
  "string list \<Rightarrow> (string, int) dict option \<Rightarrow> oms \<Rightarrow> string list" where
  "constraint_matches prefixes expected s =
     map fst (filter (\<lambda>(key, (_, reason)).
        (prefixes = [] \<or> list_ex (\<lambda>p. starts p reason) prefixes) \<and>
        (case expected of None \<Rightarrow> True
         | Some e \<Rightarrow> dget e key \<noteq> None \<and> dget (s_mode_constraint_generations s) key = dget e key))
      (s_mode_constraints s))"

definition drop_constraints :: "string list \<Rightarrow> oms \<Rightarrow> oms" where
  "drop_constraints keys s =
     s\<lparr>s_mode_constraints := fold ddel keys (s_mode_constraints s),
       s_mode_constraint_generations := fold ddel keys (s_mode_constraint_generations s)\<rparr>"

definition restore_constraints :: "string list \<Rightarrow> oms \<Rightarrow> oms \<Rightarrow> oms" where
  "restore_constraints keys old s =
     s\<lparr>s_mode_constraints :=
         fold (\<lambda>k d. case dget (s_mode_constraints old) k of Some v \<Rightarrow> dset k v d | None \<Rightarrow> d)
           keys (s_mode_constraints s),
       s_mode_constraint_generations :=
         fold (\<lambda>k. dset k (dgetd (s_mode_constraint_generations old) k 0))
           keys (s_mode_constraint_generations s)\<rparr>"

definition clear_trading_mode ::
  "string \<Rightarrow> string \<Rightarrow> string list \<Rightarrow> (string, int) dict option \<Rightarrow> oms \<Rightarrow> oms \<times> bool" where
  "clear_trading_mode exc reason prefixes expected s =
     (let keys = constraint_matches prefixes expected s in
      if keys = [] then (s, False)
      else
        let s1 = refresh_selected_mode_constraint (drop_constraints keys s);
            r = audit_after ''trading_mode_override_cleared''
                  (sync_capability_mode
                    (str_or (s_mode_override_reason s1) (str_or reason ''trading_mode_cleared'')) s1)
        in if snd r then (fst r, True)
           else
             let s2 = (refresh_selected_mode_constraint (restore_constraints keys s (fst r)))
                        \<lparr>s_capability_mode := s_capability_mode s,
                         s_capability_reason := s_capability_reason s\<rparr>;
                 s3 = close_outbound_gate_locked ''durable_journal_unavailable:clear_trading_mode''
                        ''journal_failure'' s2
             in (fail_closed_on_journal_error exc ''clear_trading_mode'' [] s3, False))"

subsection \<open>Lifecycle\<close>

definition freeze_system :: "string \<Rightarrow> string \<Rightarrow> bool \<Rightarrow> oms \<Rightarrow> oms \<times> unit res" where
  "freeze_system exc reason cancel_active_orders s =
     (if s_state s = LS_HALTED then (close_outbound_gate_locked reason [] s, Inr ())
      else
        let r = sync_capability_mode reason
                  (s\<lparr>s_lifecycle_generation := s_lifecycle_generation s + 1, s_state := LS_FROZEN\<rparr>);
            s1 = (fst r)\<lparr>s_last_freeze_reason := reason\<rparr>
        in if \<not> snd r then (fail_closed_on_journal_error exc ''freeze_capability_transition'' [] s1, Inr ())
           else
             let first = (s_state s \<noteq> LS_FROZEN);
                 r2 = audit (if first then ''lifecycle'' else ''freeze_reasserted'') s1 in
             if \<not> snd r2 then
               (fail_closed_on_journal_error exc
                  (if first then ''freeze_system'' else ''freeze_system_reasserted'') [] (fst r2), Inr ())
             else
               let s2 = emit [Wait_risk_sends (''system_freeze:'' @ reason) []] (fst r2) in
               if \<not> cancel_active_orders then (s2, Inr ())
               else
                 let r3 = audit ''freeze_cancel_all_requested'' s2 in
                 if \<not> snd r3 then (fst r3, Inl JournalError)
                 else (emit (map (\<lambda>sym. Cancel_all sym ''system_freeze'') (s_cancel_symbols (fst r3)))
                         (fst r3), Inr ()))"

definition halt_system :: "string \<Rightarrow> string \<Rightarrow> oms \<Rightarrow> oms" where
  "halt_system exc reason s0 =
     (let s = s0\<lparr>s_lifecycle_generation := s_lifecycle_generation s0 + 1\<rparr>;
          was_halted = (s_state s = LS_HALTED);
          s1 = (if was_halted
                then s\<lparr>s_last_halt_reason := reason, s_manual_rearm_required := True\<rparr>
                else s\<lparr>s_state := LS_HALTED, s_manual_rearm_required := True,
                       s_last_halt_reason := reason, s_last_freeze_reason := []\<rparr>);
          r = audit_after (if was_halted then ''halt_reasserted'' else ''lifecycle'')
                (sync_capability_mode reason s1)
      in afail exc ''halt_system'' r (\<lambda>s2.
           emit ((if was_halted then [] else [Publish_halt (''HALT:'' @ reason)])
                 @ Wait_risk_sends (''system_halt:'' @ reason) []
                 # map (\<lambda>sym. Cancel_all sym ''system_halt'') (s_cancel_symbols s2)) s2))"

text \<open>The first locked section of \<open>rearm_system\<close>; the second component says whether the reset is to run.\<close>

definition rearm_begin :: "string \<Rightarrow> string \<Rightarrow> oms \<Rightarrow> oms \<times> bool" where
  "rearm_begin exc reason s =
     (if s_state s \<noteq> LS_HALTED \<or> \<not> s_manual_rearm_required s then
        (afail exc ''rearm_ignored'' (audit ''rearm_ignored'' s) (\<lambda>s1. s1), False)
      else
        let r = audit ''rearm_requested'' s in
        if \<not> snd r then (fail_closed_on_journal_error exc ''rearm_transition'' [] (fst r), False)
        else
          let r2 = audit_after ''lifecycle'' (sync_capability_mode (''manual_rearm:'' @ reason)
                     ((fst r)\<lparr>s_state := LS_RECONCILING,
                             s_lifecycle_generation := s_lifecycle_generation (fst r) + 1\<rparr>))
          in if snd r2 then (fst r2, True)
             else (fail_closed_on_journal_error exc ''rearm_transition'' [] (fst r2), False))"

text \<open>The locked latch of \<open>begin_shutdown\<close> with its two journal-failure exits; the drains that follow only wait.\<close>

definition latch_shutdown :: "string \<Rightarrow> oms \<Rightarrow> oms" where
  "latch_shutdown reason s =
     (let s1 = (if \<not> s_shutdown_requested s
                then s\<lparr>s_shutdown_requested := True, s_shutdown_reason := reason,
                       s_shutdown_cancel_verified := False\<rparr> else s)
      in (close_outbound_gate_locked reason ''shutdown'' s1)
           \<lparr>s_lifecycle_generation := s_lifecycle_generation s + 1\<rparr>)"

definition begin_shutdown :: "string \<Rightarrow> string \<Rightarrow> oms \<Rightarrow> oms \<times> bool" where
  "begin_shutdown exc reason0 s =
     (let reason = str_or reason0 ''operator_shutdown'';
          first_request = (\<not> s_shutdown_requested s);
          s2 = latch_shutdown reason s;
          r = (if s_state s2 \<noteq> LS_HALTED
               then sync_capability_mode (''shutdown:'' @ reason)
                      (s2\<lparr>s_state := LS_FROZEN, s_last_freeze_reason := ''Shutdown: '' @ reason\<rparr>)
               else (s2, True))
      in if \<not> snd r then
           (fail_closed_on_journal_error exc ''begin_shutdown_capability_transition'' [] (fst r), False)
         else
           let r2 = (if first_request then audit ''shutdown_started'' (fst r) else r) in
           if \<not> snd r2 then (fail_closed_on_journal_error exc ''begin_shutdown'' [] (fst r2), False)
           else (emit [Wait_order_sends (''shutdown:'' @ reason)] (fst r2), True))"

definition stop_seal :: "string \<Rightarrow> oms \<Rightarrow> oms" where
  "stop_seal reason s =
     close_outbound_gate_locked ''oms_stop'' ''stopped''
       (s\<lparr>s_stopped := True, s_all_order_seal_reason := str_or reason ''oms_stop''\<rparr>)"

subsection \<open>Symbol and venue freezes\<close>

definition freeze_symbol_locked :: "string \<Rightarrow> string \<Rightarrow> oms \<Rightarrow> oms \<times> int res" where
  "freeze_symbol_locked symbol reason s =
     (let t = ensure_records symbol_guard_owner symbol (s_symbol_guards s);
          owner = symbol_guard_owner reason;
          previous_owner_reason = (case dget (records_of symbol t) owner of None \<Rightarrow> [] | Some r \<Rightarrow> fst r);
          epoch = next_epoch symbol t;
          r = audit (if previous_owner_reason \<noteq> reason then ''symbol_frozen''
                     else ''symbol_freeze_reasserted'') (s\<lparr>s_symbol_guards := t\<rparr>)
      in if \<not> snd r then (fst r, Inl JournalError)
         else (refresh_outbound_gate_locked (''symbol_frozen:'' @ symbol @ '':'' @ reason)
                 ((fst r)\<lparr>s_symbol_guards := commit_guard symbol owner reason epoch t\<rparr>), Inr epoch))"

text \<open>\<open>drained\<close> is the result of the wait for the symbol's outbound risk sends.\<close>

definition enforce_symbol_guard ::
  "string \<Rightarrow> string \<Rightarrow> int \<Rightarrow> bool \<Rightarrow> bool \<Rightarrow> oms \<Rightarrow> oms" where
  "enforce_symbol_guard exc symbol epoch cancel_active_orders drained s =
     (let s1 = emit ((if cancel_active_orders then [Cancel_all symbol (''symbol_freeze_immediate:'' @ str_of_int epoch)] else [])
                 @ [Wait_risk_sends (''symbol_freeze:'' @ symbol) symbol]
                 @ (if cancel_active_orders then [Cancel_all symbol (''symbol_freeze_post_drain:'' @ str_of_int epoch)] else [])) s;
          s2 = (if drained then s1
                else halt_system exc
                  (''Outbound symbol risk-send drain timed out during freeze: '' @ symbol) s1)
      in refresh_outbound_gate_locked (''symbol_guarded:'' @ symbol) s2)"

definition freeze_symbol ::
  "string \<Rightarrow> string \<Rightarrow> string \<Rightarrow> bool \<Rightarrow> bool \<Rightarrow> oms \<Rightarrow> oms \<times> int option res" where
  "freeze_symbol exc symbol0 reason0 cancel_active_orders drained s =
     (if symbol0 = [] then (s, Inr None)
      else
        let symbol = upper symbol0; reason = str_or reason0 ''symbol_guarded'';
            r = freeze_symbol_locked symbol reason s in
        case snd r of
          Inl e \<Rightarrow> (fst r, Inl e)
        | Inr epoch \<Rightarrow>
            (enforce_symbol_guard exc symbol epoch cancel_active_orders drained (fst r), Inr (Some epoch)))"

definition clear_symbol_freeze ::
  "string \<Rightarrow> string \<Rightarrow> int option \<Rightarrow> string \<Rightarrow> string \<Rightarrow> oms \<Rightarrow> oms \<times> bool res" where
  "clear_symbol_freeze symbol0 reason expected_epoch expected_reason expected_owner s =
     (if symbol0 = [] then (s, Inr False)
      else
        let symbol = upper symbol0;
            t = ensure_records symbol_guard_owner symbol (s_symbol_guards s);
            s1 = s\<lparr>s_symbol_guards := t\<rparr>;
            candidates = clear_candidates (if expected_reason = [] then None else Some expected_reason)
                           expected_epoch expected_owner (records_of symbol t)
        in case candidates of
             [(owner, (previous_reason, _))] \<Rightarrow>
               (let r = audit (if ddel owner (records_of symbol t) \<noteq> [] then ''symbol_guard_cleared''
                               else ''symbol_unfrozen'') s1 in
                if \<not> snd r then (fst r, Inl JournalError)
                else (refresh_outbound_gate_locked
                        (str_or reason (str_or previous_reason (''symbol_unfrozen:'' @ symbol)))
                        ((fst r)\<lparr>s_symbol_guards := release_guard symbol owner t\<rparr>),
                      Inr (previous_reason \<noteq> [])))
           | _ \<Rightarrow>
               (let r = audit ''symbol_unfreeze_stale_ignored'' s1 in
                if snd r then (fst r, Inr False) else (fst r, Inl JournalError)))"

text \<open>The venue versions. \<open>venue\<close> is the upper-cased venue name, already resolved against the gateway.\<close>

definition freeze_venue ::
  "string \<Rightarrow> string \<Rightarrow> string \<Rightarrow> bool \<Rightarrow> bool \<Rightarrow> oms \<Rightarrow> oms \<times> int res" where
  "freeze_venue exc venue reason0 cancel_active_orders drained s =
     (let reason = str_or reason0 ''venue_guarded''; owner = venue_guard_owner reason;
          t = ensure_records venue_guard_owner venue (s_venue_guards s);
          previous_owner_reason = (case dget (records_of venue t) owner of None \<Rightarrow> [] | Some r \<Rightarrow> fst r);
          epoch = next_epoch venue t;
          r = audit (if previous_owner_reason \<noteq> reason then ''venue_frozen''
                     else ''venue_freeze_reasserted'') (s\<lparr>s_venue_guards := t\<rparr>)
      in if \<not> snd r then (fst r, Inl JournalError)
         else
           let s1 = emit [Wait_risk_sends (''venue_freeze:'' @ venue) []]
                      (refresh_outbound_gate_locked (''venue_frozen:'' @ venue @ '':'' @ reason)
                        ((fst r)\<lparr>s_venue_guards := commit_guard venue owner reason epoch t\<rparr>))
           in if \<not> cancel_active_orders then (s1, Inr epoch)
              else
                let s2 = emit (map (\<lambda>sym. Cancel_all sym ''venue_freeze'') (s_cancel_symbols s1)) s1 in
                (if drained then s2
                 else halt_system exc
                   (''Outbound risk-send drain timed out during venue freeze: '' @ venue) s2, Inr epoch))"

definition clear_venue_freeze ::
  "string \<Rightarrow> string \<Rightarrow> int option \<Rightarrow> string option \<Rightarrow> string \<Rightarrow> oms \<Rightarrow> oms \<times> bool res" where
  "clear_venue_freeze venue reason expected_epoch expected_reason expected_owner s =
     (let t = ensure_records venue_guard_owner venue (s_venue_guards s);
          s1 = s\<lparr>s_venue_guards := t\<rparr>;
          candidates = clear_candidates expected_reason expected_epoch expected_owner (records_of venue t)
      in case candidates of
           [(owner, (previous_reason, _))] \<Rightarrow>
             (let r = audit (if ddel owner (records_of venue t) \<noteq> [] then ''venue_guard_cleared''
                             else ''venue_unfrozen'') s1 in
              if \<not> snd r then (fst r, Inl JournalError)
              else (refresh_outbound_gate_locked
                      (str_or reason (str_or previous_reason (''venue_unfrozen:'' @ venue)))
                      ((fst r)\<lparr>s_venue_guards := release_guard venue owner t\<rparr>),
                    Inr (previous_reason \<noteq> [])))
         | _ \<Rightarrow>
             (let r = audit ''venue_unfreeze_stale_ignored'' s1 in
              if snd r then (fst r, Inr False) else (fst r, Inl JournalError)))"

text \<open>Strategy-scoped guards. An audit error escapes after the guard has been set or removed.\<close>

definition freeze_strategy ::
  "string \<Rightarrow> string \<Rightarrow> string \<Rightarrow> bool \<Rightarrow> oms \<Rightarrow> oms \<times> unit res" where
  "freeze_strategy strategy_id0 reason symbol0 cancel_active_orders s =
     (let strategy_id = strip strategy_id0; symbol = upper symbol0 in
      if strategy_id = [] then (s, Inr ())
      else
        let previous_reason = (if symbol \<noteq> [] then dgetd (s_strategy_symbol_guards s) (strategy_id, symbol) []
                               else dgetd (s_strategy_guards s) strategy_id []);
            s1 = (if symbol \<noteq> []
                  then s\<lparr>s_strategy_symbol_guards := dset (strategy_id, symbol) reason (s_strategy_symbol_guards s)\<rparr>
                  else s\<lparr>s_strategy_guards := dset strategy_id reason (s_strategy_guards s)\<rparr>);
            s2 = refresh_outbound_gate_locked
                   (''strategy_frozen:'' @ strategy_id @ '':'' @ symbol @ '':'' @ reason) s1;
            r = audit (if previous_reason = reason then ''strategy_freeze_reasserted''
                       else if symbol \<noteq> [] then ''strategy_symbol_frozen'' else ''strategy_frozen'') s2
        in if \<not> snd r then (fst r, Inl JournalError)
           else (refresh_outbound_gate_locked (''strategy_guarded:'' @ strategy_id @ '':'' @ symbol)
                   (emit (Wait_risk_sends (''strategy_freeze:'' @ strategy_id @ '':'' @ symbol) []
                          # (if cancel_active_orders then [Cancel_strategy strategy_id symbol] else [])) (fst r)),
                 Inr ()))"

definition clear_strategy_freeze ::
  "string \<Rightarrow> string \<Rightarrow> string \<Rightarrow> oms \<Rightarrow> oms \<times> bool res" where
  "clear_strategy_freeze strategy_id0 symbol0 reason s =
     (let strategy_id = strip strategy_id0; symbol = upper symbol0 in
      if strategy_id = [] then (s, Inr False)
      else
        let previous_reason = (if symbol \<noteq> [] then dgetd (s_strategy_symbol_guards s) (strategy_id, symbol) []
                               else dgetd (s_strategy_guards s) strategy_id []);
            s1 = (if symbol \<noteq> []
                  then s\<lparr>s_strategy_symbol_guards := ddel (strategy_id, symbol) (s_strategy_symbol_guards s)\<rparr>
                  else s\<lparr>s_strategy_guards := ddel strategy_id (s_strategy_guards s)\<rparr>);
            s2 = refresh_outbound_gate_locked
                   (str_or reason (str_or previous_reason
                      (''strategy_unfrozen:'' @ strategy_id @ '':'' @ symbol))) s1
        in if previous_reason = [] then (s2, Inr False)
           else let r = audit ''strategy_unfrozen'' s2 in
                (fst r, if snd r then Inr True else Inl JournalError))"

definition get_strategy_freeze_reason :: "string \<Rightarrow> string \<Rightarrow> oms \<Rightarrow> string" where
  "get_strategy_freeze_reason strategy_id0 symbol0 s =
     (let strategy_id = strip strategy_id0; symbol = upper symbol0 in
      if strategy_id = [] then []
      else
        let scoped_reason = (if symbol \<noteq> [] then dgetd (s_strategy_symbol_guards s) (strategy_id, symbol) [] else [])
        in if scoped_reason \<noteq> [] then scoped_reason else dgetd (s_strategy_guards s) strategy_id [])"

definition has_active_guards :: "oms \<Rightarrow> bool" where
  "has_active_guards s \<longleftrightarrow> gt_guards (s_symbol_guards s) \<noteq> [] \<or> gt_guards (s_venue_guards s) \<noteq> [] \<or>
     s_strategy_guards s \<noteq> [] \<or> s_strategy_symbol_guards s \<noteq> []"

text \<open>The order-book recovery lifts only the guard its own token names.\<close>

definition clear_orderbook_freeze :: "string \<Rightarrow> string \<Rightarrow> string \<Rightarrow> oms \<Rightarrow> oms \<times> bool res" where
  "clear_orderbook_freeze symbol0 recovery_token0 reason s =
     (let symbol = upper symbol0; recovery_token = strip recovery_token0 in
      if symbol = [] \<or> recovery_token = [] then (s, Inr False)
      else
        let expected_reasons = [''system_health:FATAL_GAP:'' @ recovery_token,
                                ''system_health:ORDERBOOK_RESYNC_FAILED:'' @ recovery_token];
            t = ensure_records symbol_guard_owner symbol (s_symbol_guards s);
            s1 = s\<lparr>s_symbol_guards := t\<rparr>
        in case filter (\<lambda>(_, (r, _)). r \<in> set expected_reasons) (records_of symbol t) of
             [(owner, (current_reason, current_epoch))] \<Rightarrow>
               clear_symbol_freeze symbol reason (Some current_epoch) current_reason owner s1
           | _ \<Rightarrow> (let r = audit ''orderbook_unfreeze_stale_ignored'' s1 in
                  (fst r, if snd r then Inr False else Inl JournalError)))"

subsection \<open>Recovery cleanup\<close>

definition prefix_selected :: "string list \<Rightarrow> string \<Rightarrow> bool" where
  "prefix_selected prefixes guard_reason \<longleftrightarrow>
     prefixes = [] \<or> list_ex (\<lambda>p. starts p guard_reason) prefixes"

text \<open>Capturing also migrates the symbols' legacy guards to records, as in the code.\<close>

definition capture_guard_cleanup_snapshot :: "string list \<Rightarrow> oms \<Rightarrow> oms \<times> cleanup_snapshot" where
  "capture_guard_cleanup_snapshot prefixes s =
     (let keys = remdups (dkeys (gt_guards (s_symbol_guards s)) @ dkeys (gt_records (s_symbol_guards s)));
          t = fold (ensure_records symbol_guard_owner) keys (s_symbol_guards s)
      in (s\<lparr>s_symbol_guards := t\<rparr>,
          \<lparr>cs_symbols = concat (map (\<lambda>k. map (\<lambda>(ow, (r, e)). (k, ow, r, e))
               (filter (\<lambda>(ow, (r, e)). prefix_selected prefixes r) (records_of k t))) keys),
           cs_venues = map (\<lambda>(v, r). (v, r, dgetd (gt_epochs (s_venue_guards s)) v 0))
               (filter (\<lambda>(v, r). prefix_selected prefixes r) (gt_guards (s_venue_guards s))),
           cs_strategies = filter (\<lambda>(_, r). prefix_selected prefixes r) (s_strategy_guards s),
           cs_strategy_symbols = map (\<lambda>((st, sy), r). (st, sy, r))
               (filter (\<lambda>(_, r). prefix_selected prefixes r) (s_strategy_symbol_guards s))\<rparr>))"

text \<open>A loop of clears: the first error ends it, what was cleared stays cleared.\<close>

fun clear_each :: "('x \<Rightarrow> oms \<Rightarrow> oms \<times> bool res) \<Rightarrow> 'x list \<Rightarrow> oms \<Rightarrow> oms \<times> int res" where
  "clear_each f [] s = (s, Inr 0)"
| "clear_each f (x # xs) s =
     (case f x s of
        (s1, Inl e) \<Rightarrow> (s1, Inl e)
      | (s1, Inr b) \<Rightarrow>
          (case clear_each f xs s1 of
             (s2, Inl e) \<Rightarrow> (s2, Inl e)
           | (s2, Inr n) \<Rightarrow> (s2, Inr (n + (if b then 1 else 0)))))"

definition clear_guard_cleanup_snapshot ::
  "cleanup_snapshot \<Rightarrow> string \<Rightarrow> oms \<Rightarrow> oms \<times> int res" where
  "clear_guard_cleanup_snapshot snapshot reason s =
     (let c1 = clear_each (\<lambda>(symbol, owner, guard_reason, epoch).
                 clear_symbol_freeze symbol reason (Some epoch) guard_reason owner) (cs_symbols snapshot) s in
      case snd c1 of Inl e \<Rightarrow> (fst c1, Inl e) | Inr n1 \<Rightarrow>
      let c2 = clear_each (\<lambda>(venue, guard_reason, epoch).
                 clear_venue_freeze venue reason (Some epoch) (Some guard_reason) []) (cs_venues snapshot) (fst c1) in
      case snd c2 of Inl e \<Rightarrow> (fst c2, Inl e) | Inr n2 \<Rightarrow>
      let c3 = clear_each (\<lambda>(strategy_id, guard_reason) st.
                 if dgetd (s_strategy_guards st) strategy_id [] \<noteq> guard_reason then (st, Inr False)
                 else clear_strategy_freeze strategy_id [] reason st) (cs_strategies snapshot) (fst c2) in
      case snd c3 of Inl e \<Rightarrow> (fst c3, Inl e) | Inr n3 \<Rightarrow>
      let c4 = clear_each (\<lambda>(strategy_id, symbol, guard_reason) st.
                 if dgetd (s_strategy_symbol_guards st) (strategy_id, symbol) [] \<noteq> guard_reason then (st, Inr False)
                 else clear_strategy_freeze strategy_id symbol reason st) (cs_strategy_symbols snapshot) (fst c3) in
      case snd c4 of Inl e \<Rightarrow> (fst c4, Inl e) | Inr n4 \<Rightarrow> (fst c4, Inr (n1 + n2 + n3 + n4)))"

text \<open>\<open>clear_transient_guards\<close> with the snapshot the caller captured, or with one taken now.\<close>

definition clear_transient_guards ::
  "string list \<Rightarrow> cleanup_snapshot option \<Rightarrow> oms \<Rightarrow> oms \<times> int res" where
  "clear_transient_guards prefixes guard_snapshot s =
     (if prefixes = [] then (s, Inr 0)
      else
        let c = (case guard_snapshot of Some snap \<Rightarrow> (s, snap)
                 | None \<Rightarrow> capture_guard_cleanup_snapshot prefixes s)
        in clear_guard_cleanup_snapshot (snd c) ''transient guard cleared after truth verification'' (fst c))"

definition empty_snapshot :: cleanup_snapshot where
  "empty_snapshot = \<lparr>cs_symbols = [], cs_venues = [], cs_strategies = [], cs_strategy_symbols = []\<rparr>"

definition clear_recovered_guards_if_pending :: "string \<Rightarrow> oms \<Rightarrow> oms \<times> int res" where
  "clear_recovered_guards_if_pending reason s =
     (if \<not> s_recovered_pending s then (s, Inr 0)
      else
        let why = str_or reason ''recovered_guard_cleared'';
            c = clear_guard_cleanup_snapshot
                  (case s_recovered_snapshot s of Some snap \<Rightarrow> snap | None \<Rightarrow> empty_snapshot) why s
        in case snd c of
             Inl e \<Rightarrow> (fst c, Inl e)
           | Inr cleared \<Rightarrow>
               let s1 = (fst c)\<lparr>s_recovered_pending := False, s_recovered_snapshot := None\<rparr> in
               if cleared = 0 then (s1, Inr 0)
               else let r = audit ''recovered_guards_cleared'' s1 in
                    (fst r, if snd r then Inr cleared else Inl JournalError))"

subsection \<open>Full reset\<close>

text \<open>
  The first and the last locked section of \<open>_perform_full_reset\<close>: the state, the generation and the
  guard snapshot are read when the reset begins and decide whether it may resume. The last section's
  second component says whether it raised (the reset then halts).
\<close>

definition full_reset_begin :: "oms \<Rightarrow> oms \<times> lifecycle_state \<times> int \<times> cleanup_snapshot" where
  "full_reset_begin s =
     (let c = capture_guard_cleanup_snapshot [''truth_plane:''] s
      in (fst c, s_state s, s_lifecycle_generation s, snd c))"

definition full_reset_resume ::
  "lifecycle_state \<Rightarrow> int \<Rightarrow> cleanup_snapshot \<Rightarrow> oms \<Rightarrow> oms \<times> bool" where
  "full_reset_resume entry_state entry_generation snapshot s =
     (if s_shutdown_requested s \<or> s_stopped s then
        let s1 = (if s_state s \<noteq> LS_HALTED
                  then s\<lparr>s_state := LS_FROZEN, s_lifecycle_generation := s_lifecycle_generation s + 1\<rparr>
                  else s)
        in audit_after ''full_reset_resume_suppressed'' (sync_capability_mode ''shutdown_requested'' s1)
      else if entry_state \<notin> {LS_BOOTSTRAP, LS_RECONCILING} \<or> s_state s \<noteq> entry_state
              \<or> s_lifecycle_generation s \<noteq> entry_generation then
        audit ''full_reset_resume_suppressed'' s
      else
        let r = sync_capability_mode ''full_reset_completed''
                  (s\<lparr>s_state := LS_LIVE, s_lifecycle_generation := s_lifecycle_generation s + 1\<rparr>)
        in if \<not> snd r then r
           else
             let c1 = clear_transient_guards [''truth_plane:''] (Some snapshot)
                        ((fst r)\<lparr>s_manual_rearm_required := False, s_last_freeze_reason := [],
                                s_last_halt_reason := []\<rparr>)
             in case snd c1 of Inl _ \<Rightarrow> (fst c1, False) | Inr _ \<Rightarrow>
             let c2 = clear_recovered_guards_if_pending ''full_reset_completed'' (fst c1)
             in case snd c2 of Inl _ \<Rightarrow> (fst c2, False) | Inr _ \<Rightarrow>
               audit ''full_reset_completed'' (fst c2))"

definition full_reset_commit ::
  "string \<Rightarrow> lifecycle_state \<Rightarrow> int \<Rightarrow> cleanup_snapshot \<Rightarrow> oms \<Rightarrow> oms" where
  "full_reset_commit exc entry_state entry_generation snapshot s =
     (let r = full_reset_resume entry_state entry_generation snapshot s in
      if snd r then fst r else halt_system exc (''Reset failed: '' @ exc) (fst r))"

text \<open>The locked section that ends \<open>rearm_system\<close>, after the reset.\<close>

definition rearm_finish :: "string \<Rightarrow> oms \<Rightarrow> oms \<times> bool" where
  "rearm_finish exc s =
     (if s_state s = LS_LIVE then
        let r = audit ''rearm_completed'' (s\<lparr>s_manual_rearm_required := False, s_last_halt_reason := []\<rparr>)
        in if snd r then (fst r, True)
           else (fail_closed_on_journal_error exc ''rearm_completed'' []
                   ((fst r)\<lparr>s_manual_rearm_required := True\<rparr>), False)
      else (s\<lparr>s_manual_rearm_required := True\<rparr>, False))"

subsection \<open>Anomalies and reconciliation\<close>

definition latch_background_task_failure :: "string \<Rightarrow> string \<Rightarrow> oms \<Rightarrow> oms \<times> unit res" where
  "latch_background_task_failure key reason s =
     (let failure_reason = ''background_task_unavailable:'' @ str_or key ''unknown'' @ '':'' @ str_or reason ''rejected'';
          s1 = close_outbound_gate_locked failure_reason ''background_task_failure''
                 (s\<lparr>s_background_rejections := s_background_rejections s + 1\<rparr>);
          r = sync_capability_mode failure_reason
                (s1\<lparr>s_lifecycle_generation := (if s_state s1 \<noteq> LS_HALTED then s_lifecycle_generation s1 + 1
                                              else s_lifecycle_generation s1),
                   s_state := LS_HALTED, s_manual_rearm_required := True,
                   s_last_halt_reason := failure_reason, s_last_freeze_reason := []\<rparr>)
      in if snd r then (fst (audit ''background_task_failure'' (fst r)), Inr ()) else (fst r, Inl JournalError))"

text \<open>\<open>submission\<close> is the executor's answer: \<open>None\<close> accepted, \<open>Some why\<close> rejected.\<close>

definition schedule_pending_reconcile_requests :: "string option \<Rightarrow> oms \<Rightarrow> oms \<times> bool res" where
  "schedule_pending_reconcile_requests submission s =
     (if s_pending_reconcile s = [] \<or> s_shutdown_requested s \<or> s_stopped s \<or>
         s_state s \<in> {LS_RECONCILING, LS_HALTED} then (s, Inr False)
      else case submission of
             None \<Rightarrow> (emit [Schedule_reconcile] s, Inr True)
           | Some why \<Rightarrow>
               (let r = latch_background_task_failure ''reconcile:request'' why s in
                (fst r, case snd r of Inl e \<Rightarrow> Inl e | Inr _ \<Rightarrow> Inr False)))"

definition queue_reconcile_request ::
  "string \<Rightarrow> string \<Rightarrow> string option \<Rightarrow> oms \<Rightarrow> oms \<times> bool res" where
  "queue_reconcile_request reason0 suspicious_oid submission s =
     (let reason = str_or reason0 ''exchange_truth_anomaly''; request = (reason, suspicious_oid) in
      if s_shutdown_requested s \<or> s_stopped s \<or> s_state s = LS_HALTED then (s, Inr False)
      else if request \<notin> set (s_pending_reconcile s) \<and>
              s_max_pending_reconcile s \<le> length (s_pending_reconcile s) then
        (let r = latch_background_task_failure ''reconcile:request'' ''pending_anomaly_limit'' s in
         (fst r, case snd r of Inl e \<Rightarrow> Inl e | Inr _ \<Rightarrow> Inr False))
      else
        let s1 = (if request \<in> set (s_pending_reconcile s) then s
                  else s\<lparr>s_pending_reconcile := s_pending_reconcile s @ [request]\<rparr>);
            r = (if s_state s1 = LS_RECONCILING then (s1, True)
                 else sync_capability_mode reason
                   (s1\<lparr>s_lifecycle_generation := (if s_state s1 \<noteq> LS_FROZEN then s_lifecycle_generation s1 + 1
                                                else s_lifecycle_generation s1),
                      s_state := LS_FROZEN, s_last_freeze_reason := reason\<rparr>))
        in if snd r then schedule_pending_reconcile_requests submission (fst r)
           else (fst r, Inl JournalError))"

text \<open>The common body of the three \<open>_quarantine_*_locked\<close> functions.\<close>

definition quarantine ::
  "string \<Rightarrow> string \<Rightarrow> string \<Rightarrow> string \<Rightarrow> string option \<Rightarrow> oms \<Rightarrow> oms \<times> bool res" where
  "quarantine kind reason request suspicious_oid submission s =
     (let r = audit kind s in
      if \<not> snd r then (fst r, Inl JournalError)
      else
        let r2 = (if s_state s \<in> {LS_HALTED, LS_RECONCILING} then r
                  else audit_after ''lifecycle'' (sync_capability_mode reason
                    ((fst r)\<lparr>s_state := LS_FROZEN, s_lifecycle_generation := s_lifecycle_generation s + 1,
                            s_last_freeze_reason := reason\<rparr>)))
        in if snd r2 then queue_reconcile_request request suspicious_oid submission (fst r2)
           else (fst r2, Inl JournalError))"

definition quarantine_invalid_account_update ::
  "string \<Rightarrow> string option \<Rightarrow> oms \<Rightarrow> oms \<times> bool res" where
  "quarantine_invalid_account_update detail =
     quarantine ''invalid_exchange_account_update'' (''account_truth:invalid_update:'' @ detail)
       (''Invalid exchange account update: '' @ detail) []"

definition quarantine_execution_gap ::
  "string \<Rightarrow> string \<Rightarrow> string \<Rightarrow> string option \<Rightarrow> oms \<Rightarrow> oms \<times> bool res" where
  "quarantine_execution_gap symbol client_oid detail =
     quarantine ''execution_truth_gap'' (''execution_truth:'' @ symbol @ '':'' @ client_oid @ '':'' @ detail)
       (''Unverified execution gap '' @ client_oid) client_oid"

definition quarantine_invalid_order_update ::
  "string \<Rightarrow> string \<Rightarrow> string \<Rightarrow> string \<Rightarrow> string option \<Rightarrow> oms \<Rightarrow> oms \<times> bool res" where
  "quarantine_invalid_order_update client_oid exchange_oid symbol0 detail =
     (let suspicious_oid = str_or client_oid exchange_oid; symbol = upper symbol0 in
      quarantine ''invalid_exchange_order_update''
        (''execution_truth:'' @ str_or symbol ''UNKNOWN'' @ '':'' @ str_or suspicious_oid ''UNKNOWN''
          @ '':invalid_update:'' @ detail)
        (''Invalid exchange order update: '' @ detail) suspicious_oid)"

text \<open>The last-resort fence when a submit cannot be settled; its own errors are logged only.\<close>

definition close_gate_after_submit_settlement_failure ::
  "clock \<Rightarrow> string \<Rightarrow> string \<Rightarrow> string \<Rightarrow> oms \<Rightarrow> oms" where
  "close_gate_after_submit_settlement_failure clk client_oid context exc_type s =
     (let s0 = (case dget (s_orders s) client_oid of
                  Some order \<Rightarrow> if o_status order = SUBMITTING
                    then s\<lparr>s_orders := dset client_oid
                           (fst (mark_submit_unknown clk (''submit_settlement_failed:'' @ exc_type) order)) (s_orders s)\<rparr>
                    else s
                | None \<Rightarrow> s);
          reason = ''submit_settlement_failed:'' @ context;
          s1 = close_outbound_gate_locked reason ''submit_exception_settlement_failure'' s0
      in if s_state s1 \<in> {LS_HALTED, LS_RECONCILING} then s1
         else fst (sync_capability_mode reason
                (s1\<lparr>s_state := LS_FROZEN, s_lifecycle_generation := s_lifecycle_generation s1 + 1,
                   s_last_freeze_reason := reason\<rparr>)))"

text \<open>
  \<open>trigger_reconcile\<close>: \<open>suppression\<close> is the cooldown that applies (empty: none), \<open>submission\<close> the
  executor's answer.
\<close>

definition reconcile_start :: "string \<Rightarrow> string \<Rightarrow> oms \<Rightarrow> oms \<times> int option res" where
  "reconcile_start reason suppression s =
     (if s_shutdown_requested s \<or> s_stopped s \<or> s_state s \<noteq> LS_FROZEN then (s, Inr None)
      else if suppression \<noteq> [] then
        (let r = audit ''reconcile_suppressed'' s in
         if snd r then (emit [Schedule_reconcile_retry reason] (fst r), Inr None) else (fst r, Inl JournalError))
      else
        let r = audit_after ''reconcile_requested'' (sync_capability_mode reason
                  (s\<lparr>s_state := LS_RECONCILING, s_lifecycle_generation := s_lifecycle_generation s + 1\<rparr>))
        in (fst r, if snd r then Inr (Some (s_lifecycle_generation s + 1)) else Inl JournalError))"

definition reconcile_publish :: "string option \<Rightarrow> int \<Rightarrow> oms \<Rightarrow> oms \<times> bool res" where
  "reconcile_publish submission generation s =
     (case submission of
        None \<Rightarrow> (emit [Start_reconcile generation] s, Inr True)
      | Some why \<Rightarrow>
          (let r = latch_background_task_failure ''reconcile:execute'' why s in
           case snd r of
             Inl e \<Rightarrow> (fst r, Inl e)
           | Inr _ \<Rightarrow>
               if s_state (fst r) = LS_RECONCILING then
                 let r2 = sync_capability_mode ''reconcile_worker_unavailable''
                       ((fst r)\<lparr>s_state := LS_FROZEN, s_lifecycle_generation := s_lifecycle_generation (fst r) + 1\<rparr>)
                 in (fst r2, if snd r2 then Inr False else Inl JournalError)
               else (fst r, Inr False)))"

definition trigger_reconcile ::
  "string \<Rightarrow> string \<Rightarrow> string \<Rightarrow> string option \<Rightarrow> oms \<Rightarrow> oms \<times> bool res" where
  "trigger_reconcile exc reason suppression submission s =
     (if s_shutdown_requested s \<or> s_stopped s \<or> s_state s \<in> {LS_RECONCILING, LS_HALTED} then (s, Inr False)
      else
        let r = freeze_system exc (''Awaiting reconcile: '' @ reason) True s in
        case snd r of Inl e \<Rightarrow> (fst r, Inl e) | Inr _ \<Rightarrow>
        let r2 = reconcile_start reason suppression (fst r) in
        case snd r2 of Inl e \<Rightarrow> (fst r2, Inl e) | Inr None \<Rightarrow> (fst r2, Inr False)
        | Inr (Some generation) \<Rightarrow> reconcile_publish submission generation (fst r2))"

text \<open>The locked section of \<open>_execute_reconcile\<close> that resumes after a false alarm.\<close>

definition reconcile_resume :: "string \<Rightarrow> int \<Rightarrow> oms \<Rightarrow> oms" where
  "reconcile_resume exc reconcile_generation s =
     (let r = (if s_shutdown_requested s \<or> s_stopped s \<or> s_state s \<noteq> LS_RECONCILING
                  \<or> s_lifecycle_generation s \<noteq> reconcile_generation
               then audit ''reconcile_resume_suppressed'' s
               else
                 let r1 = sync_capability_mode ''reconcile_cleared''
                            (s\<lparr>s_state := LS_LIVE, s_lifecycle_generation := s_lifecycle_generation s + 1\<rparr>)
                 in if \<not> snd r1 then r1
                    else
                      let c = clear_recovered_guards_if_pending ''reconcile_cleared''
                                ((fst r1)\<lparr>s_last_freeze_reason := []\<rparr>)
                      in case snd c of Inl _ \<Rightarrow> (fst c, False) | Inr _ \<Rightarrow> audit ''reconcile_cleared'' (fst c))
      in if snd r then fst r else halt_system exc (''Reconcile critical error: '' @ exc) (fst r))"

definition complete_venue_recovery_verification ::
  "string \<Rightarrow> int option \<Rightarrow> string \<Rightarrow> string \<Rightarrow> oms \<Rightarrow> oms \<times> bool res" where
  "complete_venue_recovery_verification venue0 expected_epoch expected_owner expected_reason s =
     (let venue = upper venue0 in
      if s_state s \<noteq> LS_LIVE then (s, Inr False)
      else
        let t = ensure_records venue_guard_owner venue (s_venue_guards s);
            s0 = s\<lparr>s_venue_guards := t\<rparr>;
            record = dget (records_of venue t) expected_owner;
            current_epoch = (case record of Some r \<Rightarrow> snd r | None \<Rightarrow> 0);
            current_reason = (case record of Some r \<Rightarrow> fst r | None \<Rightarrow> [])
        in if expected_owner = [] \<or> expected_epoch = None \<or> Some current_epoch \<noteq> expected_epoch
              \<or> current_reason \<noteq> expected_reason then
             (let r = audit_after ''venue_recovery_verification_stale''
                        (sync_capability_mode ''venue_recovery_epoch_changed''
                          (s0\<lparr>s_state := LS_FROZEN, s_lifecycle_generation := s_lifecycle_generation s + 1,
                             s_last_freeze_reason := ''Venue recovery owner changed for '' @ venue @ '': owner='' @ expected_owner
                               @ '' expected_epoch='' @ (case expected_epoch of None \<Rightarrow> ''None'' | Some e \<Rightarrow> str_of_int e)
                               @ '' current_epoch='' @ str_of_int current_epoch\<rparr>))
              in (fst r, if snd r then Inr False else Inl JournalError))
           else
             let r = clear_venue_freeze venue ''truth_verified_after_transport_recovery'' expected_epoch
                       (Some expected_reason) expected_owner s0
             in case snd r of
                  Inl e \<Rightarrow> (fst r, Inl e)
                | Inr False \<Rightarrow> (fst r, Inr False)
                | Inr True \<Rightarrow> (let r2 = audit ''venue_recovery_verified'' (fst r) in
                              (fst r2, if snd r2 then Inr True else Inl JournalError)))"

definition request_venue_recovery_verification ::
  "string \<Rightarrow> string \<Rightarrow> string \<Rightarrow> string \<Rightarrow> int option \<Rightarrow> string option \<Rightarrow> string \<Rightarrow> string option
    \<Rightarrow> oms \<Rightarrow> oms \<times> bool res" where
  "request_venue_recovery_verification exc venue reason expected_owner expected_epoch expected_reason
       suppression submission s =
     (if s_shutdown_requested s \<or> s_stopped s then (s, Inr False)
      else
        let t = ensure_records venue_guard_owner venue (s_venue_guards s);
            s0 = s\<lparr>s_venue_guards := t\<rparr>;
            named = (if expected_owner \<noteq> [] then
                       (case dget (records_of venue t) expected_owner of None \<Rightarrow> [] | Some r \<Rightarrow> [(expected_owner, r)])
                     else records_of venue t)
        in case filter (\<lambda>(_, (r, e)). (case expected_epoch of None \<Rightarrow> True | Some x \<Rightarrow> e = x) \<and>
                  (case expected_reason of None \<Rightarrow> True | Some x \<Rightarrow> r = x)) named of
             [(owner, (guard_reason, epoch))] \<Rightarrow>
               if guard_reason = [] \<or> epoch \<le> 0 then (s0, Inr False)
               else
                 let r = audit ''venue_recovery_verification_requested'' s0 in
                 if \<not> snd r then (fst r, Inl JournalError)
                 else trigger_reconcile exc (''Venue recovery verification: '' @ venue @ '': '' @ reason)
                        suppression submission (fst r)
           | _ \<Rightarrow> (let r = audit ''venue_recovery_verification_stale_ignored'' s0 in
                  (fst r, if snd r then Inr False else Inl JournalError)))"

text \<open>
  \<open>bootstrap\<close> up to the full reset it ends with. It holds no lock: it writes its request, reads the state and
  chooses a route; the call of the venue dead-man switch, a network call, lies between that test and the
  writes of the route. So the request and the two routes are operations of their own, and a route runs on whatever state it
  meets. \<open>armed\<close> is the answer of the dead-man switch, which halts the OMS itself when it is
  unavailable. The third route is the full reset. In the guarded route the write of the state and the mode sync right
  after it are taken as one step.
\<close>

datatype bootstrap_route = Route_blocked | Route_guarded | Route_reset

definition bootstrap_request :: "oms \<Rightarrow> oms \<times> bootstrap_route res" where
  "bootstrap_request s =
     (let r = audit ''bootstrap_requested'' s in
      (fst r, if \<not> snd r then Inl JournalError
              else if s_manual_rearm_required s \<or> s_state s = LS_HALTED then Inr Route_blocked
              else if s_state s = LS_FROZEN \<or> has_active_guards s then Inr Route_guarded
              else Inr Route_reset))"

definition bootstrap_blocked :: "string \<Rightarrow> bool \<Rightarrow> oms \<Rightarrow> oms \<times> bool res" where
  "bootstrap_blocked exc armed s =
     (if \<not> armed then (halt_system exc ''venue_dead_man_switch_unavailable:bootstrap_read_only'' s, Inr False)
      else
        let r = audit_after ''bootstrap_blocked'' (sync_capability_mode ''manual_rearm_required'' s)
        in (fst r, if snd r then Inr False else Inl JournalError))"

definition bootstrap_guarded :: "string \<Rightarrow> bool \<Rightarrow> string \<Rightarrow> string option \<Rightarrow> oms \<Rightarrow> oms \<times> bool res" where
  "bootstrap_guarded exc armed suppression submission s =
     (if \<not> armed then (halt_system exc ''venue_dead_man_switch_unavailable:bootstrap_guarded'' s, Inr False)
      else
        let r = sync_capability_mode ''bootstrap_guarded'' (s\<lparr>s_state := LS_FROZEN\<rparr>) in
        if \<not> snd r then (fst r, Inl JournalError)
        else
          let s1 = (fst r)\<lparr>s_recovered_pending := True,
                     s_last_freeze_reason := str_or (s_last_freeze_reason (fst r)) ''Recovered guarded state''\<rparr>;
              r1 = audit ''bootstrap_guarded'' s1
          in if \<not> snd r1 then (fst r1, Inl JournalError)
             else
               let r2 = trigger_reconcile exc ''Recovered guarded state'' suppression submission (fst r1)
               in (fst r2, case snd r2 of Inl e \<Rightarrow> Inl e | Inr _ \<Rightarrow> Inr True))"

subsection \<open>The system of handlers\<close>

text \<open>
  One locked section or whole handler per operation; the journal-error text of each is its first
  argument. The permits that threads currently hold are a ghost list beside the state: a thread
  releases only a permit it holds. \<open>Change_orders\<close> stands for the threads that submit, settle and update orders: to this state they may
  do anything to the map of orders and to the settlements under way.
\<close>

datatype oms_op =
    Acquire_permit bool string bool
  | Release_permit bool string
  | Close_gate string bool
  | Set_mode string oms_capability_mode string
  | Clear_mode string string "string list" "(string, int) dict option"
  | Freeze_system string string bool
  | Halt_system string string
  | Full_reset_begin
  | Full_reset_commit string lifecycle_state int cleanup_snapshot
  | Rearm_begin string string
  | Rearm_finish string
  | Begin_shutdown string string
  | Stop_seal string
  | Freeze_symbol string string string bool bool
  | Clear_symbol string string "int option" string string
  | Clear_orderbook string string string
  | Freeze_venue string string string bool bool
  | Clear_venue string string "int option" "string option" string
  | Freeze_strategy string string string bool
  | Clear_strategy string string string
  | Clear_transient "string list" "cleanup_snapshot option"
  | Journal_failure string string string
  | Background_failure string string
  | Quarantine_account string "string option"
  | Quarantine_gap string string string "string option"
  | Quarantine_order string string string string "string option"
  | Submit_fence clock string string string
  | Reconcile_start string string
  | Reconcile_publish "string option" int
  | Trigger_reconcile string string string "string option"
  | Reconcile_resume string int
  | Complete_venue_recovery string "int option" string string
  | Request_venue_recovery string string string string "int option" "string option" string "string option"
  | Bootstrap_request
  | Bootstrap_blocked string bool
  | Bootstrap_guarded string bool string "string option"
  | Ensure_mode
  | Change_orders "(string, order) dict" "string list"

type_synonym oms_sys = "oms \<times> (bool \<times> string) list"

fun oms_handler :: "oms_op \<Rightarrow> oms \<Rightarrow> oms" where
  "oms_handler (Close_gate r w) s = close_outbound_gate r w s"
| "oms_handler (Set_mode e m r) s = fst (set_trading_mode e m r s)"
| "oms_handler (Clear_mode e r ps ex) s = fst (clear_trading_mode e r ps ex s)"
| "oms_handler (Freeze_system e r c) s = fst (freeze_system e r c s)"
| "oms_handler (Halt_system e r) s = halt_system e r s"
| "oms_handler Full_reset_begin s = fst (full_reset_begin s)"
| "oms_handler (Full_reset_commit e st g sn) s = full_reset_commit e st g sn s"
| "oms_handler (Rearm_begin e r) s = fst (rearm_begin e r s)"
| "oms_handler (Rearm_finish e) s = fst (rearm_finish e s)"
| "oms_handler (Begin_shutdown e r) s = fst (begin_shutdown e r s)"
| "oms_handler (Stop_seal r) s = stop_seal r s"
| "oms_handler (Freeze_symbol e sy r c d) s = fst (freeze_symbol e sy r c d s)"
| "oms_handler (Clear_symbol sy r ee er eo) s = fst (clear_symbol_freeze sy r ee er eo s)"
| "oms_handler (Clear_orderbook sy tok r) s = fst (clear_orderbook_freeze sy tok r s)"
| "oms_handler (Freeze_venue e v r c d) s = fst (freeze_venue e v r c d s)"
| "oms_handler (Clear_venue v r ee er eo) s = fst (clear_venue_freeze v r ee er eo s)"
| "oms_handler (Freeze_strategy st r sy c) s = fst (freeze_strategy st r sy c s)"
| "oms_handler (Clear_strategy st sy r) s = fst (clear_strategy_freeze st sy r s)"
| "oms_handler (Clear_transient ps sn) s = fst (clear_transient_guards ps sn s)"
| "oms_handler (Journal_failure e c sy) s = fail_closed_on_journal_error e c sy s"
| "oms_handler (Background_failure k r) s = fst (latch_background_task_failure k r s)"
| "oms_handler (Quarantine_account d sub) s = fst (quarantine_invalid_account_update d sub s)"
| "oms_handler (Quarantine_gap sy oid d sub) s = fst (quarantine_execution_gap sy oid d sub s)"
| "oms_handler (Quarantine_order c x sy d sub) s = fst (quarantine_invalid_order_update c x sy d sub s)"
| "oms_handler (Submit_fence clk oid c e) s = close_gate_after_submit_settlement_failure clk oid c e s"
| "oms_handler (Reconcile_start r su) s = fst (reconcile_start r su s)"
| "oms_handler (Reconcile_publish sub g) s = fst (reconcile_publish sub g s)"
| "oms_handler (Trigger_reconcile e r su sub) s = fst (trigger_reconcile e r su sub s)"
| "oms_handler (Reconcile_resume e g) s = reconcile_resume e g s"
| "oms_handler (Complete_venue_recovery v ee eo er) s = fst (complete_venue_recovery_verification v ee eo er s)"
| "oms_handler (Request_venue_recovery e v r eo ee er su sub) s =
     fst (request_venue_recovery_verification e v r eo ee er su sub s)"
| "oms_handler Bootstrap_request s = fst (bootstrap_request s)"
| "oms_handler (Bootstrap_blocked e a) s = fst (bootstrap_blocked e a s)"
| "oms_handler (Bootstrap_guarded e a su sub) s = fst (bootstrap_guarded e a su sub s)"
| "oms_handler Ensure_mode s = fst (ensure_capability_mode_consistent s)"
| "oms_handler (Change_orders orders settling) s = s\<lparr>s_orders := orders, s_settling := settling\<rparr>"
| "oms_handler _ s = s"

fun oms_step :: "oms_op \<Rightarrow> oms_sys \<Rightarrow> oms_sys" where
  "oms_step (Acquire_permit risk symbol em) (s, held) =
     (case acquire_outbound_order_send_permit_locked risk symbol em s of
        (s', Inr _) \<Rightarrow> (s', (risk, upper symbol) # held)
      | (s', Inl _) \<Rightarrow> (s', held))"
| "oms_step (Release_permit risk symbol) (s, held) =
     (if (risk, upper symbol) \<in> set held
      then (release_outbound_order_send_permit risk symbol s, remove1 (risk, upper symbol) held)
      else (s, held))"
| "oms_step x (s, held) = (oms_handler x s, held)"

end
