(* ===== verification/Order_Book.thy ===== *)
theory Order_Book
  imports Event_Types Op_System
begin

text \<open>
  The local order book of \<open>data/orderbook.py\<close>: snapshots, incremental deltas with Binance's sequence
  rule, and the cached best quotes and published levels. Prices and quantities are floats that are
  only compared and stored, so rationals represent them exactly. The wall clock, the monotonic clock and
  the stored ingress times are arguments. The locale \<open>book_side\<close> holds the facts shared by the
  bid and the ask ladder and is interpreted once for each.
\<close>

subsection \<open>State\<close>

type_synonym levels = "(rat, rat) dict"

record book =
  b_symbol :: string
  b_bids :: levels
  b_asks :: levels
  b_last_update_id :: int
  b_initialized :: bool
  b_awaiting_first_delta :: bool
  b_last_exchange_ts :: pyfloat
  b_last_received_ts :: pyfloat
  b_last_received_monotonic :: pyfloat
  b_last_clock_offset_ms :: "pyfloat option"
  b_last_corrected_received_ts :: pyfloat
  b_publish_depth_levels :: nat
  b_emit_full_book :: bool
  b_max_levels_per_side :: nat
  b_max_delta_levels_per_side :: nat
  b_best_bid_price :: rat
  b_best_bid_volume :: rat
  b_best_ask_price :: rat
  b_best_ask_volume :: rat
  b_top_bids :: "(rat \<times> rat) list"
  b_top_asks :: "(rat \<times> rat) list"

definition book_init :: "string \<Rightarrow> int \<Rightarrow> bool \<Rightarrow> int \<Rightarrow> int \<Rightarrow> book" where
  "book_init symbol publish emit_full max_levels max_delta =
     (let depth = max 1 publish in
      \<lparr>b_symbol = symbol, b_bids = [], b_asks = [], b_last_update_id = 0, b_initialized = False,
       b_awaiting_first_delta = True, b_last_exchange_ts = Fin 0, b_last_received_ts = Fin 0,
       b_last_received_monotonic = Fin 0, b_last_clock_offset_ms = None,
       b_last_corrected_received_ts = Fin 0, b_publish_depth_levels = nat depth,
       b_emit_full_book = emit_full,
       b_max_levels_per_side = nat (max depth (if max_levels = 0 then depth else max_levels)),
       b_max_delta_levels_per_side = nat (max 1 max_delta),
       b_best_bid_price = 0, b_best_bid_volume = 0, b_best_ask_price = 0, b_best_ask_volume = 0,
       b_top_bids = [], b_top_asks = []\<rparr>)"

subsection \<open>Parsing and validation\<close>

text \<open>\<open>entry[0]\<close> and \<open>entry[1]\<close> of a level after the check \<open>len(entry) < 2\<close>.\<close>

fun level_pair :: "pyval \<Rightarrow> (pyval \<times> pyval) res" where
  "level_pair (PList (x # y # zs)) = Inr (x, y)"
| "level_pair (PList xs) = Inl (ValueError ''level'')"
| "level_pair (PStr (x # y # zs)) = Inr (PStr [x], PStr [y])"
| "level_pair (PStr xs) = Inl (ValueError ''level'')"
| "level_pair (PDict (x # y # zs)) = Inl KeyError"
| "level_pair (PDict xs) = Inl (ValueError ''level'')"
| "level_pair _ = Inl TypeError"

definition parse_level :: "bool \<Rightarrow> pyval \<Rightarrow> levels \<Rightarrow> levels res" where
  "parse_level keep_zero entry levels =
     bindE (level_pair entry) (\<lambda>(e0, e1).
     bindE (float_of e0) (\<lambda>price.
     bindE (float_of e1) (\<lambda>qty.
     bindE (checkE (isfinite price \<and> \<not> fle price (Fin 0)) (ValueError ''price'')) (\<lambda>_.
     bindE (checkE (isfinite qty \<and> \<not> flt qty (Fin 0)) (ValueError ''quantity'')) (\<lambda>_.
     Inr (if flt (Fin 0) qty \<or> keep_zero then dset (finval price) (finval qty) levels else levels))))))"

fun parse_levels :: "bool \<Rightarrow> pyval list \<Rightarrow> levels \<Rightarrow> levels res" where
  "parse_levels keep_zero [] levels = Inr levels"
| "parse_levels keep_zero (e # es) levels =
     bindE (parse_level keep_zero e levels) (parse_levels keep_zero es)"

definition level_list :: "nat \<Rightarrow> pyval \<Rightarrow> pyval list res" where
  "level_list limit v = (case v of
      PList xs \<Rightarrow> if limit < length xs then Inl (ValueError ''capacity'') else Inr xs
    | _ \<Rightarrow> Inl (ValueError ''array''))"

text \<open>\<open>validate_delta_shape\<close>, returning the two arrays it has checked.\<close>

definition validate_delta_shape :: "nat \<Rightarrow> pyval \<Rightarrow> pyval \<Rightarrow> (pyval list \<times> pyval list) res" where
  "validate_delta_shape limit b a =
     bindE (level_list limit b) (\<lambda>bs. bindE (level_list limit a) (\<lambda>as. Inr (bs, as)))"

definition validate_book :: "levels \<Rightarrow> levels \<Rightarrow> unit res" where
  "validate_book bids asks =
     bindE (checkE (bids \<noteq> [] \<and> asks \<noteq> []) (ValueError ''empty'')) (\<lambda>_.
     checkE (Max (set (dkeys bids)) < Min (set (dkeys asks))) (ValueError ''crossed''))"

definition reject_integrity :: "book \<Rightarrow> book \<times> unit res" where
  "reject_integrity b = (b\<lparr>b_initialized := False\<rparr>, Inl (OrderBookGapError ''integrity''))"

subsection \<open>Best quotes and published levels\<close>

text \<open>\<open>heapq.nlargest\<close> and \<open>heapq.nsmallest\<close> by price: the sorted items, cut off.\<close>

definition nlargest :: "nat \<Rightarrow> levels \<Rightarrow> (rat \<times> rat) list" where
  "nlargest n d = take n (sort_key (\<lambda>p. - fst p) d)"

definition nsmallest :: "nat \<Rightarrow> levels \<Rightarrow> (rat \<times> rat) list" where
  "nsmallest n d = take n (sort_key fst d)"

definition recompute_best_bid :: "book \<Rightarrow> book" where
  "recompute_best_bid b =
     (if b_bids b = [] then b\<lparr>b_best_bid_price := 0, b_best_bid_volume := 0\<rparr>
      else let price = Max (set (dkeys (b_bids b)))
           in b\<lparr>b_best_bid_price := price, b_best_bid_volume := dgetd (b_bids b) price 0\<rparr>)"

definition recompute_best_ask :: "book \<Rightarrow> book" where
  "recompute_best_ask b =
     (if b_asks b = [] then b\<lparr>b_best_ask_price := 0, b_best_ask_volume := 0\<rparr>
      else let price = Min (set (dkeys (b_asks b)))
           in b\<lparr>b_best_ask_price := price, b_best_ask_volume := dgetd (b_asks b) price 0\<rparr>)"

definition recompute_published_bid_levels :: "book \<Rightarrow> book" where
  "recompute_published_bid_levels b =
     b\<lparr>b_top_bids := nlargest (b_publish_depth_levels b) (b_bids b)\<rparr>"

definition recompute_published_ask_levels :: "book \<Rightarrow> book" where
  "recompute_published_ask_levels b =
     b\<lparr>b_top_asks := nsmallest (b_publish_depth_levels b) (b_asks b)\<rparr>"

definition recompute_best_quotes :: "book \<Rightarrow> book" where
  "recompute_best_quotes b =
     recompute_published_ask_levels (recompute_published_bid_levels
       (recompute_best_ask (recompute_best_bid b)))"

definition level_frontier_impacted :: "rat \<Rightarrow> (rat \<times> rat) list \<Rightarrow> bool \<Rightarrow> book \<Rightarrow> bool" where
  "level_frontier_impacted price levels descending b \<longleftrightarrow>
     b_emit_full_book b \<or> levels = [] \<or> price \<in> set (map fst levels) \<or>
     length levels < b_publish_depth_levels b \<or>
     (if descending then fst (last levels) \<le> price else price \<le> fst (last levels))"

definition apply_bid_update :: "rat \<Rightarrow> rat \<Rightarrow> book \<Rightarrow> book \<times> bool" where
  "apply_bid_update price qty b =
     (let current_best = b_best_bid_price b;
          levels_dirty = level_frontier_impacted price (b_top_bids b) True b in
      if qty = 0 then
        (if price \<in> set (dkeys (b_bids b)) then
           let b1 = b\<lparr>b_bids := ddel price (b_bids b)\<rparr>
           in (if price = current_best then recompute_best_bid b1 else b1, levels_dirty)
         else (b, levels_dirty))
      else
        let b1 = b\<lparr>b_bids := dset price qty (b_bids b)\<rparr>
        in (if current_best \<le> price then b1\<lparr>b_best_bid_price := price, b_best_bid_volume := qty\<rparr> else b1,
            levels_dirty))"

definition apply_ask_update :: "rat \<Rightarrow> rat \<Rightarrow> book \<Rightarrow> book \<times> bool" where
  "apply_ask_update price qty b =
     (let current_best = b_best_ask_price b;
          levels_dirty = level_frontier_impacted price (b_top_asks b) False b in
      if qty = 0 then
        (if price \<in> set (dkeys (b_asks b)) then
           let b1 = b\<lparr>b_asks := ddel price (b_asks b)\<rparr>
           in (if current_best = 0 \<or> price = current_best then recompute_best_ask b1 else b1, levels_dirty)
         else (b, levels_dirty))
      else
        let b1 = b\<lparr>b_asks := dset price qty (b_asks b)\<rparr>
        in (if current_best = 0 \<or> price \<le> current_best
            then b1\<lparr>b_best_ask_price := price, b_best_ask_volume := qty\<rparr> else b1,
            levels_dirty))"

fun apply_updates :: "(rat \<Rightarrow> rat \<Rightarrow> book \<Rightarrow> book \<times> bool) \<Rightarrow> levels \<Rightarrow> book \<Rightarrow> book \<times> bool" where
  "apply_updates f [] b = (b, False)"
| "apply_updates f ((price, qty) # us) b =
     (let (b1, d1) = f price qty b; (b2, d2) = apply_updates f us b1 in (b2, d1 \<or> d2))"

subsection \<open>Snapshot and delta\<close>

definition parse_snapshot :: "nat \<Rightarrow> (string \<times> pyval) list \<Rightarrow> (levels \<times> levels \<times> int) res" where
  "parse_snapshot limit snap =
     bindE (vitem snap ''bids'') (\<lambda>b. bindE (vitem snap ''asks'') (\<lambda>a.
     bindE (validate_delta_shape (max 1 limit) b a) (\<lambda>(bs, as).
     bindE (parse_levels False bs []) (\<lambda>bids.
     bindE (parse_levels False as []) (\<lambda>asks.
     bindE (vitem snap ''lastUpdateId'') (\<lambda>i. bindE (int_of i) (\<lambda>last_id.
     bindE (checkE (0 \<le> last_id) (ValueError ''lastUpdateId'')) (\<lambda>_.
     bindE (validate_book bids asks) (\<lambda>_. Inr (bids, asks, last_id))))))))))"

definition init_snapshot :: "(string \<times> pyval) list \<Rightarrow> book \<Rightarrow> book \<times> unit res" where
  "init_snapshot snap b0 =
     (let b = b0\<lparr>b_initialized := False\<rparr> in
      case parse_snapshot (b_max_levels_per_side b) snap of
        Inl e \<Rightarrow> (b, Inl e)
      | Inr (bids, asks, last_id) \<Rightarrow>
          (recompute_best_quotes
             (b\<lparr>b_bids := bids, b_asks := asks, b_last_update_id := last_id, b_initialized := True,
               b_awaiting_first_delta := True\<rparr>), Inr ()))"

text \<open>The caller's keyword arguments (\<open>PNone\<close> when not given) and the two clocks.\<close>

record ingress =
  in_received_timestamp :: pyval
  in_received_monotonic :: pyval
  in_clock_offset_ms :: pyval
  in_corrected_received_timestamp :: pyval
  in_time :: rat
  in_perf_counter :: rat

definition arg_or :: "pyval \<Rightarrow> (string \<times> pyval) list \<Rightarrow> string \<Rightarrow> pyval" where
  "arg_or v delta key = (if v = PNone then vget delta key PNone else v)"

definition resolve_times ::
  "ingress \<Rightarrow> (string \<times> pyval) list \<Rightarrow> (pyval \<times> pyval \<times> pyfloat option \<times> pyval) res" where
  "resolve_times t delta =
     (let rt0 = arg_or (in_received_timestamp t) delta ''_local_received_timestamp'';
          rm0 = arg_or (in_received_monotonic t) delta ''_local_received_monotonic'';
          co = arg_or (in_clock_offset_ms t) delta ''_local_clock_offset_ms'';
          ct = arg_or (in_corrected_received_timestamp t) delta ''_local_corrected_received_timestamp'';
          rt = (if truthy rt0 then rt0 else PFloat (Fin (in_time t)));
          rm = (if truthy rm0 then rm0 else PFloat (Fin (in_perf_counter t)))
      in if co = PNone then Inr (rt, rm, None, ct)
         else bindE (float_of co) (\<lambda>off.
              if ct = PNone
              then bindE (float_of rt) (\<lambda>r. Inr (rt, rm, Some off, PFloat (fadd r (fdivc off 1000))))
              else Inr (rt, rm, Some off, ct)))"

definition parse_delta ::
  "nat \<Rightarrow> (string \<times> pyval) list \<Rightarrow> (int \<times> int \<times> int \<times> levels \<times> levels) res" where
  "parse_delta limit delta =
     bindE (validate_delta_shape limit (vget delta ''b'' PNone) (vget delta ''a'' PNone)) (\<lambda>(bs, as).
     bindE (vitem delta ''u'') (\<lambda>v. bindE (int_of v) (\<lambda>u.
     bindE (vitem delta ''U'') (\<lambda>v. bindE (int_of v) (\<lambda>U.
     bindE (vitem delta ''pu'') (\<lambda>v. bindE (int_of v) (\<lambda>pu.
     bindE (checkE (\<not> (U < 0 \<or> u < U \<or> pu < 0)) (ValueError ''sequence'')) (\<lambda>_.
     bindE (parse_levels True bs []) (\<lambda>bid_updates.
     bindE (parse_levels True as []) (\<lambda>ask_updates.
     Inr (u, U, pu, bid_updates, ask_updates)))))))))))"

definition extract_exchange_ts :: "(string \<times> pyval) list \<Rightarrow> pyfloat res" where
  "extract_exchange_ts delta =
     (let e = vget delta ''E'' PNone; t = vget delta ''T'' PNone;
          raw_ts = (if truthy e then e else if truthy t then t else PInt 0)
      in if truthy raw_ts then bindE (float_of raw_ts) (\<lambda>x. Inr (fdivc x 1000)) else Inr (Fin 0))"

text \<open>The timestamps are stored one after the other; an unreadable one stops there.\<close>

definition store_times ::
  "(string \<times> pyval) list \<Rightarrow> pyval \<Rightarrow> pyval \<Rightarrow> pyfloat option \<Rightarrow> pyval \<Rightarrow> book \<Rightarrow> book \<times> unit res" where
  "store_times delta rt rm off ct b =
     (case extract_exchange_ts delta of Inl e \<Rightarrow> (b, Inl e) | Inr x \<Rightarrow>
      let b1 = b\<lparr>b_last_exchange_ts := x\<rparr> in
      case float_of rt of Inl e \<Rightarrow> (b1, Inl e) | Inr r \<Rightarrow>
      let b2 = b1\<lparr>b_last_received_ts := r\<rparr> in
      case float_of rm of Inl e \<Rightarrow> (b2, Inl e) | Inr m \<Rightarrow>
      let b3 = b2\<lparr>b_last_received_monotonic := m, b_last_clock_offset_ms := off\<rparr> in
      case float_of (if truthy ct then ct else PFloat (Fin 0)) of Inl e \<Rightarrow> (b3, Inl e) | Inr c \<Rightarrow>
      (b3\<lparr>b_last_corrected_received_ts := c\<rparr>, Inr ()))"

definition sequence_valid :: "int \<Rightarrow> int \<Rightarrow> int \<Rightarrow> book \<Rightarrow> bool" where
  "sequence_valid u U pu b =
     (if b_awaiting_first_delta b
      then pu = b_last_update_id b \<or> (U \<le> b_last_update_id b \<and> b_last_update_id b \<le> u)
      else pu = b_last_update_id b)"

definition apply_delta :: "levels \<Rightarrow> levels \<Rightarrow> book \<Rightarrow> book \<times> unit res" where
  "apply_delta bid_updates ask_updates b =
     (let (b1, bid_dirty) = apply_updates apply_bid_update bid_updates b;
          (b2, ask_dirty) = apply_updates apply_ask_update ask_updates b1 in
      if b_max_levels_per_side b2 < length (b_bids b2) \<or> b_max_levels_per_side b2 < length (b_asks b2) then
        reject_integrity b2
      else
        let b3 = (if bid_dirty then recompute_published_bid_levels b2 else b2);
            b4 = (if ask_dirty then recompute_published_ask_levels b3 else b3)
        in case validate_book (b_bids b4) (b_asks b4) of
             Inl _ \<Rightarrow> reject_integrity b4
           | Inr _ \<Rightarrow> (b4, Inr ()))"

definition caught_by_delta :: "py_exc \<Rightarrow> bool" where
  "caught_by_delta e = (case e of KeyError \<Rightarrow> True | TypeError \<Rightarrow> True | ValueError _ \<Rightarrow> True | _ \<Rightarrow> False)"

definition process_delta :: "ingress \<Rightarrow> (string \<times> pyval) list \<Rightarrow> book \<Rightarrow> book \<times> unit res" where
  "process_delta inp delta b =
     (case resolve_times inp delta of Inl e \<Rightarrow> (b, Inl e) | Inr (rt, rm, off, ct) \<Rightarrow>
      case parse_delta (b_max_delta_levels_per_side b) delta of
        Inl e \<Rightarrow> if caught_by_delta e then reject_integrity b else (b, Inl e)
      | Inr (u, U, pu, bid_updates, ask_updates) \<Rightarrow>
          if \<not> b_initialized b \<or> u < b_last_update_id b then (b, Inr ())
          else if \<not> sequence_valid u U pu b then
            (b\<lparr>b_initialized := False\<rparr>, Inl (OrderBookGapError ''gap''))
          else
            let r = apply_delta bid_updates ask_updates b in
            case snd r of Inl e \<Rightarrow> (fst r, Inl e)
            | Inr _ \<Rightarrow> store_times delta rt rm off ct
                ((fst r)\<lparr>b_last_update_id := u, b_awaiting_first_delta := False\<rparr>))"

text \<open>The published event, without its dispatch times.\<close>

record book_event =
  ev_bids :: levels
  ev_asks :: levels
  ev_top_bids :: "(rat \<times> rat) list"
  ev_top_asks :: "(rat \<times> rat) list"
  ev_best_bid_price :: rat
  ev_best_bid_volume :: rat
  ev_best_ask_price :: rat
  ev_best_ask_volume :: rat
  ev_depth_levels :: nat

definition generate_event_data :: "book \<Rightarrow> book_event option" where
  "generate_event_data b =
     (if \<not> b_initialized b then None
      else
        let bids = (if b_emit_full_book b then b_bids b else b_top_bids b);
            asks = (if b_emit_full_book b then b_asks b else b_top_asks b)
        in Some \<lparr>ev_bids = bids, ev_asks = asks, ev_top_bids = b_top_bids b, ev_top_asks = b_top_asks b,
             ev_best_bid_price = b_best_bid_price b, ev_best_bid_volume = b_best_bid_volume b,
             ev_best_ask_price = b_best_ask_price b, ev_best_ask_volume = b_best_ask_volume b,
             ev_depth_levels = (if b_emit_full_book b then max (length bids) (length asks)
                                else max (length (b_top_bids b)) (length (b_top_asks b)))\<rparr>)"

subsection \<open>One side of the book\<close>

text \<open>
  A ladder lists the best levels first: bids by falling, asks by rising price. \<open>key\<close> orders prices
  so that better is smaller.
\<close>

lemma filter_dset: "\<not> Q k \<Longrightarrow> filter (\<lambda>p. Q (fst p)) (dset k v d) = filter (\<lambda>p. Q (fst p)) d"
  by (induction d) auto

lemma filter_ddel: "\<not> Q k \<Longrightarrow> filter (\<lambda>p. Q (fst p)) (ddel k d) = filter (\<lambda>p. Q (fst p)) d"
  by (induction d) (auto simp: AList.delete_eq)

lemma ddel_eq_Nil: "dget d p = Some v \<Longrightarrow> k \<noteq> p \<Longrightarrow> ddel k d \<noteq> []"
  by (metis dget_ddel map_of.simps(1) option.distinct(1))

lemma sorted_filter_takeWhile:
  "sorted (map f xs) \<Longrightarrow> filter (\<lambda>x. f x \<le> t) xs = takeWhile (\<lambda>x. f x \<le> t) xs" for t :: "'b::linorder"
proof (induction xs)
  case (Cons a xs)
  show ?case
  proof (cases "f a \<le> t")
    case False
    with Cons.prems have "\<forall>x \<in> set (a # xs). \<not> f x \<le> t" by auto
    then have "filter (\<lambda>x. f x \<le> t) (a # xs) = []" by (simp only: filter_empty_conv)
    with False show ?thesis by simp
  qed (use Cons in simp)
qed simp

definition pos_levels :: "levels \<Rightarrow> bool" where
  "pos_levels d \<longleftrightarrow> wf_dict d \<and> (\<forall>p q. (p, q) \<in> set d \<longrightarrow> 0 < p \<and> 0 < q)"

lemma pos_levels_updates:
  "pos_levels d \<Longrightarrow> pos_levels (ddel k d)"
  "pos_levels d \<Longrightarrow> 0 < k \<Longrightarrow> 0 < q \<Longrightarrow> pos_levels (dset k q d)"
  by (auto simp: pos_levels_def dest: mem_dset)

locale book_side =
  fixes key :: "rat \<Rightarrow> rat"
  assumes key_inj: "key p = key q \<Longrightarrow> p = q"
begin

definition ladder :: "nat \<Rightarrow> levels \<Rightarrow> (rat \<times> rat) list" where
  "ladder n d = take n (sort_key (\<lambda>p. key (fst p)) d)"

definition best_ok :: "levels \<Rightarrow> rat \<Rightarrow> rat \<Rightarrow> bool" where
  "best_ok d p v \<longleftrightarrow> (if d = [] then p = 0 \<and> v = 0
     else dget d p = Some v \<and> (\<forall>k \<in> set (dkeys d). key p \<le> key k))"

text \<open>\<open>d'\<close> differs from \<open>d\<close> only behind the last published level.\<close>

definition stable :: "(rat \<times> rat) list \<Rightarrow> nat \<Rightarrow> levels \<Rightarrow> levels \<Rightarrow> bool" where
  "stable tops n d d' \<longleftrightarrow> d' = d \<or> (tops \<noteq> [] \<and> n \<le> length tops \<and>
     filter (\<lambda>p. key (fst p) \<le> key (fst (last tops))) d' = filter (\<lambda>p. key (fst p) \<le> key (fst (last tops))) d)"

lemma stable_trans: "stable tops n d d' \<Longrightarrow> stable tops n d' d'' \<Longrightarrow> stable tops n d d''"
  by (auto simp: stable_def)

lemma stable_step:
  assumes "tops \<noteq> []" "n \<le> length tops" "\<not> key k \<le> key (fst (last tops))"
  shows "stable tops n d (ddel k d)" "stable tops n d (dset k q d)"
  using assms by (simp_all add: stable_def filter_ddel [of "\<lambda>x. key x \<le> key (fst (last tops))"]
      filter_dset [of "\<lambda>x. key x \<le> key (fst (last tops))"])

lemma sorted_keys:
  assumes "wf_dict d"
  shows "sorted (map (\<lambda>p. key (fst p)) (sort_key (\<lambda>p. key (fst p)) d))"
    "distinct (map (\<lambda>p. key (fst p)) (sort_key (\<lambda>p. key (fst p)) d))"
proof -
  have "distinct d" using assms by (simp add: distinct_map)
  moreover have "inj_on (\<lambda>p. key (fst p)) (set d)"
    using assms key_inj by (auto simp: inj_on_def distinct_map)
  ultimately show "distinct (map (\<lambda>p. key (fst p)) (sort_key (\<lambda>p. key (fst p)) d))"
    by (simp add: distinct_map)
qed simp

lemma ladder_prefix:
  assumes "wf_dict d" "ladder n d = tops" "tops \<noteq> []"
  shows "filter (\<lambda>p. key (fst p) \<le> key (fst (last tops))) (sort_key (\<lambda>p. key (fst p)) d) = tops"
proof -
  let ?S = "sort_key (\<lambda>p. key (fst p)) d"
  obtain front z where tops: "tops = front @ [z]" using assms(3) by (cases tops rule: rev_exhaust) auto
  define rest where "rest = drop n ?S"
  have S: "?S = front @ z # rest"
    using assms(2) tops append_take_drop_id [of n ?S] unfolding ladder_def rest_def by simp
  have sorted: "sorted (map (\<lambda>p. key (fst p)) (front @ z # rest))"
    and dist: "distinct (map (\<lambda>p. key (fst p)) (front @ z # rest))"
    using sorted_keys [OF assms(1)] unfolding S by blast+
  have "\<forall>p \<in> set front. key (fst p) \<le> key (fst z)" using sorted by (auto simp: sorted_append)
  moreover have "\<not> key (fst p) \<le> key (fst z)" if "p \<in> set rest" for p
  proof -
    have "key (fst z) \<le> key (fst p)" using sorted that by (simp add: sorted_append)
    moreover have "key (fst z) \<noteq> key (fst p)" using dist that by (simp add: image_iff)
    ultimately show ?thesis by simp
  qed
  ultimately show ?thesis unfolding S tops by (simp add: filter_empty_conv)
qed

text \<open>The cached levels stay right when nothing at or before the frontier moved.\<close>

lemma ladder_stable:
  assumes wf: "wf_dict d" "wf_dict d'" and tops: "ladder n d = tops" and st: "stable tops n d d'"
  shows "ladder n d' = tops"
proof (cases "d' = d")
  case False
  let ?S' = "sort_key (\<lambda>p. key (fst p)) d'" and ?P = "\<lambda>p. key (fst p) \<le> key (fst (last tops))"
  from False st have ne: "tops \<noteq> []" and n: "n \<le> length tops" and eq: "filter ?P d' = filter ?P d"
    by (auto simp: stable_def)
  have len: "length tops = n" using n tops by (auto simp: ladder_def)
  have "takeWhile ?P ?S' = filter ?P ?S'"
    by (rule sorted_filter_takeWhile [symmetric]) (rule sorted_keys [OF wf(2)])
  also have "\<dots> = filter ?P (sort_key (\<lambda>p. key (fst p)) d)" using eq by (simp add: filter_sort)
  also have "\<dots> = tops" by (rule ladder_prefix [OF wf(1) tops ne])
  finally have "?S' = tops @ dropWhile ?P ?S'" by (metis takeWhile_dropWhile_id)
  then show ?thesis using len unfolding ladder_def by (metis append_eq_conv_conj)
qed (use tops in simp)

lemma ladder_best: "d \<noteq> [] \<Longrightarrow> 0 < n \<Longrightarrow> wf_dict d \<Longrightarrow> best_ok d p v \<Longrightarrow> hd (ladder n d) = (p, v) \<and> ladder n d \<noteq> []"
proof -
  assume d: "d \<noteq> []" and n: "0 < n" and wf: "wf_dict d" and best: "best_ok d p v"
  let ?S = "sort_key (\<lambda>p. key (fst p)) d"
  have "?S \<noteq> []" using d by (metis set_empty set_sort)
  then obtain x xs where S: "?S = x # xs" by (cases ?S) auto
  have mem: "x \<in> set d" using S set_sort [of "\<lambda>p. key (fst p)" d] by (metis list.set_intros(1))
  have "(p, v) \<in> set ?S" using best d by (auto simp: best_ok_def dest: map_of_SomeD)
  then have "key (fst x) \<le> key p" using S sorted_keys(1) [OF wf] by auto
  moreover have "key p \<le> key (fst x)" using best d mem by (auto simp: best_ok_def)
  ultimately have "fst x = p" using key_inj by fastforce
  then have "x = (p, v)" using mem wf best d wf_dict_mem [OF wf, of p "snd x"]
    by (cases x) (auto simp: best_ok_def)
  then show ?thesis using S n by (cases n) (simp_all add: ladder_def)
qed

lemma best_del_other: "best_ok d p v \<Longrightarrow> k \<noteq> p \<Longrightarrow> best_ok (ddel k d) p v"
  by (auto simp: best_ok_def ddel_eq_Nil split: if_splits)

lemma best_set_better: "d = [] \<or> best_ok d p v \<and> key k \<le> key p \<Longrightarrow> best_ok (dset k q d) k q"
  by (auto simp: best_ok_def split: if_splits)

lemma best_set_worse: "best_ok d p v \<Longrightarrow> d \<noteq> [] \<Longrightarrow> \<not> key k \<le> key p \<Longrightarrow> best_ok (dset k q d) p v"
  by (auto simp: best_ok_def)

end

interpretation bid_side: book_side uminus
  by unfold_locales simp

interpretation ask_side: book_side "\<lambda>p. p"
  by unfold_locales simp

lemma nlargest_ladder: "nlargest = bid_side.ladder"
  by (simp add: fun_eq_iff nlargest_def bid_side.ladder_def)

lemma nsmallest_ladder: "nsmallest = ask_side.ladder"
  by (simp add: fun_eq_iff nsmallest_def ask_side.ladder_def)

lemma dget_Max: "d \<noteq> [] \<Longrightarrow> wf_dict d \<Longrightarrow> dget d (Max (set (dkeys d))) = Some (dgetd d (Max (set (dkeys d))) 0)"
  for d :: levels
proof -
  assume "d \<noteq> []"
  then have "Max (set (dkeys d)) \<in> set (dkeys d)" by (intro Max_in) auto
  then show ?thesis by (cases "dget d (Max (set (dkeys d)))") (auto simp: dgetd_def map_of_eq_None_iff)
qed

lemma dget_Min: "d \<noteq> [] \<Longrightarrow> wf_dict d \<Longrightarrow> dget d (Min (set (dkeys d))) = Some (dgetd d (Min (set (dkeys d))) 0)"
  for d :: levels
proof -
  assume "d \<noteq> []"
  then have "Min (set (dkeys d)) \<in> set (dkeys d)" by (intro Min_in) auto
  then show ?thesis by (cases "dget d (Min (set (dkeys d)))") (auto simp: dgetd_def map_of_eq_None_iff)
qed

lemma best_Max:
  "d \<noteq> [] \<Longrightarrow> bid_side.best_ok d p v \<Longrightarrow> p = Max (set (dkeys d))"
  by (rule Max_eqI [symmetric]) (auto simp: bid_side.best_ok_def image_iff dest!: map_of_SomeD, force)

lemma best_Min:
  "d \<noteq> [] \<Longrightarrow> ask_side.best_ok d p v \<Longrightarrow> p = Min (set (dkeys d))"
  by (rule Min_eqI [symmetric]) (auto simp: ask_side.best_ok_def image_iff dest!: map_of_SomeD, force)

subsection \<open>The bid and the ask ladder\<close>

definition bids_ok :: "book \<Rightarrow> bool" where
  "bids_ok b \<longleftrightarrow> pos_levels (b_bids b) \<and> bid_side.best_ok (b_bids b) (b_best_bid_price b) (b_best_bid_volume b)"

definition asks_ok :: "book \<Rightarrow> bool" where
  "asks_ok b \<longleftrightarrow> pos_levels (b_asks b) \<and> ask_side.best_ok (b_asks b) (b_best_ask_price b) (b_best_ask_volume b)"

lemma recompute_best_bid_ok: "pos_levels (b_bids b) \<Longrightarrow> bids_ok (recompute_best_bid b)"
  using dget_Max [of "b_bids b"]
  by (auto simp: bids_ok_def recompute_best_bid_def Let_def bid_side.best_ok_def pos_levels_def)

lemma recompute_best_ask_ok: "pos_levels (b_asks b) \<Longrightarrow> asks_ok (recompute_best_ask b)"
  using dget_Min [of "b_asks b"]
  by (auto simp: asks_ok_def recompute_best_ask_def Let_def ask_side.best_ok_def pos_levels_def)

lemma apply_bid_update_frame:
  obtains d p v where "fst (apply_bid_update price qty b) =
    b\<lparr>b_bids := d, b_best_bid_price := p, b_best_bid_volume := v\<rparr>"
proof -
  have "\<exists>d p v. fst (apply_bid_update price qty b) = b\<lparr>b_bids := d, b_best_bid_price := p, b_best_bid_volume := v\<rparr>"
  proof (cases b)
    case (fields)
    then show ?thesis by (simp add: apply_bid_update_def recompute_best_bid_def Let_def)
  qed
  with that show ?thesis by blast
qed

lemma recompute_best_frame [simp]:
  "b_bids (recompute_best_bid b) = b_bids b" "b_asks (recompute_best_ask b) = b_asks b"
  by (simp_all add: recompute_best_bid_def recompute_best_ask_def Let_def)

lemma apply_ask_update_frame:
  obtains d p v where "fst (apply_ask_update price qty b) =
    b\<lparr>b_asks := d, b_best_ask_price := p, b_best_ask_volume := v\<rparr>"
proof -
  have "\<exists>d p v. fst (apply_ask_update price qty b) = b\<lparr>b_asks := d, b_best_ask_price := p, b_best_ask_volume := v\<rparr>"
    by (cases b) (simp add: apply_ask_update_def recompute_best_ask_def Let_def)
  with that show ?thesis by blast
qed

lemma apply_bid_update_ok:
  assumes "bids_ok b" "0 < price" "0 \<le> qty"
  shows "bids_ok (fst (apply_bid_update price qty b))"
proof (cases "qty = 0")
  case True
  show ?thesis
  proof (cases "price \<in> set (dkeys (b_bids b)) \<and> price = b_best_bid_price b")
    case del: True
    have "bids_ok (recompute_best_bid (b\<lparr>b_bids := ddel price (b_bids b)\<rparr>))"
      by (rule recompute_best_bid_ok) (use assms in \<open>simp add: bids_ok_def pos_levels_updates\<close>)
    with True del show ?thesis by (auto simp: apply_bid_update_def Let_def)
  next
    case False
    with True assms bid_side.best_del_other show ?thesis
      by (auto simp: apply_bid_update_def Let_def bids_ok_def pos_levels_updates)
  qed
next
  case False
  then have q: "0 < qty" using assms by simp
  have ok: "pos_levels (dset price qty (b_bids b))" using assms q by (simp add: bids_ok_def pos_levels_updates)
  have best: "bid_side.best_ok (b_bids b) (b_best_bid_price b) (b_best_bid_volume b)"
    using assms by (simp add: bids_ok_def)
  show ?thesis
  proof (cases "b_best_bid_price b \<le> price")
    case True
    then have "bid_side.best_ok (dset price qty (b_bids b)) price qty"
      using best by (intro bid_side.best_set_better) auto
    with True False ok show ?thesis by (simp add: apply_bid_update_def Let_def bids_ok_def)
  next
    case worse: False
    then have "b_bids b \<noteq> []" using best assms(2) by (auto simp: bid_side.best_ok_def)
    then have "bid_side.best_ok (dset price qty (b_bids b)) (b_best_bid_price b) (b_best_bid_volume b)"
      using best worse by (intro bid_side.best_set_worse) auto
    with worse False ok show ?thesis by (simp add: apply_bid_update_def Let_def bids_ok_def)
  qed
qed

lemma ask_best_pos: "asks_ok b \<Longrightarrow> b_asks b \<noteq> [] \<Longrightarrow> 0 < b_best_ask_price b"
  by (auto simp: asks_ok_def ask_side.best_ok_def pos_levels_def dest: map_of_SomeD)

lemma apply_ask_update_ok:
  assumes "asks_ok b" "0 < price" "0 \<le> qty"
  shows "asks_ok (fst (apply_ask_update price qty b))"
proof (cases "qty = 0")
  case True
  show ?thesis
  proof (cases "price \<in> set (dkeys (b_asks b)) \<and> (b_best_ask_price b = 0 \<or> price = b_best_ask_price b)")
    case del: True
    have "asks_ok (recompute_best_ask (b\<lparr>b_asks := ddel price (b_asks b)\<rparr>))"
      by (rule recompute_best_ask_ok) (use assms in \<open>simp add: asks_ok_def pos_levels_updates\<close>)
    with True del show ?thesis by (auto simp: apply_ask_update_def Let_def)
  next
    case False
    with True assms ask_side.best_del_other show ?thesis
      by (auto simp: apply_ask_update_def Let_def asks_ok_def pos_levels_updates)
  qed
next
  case False
  then have q: "0 < qty" using assms by simp
  have ok: "pos_levels (dset price qty (b_asks b))" using assms q by (simp add: asks_ok_def pos_levels_updates)
  have best: "ask_side.best_ok (b_asks b) (b_best_ask_price b) (b_best_ask_volume b)"
    using assms by (simp add: asks_ok_def)
  show ?thesis
  proof (cases "b_best_ask_price b = 0 \<or> price \<le> b_best_ask_price b")
    case True
    then have "ask_side.best_ok (dset price qty (b_asks b)) price qty"
      using best ask_best_pos [OF assms(1)] by (intro ask_side.best_set_better) fastforce
    with True False ok show ?thesis by (simp add: apply_ask_update_def Let_def asks_ok_def)
  next
    case worse: False
    then have "b_asks b \<noteq> []" using best by (auto simp: ask_side.best_ok_def)
    then have "ask_side.best_ok (dset price qty (b_asks b)) (b_best_ask_price b) (b_best_ask_volume b)"
      using best worse by (intro ask_side.best_set_worse) auto
    with worse False ok show ?thesis by (simp add: apply_ask_update_def Let_def asks_ok_def)
  qed
qed

lemma apply_update_lookup:
  "dget (b_bids (fst (apply_bid_update p q b))) k =
     (if k = p then (if q = 0 then None else Some q) else dget (b_bids b) k)"
  "dget (b_asks (fst (apply_ask_update p q b))) k =
     (if k = p then (if q = 0 then None else Some q) else dget (b_asks b) k)"
  by (auto simp: apply_bid_update_def apply_ask_update_def Let_def map_of_eq_None_iff)

lemma apply_bid_update_stable:
  assumes "\<not> snd (apply_bid_update p q b)"
  shows "bid_side.stable (b_top_bids b) (b_publish_depth_levels b) (b_bids b) (b_bids (fst (apply_bid_update p q b)))"
proof -
  have "b_top_bids b \<noteq> []" "b_publish_depth_levels b \<le> length (b_top_bids b)" "\<not> - p \<le> - fst (last (b_top_bids b))"
    using assms by (auto simp: apply_bid_update_def level_frontier_impacted_def Let_def split: if_splits)
  from bid_side.stable_step [OF this] show ?thesis
    by (auto simp: apply_bid_update_def Let_def bid_side.stable_def [of _ _ d d for d])
qed

lemma apply_ask_update_stable:
  assumes "\<not> snd (apply_ask_update p q b)"
  shows "ask_side.stable (b_top_asks b) (b_publish_depth_levels b) (b_asks b) (b_asks (fst (apply_ask_update p q b)))"
proof -
  have "b_top_asks b \<noteq> []" "b_publish_depth_levels b \<le> length (b_top_asks b)" "\<not> p \<le> fst (last (b_top_asks b))"
    using assms by (auto simp: apply_ask_update_def level_frontier_impacted_def Let_def split: if_splits)
  from ask_side.stable_step [OF this] show ?thesis
    by (auto simp: apply_ask_update_def Let_def ask_side.stable_def [of _ _ d d for d])
qed

subsection \<open>A batch of updates\<close>

definition updates_ok :: "levels \<Rightarrow> bool" where
  "updates_ok us \<longleftrightarrow> wf_dict us \<and> (\<forall>p q. (p, q) \<in> set us \<longrightarrow> 0 < p \<and> 0 \<le> q)"

lemma apply_updates_Cons:
  "fst (apply_updates f ((p, q) # us) b) = fst (apply_updates f us (fst (f p q b)))"
  "snd (apply_updates f ((p, q) # us) b) = (snd (f p q b) \<or> snd (apply_updates f us (fst (f p q b))))"
  by (simp_all add: Let_def split_beta)

lemma apply_updates_keeps:
  assumes step: "\<And>p q b. (p, q) \<in> set us \<Longrightarrow> I b \<Longrightarrow> I (fst (f p q b)) \<and> R b (fst (f p q b))
      \<and> (\<not> snd (f p q b) \<longrightarrow> S b (fst (f p q b)))"
    and refl: "\<And>b. R b b" "\<And>b. S b b"
    and trans: "\<And>a b c. R a b \<Longrightarrow> R b c \<Longrightarrow> R a c" "\<And>a b c. R a b \<Longrightarrow> S a b \<Longrightarrow> S b c \<Longrightarrow> S a c"
    and "I b"
  shows "I (fst (apply_updates f us b)) \<and> R b (fst (apply_updates f us b)) \<and>
    (\<not> snd (apply_updates f us b) \<longrightarrow> S b (fst (apply_updates f us b)))"
  using step \<open>I b\<close>
proof (induction us arbitrary: b)
  case (Cons u us)
  obtain p q where u: "u = (p, q)" by force
  have 1: "I (fst (f p q b)) \<and> R b (fst (f p q b)) \<and> (\<not> snd (f p q b) \<longrightarrow> S b (fst (f p q b)))"
    using Cons.prems u by simp
  have 2: "I (fst (apply_updates f us (fst (f p q b)))) \<and>
      R (fst (f p q b)) (fst (apply_updates f us (fst (f p q b)))) \<and>
      (\<not> snd (apply_updates f us (fst (f p q b))) \<longrightarrow> S (fst (f p q b)) (fst (apply_updates f us (fst (f p q b)))))"
    using Cons.prems 1 by (intro Cons.IH) auto
  from 1 2 show ?case unfolding u apply_updates_Cons by (blast intro: trans)
qed (use refl in simp)

lemma apply_updates_lookup:
  assumes "\<And>p q b. dget (sel (fst (f p q b))) k = (if k = p then (if q = 0 then None else Some q) else dget (sel b) k)"
    and "wf_dict us"
  shows "dget (sel (fst (apply_updates f us b))) k =
    (case dget us k of None \<Rightarrow> dget (sel b) k | Some q \<Rightarrow> if q = 0 then None else Some q)"
  using assms(2)
proof (induction us arbitrary: b)
  case (Cons u us)
  obtain p q where u: "u = (p, q)" by force
  have "dget us p = None" using Cons.prems u by (simp add: map_of_eq_None_iff)
  with Cons u show ?case unfolding u apply_updates_Cons by (cases "dget us k") (auto simp: assms(1))
qed simp

lemma bid_batch:
  assumes "bids_ok b" "updates_ok us"
  shows "bids_ok (fst (apply_updates apply_bid_update us b)) \<and>
    (\<exists>d p v. fst (apply_updates apply_bid_update us b) = b\<lparr>b_bids := d, b_best_bid_price := p, b_best_bid_volume := v\<rparr>) \<and>
    (\<not> snd (apply_updates apply_bid_update us b) \<longrightarrow>
      bid_side.stable (b_top_bids b) (b_publish_depth_levels b) (b_bids b)
        (b_bids (fst (apply_updates apply_bid_update us b))))"
proof (rule apply_updates_keeps [where I = bids_ok
      and R = "\<lambda>b b'. \<exists>d p v. b' = b\<lparr>b_bids := d, b_best_bid_price := p, b_best_bid_volume := v\<rparr>"
      and S = "\<lambda>b b'. bid_side.stable (b_top_bids b) (b_publish_depth_levels b) (b_bids b) (b_bids b')"])
  fix p q b assume "(p, q) \<in> set us" "bids_ok b"
  with assms(2) apply_bid_update_ok apply_bid_update_stable apply_bid_update_frame [of p q b]
  show "bids_ok (fst (apply_bid_update p q b)) \<and>
      (\<exists>d pr v. fst (apply_bid_update p q b) = b\<lparr>b_bids := d, b_best_bid_price := pr, b_best_bid_volume := v\<rparr>) \<and>
      (\<not> snd (apply_bid_update p q b) \<longrightarrow> bid_side.stable (b_top_bids b) (b_publish_depth_levels b) (b_bids b)
         (b_bids (fst (apply_bid_update p q b))))"
    unfolding updates_ok_def by metis
next
  fix b :: book
  have "b = b\<lparr>b_bids := b_bids b, b_best_bid_price := b_best_bid_price b, b_best_bid_volume := b_best_bid_volume b\<rparr>"
    by simp
  then show "\<exists>d p v. b = b\<lparr>b_bids := d, b_best_bid_price := p, b_best_bid_volume := v\<rparr>" by blast
next
  fix a b c :: book
  assume "\<exists>d p v. b = a\<lparr>b_bids := d, b_best_bid_price := p, b_best_bid_volume := v\<rparr>"
    "\<exists>d p v. c = b\<lparr>b_bids := d, b_best_bid_price := p, b_best_bid_volume := v\<rparr>"
  then show "\<exists>d p v. c = a\<lparr>b_bids := d, b_best_bid_price := p, b_best_bid_volume := v\<rparr>"
    by (elim exE) (intro exI, simp)
qed (auto simp: assms(1) bid_side.stable_def)

lemma ask_batch:
  assumes "asks_ok b" "updates_ok us"
  shows "asks_ok (fst (apply_updates apply_ask_update us b)) \<and>
    (\<exists>d p v. fst (apply_updates apply_ask_update us b) = b\<lparr>b_asks := d, b_best_ask_price := p, b_best_ask_volume := v\<rparr>) \<and>
    (\<not> snd (apply_updates apply_ask_update us b) \<longrightarrow>
      ask_side.stable (b_top_asks b) (b_publish_depth_levels b) (b_asks b)
        (b_asks (fst (apply_updates apply_ask_update us b))))"
proof (rule apply_updates_keeps [where I = asks_ok
      and R = "\<lambda>b b'. \<exists>d p v. b' = b\<lparr>b_asks := d, b_best_ask_price := p, b_best_ask_volume := v\<rparr>"
      and S = "\<lambda>b b'. ask_side.stable (b_top_asks b) (b_publish_depth_levels b) (b_asks b) (b_asks b')"])
  fix p q b assume "(p, q) \<in> set us" "asks_ok b"
  with assms(2) apply_ask_update_ok apply_ask_update_stable apply_ask_update_frame [of p q b]
  show "asks_ok (fst (apply_ask_update p q b)) \<and>
      (\<exists>d pr v. fst (apply_ask_update p q b) = b\<lparr>b_asks := d, b_best_ask_price := pr, b_best_ask_volume := v\<rparr>) \<and>
      (\<not> snd (apply_ask_update p q b) \<longrightarrow> ask_side.stable (b_top_asks b) (b_publish_depth_levels b) (b_asks b)
         (b_asks (fst (apply_ask_update p q b))))"
    unfolding updates_ok_def by metis
next
  fix b :: book
  have "b = b\<lparr>b_asks := b_asks b, b_best_ask_price := b_best_ask_price b, b_best_ask_volume := b_best_ask_volume b\<rparr>"
    by simp
  then show "\<exists>d p v. b = b\<lparr>b_asks := d, b_best_ask_price := p, b_best_ask_volume := v\<rparr>" by blast
next
  fix a b c :: book
  assume "\<exists>d p v. b = a\<lparr>b_asks := d, b_best_ask_price := p, b_best_ask_volume := v\<rparr>"
    "\<exists>d p v. c = b\<lparr>b_asks := d, b_best_ask_price := p, b_best_ask_volume := v\<rparr>"
  then show "\<exists>d p v. c = a\<lparr>b_asks := d, b_best_ask_price := p, b_best_ask_volume := v\<rparr>"
    by (elim exE) (intro exI, simp)
qed (auto simp: assms(1) ask_side.stable_def)

subsection \<open>Parsed levels\<close>

lemma parse_level_Inr:
  "parse_level keep e d = Inr d' \<Longrightarrow>
     d' = d \<or> (\<exists>p q. d' = dset p q d \<and> 0 < p \<and> 0 \<le> q \<and> (\<not> keep \<longrightarrow> 0 < q))"
  by (auto simp: parse_level_def res_simps isfinite_conv not_le not_less split: if_splits)
     (metis leD less_asym)+

lemma parse_levels_ok:
  "parse_levels keep es d = Inr d' \<Longrightarrow> updates_ok d \<Longrightarrow> updates_ok d'"
proof (induction es arbitrary: d)
  case (Cons e es)
  then obtain d1 where d1: "parse_level keep e d = Inr d1" "parse_levels keep es d1 = Inr d'"
    by (auto simp: res_simps)
  have "updates_ok d1"
    using parse_level_Inr [OF d1(1)] Cons.prems(2) by (fastforce simp: updates_ok_def dest: mem_dset)
  with Cons.IH d1(2) show ?case by blast
qed simp

lemma parse_levels_pos:
  "parse_levels False es d = Inr d' \<Longrightarrow> pos_levels d \<Longrightarrow> pos_levels d'"
proof (induction es arbitrary: d)
  case (Cons e es)
  then obtain d1 where d1: "parse_level False e d = Inr d1" "parse_levels False es d1 = Inr d'"
    by (auto simp: res_simps)
  have "pos_levels d1"
    using parse_level_Inr [OF d1(1)] Cons.prems(2) by (auto simp: pos_levels_updates)
  with Cons.IH d1(2) show ?case by blast
qed simp

lemma parse_levels_length:
  "parse_levels keep es d = Inr d' \<Longrightarrow> length d' \<le> length d + length es"
proof (induction es arbitrary: d)
  case (Cons e es)
  then obtain d1 where d1: "parse_level keep e d = Inr d1" "parse_levels keep es d1 = Inr d'"
    by (auto simp: res_simps)
  have "length d1 \<le> Suc (length d)"
    using parse_level_Inr [OF d1(1)] by (auto simp: length_dset_le)
  with Cons.IH [OF d1(2)] show ?case by simp
qed simp

lemma validate_delta_shape_Inr:
  "validate_delta_shape n b a = Inr (bs, as) \<Longrightarrow> length bs \<le> n \<and> length as \<le> n"
  by (auto simp: validate_delta_shape_def level_list_def res_simps split: pyval.splits if_splits)

lemma parse_delta_ok:
  "parse_delta n delta = Inr (u, U, pu, bu, au) \<Longrightarrow>
     updates_ok bu \<and> updates_ok au \<and> 0 \<le> U \<and> U \<le> u \<and> 0 \<le> pu"
  by (auto simp: parse_delta_def res_simps updates_ok_def [of "[]"] dest!: parse_levels_ok)

subsection \<open>The book invariant\<close>

definition book_config :: "book \<Rightarrow> bool" where
  "book_config b \<longleftrightarrow> 0 < b_publish_depth_levels b \<and> 0 < b_max_levels_per_side b"

definition book_ok :: "book \<Rightarrow> bool" where
  "book_ok b \<longleftrightarrow> bids_ok b \<and> asks_ok b \<and>
     b_bids b \<noteq> [] \<and> b_asks b \<noteq> [] \<and> Max (set (dkeys (b_bids b))) < Min (set (dkeys (b_asks b))) \<and>
     b_top_bids b = nlargest (b_publish_depth_levels b) (b_bids b) \<and>
     b_top_asks b = nsmallest (b_publish_depth_levels b) (b_asks b) \<and>
     length (b_bids b) \<le> b_max_levels_per_side b \<and> length (b_asks b) \<le> b_max_levels_per_side b"

definition book_inv :: "book \<Rightarrow> bool" where
  "book_inv b \<longleftrightarrow> book_config b \<and> (b_initialized b \<longrightarrow> book_ok b)"

lemma validate_book_Inr:
  "validate_book bids asks = Inr u \<longleftrightarrow>
     bids \<noteq> [] \<and> asks \<noteq> [] \<and> Max (set (dkeys bids)) < Min (set (dkeys asks))"
  by (auto simp: validate_book_def res_simps)

lemma bids_ok_cong:
  "b_bids b' = b_bids b \<Longrightarrow> b_best_bid_price b' = b_best_bid_price b \<Longrightarrow>
   b_best_bid_volume b' = b_best_bid_volume b \<Longrightarrow> bids_ok b' = bids_ok b"
  by (simp add: bids_ok_def)

lemma asks_ok_cong:
  "b_asks b' = b_asks b \<Longrightarrow> b_best_ask_price b' = b_best_ask_price b \<Longrightarrow>
   b_best_ask_volume b' = b_best_ask_volume b \<Longrightarrow> asks_ok b' = asks_ok b"
  by (simp add: asks_ok_def)

lemma bids_ok_wf: "bids_ok b \<Longrightarrow> wf_dict (b_bids b)" "asks_ok b \<Longrightarrow> wf_dict (b_asks b)"
  by (simp_all add: bids_ok_def asks_ok_def pos_levels_def)

text \<open>Applying a batch either rejects the book or yields the right one.\<close>

lemma apply_delta_cases:
  assumes ok: "book_ok b" and ups: "updates_ok bu" "updates_ok au"
  obtains (rejected) b' where "apply_delta bu au b = (b'\<lparr>b_initialized := False\<rparr>, Inl (OrderBookGapError ''integrity''))"
      "b_publish_depth_levels b' = b_publish_depth_levels b" "b_max_levels_per_side b' = b_max_levels_per_side b"
  | (applied) b' where "apply_delta bu au b = (b', Inr ())" "book_ok b'" "b_initialized b' = b_initialized b"
      "b_publish_depth_levels b' = b_publish_depth_levels b" "b_max_levels_per_side b' = b_max_levels_per_side b"
      "b_bids b' = b_bids (fst (apply_updates apply_bid_update bu b))"
      "b_asks b' = b_asks (fst (apply_updates apply_ask_update au (fst (apply_updates apply_bid_update bu b))))"
proof -
  define b1 where "b1 = fst (apply_updates apply_bid_update bu b)"
  define bd where "bd = snd (apply_updates apply_bid_update bu b)"
  define b2 where "b2 = fst (apply_updates apply_ask_update au b1)"
  define ad where "ad = snd (apply_updates apply_ask_update au b1)"
  have bids: "bids_ok b" and asks: "asks_ok b" using ok by (simp_all add: book_ok_def)
  have b1_ok: "bids_ok b1" and b1_still: "\<not> bd \<Longrightarrow> bid_side.stable (b_top_bids b) (b_publish_depth_levels b) (b_bids b) (b_bids b1)"
    using bid_batch [OF bids ups(1)] by (auto simp: b1_def bd_def)
  obtain d p v where b1: "b1 = b\<lparr>b_bids := d, b_best_bid_price := p, b_best_bid_volume := v\<rparr>"
    using bid_batch [OF bids ups(1)] unfolding b1_def by blast
  have "asks_ok b1" using asks by (simp add: b1 asks_ok_def)
  note ask = ask_batch [OF this ups(2)]
  have b2_ok: "asks_ok b2" and b2_still: "\<not> ad \<Longrightarrow> ask_side.stable (b_top_asks b1) (b_publish_depth_levels b1) (b_asks b1) (b_asks b2)"
    using ask by (auto simp: b2_def ad_def)
  obtain d' p' v' where b2: "b2 = b1\<lparr>b_asks := d', b_best_ask_price := p', b_best_ask_volume := v'\<rparr>"
    using ask unfolding b2_def by blast
  have bids2: "bids_ok b2" using b1_ok by (simp add: b2 bids_ok_def)
  define b3 where "b3 = (if bd then recompute_published_bid_levels b2 else b2)"
  define b4 where "b4 = (if ad then recompute_published_ask_levels b3 else b3)"
  have eq: "apply_delta bu au b =
    (if b_max_levels_per_side b2 < length (b_bids b2) \<or> b_max_levels_per_side b2 < length (b_asks b2)
     then reject_integrity b2
     else case validate_book (b_bids b4) (b_asks b4) of Inl _ \<Rightarrow> reject_integrity b4 | Inr _ \<Rightarrow> (b4, Inr ()))"
    unfolding apply_delta_def Let_def split_beta b4_def b3_def ad_def b2_def bd_def b1_def ..
  have b4 [simp]: "b_bids b4 = b_bids b2" "b_asks b4 = b_asks b2" "b_initialized b4 = b_initialized b2"
    "b_publish_depth_levels b4 = b_publish_depth_levels b2" "b_max_levels_per_side b4 = b_max_levels_per_side b2"
    "bids_ok b4 = bids_ok b2" "asks_ok b4 = asks_ok b2"
    "b_top_bids b4 = (if bd then nlargest (b_publish_depth_levels b2) (b_bids b2) else b_top_bids b2)"
    "b_top_asks b4 = (if ad then nsmallest (b_publish_depth_levels b2) (b_asks b2) else b_top_asks b2)"
    by (simp_all add: b4_def b3_def recompute_published_bid_levels_def recompute_published_ask_levels_def
        bids_ok_def asks_ok_def)
  have tb: "b_top_bids b4 = nlargest (b_publish_depth_levels b) (b_bids b4)"
    using ok b1_still bid_side.ladder_stable [OF bids_ok_wf(1) [OF bids] bids_ok_wf(1) [OF b1_ok]]
    by (simp add: b2 b1 nlargest_ladder book_ok_def)
  have ta: "b_top_asks b4 = nsmallest (b_publish_depth_levels b) (b_asks b4)"
    using ok b2_still ask_side.ladder_stable [OF bids_ok_wf(2) [OF asks] bids_ok_wf(2) [OF b2_ok]]
    by (simp add: b2 b1 nsmallest_ladder book_ok_def)
  show ?thesis
  proof (cases "snd (apply_delta bu au b) = Inr ()")
    case False
    then show ?thesis
      using rejected [of b2] rejected [of b4] unfolding eq reject_integrity_def
      by (auto simp: b2 b1 split: if_splits sum.splits)
  next
    case True
    then have size: "length (b_bids b2) \<le> b_max_levels_per_side b2" "length (b_asks b2) \<le> b_max_levels_per_side b2"
      and valid: "validate_book (b_bids b4) (b_asks b4) = Inr ()" and res: "apply_delta bu au b = (b4, Inr ())"
      unfolding eq reject_integrity_def by (auto split: if_splits sum.splits)
    have "book_ok b4"
      using valid size tb ta bids2 b2_ok unfolding book_ok_def validate_book_Inr by (simp add: b2 b1)
    then show ?thesis
      by (rule applied [OF res]) (simp_all add: b1_def [symmetric] b2_def [symmetric], simp_all add: b2 b1)
  qed
qed

lemma recompute_quotes_ok:
  assumes "pos_levels (b_bids b)" "pos_levels (b_asks b)" "validate_book (b_bids b) (b_asks b) = Inr u"
    "length (b_bids b) \<le> b_max_levels_per_side b" "length (b_asks b) \<le> b_max_levels_per_side b"
  shows "book_ok (recompute_best_quotes b)"
proof -
  have "bids_ok (recompute_best_quotes b)" using recompute_best_bid_ok [OF assms(1)]
    by (simp add: recompute_best_quotes_def recompute_published_bid_levels_def recompute_published_ask_levels_def
        bids_ok_def recompute_best_ask_def Let_def)
  moreover have "asks_ok (recompute_best_quotes b)"
    using recompute_best_ask_ok [of "recompute_best_bid b"] assms(2)
    by (simp add: recompute_best_quotes_def recompute_published_bid_levels_def recompute_published_ask_levels_def
        asks_ok_def) (simp add: recompute_best_bid_def Let_def)
  ultimately show ?thesis
    using assms(3-5) unfolding book_ok_def validate_book_Inr
    by (simp add: recompute_best_quotes_def recompute_published_bid_levels_def recompute_published_ask_levels_def
        recompute_best_ask_def recompute_best_bid_def Let_def)
qed

lemma parse_snapshot_ok:
  assumes "parse_snapshot limit snap = Inr (bids, asks, i)" "0 < limit"
  shows "pos_levels bids \<and> pos_levels asks \<and> validate_book bids asks = Inr () \<and>
    length bids \<le> limit \<and> length asks \<le> limit \<and> 0 \<le> i"
proof -
  from assms(1) obtain b a bs as where shape: "validate_delta_shape (max 1 limit) b a = Inr (bs, as)"
    and bids: "parse_levels False bs [] = Inr bids" and asks: "parse_levels False as [] = Inr asks"
    and ok: "validate_book bids asks = Inr ()" "0 \<le> i"
    by (auto simp: parse_snapshot_def res_simps)
  have "max 1 limit = limit" using assms(2) by simp
  with shape have "length bs \<le> limit" "length as \<le> limit" by (auto dest!: validate_delta_shape_Inr)
  with bids asks ok show ?thesis
    by (auto simp: pos_levels_def [of "[]"] dest!: parse_levels_length
        intro: parse_levels_pos [OF bids] parse_levels_pos [OF asks])
qed

lemma recompute_quotes_config:
  "b_initialized (recompute_best_quotes b) = b_initialized b"
  "b_publish_depth_levels (recompute_best_quotes b) = b_publish_depth_levels b"
  "b_max_levels_per_side (recompute_best_quotes b) = b_max_levels_per_side b"
  by (simp_all add: recompute_best_quotes_def recompute_published_bid_levels_def
      recompute_published_ask_levels_def recompute_best_ask_def recompute_best_bid_def Let_def)

lemma init_snapshot_inv:
  assumes "book_inv b" shows "book_inv (fst (init_snapshot snap b))"
proof (cases "parse_snapshot (b_max_levels_per_side b) snap")
  case (Inl e)
  with assms show ?thesis by (simp add: init_snapshot_def book_inv_def book_config_def Let_def)
next
  case (Inr r)
  obtain bids asks i where r: "r = (bids, asks, i)" by (cases r)
  have cfg: "book_config b" "0 < b_max_levels_per_side b" using assms by (simp_all add: book_inv_def book_config_def)
  have "book_ok (fst (init_snapshot snap b))"
    using parse_snapshot_ok [OF Inr [unfolded r] cfg(2)] Inr r
    by (auto simp: init_snapshot_def Let_def intro!: recompute_quotes_ok)
  moreover have "book_config (fst (init_snapshot snap b))"
    using cfg Inr r by (simp add: init_snapshot_def Let_def book_config_def recompute_quotes_config)
  ultimately show ?thesis by (simp add: book_inv_def)
qed

lemma book_ok_frame [simp]:
  "book_ok (b\<lparr>b_last_update_id := i\<rparr>) = book_ok b"
  "book_ok (b\<lparr>b_awaiting_first_delta := w\<rparr>) = book_ok b"
  "book_ok (b\<lparr>b_last_exchange_ts := x\<rparr>) = book_ok b"
  "book_ok (b\<lparr>b_last_received_ts := x\<rparr>) = book_ok b"
  "book_ok (b\<lparr>b_last_received_monotonic := x\<rparr>) = book_ok b"
  "book_ok (b\<lparr>b_last_clock_offset_ms := c\<rparr>) = book_ok b"
  "book_ok (b\<lparr>b_last_corrected_received_ts := x\<rparr>) = book_ok b"
  "book_ok (b\<lparr>b_initialized := w\<rparr>) = book_ok b"
  "book_config (b\<lparr>b_last_update_id := i\<rparr>) = book_config b"
  "book_config (b\<lparr>b_awaiting_first_delta := w\<rparr>) = book_config b"
  by (simp_all add: book_ok_def bids_ok_def asks_ok_def book_config_def)

text \<open>Storing the timestamps touches nothing else, whether or not it completes.\<close>

lemma store_times_frame:
  "book_ok (fst (store_times delta rt rm off ct b)) = book_ok b"
  "b_initialized (fst (store_times delta rt rm off ct b)) = b_initialized b"
  "b_bids (fst (store_times delta rt rm off ct b)) = b_bids b"
  "b_asks (fst (store_times delta rt rm off ct b)) = b_asks b"
  "b_last_update_id (fst (store_times delta rt rm off ct b)) = b_last_update_id b"
  "b_awaiting_first_delta (fst (store_times delta rt rm off ct b)) = b_awaiting_first_delta b"
  "book_config (fst (store_times delta rt rm off ct b)) = book_config b"
  by (auto simp: store_times_def Let_def book_config_def split: sum.split)

text \<open>Conversions never raise the gap error themselves.\<close>

definition gap_error :: "py_exc \<Rightarrow> bool" where
  "gap_error e \<longleftrightarrow> (\<exists>x. e = OrderBookGapError x)"

lemma float_of_no_gap: "float_of v = Inl e \<Longrightarrow> \<not> gap_error e"
  by (cases v) (auto simp: gap_error_def float_of_string_def Let_def split: prod.splits if_splits option.splits list.splits)

lemma int_of_no_gap: "int_of v = Inl e \<Longrightarrow> \<not> gap_error e"
proof (cases v)
  case (PFloat x)
  then show "int_of v = Inl e \<Longrightarrow> \<not> gap_error e" by (cases x) (auto simp: gap_error_def)
qed (auto simp: gap_error_def int_of_string_def Let_def split: prod.splits if_splits)

lemma vitem_no_gap: "vitem d k = Inl e \<Longrightarrow> \<not> gap_error e"
  by (auto simp: vitem_def gap_error_def split: option.splits)

lemma level_pair_no_gap: "level_pair v = Inl e \<Longrightarrow> \<not> gap_error e"
  by (cases v rule: level_pair.cases) (auto simp: gap_error_def)

lemma parse_levels_no_gap: "parse_levels keep es d = Inl e \<Longrightarrow> \<not> gap_error e"
proof (induction es arbitrary: d)
  case (Cons x es)
  have "\<not> gap_error e" if "parse_level keep x d = Inl e"
    using that by (auto simp: parse_level_def res_simps gap_error_def
        dest: float_of_no_gap level_pair_no_gap [unfolded gap_error_def] float_of_no_gap [unfolded gap_error_def])
  with Cons show ?case by (auto simp: res_simps)
qed simp

lemma validate_delta_shape_no_gap: "validate_delta_shape n b a = Inl e \<Longrightarrow> \<not> gap_error e"
  by (auto simp: validate_delta_shape_def level_list_def res_simps gap_error_def split: pyval.splits if_splits)

lemma parse_delta_no_gap: "parse_delta n delta = Inl e \<Longrightarrow> \<not> gap_error e"
proof -
  have ve: "\<not> gap_error (ValueError s)" for s by (simp add: gap_error_def)
  show "parse_delta n delta = Inl e \<Longrightarrow> \<not> gap_error e"
    by (auto simp: parse_delta_def res_simps ve dest: validate_delta_shape_no_gap vitem_no_gap int_of_no_gap
        parse_levels_no_gap)
qed

lemma resolve_times_no_gap: "resolve_times inp delta = Inl e \<Longrightarrow> \<not> gap_error e"
  by (auto simp: resolve_times_def Let_def res_simps dest: float_of_no_gap split: if_splits)

lemma store_times_no_gap: "snd (store_times delta rt rm off ct b) = Inl e \<Longrightarrow> \<not> gap_error e"
  by (auto simp: store_times_def extract_exchange_ts_def Let_def res_simps
      dest: float_of_no_gap split: sum.splits if_splits)

text \<open>What a delta can do to a live book.\<close>

lemma process_delta_cases:
  assumes init: "b_initialized b" and ok: "book_ok b"
  obtains (unchanged) e where "process_delta inp delta b = (b, e)" "\<And>x. e = Inl x \<Longrightarrow> \<not> gap_error x"
      "\<And>u U pu bu au. parse_delta (b_max_delta_levels_per_side b) delta = Inr (u, U, pu, bu, au) \<Longrightarrow>
         e = Inr () \<Longrightarrow> u < b_last_update_id b"
  | (dropped) y b' where "process_delta inp delta b = (b'\<lparr>b_initialized := False\<rparr>, Inl (OrderBookGapError y))"
      "b_publish_depth_levels b' = b_publish_depth_levels b" "b_max_levels_per_side b' = b_max_levels_per_side b"
  | (applied) u U pu bu au b' rt rm off ct where
      "parse_delta (b_max_delta_levels_per_side b) delta = Inr (u, U, pu, bu, au)"
      "b_last_update_id b \<le> u" "sequence_valid u U pu b" "book_ok b'"
      "b_initialized b'" "b_publish_depth_levels b' = b_publish_depth_levels b"
      "b_max_levels_per_side b' = b_max_levels_per_side b"
      "b_bids b' = b_bids (fst (apply_updates apply_bid_update bu b))"
      "b_asks b' = b_asks (fst (apply_updates apply_ask_update au (fst (apply_updates apply_bid_update bu b))))"
      "process_delta inp delta b =
         store_times delta rt rm off ct (b'\<lparr>b_last_update_id := u, b_awaiting_first_delta := False\<rparr>)"
proof (cases "resolve_times inp delta")
  case (Inl e)
  then show ?thesis by (intro unchanged [of "Inl e"]) (auto simp: process_delta_def dest: resolve_times_no_gap)
next
  case (Inr times)
  obtain rt rm off ct where t: "resolve_times inp delta = Inr (rt, rm, off, ct)" using Inr by (cases times) simp
  show ?thesis
  proof (cases "parse_delta (b_max_delta_levels_per_side b) delta")
    case (Inl e)
    show ?thesis
    proof (cases "caught_by_delta e")
      case True
      with Inl t show ?thesis by (intro dropped [of b]) (auto simp: process_delta_def reject_integrity_def)
    next
      case False
      with Inl t show ?thesis
        by (intro unchanged [of "Inl e"]) (auto simp: process_delta_def dest: parse_delta_no_gap)
    qed
  next
    case parsed: (Inr r)
    obtain u U pu bu au where r: "r = (u, U, pu, bu, au)" by (cases r)
    note pd = parsed [unfolded r]
    consider (old) "u < b_last_update_id b" | (gap) "\<not> u < b_last_update_id b" "\<not> sequence_valid u U pu b"
      | (chained) "\<not> u < b_last_update_id b" "sequence_valid u U pu b" by blast
    then show ?thesis
    proof cases
      case old
      with pd t init show ?thesis by (intro unchanged [of "Inr ()"]) (auto simp: process_delta_def)
    next
      case gap
      with pd t init show ?thesis by (intro dropped [of b]) (auto simp: process_delta_def)
    next
      case chained
      note commit = applied
      have ups: "updates_ok bu" "updates_ok au" using parse_delta_ok [OF pd] by auto
      from ok ups show ?thesis
      proof (cases rule: apply_delta_cases)
        case (rejected b')
        with pd t init chained show ?thesis by (intro dropped [of b']) (auto simp: process_delta_def)
      next
        case (applied b')
        with pd t init chained show ?thesis
          by (intro commit [of u U pu bu au b' rt rm off ct]) (auto simp: process_delta_def)
      qed
    qed
  qed
qed

lemma process_delta_inv:
  assumes "book_inv b" shows "book_inv (fst (process_delta inp delta b))"
proof (cases "b_initialized b")
  case False
  with assms show ?thesis
    by (auto simp: process_delta_def reject_integrity_def book_inv_def book_config_def split: sum.splits prod.splits)
next
  case init: True
  then have ok: "book_ok b" and cfg: "book_config b" using assms by (simp_all add: book_inv_def)
  from init ok show ?thesis
  proof (cases rule: process_delta_cases [where inp = inp and delta = delta])
    case unchanged
    with assms show ?thesis by simp
  next
    case dropped
    with cfg show ?thesis by (simp add: book_inv_def book_config_def)
  next
    case (applied u U pu bu au b' rt rm off ct)
    have "book_config b'" using cfg applied by (simp add: book_config_def)
    with applied show ?thesis by (simp add: book_inv_def store_times_frame)
  qed
qed

subsection \<open>The book as a system\<close>

datatype book_op = Snapshot "(string \<times> pyval) list" | Delta ingress "(string \<times> pyval) list"

fun book_step :: "book_op \<Rightarrow> book \<Rightarrow> book" where
  "book_step (Snapshot snap) b = fst (init_snapshot snap b)"
| "book_step (Delta inp delta) b = fst (process_delta inp delta b)"

interpretation book_system: invariant_system book_step book_inv
proof
  fix b x assume "book_inv b"
  then show "book_inv (book_step x b)" by (cases x) (simp_all add: init_snapshot_inv process_delta_inv)
qed

lemma book_init_inv: "book_inv (book_init symbol publish full ml md)"
  by (auto simp: book_inv_def book_config_def book_init_def Let_def)

lemma book_reach:
  "book_inv (run_ops book_step xs (book_init symbol publish full ml md))"
  by (rule book_system.run_inv) (rule book_init_inv)

definition demo_ingress :: ingress where
  "demo_ingress = \<lparr>in_received_timestamp = PNone, in_received_monotonic = PNone, in_clock_offset_ms = PNone,
     in_corrected_received_timestamp = PNone, in_time = 1, in_perf_counter = 1\<rparr>"

definition lvl :: "rat \<Rightarrow> rat \<Rightarrow> pyval" where
  "lvl p q = PList [PFloat (Fin p), PFloat (Fin q)]"

definition demo_ops :: "book_op list" where
  "demo_ops =
     [Snapshot [(''lastUpdateId'', PInt 10), (''bids'', PList [lvl 99 1, lvl 98 2, lvl 97 3]),
                (''asks'', PList [lvl 101 1, lvl 102 2])],
      Delta demo_ingress [(''U'', PInt 9), (''u'', PInt 12), (''pu'', PInt 8),
                (''b'', PList [lvl 99 0, lvl 96 5]), (''a'', PList [lvl 100 7])]]"

lemma demo_book:
  "b_initialized (run_ops book_step demo_ops (book_init ''BTCUSDT'' 2 False 4096 2048))"
  "b_bids (run_ops book_step demo_ops (book_init ''BTCUSDT'' 2 False 4096 2048)) = [(98, 2), (97, 3), (96, 5)]"
  "b_asks (run_ops book_step demo_ops (book_init ''BTCUSDT'' 2 False 4096 2048)) = [(101, 1), (102, 2), (100, 7)]"
  by code_simp+

text \<open>Claim C14: the cached quotes are exact. In every initialised book the code can reach, by any sequence
  of snapshots and deltas, the incrementally maintained best bid and ask are the maximum bid and the
  minimum ask with their volumes, and the lazily refreshed published levels equal the first levels
  of a full sort of each side.\<close>

theorem cached_quotes_exact:
  assumes "b = run_ops book_step xs (book_init symbol publish full ml md)" "b_initialized b"
  shows "b_best_bid_price b = Max (set (dkeys (b_bids b))) \<and>
    dget (b_bids b) (b_best_bid_price b) = Some (b_best_bid_volume b) \<and>
    b_best_ask_price b = Min (set (dkeys (b_asks b))) \<and>
    dget (b_asks b) (b_best_ask_price b) = Some (b_best_ask_volume b) \<and>
    b_top_bids b = take (b_publish_depth_levels b) (sort_key (\<lambda>p. - fst p) (b_bids b)) \<and>
    b_top_asks b = take (b_publish_depth_levels b) (sort_key fst (b_asks b))"
proof -
  have ok: "book_ok b" using book_reach assms by (simp add: book_inv_def)
  then have "bid_side.best_ok (b_bids b) (b_best_bid_price b) (b_best_bid_volume b)"
    "ask_side.best_ok (b_asks b) (b_best_ask_price b) (b_best_ask_volume b)" "b_bids b \<noteq> []" "b_asks b \<noteq> []"
    by (simp_all add: book_ok_def bids_ok_def asks_ok_def)
  with best_Max best_Min ok show ?thesis
    by (simp add: book_ok_def nlargest_def nsmallest_def bid_side.best_ok_def ask_side.best_ok_def)
qed

theorem cached_quotes_exact_witness:
  "b_best_bid_price (run_ops book_step demo_ops (book_init ''BTCUSDT'' 2 False 4096 2048)) = 98"
  using cached_quotes_exact [OF refl demo_book(1)] by (simp add: demo_book)

text \<open>A live book is sane. Every initialised book is two-sided and not crossed, has only
  positive prices and volumes, no price twice on a side, and at most the configured number of levels
  per side.\<close>

theorem live_book_bounds:
  assumes "b = run_ops book_step xs (book_init symbol publish full ml md)" "b_initialized b"
  shows "0 < b_best_bid_price b \<and> b_best_bid_price b < b_best_ask_price b \<and>
    0 < b_best_bid_volume b \<and> 0 < b_best_ask_volume b \<and>
    wf_dict (b_bids b) \<and> wf_dict (b_asks b) \<and>
    (\<forall>p q. (p, q) \<in> set (b_bids b) \<union> set (b_asks b) \<longrightarrow> 0 < p \<and> 0 < q) \<and>
    length (b_bids b) \<le> b_max_levels_per_side b \<and> length (b_asks b) \<le> b_max_levels_per_side b"
proof -
  have ok: "book_ok b" using book_reach assms by (simp add: book_inv_def)
  then have side: "bid_side.best_ok (b_bids b) (b_best_bid_price b) (b_best_bid_volume b)"
    "ask_side.best_ok (b_asks b) (b_best_ask_price b) (b_best_ask_volume b)" "b_bids b \<noteq> []" "b_asks b \<noteq> []"
    and pos: "pos_levels (b_bids b)" "pos_levels (b_asks b)"
    by (simp_all add: book_ok_def bids_ok_def asks_ok_def)
  from side have "(b_best_bid_price b, b_best_bid_volume b) \<in> set (b_bids b)"
    "(b_best_ask_price b, b_best_ask_volume b) \<in> set (b_asks b)"
    by (auto simp: bid_side.best_ok_def ask_side.best_ok_def dest: map_of_SomeD)
  with pos have "0 < b_best_bid_price b \<and> 0 < b_best_bid_volume b \<and> 0 < b_best_ask_volume b"
    by (auto simp: pos_levels_def)
  with best_Max [OF side(3,1)] best_Min [OF side(4,2)] ok pos show ?thesis
    by (auto simp: book_ok_def pos_levels_def)
qed

theorem live_book_bounds_witness:
  "length (b_bids (run_ops book_step demo_ops (book_init ''BTCUSDT'' 2 False 4096 2048)))
     \<le> b_max_levels_per_side (run_ops book_step demo_ops (book_init ''BTCUSDT'' 2 False 4096 2048))"
  using live_book_bounds [OF refl demo_book(1)] by blast

text \<open>Claim C26: an applied delta implements the exchange's map update. Seen as maps from price to
  quantity, each side after a delta that advances the book is the old map overwritten by the update,
  where quantity zero removes the level; the book's id becomes the delta's final id.\<close>

definition overwrite :: "(rat \<rightharpoonup> rat) \<Rightarrow> levels \<Rightarrow> (rat \<rightharpoonup> rat)" where
  "overwrite m us = (\<lambda>p. case dget us p of None \<Rightarrow> m p | Some q \<Rightarrow> if q = 0 then None else Some q)"

lemma batch_lookup:
  assumes "bids_ok b" "updates_ok bu" "updates_ok au"
  shows "dget (b_bids (fst (apply_updates apply_bid_update bu b))) = overwrite (dget (b_bids b)) bu"
    "dget (b_asks (fst (apply_updates apply_ask_update au (fst (apply_updates apply_bid_update bu b))))) =
       overwrite (dget (b_asks b)) au"
proof -
  obtain d p v where b1: "fst (apply_updates apply_bid_update bu b) =
      b\<lparr>b_bids := d, b_best_bid_price := p, b_best_bid_volume := v\<rparr>"
    using bid_batch [OF assms(1,2)] by blast
  show "dget (b_bids (fst (apply_updates apply_bid_update bu b))) = overwrite (dget (b_bids b)) bu"
    using assms(2) apply_updates_lookup [of b_bids apply_bid_update _ bu b, OF apply_update_lookup(1)]
    by (simp add: fun_eq_iff overwrite_def updates_ok_def)
  show "dget (b_asks (fst (apply_updates apply_ask_update au (fst (apply_updates apply_bid_update bu b))))) =
      overwrite (dget (b_asks b)) au"
    using assms(3) apply_updates_lookup [of b_asks apply_ask_update _ au, OF apply_update_lookup(2)]
    by (simp add: fun_eq_iff overwrite_def updates_ok_def b1 split: option.split)
qed

theorem delta_refines_map_update:
  assumes "b = run_ops book_step xs (book_init symbol publish full ml md)" "b_initialized b"
    and "parse_delta (b_max_delta_levels_per_side b) delta = Inr (u, U, pu, bu, au)"
    and "process_delta inp delta b = (b', Inr ())" "b_last_update_id b \<le> u"
  shows "dget (b_bids b') = overwrite (dget (b_bids b)) bu \<and>
    dget (b_asks b') = overwrite (dget (b_asks b)) au \<and>
    b_initialized b' \<and> b_last_update_id b' = u \<and> \<not> b_awaiting_first_delta b' \<and>
    (if b_awaiting_first_delta b then pu = b_last_update_id b \<or> U \<le> b_last_update_id b
     else pu = b_last_update_id b)"
proof -
  have ok: "book_ok b" using book_reach assms(1,2) by (simp add: book_inv_def)
  from assms(2) ok show ?thesis
  proof (cases rule: process_delta_cases [where inp = inp and delta = delta])
    case (unchanged e)
    with assms(3-5) show ?thesis by (auto dest: unchanged(3))
  next
    case dropped
    with assms(4) show ?thesis by simp
  next
    case (applied u' U' pu' bu' au' b1 rt rm off ct)
    have b': "b' = fst (store_times delta rt rm off ct (b1\<lparr>b_last_update_id := u, b_awaiting_first_delta := False\<rparr>))"
      using applied(1,10) assms(3,4) by (metis Pair_inject fst_conv sum.inject(2))
    have eqs: "u' = u" "U' = U" "pu' = pu" "bu' = bu" "au' = au" using applied(1) assms(3) by auto
    have "bids_ok b" using ok by (simp add: book_ok_def)
    note look = batch_lookup [OF this] parse_delta_ok [OF assms(3)]
    show ?thesis using look applied unfolding eqs
      by (auto simp: b' store_times_frame sequence_valid_def split: if_splits)
  qed
qed

theorem delta_refines_map_update_witness:
  "\<exists>b b'. b = run_ops book_step [hd demo_ops] (book_init ''BTCUSDT'' 2 False 4096 2048) \<and>
     b' = run_ops book_step demo_ops (book_init ''BTCUSDT'' 2 False 4096 2048) \<and>
     dget (b_bids b') = overwrite (dget (b_bids b)) [(99, 0), (96, 5)]"
proof -
  let ?b = "run_ops book_step [hd demo_ops] (book_init ''BTCUSDT'' 2 False 4096 2048)"
  let ?d = "[(''U'', PInt 9), (''u'', PInt 12), (''pu'', PInt 8),
                (''b'', PList [lvl 99 0, lvl 96 5]), (''a'', PList [lvl 100 7])]"
  have "b_initialized ?b" "b_last_update_id ?b \<le> 12" by code_simp+
  moreover have "parse_delta (b_max_delta_levels_per_side ?b) ?d = Inr (12, 9, 8, [(99, 0), (96, 5)], [(100, 7)])"
    by code_simp
  moreover have "snd (process_delta demo_ingress ?d ?b) = Inr ()" by code_simp
  moreover have "run_ops book_step demo_ops (book_init ''BTCUSDT'' 2 False 4096 2048) =
      fst (process_delta demo_ingress ?d ?b)" by (simp add: demo_ops_def)
  ultimately show ?thesis
    using delta_refines_map_update [OF refl, of "[hd demo_ops]" "''BTCUSDT''" 2 False 4096 2048 ?d 12 9 8
        "[(99, 0), (96, 5)]" "[(100, 7)]" demo_ingress "fst (process_delta demo_ingress ?d ?b)"]
    by (metis prod.collapse)
qed

text \<open>Claim C36: a gap is never hidden. When a delta raises the gap error, whatever it contained, the book
  is no longer initialised, so it publishes nothing and ignores further deltas until a new snapshot;
  and a live book whose bridge is established never advances over a delta whose previous id is not
  the book's id.\<close>

theorem gap_error_stops_book:
  assumes "b = run_ops book_step xs (book_init symbol publish full ml md)"
    and "process_delta inp delta b = (b', Inl (OrderBookGapError why))"
  shows "\<not> b_initialized b' \<and> generate_event_data b' = None \<and>
    (\<forall>inp' delta'. snd (process_delta inp' delta' b') = Inr () \<longrightarrow> fst (process_delta inp' delta' b') = b')"
proof -
  have "\<not> b_initialized b'"
  proof (cases "b_initialized b")
    case False
    with assms(2) show ?thesis
      by (auto simp: process_delta_def reject_integrity_def gap_error_def dest: resolve_times_no_gap parse_delta_no_gap
          split: sum.splits prod.splits if_splits)
  next
    case True
    then have ok: "book_ok b" using book_reach assms(1) by (simp add: book_inv_def)
    from True ok show ?thesis
    proof (cases rule: process_delta_cases [where inp = inp and delta = delta])
      case (unchanged e)
      with assms(2) show ?thesis by (auto simp: gap_error_def)
    next
      case dropped
      with assms(2) show ?thesis by auto
    next
      case (applied u U pu bu au b1 rt rm off ct)
      with assms(2) store_times_no_gap show ?thesis by (metis gap_error_def snd_conv)
    qed
  qed
  then show ?thesis
    by (auto simp: generate_event_data_def process_delta_def reject_integrity_def split: sum.splits prod.splits)
qed

theorem gap_error_stops_book_witness:
  "\<not> b_initialized (fst (process_delta demo_ingress
      [(''U'', PInt 20), (''u'', PInt 21), (''pu'', PInt 19), (''b'', PList []), (''a'', PList [])]
      (run_ops book_step demo_ops (book_init ''BTCUSDT'' 2 False 4096 2048))))"
proof -
  let ?r = "process_delta demo_ingress
      [(''U'', PInt 20), (''u'', PInt 21), (''pu'', PInt 19), (''b'', PList []), (''a'', PList [])]
      (run_ops book_step demo_ops (book_init ''BTCUSDT'' 2 False 4096 2048))"
  have "snd ?r = Inl (OrderBookGapError ''gap'')" by code_simp
  then have "?r = (fst ?r, Inl (OrderBookGapError ''gap''))" by (metis prod.collapse)
  from gap_error_stops_book [OF refl this] show ?thesis by blast
qed

lemma strict_ladder:
  "bid_side.ladder n d = xs \<Longrightarrow> wf_dict d \<Longrightarrow> sorted_wrt (\<lambda>p q. fst q < fst p) xs"
  "ask_side.ladder n d = xs \<Longrightarrow> wf_dict d \<Longrightarrow> sorted_wrt (\<lambda>p q. fst p < fst q) xs"
proof -
  have strict: "sorted_wrt (\<lambda>p q. f p < f q) ys" if "sorted (map f ys)" "distinct (map f ys)"
    for f :: "rat \<times> rat \<Rightarrow> rat" and ys
    using that by (induction ys) (auto simp: less_le)
  show "bid_side.ladder n d = xs \<Longrightarrow> wf_dict d \<Longrightarrow> sorted_wrt (\<lambda>p q. fst q < fst p) xs"
    using strict [OF bid_side.sorted_keys] by (auto simp: bid_side.ladder_def sorted_wrt_take)
  show "ask_side.ladder n d = xs \<Longrightarrow> wf_dict d \<Longrightarrow> sorted_wrt (\<lambda>p q. fst p < fst q) xs"
    using strict [OF ask_side.sorted_keys] by (auto simp: ask_side.ladder_def sorted_wrt_take)
qed

text \<open>A published event is an ordered, uncrossed ladder. Its bids fall and its asks rise
  strictly, both start with the published best quotes, and the best bid is below the best ask.\<close>

theorem published_ladder:
  assumes "b = run_ops book_step xs (book_init symbol publish full ml md)" "generate_event_data b = Some ev"
  shows "sorted_wrt (\<lambda>p q. fst q < fst p) (ev_top_bids ev) \<and> sorted_wrt (\<lambda>p q. fst p < fst q) (ev_top_asks ev) \<and>
    ev_top_bids ev \<noteq> [] \<and> hd (ev_top_bids ev) = (ev_best_bid_price ev, ev_best_bid_volume ev) \<and>
    ev_top_asks ev \<noteq> [] \<and> hd (ev_top_asks ev) = (ev_best_ask_price ev, ev_best_ask_volume ev) \<and>
    ev_best_bid_price ev < ev_best_ask_price ev"
proof -
  have init: "b_initialized b" using assms(2) by (auto simp: generate_event_data_def split: if_splits)
  have inv: "book_inv b" using book_reach assms(1) by simp
  then have ok: "book_ok b" and n: "0 < b_publish_depth_levels b"
    using init by (simp_all add: book_inv_def book_config_def)
  have ev: "ev_top_bids ev = b_top_bids b" "ev_top_asks ev = b_top_asks b" "ev_best_bid_price ev = b_best_bid_price b"
    "ev_best_bid_volume ev = b_best_bid_volume b" "ev_best_ask_price ev = b_best_ask_price b"
    "ev_best_ask_volume ev = b_best_ask_volume b"
    using assms(2) init by (auto simp: generate_event_data_def Let_def)
  have bids: "bid_side.best_ok (b_bids b) (b_best_bid_price b) (b_best_bid_volume b)" "b_bids b \<noteq> []"
      "wf_dict (b_bids b)" "bid_side.ladder (b_publish_depth_levels b) (b_bids b) = b_top_bids b"
    and asks: "ask_side.best_ok (b_asks b) (b_best_ask_price b) (b_best_ask_volume b)" "b_asks b \<noteq> []"
      "wf_dict (b_asks b)" "ask_side.ladder (b_publish_depth_levels b) (b_asks b) = b_top_asks b"
    using ok by (simp_all add: book_ok_def bids_ok_def asks_ok_def pos_levels_def nlargest_ladder nsmallest_ladder)
  have "b_best_bid_price b < b_best_ask_price b"
    using ok best_Max [OF bids(2,1)] best_Min [OF asks(2,1)] by (simp add: book_ok_def)
  with strict_ladder(1) [OF bids(4,3)] strict_ladder(2) [OF asks(4,3)]
    bid_side.ladder_best [OF bids(2) n bids(3,1)] ask_side.ladder_best [OF asks(2) n asks(3,1)]
  show ?thesis unfolding ev bids(4) asks(4) by blast
qed

theorem published_ladder_witness:
  "\<exists>ev. generate_event_data (run_ops book_step demo_ops (book_init ''BTCUSDT'' 2 False 4096 2048)) = Some ev \<and>
     ev_best_bid_price ev < ev_best_ask_price ev"
proof -
  obtain ev where "generate_event_data (run_ops book_step demo_ops (book_init ''BTCUSDT'' 2 False 4096 2048)) = Some ev"
    using demo_book(1) by (auto simp: generate_event_data_def Let_def)
  with published_ladder [OF refl this] show ?thesis by blast
qed

end
