(* ===== verification/Market_Cache.thy ===== *)
theory Market_Cache
  imports Event_Types Op_System Order_Book
begin

text \<open>
  The latest-value cache of \<open>data/cache.py\<close> with its freshness watermarks, and the quote getters of
  \<open>OrderBook\<close> in \<open>event/type.py\<close>. Messages arrive with unchecked fields; the cache keeps only checked
  prices. Book prices come from the local order book, whose values are finite.
\<close>

subsection \<open>Quotes of a published book\<close>

definition get_best_bid :: "book_event \<Rightarrow> rat \<times> rat" where
  "get_best_bid ev =
     (if ev_best_bid_price ev > 0 then (ev_best_bid_price ev, ev_best_bid_volume ev)
      else case ev_top_bids ev of
          x # _ \<Rightarrow> x
        | [] \<Rightarrow> if ev_bids ev = [] then (0, 0)
                else let price = Max (set (dkeys (ev_bids ev))) in (price, dgetd (ev_bids ev) price 0))"

definition get_best_ask :: "book_event \<Rightarrow> rat \<times> rat" where
  "get_best_ask ev =
     (if ev_best_ask_price ev > 0 then (ev_best_ask_price ev, ev_best_ask_volume ev)
      else case ev_top_asks ev of
          x # _ \<Rightarrow> x
        | [] \<Rightarrow> if ev_asks ev = [] then (0, 0)
                else let price = Min (set (dkeys (ev_asks ev))) in (price, dgetd (ev_asks ev) price 0))"

subsection \<open>Messages and state\<close>

record stamps =
  st_received_monotonic :: pyfloat
  st_dispatch_monotonic :: pyfloat
  st_received_timestamp :: pyfloat
  st_dispatch_timestamp :: pyfloat

record mark_msg =
  mm_symbol :: string
  mm_mark_price :: pyval
  mm_index_price :: pyval
  mm_funding_rate :: pyval
  mm_stamps :: stamps

record trade_msg =
  tm_symbol :: string
  tm_trade_id :: pyval
  tm_price :: pyval
  tm_quantity :: pyval
  tm_stamps :: stamps

record mark_entry =
  me_mark_price :: rat
  me_index_price :: rat
  me_funding_rate :: rat

record trade_entry =
  te_trade_id :: int
  te_price :: rat
  te_quantity :: rat

record cache =
  ca_books :: "(string, book_event) dict"
  ca_mark_prices :: "(string, mark_entry) dict"
  ca_last_trades :: "(string, trade_entry) dict"
  ca_book_update_times :: "(string, rat) dict"
  ca_mark_update_times :: "(string, rat) dict"
  ca_trade_update_times :: "(string, rat) dict"
  ca_book_update_wall_times :: "(string, rat) dict"
  ca_mark_update_wall_times :: "(string, rat) dict"
  ca_trade_update_wall_times :: "(string, rat) dict"

definition cache_init :: cache where
  "cache_init = \<lparr>ca_books = [], ca_mark_prices = [], ca_last_trades = [], ca_book_update_times = [],
     ca_mark_update_times = [], ca_trade_update_times = [], ca_book_update_wall_times = [],
     ca_mark_update_wall_times = [], ca_trade_update_wall_times = []\<rparr>"

text \<open>\<open>float(received or dispatched or clock())\<close>, replaced by the clock unless finite and positive.\<close>

definition received_time :: "pyfloat \<Rightarrow> pyfloat \<Rightarrow> rat \<Rightarrow> rat" where
  "received_time received dispatched clock =
     (case (if received \<noteq> Fin 0 then received else if dispatched \<noteq> Fin 0 then dispatched else Fin clock) of
        Fin v \<Rightarrow> if v > 0 then v else clock
      | _ \<Rightarrow> clock)"

record clocks =
  ck_perf_counter :: rat
  ck_time :: rat

definition received_monotonic :: "stamps \<Rightarrow> clocks \<Rightarrow> rat" where
  "received_monotonic s ck = received_time (st_received_monotonic s) (st_dispatch_monotonic s) (ck_perf_counter ck)"

definition received_wall :: "stamps \<Rightarrow> clocks \<Rightarrow> rat" where
  "received_wall s ck = received_time (st_received_timestamp s) (st_dispatch_timestamp s) (ck_time ck)"

subsection \<open>Updates\<close>

definition update_book :: "string \<Rightarrow> book_event \<Rightarrow> stamps \<Rightarrow> clocks \<Rightarrow> cache \<Rightarrow> cache" where
  "update_book symbol ev s ck c = c\<lparr>
     ca_books := dset symbol ev (ca_books c),
     ca_book_update_times := dset symbol (received_monotonic s ck) (ca_book_update_times c),
     ca_book_update_wall_times := dset symbol (received_wall s ck) (ca_book_update_wall_times c)\<rparr>"

definition parse_mark :: "mark_msg \<Rightarrow> (pyfloat \<times> pyfloat \<times> pyfloat) res" where
  "parse_mark m =
     bindE (float_of (mm_mark_price m)) (\<lambda>mark.
     bindE (if mm_index_price m = PNone then Inr mark else float_of (mm_index_price m)) (\<lambda>index.
     bindE (if mm_funding_rate m = PNone then Inr (Fin 0) else float_of (mm_funding_rate m)) (\<lambda>funding.
     Inr (mark, index, funding))))"

definition update_mark_price :: "mark_msg \<Rightarrow> clocks \<Rightarrow> cache \<Rightarrow> cache \<times> bool" where
  "update_mark_price m ck c =
     (let symbol = strip (upper (mm_symbol m)) in
      case parse_mark m of
        Inr (Fin mark, Fin index, Fin funding) \<Rightarrow>
          if symbol = [] \<or> mark \<le> 0 \<or> index \<le> 0 then (c, False)
          else (c\<lparr>ca_mark_prices := dset symbol \<lparr>me_mark_price = mark, me_index_price = index,
                     me_funding_rate = funding\<rparr> (ca_mark_prices c),
                   ca_mark_update_times := dset symbol (received_monotonic (mm_stamps m) ck) (ca_mark_update_times c),
                   ca_mark_update_wall_times := dset symbol (received_wall (mm_stamps m) ck) (ca_mark_update_wall_times c)\<rparr>,
                True)
      | _ \<Rightarrow> (c, False))"

definition parse_trade :: "trade_msg \<Rightarrow> (int \<times> pyfloat \<times> pyfloat) res" where
  "parse_trade m =
     bindE (int_of (tm_trade_id m)) (\<lambda>tid.
     bindE (float_of (tm_price m)) (\<lambda>price.
     bindE (float_of (tm_quantity m)) (\<lambda>quantity. Inr (tid, price, quantity))))"

text \<open>An overflow of \<open>int(trade_id)\<close> is not caught by the code.\<close>

definition update_trade :: "trade_msg \<Rightarrow> clocks \<Rightarrow> cache \<Rightarrow> cache \<times> bool res" where
  "update_trade m ck c =
     (let symbol = strip (upper (tm_symbol m)) in
      case parse_trade m of
        Inr (tid, Fin price, Fin quantity) \<Rightarrow>
          if symbol = [] \<or> tid < 0 \<or> price \<le> 0 \<or> quantity \<le> 0 then (c, Inr False)
          else (c\<lparr>ca_last_trades := dset symbol \<lparr>te_trade_id = tid, te_price = price, te_quantity = quantity\<rparr> (ca_last_trades c),
                   ca_trade_update_times := dset symbol (received_monotonic (tm_stamps m) ck) (ca_trade_update_times c),
                   ca_trade_update_wall_times := dset symbol (received_wall (tm_stamps m) ck) (ca_trade_update_wall_times c)\<rparr>,
                Inr True)
      | Inl OverflowError \<Rightarrow> (c, Inl OverflowError)
      | _ \<Rightarrow> (c, Inr False))"

subsection \<open>Reads\<close>

definition get_mark_price :: "cache \<Rightarrow> string \<Rightarrow> rat" where
  "get_mark_price c symbol =
     (let from_book = (case dget (ca_books c) symbol of
          None \<Rightarrow> 0
        | Some ev \<Rightarrow> let bid = fst (get_best_bid ev); ask = fst (get_best_ask ev) in
                    if bid > 0 \<and> ask > 0 then fl (fl (bid + ask) / 2) else 0)
      in case dget (ca_mark_prices c) symbol of
          None \<Rightarrow> from_book
        | Some e \<Rightarrow> if me_mark_price e > 0 then me_mark_price e else from_book)"

definition get_best_quote :: "cache \<Rightarrow> string \<Rightarrow> rat \<times> rat" where
  "get_best_quote c symbol = (case dget (ca_books c) symbol of
     None \<Rightarrow> (0, 0) | Some ev \<Rightarrow> (fst (get_best_bid ev), fst (get_best_ask ev)))"

definition get_last_trade_price :: "cache \<Rightarrow> string \<Rightarrow> rat" where
  "get_last_trade_price c symbol = (case dget (ca_last_trades c) symbol of None \<Rightarrow> 0 | Some e \<Rightarrow> te_price e)"

text \<open>Age of a source in milliseconds: \<open>max(0.0, (now - time) * 1000.0) if time else None\<close>.\<close>

definition age_ms :: "rat \<Rightarrow> rat \<Rightarrow> rat option" where
  "age_ms now t = (if t = 0 then None else Some (max 0 (fl (fl (now - t) * 1000))))"

subsection \<open>The cache over a stream of messages\<close>

datatype cache_op =
    Book string book_event stamps clocks
  | Mark mark_msg clocks
  | Trade trade_msg clocks

fun cache_step :: "cache_op \<Rightarrow> cache \<Rightarrow> cache" where
  "cache_step (Book symbol ev s ck) c = update_book symbol ev s ck c"
| "cache_step (Mark m ck) c = fst (update_mark_price m ck c)"
| "cache_step (Trade m ck) c = fst (update_trade m ck c)"

text \<open>The price a message carries for a symbol, when it is one the cache accepts.\<close>

fun valid_mark :: "string \<Rightarrow> cache_op \<Rightarrow> rat option" where
  "valid_mark symbol (Mark m ck) =
     (case parse_mark m of
        Inr (Fin mark, Fin index, Fin funding) \<Rightarrow>
          if strip (upper (mm_symbol m)) = symbol \<and> symbol \<noteq> [] \<and> 0 < mark \<and> 0 < index then Some mark else None
      | _ \<Rightarrow> None)"
| "valid_mark symbol _ = None"

fun sent_book :: "string \<Rightarrow> cache_op \<Rightarrow> book_event option" where
  "sent_book symbol (Book s ev _ _) = (if s = symbol then Some ev else None)"
| "sent_book symbol _ = None"

text \<open>The last element of a stream on which \<open>f\<close> is defined.\<close>

definition latest :: "('x \<Rightarrow> 'a option) \<Rightarrow> 'x list \<Rightarrow> 'a option" where
  "latest f xs = fold (\<lambda>x acc. case f x of None \<Rightarrow> acc | Some y \<Rightarrow> Some y) xs None"

text \<open>A keyed store that a stream of operations writes: what it holds at a key is the latest value
  the stream defines there. Each table of the cache is one.\<close>

locale latest_store =
  fixes step :: "'op \<Rightarrow> 's \<Rightarrow> 's"
    and look :: "'s \<Rightarrow> 'k \<Rightarrow> 'v option"
    and val :: "'k \<Rightarrow> 'op \<Rightarrow> 'v option"
  assumes step_look: "look (step x s) k = (case val k x of None \<Rightarrow> look s k | Some v \<Rightarrow> Some v)"
begin

lemma run_look_acc:
  "look (run_ops step xs s) k = fold (\<lambda>x acc. case val k x of None \<Rightarrow> acc | Some y \<Rightarrow> Some y) xs (look s k)"
  by (induction xs arbitrary: s) (simp_all add: step_look)

lemma run_look: "look s k = None \<Longrightarrow> look (run_ops step xs s) k = latest (val k) xs"
  by (simp add: run_look_acc latest_def)

end

interpretation marks: latest_store cache_step "\<lambda>c k. map_option me_mark_price (dget (ca_mark_prices c) k)" valid_mark
proof
  fix x c k
  show "map_option me_mark_price (dget (ca_mark_prices (cache_step x c)) k) =
    (case valid_mark k x of None \<Rightarrow> map_option me_mark_price (dget (ca_mark_prices c) k) | Some v \<Rightarrow> Some v)"
    by (cases x) (auto simp: update_book_def update_mark_price_def update_trade_def Let_def
        split: sum.splits prod.splits pyfloat.splits py_exc.splits)
qed

interpretation books: latest_store cache_step "\<lambda>c. dget (ca_books c)" sent_book
proof
  fix x c k
  show "dget (ca_books (cache_step x c)) k =
    (case sent_book k x of None \<Rightarrow> dget (ca_books c) k | Some v \<Rightarrow> Some v)"
    by (cases x) (auto simp: update_book_def update_mark_price_def update_trade_def Let_def
        split: sum.splits prod.splits pyfloat.splits py_exc.splits)
qed

lemma latest_Some: "latest f xs = Some y \<Longrightarrow> \<exists>x \<in> set xs. f x = Some y"
proof -
  have "fold (\<lambda>x acc. case f x of None \<Rightarrow> acc | Some y \<Rightarrow> Some y) xs acc = Some y \<Longrightarrow>
      acc = Some y \<or> (\<exists>x \<in> set xs. f x = Some y)" for acc
    by (induction xs arbitrary: acc) (force split: option.splits)+
  then show "latest f xs = Some y \<Longrightarrow> \<exists>x \<in> set xs. f x = Some y" by (auto simp: latest_def)
qed

lemma valid_mark_pos: "valid_mark symbol x = Some p \<Longrightarrow> 0 < p"
  by (cases x) (auto split: sum.splits prod.splits pyfloat.splits if_splits)

lemma get_mark_price_nonneg: "0 \<le> get_mark_price c symbol"
  by (auto simp: get_mark_price_def Let_def split: option.splits)

text \<open>The price used for risk is the latest valid one. After any stream of messages the mark price
  of a symbol is the price of the last valid mark message for it; without one it is the rounded
  mid of the last book when both sides are positive, else 0. A malformed, non-finite or non-positive
  message never changes it, and it is never negative.\<close>

theorem mark_price_latest_valid:
  "get_mark_price (run_ops cache_step xs cache_init) symbol =
     (case latest (valid_mark symbol) xs of
        Some p \<Rightarrow> p
      | None \<Rightarrow>
          (case latest (sent_book symbol) xs of
             None \<Rightarrow> 0
           | Some ev \<Rightarrow>
               if fst (get_best_bid ev) > 0 \<and> fst (get_best_ask ev) > 0
               then fl (fl (fst (get_best_bid ev) + fst (get_best_ask ev)) / 2) else 0)) \<and>
   0 \<le> get_mark_price (run_ops cache_step xs cache_init) symbol"
proof -
  let ?c = "run_ops cache_step xs cache_init"
  have "map_option me_mark_price (dget (ca_mark_prices ?c) symbol) = latest (valid_mark symbol) xs"
    "dget (ca_books ?c) symbol = latest (sent_book symbol) xs"
    using marks.run_look [of cache_init symbol xs] books.run_look [of cache_init symbol xs]
    by (simp_all add: cache_init_def)
  moreover have "0 < p" if "latest (valid_mark symbol) xs = Some p" for p
    using latest_Some [OF that] valid_mark_pos by blast
  ultimately show ?thesis
    using get_mark_price_nonneg
    by (auto simp: get_mark_price_def Let_def split: option.splits)
qed

end
