(* ===== verification/Exposure.thy ===== *)
theory Exposure
  imports OMS_Order Op_System Market_Cache
begin

text \<open>
  The exposure manager of \<open>oms/exposure.py\<close>: the position ledger, the open-order aggregates and the
  worst-case risk checks. Every float operation is rounded by \<open>fl\<close>. A read of a missing key of a
  \<open>defaultdict(float)\<close> is 0; that the read also stores the 0 is not modelled, since a symbol with no
  quantity contributes to no check. The iteration order of a Python \<open>set\<close> is an argument
  \<open>iter\<close>; \<open>sum(..)\<close> adds from the left and rounds every addition, as in CPython 3.11. Of a refusal's text only the leading words are kept.
\<close>

subsection \<open>State\<close>

record exposure =
  ex_net_positions :: "(string, rat) dict"
  ex_avg_prices :: "(string, rat) dict"
  ex_open_buy_qty :: "(string, rat) dict"
  ex_open_sell_qty :: "(string, rat) dict"
  ex_reduce_only_buy_qty :: "(string, rat) dict"
  ex_reduce_only_sell_qty :: "(string, rat) dict"
  ex_strategy_net_positions :: "(string \<times> string, rat) dict"
  ex_strategy_avg_prices :: "(string \<times> string, rat) dict"
  ex_strategy_open_buy_qty :: "(string \<times> string, rat) dict"
  ex_strategy_open_sell_qty :: "(string \<times> string, rat) dict"

definition exposure_init :: exposure where
  "exposure_init = \<lparr>ex_net_positions = [], ex_avg_prices = [], ex_open_buy_qty = [], ex_open_sell_qty = [],
     ex_reduce_only_buy_qty = [], ex_reduce_only_sell_qty = [], ex_strategy_net_positions = [],
     ex_strategy_avg_prices = [], ex_strategy_open_buy_qty = [], ex_strategy_open_sell_qty = []\<rparr>"

subsection \<open>The ledger\<close>

type_synonym 'k ledger = "('k, rat) dict \<times> ('k, rat) dict"

definition apply_fill_to_ledger :: "'k ledger \<Rightarrow> 'k \<Rightarrow> side \<Rightarrow> pyval \<Rightarrow> pyval \<Rightarrow> ('k ledger \<times> rat) res" where
  "apply_fill_to_ledger led key sd qty0 price0 =
     (case bindE (float_of qty0) (\<lambda>q. bindE (float_of price0) (\<lambda>p. Inr (q, p))) of
        Inl _ \<Rightarrow> Inl (ValueError ''must be numeric'')
      | Inr (Fin qty, Fin price) \<Rightarrow>
          if qty \<le> 0 \<or> price \<le> 0 then Inl (ValueError ''must be finite and positive'')
          else
            let (positions, average_prices) = led;
                current_pos = dgetd positions key 0;
                avg_price = dgetd average_prices key 0;
                signed_qty = (if sd = BUY then qty else - qty);
                next_pos = fl (current_pos + signed_qty);
                is_increasing = (current_pos = 0 \<or> (current_pos > 0 \<and> signed_qty > 0) \<or>
                                 (current_pos < 0 \<and> signed_qty < 0));
                total_val = fl (fl (\<bar>current_pos\<bar> * avg_price) + fl (qty * price));
                new_total = fl (\<bar>current_pos\<bar> + qty);
                avg1 = (if is_increasing \<and> new_total > 0 then dset key (fl (total_val / new_total)) average_prices
                        else average_prices);
                closing_qty = min \<bar>current_pos\<bar> qty;
                realized_pnl =
                  (if is_increasing then 0
                   else if current_pos > 0 then fl (fl (price - avg_price) * closing_qty)
                   else fl (fl (avg_price - price) * closing_qty))
            in if \<bar>next_pos\<bar> < eps9
               then Inr ((dset key 0 positions, dset key 0 avg1), realized_pnl)
               else if (current_pos > 0 \<and> 0 > next_pos) \<or> (current_pos < 0 \<and> 0 < next_pos)
               then Inr ((dset key next_pos positions, dset key price avg1), realized_pnl)
               else Inr ((dset key next_pos positions, avg1), realized_pnl)
      | Inr _ \<Rightarrow> Inl (ValueError ''must be finite and positive''))"

definition on_fill :: "string \<Rightarrow> side \<Rightarrow> pyval \<Rightarrow> pyval \<Rightarrow> exposure \<Rightarrow> exposure \<times> rat res" where
  "on_fill symbol sd qty price ex =
     (case apply_fill_to_ledger (ex_net_positions ex, ex_avg_prices ex) symbol sd qty price of
        Inl e \<Rightarrow> (ex, Inl e)
      | Inr ((ps, avs), pnl) \<Rightarrow> (ex\<lparr>ex_net_positions := ps, ex_avg_prices := avs\<rparr>, Inr pnl))"

definition on_strategy_fill ::
  "string \<Rightarrow> string \<Rightarrow> side \<Rightarrow> pyval \<Rightarrow> pyval \<Rightarrow> exposure \<Rightarrow> exposure \<times> rat res" where
  "on_strategy_fill strategy_id symbol sd qty price ex =
     (let key = (str_or strategy_id ''exchange_recovery'', upper symbol) in
      case apply_fill_to_ledger (ex_strategy_net_positions ex, ex_strategy_avg_prices ex) key sd qty price of
        Inl e \<Rightarrow> (ex, Inl e)
      | Inr ((ps, avs), pnl) \<Rightarrow>
          (ex\<lparr>ex_strategy_net_positions := ps, ex_strategy_avg_prices := avs\<rparr>, Inr pnl))"

definition float_sum :: "rat list \<Rightarrow> rat" where
  "float_sum xs = foldl (\<lambda>a x. fl (a + x)) 0 xs"

definition reconcile_strategy_position ::
  "string \<Rightarrow> rat \<Rightarrow> rat \<Rightarrow> exposure \<Rightarrow> exposure \<times> rat" where
  "reconcile_strategy_position symbol0 account_position price ex =
     (let symbol = upper symbol0;
          key = (''exchange_recovery'', symbol);
          attributed = float_sum (map snd (filter (\<lambda>((sid, tracked), _). tracked = symbol \<and> sid \<noteq> ''exchange_recovery'')
            (ex_strategy_net_positions ex)));
          recovery = fl (account_position - attributed);
          pos = (if \<bar>recovery\<bar> < eps9 then 0 else recovery)
      in (ex\<lparr>ex_strategy_net_positions := dset key pos (ex_strategy_net_positions ex),
             ex_strategy_avg_prices := dset key (if \<bar>recovery\<bar> \<ge> eps9 then \<bar>price\<bar> else 0) (ex_strategy_avg_prices ex)\<rparr>,
          pos))"

definition force_sync :: "string \<Rightarrow> pyval \<Rightarrow> pyval \<Rightarrow> exposure \<Rightarrow> exposure res" where
  "force_sync symbol0 volume0 price0 ex =
     (let symbol = strip (upper symbol0) in
      case bindE (float_of volume0) (\<lambda>v. bindE (float_of price0) (\<lambda>p. Inr (v, p))) of
        Inr (Fin volume, Fin price) \<Rightarrow>
          if symbol = [] \<or> price < 0 \<or> (\<bar>volume\<bar> > eps9 \<and> price \<le> 0) then Inl (ValueError ''Invalid position truth'')
          else Inr (ex\<lparr>ex_net_positions := dset symbol volume (ex_net_positions ex),
                       ex_avg_prices := dset symbol (if \<bar>volume\<bar> > eps9 then price else 0) (ex_avg_prices ex)\<rparr>)
      | Inr _ \<Rightarrow> Inl (ValueError ''Invalid position truth'')
      | Inl _ \<Rightarrow> Inl (ValueError ''must be numeric''))"

subsection \<open>Open orders\<close>

definition dadd :: "'k \<Rightarrow> rat \<Rightarrow> ('k, rat) dict \<Rightarrow> ('k, rat) dict" where
  "dadd k x d = dset k (fl (dgetd d k 0 + x)) d"

definition add_open_order :: "order \<Rightarrow> exposure \<Rightarrow> exposure" where
  "add_open_order ord ex =
     (let i = o_intent ord; symbol = oi_symbol i;
          rem_vol = fl (oi_volume i - o_filled_volume ord);
          strategy_key = (str_or (oi_strategy_id i) ''unattributed'', symbol)
      in if \<not> is_active ord then ex
         else if rem_vol \<le> 0 then ex
         else if oi_reduce_only i \<and> oi_side i = BUY
         then ex\<lparr>ex_reduce_only_buy_qty := dadd symbol rem_vol (ex_reduce_only_buy_qty ex)\<rparr>
         else if oi_reduce_only i
         then ex\<lparr>ex_reduce_only_sell_qty := dadd symbol rem_vol (ex_reduce_only_sell_qty ex)\<rparr>
         else if oi_side i = BUY
         then ex\<lparr>ex_open_buy_qty := dadd symbol rem_vol (ex_open_buy_qty ex),
                  ex_strategy_open_buy_qty := dadd strategy_key rem_vol (ex_strategy_open_buy_qty ex)\<rparr>
         else ex\<lparr>ex_open_sell_qty := dadd symbol rem_vol (ex_open_sell_qty ex),
                  ex_strategy_open_sell_qty := dadd strategy_key rem_vol (ex_strategy_open_sell_qty ex)\<rparr>)"

definition update_open_orders :: "order list \<Rightarrow> exposure \<Rightarrow> exposure" where
  "update_open_orders active_orders ex = fold add_open_order active_orders
     (ex\<lparr>ex_open_buy_qty := [], ex_open_sell_qty := [], ex_reduce_only_buy_qty := [],
         ex_reduce_only_sell_qty := [], ex_strategy_open_buy_qty := [], ex_strategy_open_sell_qty := []\<rparr>)"

definition check_reduce_only :: "string \<Rightarrow> side \<Rightarrow> rat \<Rightarrow> exposure \<Rightarrow> bool \<times> string" where
  "check_reduce_only symbol sd volume ex =
     (let current_pos = dgetd (ex_net_positions ex) symbol 0 in
      if \<bar>current_pos\<bar> \<le> eps9 then (False, ''reduce_only_without_position'')
      else if current_pos > 0 \<and> sd \<noteq> SELL then (False, ''reduce_only_wrong_side:long_requires_sell'')
      else if \<not> current_pos > 0 \<and> sd \<noteq> BUY then (False, ''reduce_only_wrong_side:short_requires_buy'')
      else
        let already_reserved = (if current_pos > 0 then dgetd (ex_reduce_only_sell_qty ex) symbol 0
                                else dgetd (ex_reduce_only_buy_qty ex) symbol 0);
            available = max 0 (fl (\<bar>current_pos\<bar> - already_reserved))
        in if volume > fl (available + eps9) then (False, ''reduce_only_exceeds_position'') else (True, []))"

subsection \<open>Worst-case checks\<close>

definition symbol_worst_long_qty :: "exposure \<Rightarrow> string \<Rightarrow> rat \<Rightarrow> rat" where
  "symbol_worst_long_qty ex symbol add_buy =
     fl (fl (dgetd (ex_net_positions ex) symbol 0 + dgetd (ex_open_buy_qty ex) symbol 0) + add_buy)"

definition symbol_worst_short_qty :: "exposure \<Rightarrow> string \<Rightarrow> rat \<Rightarrow> rat" where
  "symbol_worst_short_qty ex symbol add_sell =
     fl (fl (dgetd (ex_net_positions ex) symbol 0 - dgetd (ex_open_sell_qty ex) symbol 0) - add_sell)"

definition symbol_worst_case_abs_qty :: "exposure \<Rightarrow> string \<Rightarrow> rat \<Rightarrow> rat \<Rightarrow> rat" where
  "symbol_worst_case_abs_qty ex symbol add_buy add_sell =
     max \<bar>symbol_worst_long_qty ex symbol add_buy\<bar> \<bar>symbol_worst_short_qty ex symbol add_sell\<bar>"

definition strategy_symbol_worst_case_abs_qty :: "exposure \<Rightarrow> string \<Rightarrow> string \<Rightarrow> rat \<Rightarrow> rat \<Rightarrow> rat" where
  "strategy_symbol_worst_case_abs_qty ex strategy_id symbol add_buy add_sell =
     (let key = (strategy_id, symbol); current_pos = dgetd (ex_strategy_net_positions ex) key 0;
          worst_long = fl (fl (current_pos + dgetd (ex_strategy_open_buy_qty ex) key 0) + add_buy);
          worst_short = fl (fl (current_pos - dgetd (ex_strategy_open_sell_qty ex) key 0) - add_sell)
      in max \<bar>worst_long\<bar> \<bar>worst_short\<bar>)"

definition get_price_for_risk :: "cache \<Rightarrow> exposure \<Rightarrow> string \<Rightarrow> pyfloat \<Rightarrow> rat" where
  "get_price_for_risk ca ex symbol fallback_price =
     (let mark_price = get_mark_price ca symbol; (bid, ask) = get_best_quote ca symbol;
          avg_price = \<bar>dgetd (ex_avg_prices ex) symbol 0\<bar>
      in if mark_price > 0 then mark_price
         else if bid > 0 \<and> ask > 0 then fl (fl (bid + ask) / 2)
         else if bid > 0 then bid
         else if ask > 0 then ask
         else if avg_price > 0 then avg_price
         else case fallback_price of Fin x \<Rightarrow> x | _ \<Rightarrow> 0)"

text \<open>The loop over the tracked symbols, shared by the account and the strategy estimate: \<open>qty\<close> gives a
  symbol's worst-case quantity and \<open>price\<close> its price.\<close>

fun gross_loop :: "(string \<Rightarrow> rat) \<Rightarrow> (string \<Rightarrow> rat) \<Rightarrow> string list \<Rightarrow> rat \<Rightarrow> rat option" where
  "gross_loop qty price [] gross = Some gross"
| "gross_loop qty price (s # ss) gross =
     (if qty s \<le> eps9 then gross_loop qty price ss gross
      else if price s \<le> 0 then None
      else gross_loop qty price ss (fl (gross + fl (qty s * price s))))"

definition tracked_symbols :: "exposure \<Rightarrow> string \<Rightarrow> string list" where
  "tracked_symbols ex target = remdups (dkeys (ex_net_positions ex) @ dkeys (ex_open_buy_qty ex) @
     dkeys (ex_open_sell_qty ex) @ (if target = [] then [] else [target]))"

definition estimate_account_gross_notional ::
  "(string list \<Rightarrow> string list) \<Rightarrow> cache \<Rightarrow> exposure \<Rightarrow> string \<Rightarrow> side option \<Rightarrow> rat \<Rightarrow> pyfloat \<Rightarrow> rat option" where
  "estimate_account_gross_notional iter ca ex symbol sd volume order_price =
     (let target = upper symbol in
      gross_loop
        (\<lambda>s. symbol_worst_case_abs_qty ex s
           (if s = target \<and> sd = Some BUY then volume else 0)
           (if s = target \<and> sd = Some SELL then volume else 0))
        (\<lambda>s. get_price_for_risk ca ex s (if s = target then order_price else Fin 0))
        (iter (tracked_symbols ex target)) 0)"

definition strategy_tracked_symbols :: "exposure \<Rightarrow> string \<Rightarrow> string \<Rightarrow> string list" where
  "strategy_tracked_symbols ex strategy_id target =
     remdups (map snd (filter (\<lambda>(sid, _). sid = strategy_id)
       (dkeys (ex_strategy_net_positions ex) @ dkeys (ex_strategy_open_buy_qty ex) @
        dkeys (ex_strategy_open_sell_qty ex))) @ (if target = [] then [] else [target]))"

definition estimate_strategy_gross_notional ::
  "(string list \<Rightarrow> string list) \<Rightarrow> cache \<Rightarrow> exposure \<Rightarrow> string \<Rightarrow> string \<Rightarrow> side option \<Rightarrow> rat \<Rightarrow> pyfloat \<Rightarrow> rat option" where
  "estimate_strategy_gross_notional iter ca ex strategy_id0 symbol sd volume order_price =
     (let strategy_id = str_or strategy_id0 ''unattributed''; target = upper symbol in
      gross_loop
        (\<lambda>s. strategy_symbol_worst_case_abs_qty ex strategy_id s
           (if s = target \<and> sd = Some BUY then volume else 0)
           (if s = target \<and> sd = Some SELL then volume else 0))
        (\<lambda>s. get_price_for_risk ca ex s (if s = target then order_price else Fin 0))
        (iter (strategy_tracked_symbols ex strategy_id target)) 0)"

definition get_active_risk_symbols :: "exposure \<Rightarrow> string list" where
  "get_active_risk_symbols ex =
     filter (\<lambda>s. symbol_worst_case_abs_qty ex s 0 0 > eps9) (tracked_symbols ex [])"

definition check_strategy_risk ::
  "(string list \<Rightarrow> string list) \<Rightarrow> cache \<Rightarrow> exposure \<Rightarrow> string \<Rightarrow> string \<Rightarrow> side \<Rightarrow> rat \<Rightarrow> rat \<Rightarrow> rat \<Rightarrow> pyfloat \<Rightarrow> bool \<times> string" where
  "check_strategy_risk iter ca ex strategy_id0 symbol0 sd volume max_gross max_symbol order_price =
     (let strategy_id = str_or strategy_id0 ''unattributed''; symbol = upper symbol0;
          symbol_exposure = strategy_symbol_worst_case_abs_qty ex strategy_id symbol
            (if sd = BUY then volume else 0) (if sd = SELL then volume else 0);
          mark_price = get_price_for_risk ca ex symbol order_price
      in if mark_price \<le> 0 then (False, ''Strategy Exposure price unavailable'')
         else if fl (symbol_exposure * mark_price) > max_symbol then (False, ''Strategy Symbol Exposure'')
         else case estimate_strategy_gross_notional iter ca ex strategy_id symbol (Some sd) volume order_price of
             None \<Rightarrow> (False, ''Strategy Gross Exposure unavailable'')
           | Some gross \<Rightarrow> if gross > max_gross then (False, ''Strategy Gross Exposure'') else (True, []))"

definition check_risk ::
  "(string list \<Rightarrow> string list) \<Rightarrow> cache \<Rightarrow> exposure \<Rightarrow> string \<Rightarrow> side \<Rightarrow> rat \<Rightarrow> rat \<Rightarrow> rat \<Rightarrow> pyfloat \<Rightarrow> int \<Rightarrow> bool \<times> string" where
  "check_risk iter ca ex symbol sd volume max_pos_notional max_account_gross order_price max_concurrent =
     (let mark_price = get_mark_price ca symbol;
          new_buy = (if sd = BUY then volume else 0); new_sell = (if sd = SELL then volume else 0);
          active = get_active_risk_symbols ex;
          max_exposure = max \<bar>symbol_worst_long_qty ex symbol new_buy\<bar> \<bar>symbol_worst_short_qty ex symbol new_sell\<bar>
      in if mark_price \<le> 0 then (False, ''MarkPrice unavailable'')
         else if max_concurrent > 0 \<and> symbol_worst_case_abs_qty ex symbol new_buy new_sell > eps9 \<and>
                 symbol \<notin> set active \<and> int (length active) \<ge> max_concurrent
         then (False, ''Concurrent Symbol Limit'')
         else if fl (max_exposure * mark_price) > max_pos_notional then (False, ''Exposure Limit'')
         else if max_account_gross > 0 then
           case estimate_account_gross_notional iter ca ex symbol (Some sd) volume order_price of
             None \<Rightarrow> (False, ''Account Gross Exposure unavailable'')
           | Some gross \<Rightarrow> if gross > max_account_gross then (False, ''Account Gross Exposure'') else (True, [])
         else (True, []))"

subsection \<open>The ledger keeps positions priced\<close>

abbreviation held :: "'k ledger \<Rightarrow> 'k \<Rightarrow> rat" where
  "held led k \<equiv> dgetd (fst led) k 0"

abbreviation entry_price :: "'k ledger \<Rightarrow> 'k \<Rightarrow> rat" where
  "entry_price led k \<equiv> dgetd (snd led) k 0"

lemma eps9_facts [simp]: "0 < eps9" "0 \<le> eps9" "\<not> eps9 < 0" "\<not> eps9 \<le> 0" "fl eps9 = eps9"
  by (simp_all add: eps9_def fl_pos)

definition after_fill :: "rat \<Rightarrow> side \<Rightarrow> rat \<Rightarrow> rat" where
  "after_fill pos sd qty =
     (let n = fl (pos + (if sd = BUY then qty else - qty)) in if \<bar>n\<bar> < eps9 then 0 else n)"

lemma apply_fill_Inr:
  assumes "apply_fill_to_ledger led k sd q p = Inr (led', pnl)"
  obtains qty price where "float_of q = Inr (Fin qty)" "float_of p = Inr (Fin price)" "0 < qty" "0 < price"
    "\<And>j. held led' j = (if j = k then after_fill (held led k) sd qty else held led j)"
    "\<And>j. j \<noteq> k \<Longrightarrow> entry_price led' j = entry_price led j"
    "entry_price led' k =
       (if after_fill (held led k) sd qty = 0 then 0
        else if (held led k > 0 \<and> after_fill (held led k) sd qty < 0) \<or>
                (held led k < 0 \<and> after_fill (held led k) sd qty > 0) then price
        else if held led k = 0 \<or> (held led k > 0 \<and> sd = BUY) \<or> (held led k < 0 \<and> sd = SELL)
        then fl (fl (fl (\<bar>held led k\<bar> * entry_price led k) + fl (qty * price)) / fl (\<bar>held led k\<bar> + qty))
        else entry_price led k)"
    "pnl = (if held led k = 0 \<or> (held led k > 0 \<and> sd = BUY) \<or> (held led k < 0 \<and> sd = SELL) then 0
            else if held led k > 0 then fl (fl (price - entry_price led k) * min \<bar>held led k\<bar> qty)
            else fl (fl (entry_price led k - price) * min \<bar>held led k\<bar> qty))"
proof -
  obtain ps avs where led: "led = (ps, avs)" by fastforce
  from assms obtain qty price where qp: "float_of q = Inr (Fin qty)" "float_of p = Inr (Fin price)" "0 < qty" "0 < price"
    by (auto simp: apply_fill_to_ledger_def led res_simps not_le split: sum.splits prod.splits pyfloat.splits if_splits)
  show ?thesis
    by (rule that [OF qp]; use assms qp in \<open>cases sd; auto simp: apply_fill_to_ledger_def led Let_def after_fill_def split: if_splits\<close>)
qed

definition priced :: "'k ledger \<Rightarrow> bool" where
  "priced led \<longleftrightarrow> (\<forall>k. 0 \<le> entry_price led k \<and> (eps9 < \<bar>held led k\<bar> \<longrightarrow> 0 < entry_price led k))"

lemma fl_le_eps9: "x \<le> eps9 \<Longrightarrow> fl x \<le> eps9"
  using fl_mono [of x eps9] by simp

lemma fl_ge_eps9: "- eps9 \<le> x \<Longrightarrow> - eps9 \<le> fl x"
  using fl_mono [of "- eps9" x] by simp

text \<open>A fill that reduces a position without crossing zero leaves more than dust only where there was more
  than dust.\<close>

lemma after_fill_reduces:
  assumes "0 < qty" "eps9 < \<bar>after_fill pos sd qty\<bar>"
    and "(pos > 0 \<and> sd = SELL \<and> 0 \<le> after_fill pos sd qty) \<or> (pos < 0 \<and> sd = BUY \<and> after_fill pos sd qty \<le> 0)"
  shows "eps9 < \<bar>pos\<bar>"
proof (rule ccontr)
  assume "\<not> eps9 < \<bar>pos\<bar>"
  then have "pos > 0 \<Longrightarrow> fl (pos - qty) \<le> eps9" "pos < 0 \<Longrightarrow> - eps9 \<le> fl (pos + qty)"
    using assms(1) by (auto intro: fl_le_eps9 fl_ge_eps9)
  with assms show False by (auto simp: after_fill_def Let_def split: if_splits)
qed

lemma priced_fill:
  assumes "priced led" "apply_fill_to_ledger led k sd q p = Inr (led', pnl)"
  shows "priced led'"
  using assms(2)
proof (rule apply_fill_Inr)
  fix qty price
  assume qp: "0 < qty" "0 < price"
    and h: "\<And>j. held led' j = (if j = k then after_fill (held led k) sd qty else held led j)"
    and o: "\<And>j. j \<noteq> k \<Longrightarrow> entry_price led' j = entry_price led j"
    and e: "entry_price led' k =
       (if after_fill (held led k) sd qty = 0 then 0
        else if (held led k > 0 \<and> after_fill (held led k) sd qty < 0) \<or>
                (held led k < 0 \<and> after_fill (held led k) sd qty > 0) then price
        else if held led k = 0 \<or> (held led k > 0 \<and> sd = BUY) \<or> (held led k < 0 \<and> sd = SELL)
        then fl (fl (fl (\<bar>held led k\<bar> * entry_price led k) + fl (qty * price)) / fl (\<bar>held led k\<bar> + qty))
        else entry_price led k)"
  have old: "0 \<le> entry_price led j" "eps9 < \<bar>held led j\<bar> \<Longrightarrow> 0 < entry_price led j" for j
    using assms(1) by (auto simp: priced_def)
  have avg: "0 < fl (fl (fl (\<bar>held led k\<bar> * entry_price led k) + fl (qty * price)) / fl (\<bar>held led k\<bar> + qty))"
    using qp old(1) [of k] by (auto intro!: divide_pos_pos add_nonneg_pos mult_pos_pos)
  have "0 \<le> entry_price led' k \<and> (eps9 < \<bar>held led' k\<bar> \<longrightarrow> 0 < entry_price led' k)"
    using qp avg old(1) [of k] old(2) [of k] after_fill_reduces [OF qp(1), of "held led k" sd]
    unfolding e h by (cases sd) auto
  then show ?thesis using old o h by (auto simp: priced_def)
qed

datatype exposure_op =
    Fill string side pyval pyval
  | StrategyFill string string side pyval pyval
  | ReconcileStrategy string rat rat
  | ForceSync string pyval pyval
  | UpdateOpen "order list"

fun exposure_step :: "exposure_op \<Rightarrow> exposure \<Rightarrow> exposure" where
  "exposure_step (Fill s sd q p) ex = fst (on_fill s sd q p ex)"
| "exposure_step (StrategyFill sid s sd q p) ex = fst (on_strategy_fill sid s sd q p ex)"
| "exposure_step (ReconcileStrategy s pos p) ex = fst (reconcile_strategy_position s pos p ex)"
| "exposure_step (ForceSync s v p) ex = (case force_sync s v p ex of Inl _ \<Rightarrow> ex | Inr ex' \<Rightarrow> ex')"
| "exposure_step (UpdateOpen os) ex = update_open_orders os ex"

abbreviation account_ledger :: "exposure \<Rightarrow> string ledger" where
  "account_ledger ex \<equiv> (ex_net_positions ex, ex_avg_prices ex)"

lemma update_open_orders_ledger:
  "ex_net_positions (update_open_orders os ex) = ex_net_positions ex"
  "ex_avg_prices (update_open_orders os ex) = ex_avg_prices ex"
proof -
  have add: "ex_net_positions (add_open_order o' ex) = ex_net_positions ex"
    "ex_avg_prices (add_open_order o' ex) = ex_avg_prices ex" for o' ex
    by (simp_all add: add_open_order_def Let_def)
  have "ex_net_positions (fold add_open_order os ex) = ex_net_positions ex"
    "ex_avg_prices (fold add_open_order os ex) = ex_avg_prices ex" for ex
    by (induction os arbitrary: ex) (simp_all add: add)
  then show "ex_net_positions (update_open_orders os ex) = ex_net_positions ex"
    "ex_avg_prices (update_open_orders os ex) = ex_avg_prices ex"
    by (simp_all add: update_open_orders_def)
qed

interpretation account: invariant_system exposure_step "\<lambda>ex. priced (account_ledger ex)"
proof
  fix ex x assume inv: "priced (account_ledger ex)"
  show "priced (account_ledger (exposure_step x ex))"
  proof (cases x)
    case (Fill s sd q p)
    then show ?thesis using inv priced_fill [OF inv]
      by (auto simp: on_fill_def split: sum.splits prod.splits)
  next
    case (ForceSync s v p)
    then show ?thesis using inv
      by (auto simp: force_sync_def priced_def Let_def split: sum.splits prod.splits pyfloat.splits if_splits)
  qed (use inv in \<open>auto simp: on_strategy_fill_def reconcile_strategy_position_def Let_def
      update_open_orders_ledger split: sum.splits prod.splits\<close>)
qed

text \<open>A held position always has an entry price. Over every sequence of fills, position syncs,
  strategy fills, reconciliations and open-order refreshes, with arbitrary unchecked quantities and
  prices, the entry price of a symbol is never negative and is positive whenever the position exceeds
  the dust threshold.\<close>

theorem positions_priced:
  "0 \<le> dgetd (ex_avg_prices (run_ops exposure_step xs exposure_init)) symbol 0 \<and>
   (eps9 < \<bar>dgetd (ex_net_positions (run_ops exposure_step xs exposure_init)) symbol 0\<bar> \<longrightarrow>
     0 < dgetd (ex_avg_prices (run_ops exposure_step xs exposure_init)) symbol 0)"
proof -
  have "priced (account_ledger exposure_init)" by (simp add: priced_def exposure_init_def)
  from account.run_inv [OF this] show ?thesis by (simp add: priced_def)
qed

theorem positions_priced_witness:
  "0 < dgetd (ex_avg_prices (run_ops exposure_step
     [Fill ''BTCUSDT'' BUY (PFloat (Fin 2)) (PFloat (Fin 100)), Fill ''BTCUSDT'' SELL (PFloat (Fin 1)) (PFloat (Fin 110))]
     exposure_init)) ''BTCUSDT'' 0"
proof -
  let ?ex = "run_ops exposure_step
     [Fill ''BTCUSDT'' BUY (PFloat (Fin 2)) (PFloat (Fin 100)), Fill ''BTCUSDT'' SELL (PFloat (Fin 1)) (PFloat (Fin 110))]
     exposure_init"
  have "eps9 < \<bar>dgetd (ex_net_positions ?ex) ''BTCUSDT'' 0\<bar>" by code_simp
  with positions_priced show ?thesis by blast
qed

subsection \<open>Open-order aggregates\<close>

definition open_rem :: "order \<Rightarrow> rat" where
  "open_rem ord = fl (oi_volume (o_intent ord) - o_filled_volume ord)"

definition open_qty :: "(order \<Rightarrow> bool) \<Rightarrow> order list \<Rightarrow> rat" where
  "open_qty P os = float_sum (map open_rem (filter (\<lambda>x. is_active x \<and> 0 < open_rem x \<and> P x) os))"

text \<open>One aggregate: a dictionary that every counted and selected order increments at its key.\<close>

locale open_aggregate =
  fixes agg :: "exposure \<Rightarrow> ('k, rat) dict"
    and sel :: "order \<Rightarrow> bool"
    and key :: "order \<Rightarrow> 'k"
  assumes agg_add: "agg (add_open_order x ex) =
      (if is_active x \<and> 0 < open_rem x \<and> sel x then dadd (key x) (open_rem x) (agg ex) else agg ex)"
    and agg_clear: "agg (ex\<lparr>ex_open_buy_qty := [], ex_open_sell_qty := [], ex_reduce_only_buy_qty := [],
      ex_reduce_only_sell_qty := [], ex_strategy_open_buy_qty := [], ex_strategy_open_sell_qty := []\<rparr>) = []"
begin

lemma agg_fold:
  "dgetd (agg (fold add_open_order os ex)) k 0 =
     foldl (\<lambda>a x. fl (a + x)) (dgetd (agg ex) k 0)
       (map open_rem (filter (\<lambda>x. is_active x \<and> 0 < open_rem x \<and> sel x \<and> key x = k) os))"
  by (induction os arbitrary: ex) (auto simp: agg_add dadd_def)

lemma agg_update: "dgetd (agg (update_open_orders os ex)) k 0 = open_qty (\<lambda>x. sel x \<and> key x = k) os"
  unfolding update_open_orders_def agg_fold agg_clear open_qty_def float_sum_def by simp

end

lemmas add_simps = add_open_order_def open_rem_def Let_def not_le

interpretation buys: open_aggregate ex_open_buy_qty
  "\<lambda>x. \<not> oi_reduce_only (o_intent x) \<and> oi_side (o_intent x) = BUY" "\<lambda>x. oi_symbol (o_intent x)"
  by unfold_locales (auto simp: add_simps)

interpretation sells: open_aggregate ex_open_sell_qty
  "\<lambda>x. \<not> oi_reduce_only (o_intent x) \<and> oi_side (o_intent x) = SELL" "\<lambda>x. oi_symbol (o_intent x)"
  by unfold_locales (auto simp: add_simps intro: side.exhaust)

interpretation reduce_buys: open_aggregate ex_reduce_only_buy_qty
  "\<lambda>x. oi_reduce_only (o_intent x) \<and> oi_side (o_intent x) = BUY" "\<lambda>x. oi_symbol (o_intent x)"
  by unfold_locales (auto simp: add_simps)

interpretation reduce_sells: open_aggregate ex_reduce_only_sell_qty
  "\<lambda>x. oi_reduce_only (o_intent x) \<and> oi_side (o_intent x) = SELL" "\<lambda>x. oi_symbol (o_intent x)"
  by unfold_locales (auto simp: add_simps intro: side.exhaust)

interpretation strategy_buys: open_aggregate ex_strategy_open_buy_qty
  "\<lambda>x. \<not> oi_reduce_only (o_intent x) \<and> oi_side (o_intent x) = BUY"
  "\<lambda>x. (str_or (oi_strategy_id (o_intent x)) ''unattributed'', oi_symbol (o_intent x))"
  by unfold_locales (auto simp: add_simps)

interpretation strategy_sells: open_aggregate ex_strategy_open_sell_qty
  "\<lambda>x. \<not> oi_reduce_only (o_intent x) \<and> oi_side (o_intent x) = SELL"
  "\<lambda>x. (str_or (oi_strategy_id (o_intent x)) ''unattributed'', oi_symbol (o_intent x))"
  by unfold_locales (auto simp: add_simps intro: side.exhaust)

text \<open>The aggregates are exactly the resting orders. After a refresh each of the six open-quantity
  tables holds, at every key, the sum of the remaining volumes of the active orders of that kind
  and key, whatever the tables held before; reduce-only orders count in their own tables only.\<close>

theorem open_orders_aggregated:
  "dgetd (ex_open_buy_qty (update_open_orders os ex)) s 0 =
     open_qty (\<lambda>x. (\<not> oi_reduce_only (o_intent x) \<and> oi_side (o_intent x) = BUY) \<and> oi_symbol (o_intent x) = s) os \<and>
   dgetd (ex_open_sell_qty (update_open_orders os ex)) s 0 =
     open_qty (\<lambda>x. (\<not> oi_reduce_only (o_intent x) \<and> oi_side (o_intent x) = SELL) \<and> oi_symbol (o_intent x) = s) os \<and>
   dgetd (ex_reduce_only_buy_qty (update_open_orders os ex)) s 0 =
     open_qty (\<lambda>x. (oi_reduce_only (o_intent x) \<and> oi_side (o_intent x) = BUY) \<and> oi_symbol (o_intent x) = s) os \<and>
   dgetd (ex_reduce_only_sell_qty (update_open_orders os ex)) s 0 =
     open_qty (\<lambda>x. (oi_reduce_only (o_intent x) \<and> oi_side (o_intent x) = SELL) \<and> oi_symbol (o_intent x) = s) os \<and>
   dgetd (ex_strategy_open_buy_qty (update_open_orders os ex)) (sid, s) 0 =
     open_qty (\<lambda>x. (\<not> oi_reduce_only (o_intent x) \<and> oi_side (o_intent x) = BUY) \<and>
       (str_or (oi_strategy_id (o_intent x)) ''unattributed'', oi_symbol (o_intent x)) = (sid, s)) os \<and>
   dgetd (ex_strategy_open_sell_qty (update_open_orders os ex)) (sid, s) 0 =
     open_qty (\<lambda>x. (\<not> oi_reduce_only (o_intent x) \<and> oi_side (o_intent x) = SELL) \<and>
       (str_or (oi_strategy_id (o_intent x)) ''unattributed'', oi_symbol (o_intent x)) = (sid, s)) os"
  by (intro conjI buys.agg_update sells.agg_update reduce_buys.agg_update reduce_sells.agg_update
      strategy_buys.agg_update strategy_sells.agg_update)

lemma open_qty_nonneg: "0 \<le> open_qty P os"
proof -
  have "0 \<le> a \<Longrightarrow> (\<And>x. x \<in> set xs \<Longrightarrow> 0 \<le> x) \<Longrightarrow> 0 \<le> foldl (\<lambda>a x. fl (a + x)) a xs" for a :: rat and xs
    by (induction xs arbitrary: a) auto
  note sum_nonneg = this
  show ?thesis unfolding open_qty_def float_sum_def by (rule sum_nonneg) auto
qed

subsection \<open>What an accepted order can lead to\<close>

lemma update_open_nonneg:
  "0 \<le> dgetd (ex_open_buy_qty (update_open_orders os ex)) s 0"
  "0 \<le> dgetd (ex_open_sell_qty (update_open_orders os ex)) s 0"
  "0 \<le> dgetd (ex_reduce_only_buy_qty (update_open_orders os ex)) s 0"
  "0 \<le> dgetd (ex_reduce_only_sell_qty (update_open_orders os ex)) s 0"
  by (simp_all only: buys.agg_update sells.agg_update reduce_buys.agg_update reduce_sells.agg_update open_qty_nonneg)

lemma check_risk_True:
  assumes "check_risk iter ca ex symbol sd volume maxp maxg op mc = (True, r)"
  shows "0 < get_mark_price ca symbol"
    "fl (symbol_worst_case_abs_qty ex symbol (if sd = BUY then volume else 0) (if sd = SELL then volume else 0) *
       get_mark_price ca symbol) \<le> maxp"
    "0 < maxg \<Longrightarrow> \<exists>g. estimate_account_gross_notional iter ca ex symbol (Some sd) volume op = Some g \<and> g \<le> maxg"
  using assms by (auto simp: check_risk_def symbol_worst_case_abs_qty_def Let_def split: if_splits option.splits)

lemma worst_interval:
  assumes "representable pos" "0 \<le> ob" "0 \<le> os" "0 < v" "v \<le> volume"
  shows "fl (fl (pos - os) - (if sd = SELL then volume else 0)) \<le> fl (pos + (if sd = BUY then v else - v))"
    "fl (pos + (if sd = BUY then v else - v)) \<le> fl (fl (pos + ob) + (if sd = BUY then volume else 0))"
proof -
  have "pos \<le> fl (pos + ob)" "fl (pos - os) \<le> pos"
    using assms(1-3) fl_add_nonneg_ge fl_le_rep by auto
  then have "fl (pos - os) - (if sd = SELL then volume else 0) \<le> pos + (if sd = BUY then v else - v)"
    "pos + (if sd = BUY then v else - v) \<le> fl (pos + ob) + (if sd = BUY then volume else 0)"
    using assms(4,5) by (cases sd; simp)+
  then show "fl (fl (pos - os) - (if sd = SELL then volume else 0)) \<le> fl (pos + (if sd = BUY then v else - v))"
    "fl (pos + (if sd = BUY then v else - v)) \<le> fl (fl (pos + ob) + (if sd = BUY then volume else 0))"
    by (auto intro!: fl_mono simp del: fl_fl)
qed

lemma abs_in_interval: "a \<le> p \<Longrightarrow> p \<le> b \<Longrightarrow> \<bar>p\<bar> \<le> max \<bar>b\<bar> \<bar>a\<bar>" for p :: rat
  by linarith

text \<open>Claim C13: an accepted order cannot breach the position limit. When the check accepts an order on
  fresh aggregates, every position between the worst short and the worst long, and in particular the
  position the ledger holds after any part of the order has filled, is worth at most the limit at the
  mark price the check used.\<close>

theorem accepted_order_within_limit:
  assumes "ex = update_open_orders os ex0" "representable (dgetd (ex_net_positions ex) symbol 0)"
    and "check_risk iter ca ex symbol sd volume maxp maxg op mc = (True, r)"
    and "0 < v" "v \<le> volume" "on_fill symbol sd (PFloat (Fin v)) price ex = (ex', Inr pnl)"
  shows "fl (\<bar>dgetd (ex_net_positions ex') symbol 0\<bar> * get_mark_price ca symbol) \<le> maxp \<and>
    (\<forall>p. symbol_worst_short_qty ex symbol (if sd = SELL then volume else 0) \<le> p \<and>
         p \<le> symbol_worst_long_qty ex symbol (if sd = BUY then volume else 0) \<longrightarrow>
       fl (\<bar>p\<bar> * get_mark_price ca symbol) \<le> maxp)"
proof -
  let ?m = "get_mark_price ca symbol" and ?pos = "dgetd (ex_net_positions ex) symbol 0"
  let ?w = "symbol_worst_case_abs_qty ex symbol (if sd = BUY then volume else 0) (if sd = SELL then volume else 0)"
  note ok = check_risk_True [OF assms(3)]
  have small: "fl (x * ?m) \<le> maxp" if "x \<le> ?w" for x
  proof -
    have "fl (x * ?m) \<le> fl (?w * ?m)" using that ok(1) by (intro fl_mono mult_right_mono) auto
    with ok(2) show ?thesis by linarith
  qed
  have all: "fl (\<bar>p\<bar> * ?m) \<le> maxp"
    if "symbol_worst_short_qty ex symbol (if sd = SELL then volume else 0) \<le> p"
      "p \<le> symbol_worst_long_qty ex symbol (if sd = BUY then volume else 0)" for p
    using abs_in_interval [OF that] by (intro small) (simp add: symbol_worst_case_abs_qty_def)
  obtain led' where fill: "apply_fill_to_ledger (account_ledger ex) symbol sd (PFloat (Fin v)) price = Inr (led', pnl)"
    and ex': "ex_net_positions ex' = fst led'"
    using assms(6) by (auto simp: on_fill_def split: sum.splits prod.splits)
  have "dgetd (ex_net_positions ex') symbol 0 = after_fill ?pos sd v"
    using fill by (rule apply_fill_Inr) (simp add: ex')
  moreover have "fl (\<bar>fl (?pos + (if sd = BUY then v else - v))\<bar> * ?m) \<le> maxp"
    using worst_interval [OF assms(2) update_open_nonneg(1,2) assms(4,5)] unfolding assms(1)
    by (intro all [unfolded assms(1)]) (simp_all add: symbol_worst_short_qty_def symbol_worst_long_qty_def)
  moreover have "0 \<le> ?w" by (simp add: symbol_worst_case_abs_qty_def)
  ultimately have "fl (\<bar>dgetd (ex_net_positions ex') symbol 0\<bar> * ?m) \<le> maxp"
    using small [of 0] by (simp add: after_fill_def Let_def)
  with all show ?thesis by blast
qed

definition demo_cache :: cache where
  "demo_cache = cache_init\<lparr>ca_mark_prices := [(''BTCUSDT'', \<lparr>me_mark_price = 100, me_index_price = 100, me_funding_rate = 0\<rparr>)]\<rparr>"

definition demo_exposure :: exposure where
  "demo_exposure = exposure_init\<lparr>ex_net_positions := [(''BTCUSDT'', 2)], ex_avg_prices := [(''BTCUSDT'', 90)]\<rparr>"

theorem accepted_order_within_limit_witness:
  "fl (\<bar>dgetd (ex_net_positions (fst (on_fill ''BTCUSDT'' BUY (PFloat (Fin 1)) (PFloat (Fin 101))
       (update_open_orders [] demo_exposure)))) ''BTCUSDT'' 0\<bar> * get_mark_price demo_cache ''BTCUSDT'') \<le> 500"
proof -
  have chk: "check_risk remdups demo_cache (update_open_orders [] demo_exposure) ''BTCUSDT'' BUY 3 500 1000 (Fin 100) 5 = (True, [])"
    by code_simp
  have rep: "representable (dgetd (ex_net_positions (update_open_orders [] demo_exposure)) ''BTCUSDT'' 0)"
    by (simp add: update_open_orders_ledger demo_exposure_def exposure_init_def dgetd_def)
  have "\<not> isl (snd (on_fill ''BTCUSDT'' BUY (PFloat (Fin 1)) (PFloat (Fin 101)) (update_open_orders [] demo_exposure)))"
    by code_simp
  then obtain ex' pnl where fill:
    "on_fill ''BTCUSDT'' BUY (PFloat (Fin 1)) (PFloat (Fin 101)) (update_open_orders [] demo_exposure) = (ex', Inr pnl)"
    by (metis prod.collapse sum.collapse(2))
  from accepted_order_within_limit [OF refl rep chk _ _ fill] fill show ?thesis by simp
qed

lemma gross_loop_bounds:
  assumes "gross_loop qty price ss g = Some r" "0 \<le> g" "representable g"
  shows "g \<le> r \<and> (\<forall>s \<in> set ss. eps9 < qty s \<longrightarrow> 0 < price s \<and> fl (qty s * price s) \<le> r)"
  using assms
proof (induction ss arbitrary: g)
  case (Cons s ss)
  show ?case
  proof (cases "qty s \<le> eps9")
    case True
    with Cons show ?thesis by auto
  next
    case False
    with Cons.prems have p: "0 < price s" by (auto split: if_splits)
    have q: "0 \<le> qty s" using False eps9_facts(1) by linarith
    let ?x = "fl (qty s * price s)"
    have "0 \<le> ?x" using p q by simp
    then have le: "g \<le> fl (g + ?x)" "?x \<le> fl (g + ?x)"
      using fl_add_nonneg_ge [OF Cons.prems(3), of ?x] fl_add_nonneg_ge [OF representable_fl Cons.prems(2), of "qty s * price s"]
      by (simp_all only: add.commute)
    have "gross_loop qty price ss (fl (g + ?x)) = Some r" using Cons.prems(1) False p by simp
    moreover have "0 \<le> fl (g + ?x)" using le(1) Cons.prems(2) by (rule order_trans [rotated])
    ultimately have "fl (g + ?x) \<le> r \<and>
      (\<forall>s \<in> set ss. eps9 < qty s \<longrightarrow> 0 < price s \<and> fl (qty s * price s) \<le> r)"
      using Cons.IH representable_fl by blast
    with le p show ?thesis by auto
  qed
qed simp

text \<open>An accepted order keeps the whole account within the gross limit. With a gross limit set, an
  accepted order's account estimate is within it, and so is the worst-case notional of every symbol
  that has a position, an open order or is the target, each at a positive price: no symbol is priced
  at zero to pass the check, in whatever order the symbols are visited.\<close>

theorem accepted_order_gross_bound:
  assumes "check_risk iter ca ex symbol sd volume maxp maxg op mc = (True, r)" "0 < maxg"
    and "set (iter (tracked_symbols ex (upper symbol))) = set (tracked_symbols ex (upper symbol))"
    and "s \<in> set (dkeys (ex_net_positions ex)) \<or> s \<in> set (dkeys (ex_open_buy_qty ex)) \<or>
         s \<in> set (dkeys (ex_open_sell_qty ex)) \<or> (s = upper symbol \<and> s \<noteq> [])"
    and "q = symbol_worst_case_abs_qty ex s (if s = upper symbol \<and> sd = BUY then volume else 0)
               (if s = upper symbol \<and> sd = SELL then volume else 0)" "eps9 < q"
    and "pr = get_price_for_risk ca ex s (if s = upper symbol then op else Fin 0)"
  shows "0 < pr \<and> fl (q * pr) \<le> maxg"
proof -
  obtain g where g: "estimate_account_gross_notional iter ca ex symbol (Some sd) volume op = Some g" "g \<le> maxg"
    using check_risk_True(3) [OF assms(1,2)] by blast
  have "s \<in> set (iter (tracked_symbols ex (upper symbol)))"
    unfolding assms(3) using assms(4) by (auto simp: tracked_symbols_def)
  with gross_loop_bounds [OF g(1) [unfolded estimate_account_gross_notional_def Let_def]] assms(5-7) g(2)
  show ?thesis by fastforce
qed

theorem accepted_order_gross_bound_witness:
  "fl (symbol_worst_case_abs_qty (update_open_orders [] demo_exposure) ''BTCUSDT'' 3 0 *
     get_price_for_risk demo_cache (update_open_orders [] demo_exposure) ''BTCUSDT'' (Fin 100)) \<le> 1000"
proof -
  have "check_risk remdups demo_cache (update_open_orders [] demo_exposure) ''BTCUSDT'' BUY 3 500 1000 (Fin 100) 5 = (True, [])"
    "''BTCUSDT'' \<in> set (dkeys (ex_net_positions (update_open_orders [] demo_exposure)))"
    "eps9 < symbol_worst_case_abs_qty (update_open_orders [] demo_exposure) ''BTCUSDT'' 3 0"
    "upper ''BTCUSDT'' = ''BTCUSDT''"
    by code_simp+
  note c = this
  show ?thesis
    using accepted_order_gross_bound [OF c(1), of "''BTCUSDT''", OF _ _ _ refl _ refl] c by simp
qed

text \<open>Claim C31: a reduce-only order cannot reverse a position. When the reduce-only check accepts an order on
  fresh aggregates, filling it in full leaves a position of the same sign or flat, up to the dust
  threshold and the rounding of one addition.\<close>

theorem reduce_only_no_flip:
  assumes "ex = update_open_orders os ex0" "pos = dgetd (ex_net_positions ex) symbol 0" "representable pos"
    and "check_reduce_only symbol sd volume ex = (True, r)"
    and "on_fill symbol sd (PFloat (Fin volume)) price ex = (ex', Inr pnl)"
  shows "sd = (if 0 < pos then SELL else BUY) \<and>
    (let d = fl (\<bar>pos\<bar> + eps9) - \<bar>pos\<bar>; pos' = dgetd (ex_net_positions ex') symbol 0 in
     d \<le> eps9 + (\<bar>pos\<bar> + eps9) / 2 ^ 53 \<and>
     (if 0 < pos then - fl d \<le> pos' \<and> pos' \<le> pos else pos \<le> pos' \<and> pos' \<le> fl d))"
proof -
  have chk: "pos \<noteq> 0" "sd = (if 0 < pos then SELL else BUY)"
    and vol: "volume \<le> fl (max 0 (fl (\<bar>pos\<bar> - (if 0 < pos then dgetd (ex_reduce_only_sell_qty ex) symbol 0
                                else dgetd (ex_reduce_only_buy_qty ex) symbol 0))) + eps9)"
    using assms(2,4) by (auto simp: check_reduce_only_def Let_def split: if_splits intro: side.exhaust)
  have rep: "representable \<bar>pos\<bar>" using assms(3) by (simp add: representable_def abs_if)
  have "fl (\<bar>pos\<bar> - x) \<le> \<bar>pos\<bar>" if "0 \<le> x" for x using rep that by (intro fl_le_rep) auto
  then have "max 0 (fl (\<bar>pos\<bar> - (if 0 < pos then dgetd (ex_reduce_only_sell_qty ex) symbol 0
                                else dgetd (ex_reduce_only_buy_qty ex) symbol 0))) \<le> \<bar>pos\<bar>"
    using update_open_nonneg(3,4) by (simp add: assms(1))
  then have v: "volume \<le> fl (\<bar>pos\<bar> + eps9)" using vol fl_mono by (meson add_right_mono order_trans)
  let ?d = "fl (\<bar>pos\<bar> + eps9) - \<bar>pos\<bar>"
  have "fl (\<bar>pos\<bar> + eps9) \<le> (\<bar>pos\<bar> + eps9) * (1 + 1 / 2 ^ 53)" by (rule fl_relative) (simp add: less_imp_le)
  also have "\<dots> = \<bar>pos\<bar> + eps9 + (\<bar>pos\<bar> + eps9) / 2 ^ 53" by (simp add: distrib_left)
  finally have d: "?d \<le> eps9 + (\<bar>pos\<bar> + eps9) / 2 ^ 53" by linarith
  obtain led' where fill: "apply_fill_to_ledger (account_ledger ex) symbol sd (PFloat (Fin volume)) price = Inr (led', pnl)"
    and ex': "ex_net_positions ex' = fst led'"
    using assms(5) by (auto simp: on_fill_def split: sum.splits prod.splits)
  have pos': "dgetd (ex_net_positions ex') symbol 0 = after_fill pos sd volume" and "0 < volume"
    using fill by (auto elim!: apply_fill_Inr simp: ex' assms(2))
  have nn: "0 \<le> ?d" using fl_add_nonneg_ge [OF rep, of eps9] by (simp add: less_imp_le)
  have "- fl ?d \<le> fl (pos - volume) \<and> fl (pos - volume) \<le> pos" if "0 < pos"
  proof -
    have "fl (- ?d) \<le> fl (pos - volume)" using that v by (intro fl_mono) simp
    then show ?thesis using \<open>0 < volume\<close> assms(3) by (simp only: fl_minus) (simp add: fl_le_rep)
  qed
  moreover have "pos \<le> fl (pos + volume) \<and> fl (pos + volume) \<le> fl ?d" if "\<not> 0 < pos"
    using that v \<open>0 < volume\<close> assms(3) fl_mono [of "pos + volume" ?d] by (auto intro: fl_ge_rep)
  ultimately show ?thesis using chk d nn unfolding pos' Let_def
    by (auto simp: after_fill_def Let_def)
qed

theorem reduce_only_no_flip_witness:
  "\<exists>ex'. ex' = fst (on_fill ''BTCUSDT'' SELL (PFloat (Fin 2)) (PFloat (Fin 101)) (update_open_orders [] demo_exposure)) \<and>
     - fl (fl (2 + eps9) - 2) \<le> dgetd (ex_net_positions ex') ''BTCUSDT'' 0"
proof -
  have chk: "check_reduce_only ''BTCUSDT'' SELL 2 (update_open_orders [] demo_exposure) = (True, [])" by code_simp
  have pos: "(2 :: rat) = dgetd (ex_net_positions (update_open_orders [] demo_exposure)) ''BTCUSDT'' 0"
    by (simp add: update_open_orders_ledger demo_exposure_def exposure_init_def dgetd_def)
  have "\<not> isl (snd (on_fill ''BTCUSDT'' SELL (PFloat (Fin 2)) (PFloat (Fin 101)) (update_open_orders [] demo_exposure)))"
    by code_simp
  then obtain ex' pnl where fill:
    "on_fill ''BTCUSDT'' SELL (PFloat (Fin 2)) (PFloat (Fin 101)) (update_open_orders [] demo_exposure) = (ex', Inr pnl)"
    by (metis prod.collapse sum.collapse(2))
  from reduce_only_no_flip [OF refl pos _ chk fill] fill show ?thesis by (simp add: Let_def)
qed

text \<open>Opening and closing the same quantity leaves nothing behind. From a flat symbol, a fill
  of a quantity and its opposite return the ledger to flat with no entry price, leave every other
  symbol alone, and realise exactly the rounded price difference to the rounded entry price.\<close>

theorem fill_round_trip:
  assumes "dgetd (ex_net_positions ex) symbol 0 = 0" "representable q" "eps9 \<le> q" "0 < p1" "0 < p2"
    and "on_fill symbol BUY (PFloat (Fin q)) (PFloat (Fin p1)) ex = (ex1, r1)"
    and "on_fill symbol SELL (PFloat (Fin q)) (PFloat (Fin p2)) ex1 = (ex2, r2)"
  shows "r1 = Inr 0 \<and> r2 = Inr (fl (fl (p2 - fl (fl (q * p1) / q)) * q)) \<and>
    dgetd (ex_net_positions ex2) symbol 0 = 0 \<and> dgetd (ex_avg_prices ex2) symbol 0 = 0 \<and>
    (s = symbol \<or> (dgetd (ex_net_positions ex2) s 0 = dgetd (ex_net_positions ex) s 0 \<and>
                    dgetd (ex_avg_prices ex2) s 0 = dgetd (ex_avg_prices ex) s 0))"
proof -
  have q: "0 < q" "fl q = q" "\<not> \<bar>q\<bar> < eps9"
    using assms(2,3) less_le_trans [OF eps9_facts(1) assms(3)] by (auto simp: representable_def)
  have one: "r1 = Inr 0 \<and> ex1 = ex\<lparr>ex_net_positions := dset symbol q (ex_net_positions ex),
      ex_avg_prices := dset symbol (fl (fl (q * p1) / q)) (ex_avg_prices ex)\<rparr>"
    using assms(1,4,6) q by (auto simp: on_fill_def apply_fill_to_ledger_def Let_def)
  show ?thesis using assms(5,7) q one
    by (auto simp: on_fill_def apply_fill_to_ledger_def Let_def)
qed

theorem fill_round_trip_witness:
  "dgetd (ex_net_positions (fst (on_fill ''ETHUSDT'' SELL (PFloat (Fin 3)) (PFloat (Fin 12))
     (fst (on_fill ''ETHUSDT'' BUY (PFloat (Fin 3)) (PFloat (Fin 10)) demo_exposure))))) ''ETHUSDT'' 0 = 0"
proof -
  have "dgetd (ex_net_positions demo_exposure) ''ETHUSDT'' 0 = 0" "eps9 \<le> 3" by code_simp+
  from fill_round_trip [OF this(1) _ this(2), of 10 12 _ _ _ _ "''ETHUSDT''", OF _ _ _ surjective_pairing surjective_pairing]
  show ?thesis by simp
qed

end
