(* ===== verification/Account.thy ===== *)
theory Account
  imports Exposure
begin

text \<open>
  The account manager of \<open>oms/account_manager.py\<close>: balances, margin and the trading budget. The
  exposure tables and the market cache it reads are arguments, as are the clocks. Configured values are finite
  numbers; values that arrive from the exchange are decoded JSON. Every float operation is rounded by
  \<open>fl\<close>. An operation returns the state it leaves behind beside its result, also when it raises. The event
  that \<open>calculate\<close> publishes copies fields of the state and is left out.
\<close>

subsection \<open>State\<close>

record account =
  ac_balance :: rat
  ac_leverage :: rat
  ac_trading_budget_by_asset :: "(string, rat) dict"
  ac_trading_budget_total :: rat
  ac_equity :: rat
  ac_used_margin :: rat
  ac_available :: rat
  ac_budget_equity :: rat
  ac_budget_balance :: rat
  ac_budget_available :: rat
  ac_balances :: "(string, rat) dict"
  ac_available_balances :: "(string, rat) dict"
  ac_exchange_balance_synced :: bool
  ac_maintenance_margin :: rat
  ac_margin_balance :: rat
  ac_maintenance_margin_ratio :: pyfloat
  ac_margin_snapshot_time :: pyfloat
  ac_margin_snapshot_monotonic :: pyfloat
  ac_margin_snapshot_synced :: bool
  ac_external_cash_flow_total :: rat
  ac_cash_flow_snapshot_time :: pyfloat
  ac_cash_flow_snapshot_monotonic :: pyfloat
  ac_cash_flow_snapshot_synced :: bool

definition budget_of :: "rat \<Rightarrow> rat \<Rightarrow> rat" where
  "budget_of limit equity = (if limit > 0 then min equity limit else equity)"

text \<open>\<open>initial_balance_usdt\<close> (10000 unless given and nonzero), \<open>leverage\<close>, \<open>trading_budget_by_asset\<close> and
  \<open>trading_budget_total\<close>, whose default is the sum of the budgets or else the balance.\<close>

definition account_init :: "rat option \<Rightarrow> rat \<Rightarrow> (string \<times> rat) list \<Rightarrow> rat option \<Rightarrow> account" where
  "account_init initial_balance leverage raw_budgets budget_total =
     (let balance = (case initial_balance of None \<Rightarrow> 10000 | Some b \<Rightarrow> if b = 0 then 10000 else b);
          budgets = fold (\<lambda>(a, v) d. if v > 0 then dset (upper a) v d else d) raw_budgets [];
          budget_sum = float_sum (map snd budgets);
          limit = (case budget_total of Some t \<Rightarrow> t | None \<Rightarrow> if budget_sum \<noteq> 0 then budget_sum else balance);
          budget = budget_of limit balance
      in \<lparr>ac_balance = balance, ac_leverage = leverage, ac_trading_budget_by_asset = budgets,
          ac_trading_budget_total = limit, ac_equity = balance, ac_used_margin = 0, ac_available = balance,
          ac_budget_equity = budget, ac_budget_balance = budget, ac_budget_available = budget,
          ac_balances = [], ac_available_balances = [], ac_exchange_balance_synced = False,
          ac_maintenance_margin = 0, ac_margin_balance = balance, ac_maintenance_margin_ratio = Fin 0,
          ac_margin_snapshot_time = Fin 0, ac_margin_snapshot_monotonic = Fin 0, ac_margin_snapshot_synced = False,
          ac_external_cash_flow_total = 0, ac_cash_flow_snapshot_time = Fin 0,
          ac_cash_flow_snapshot_monotonic = Fin 0, ac_cash_flow_snapshot_synced = False\<rparr>)"

subsection \<open>Checked numbers\<close>

definition require_finite :: "bool \<Rightarrow> pyval \<Rightarrow> rat res" where
  "require_finite nonnegative v =
     (case float_of v of
        Inl _ \<Rightarrow> Inl (ValueError ''must be numeric'')
      | Inr (Fin x) \<Rightarrow> if nonnegative \<and> x < 0 then Inl (ValueError ''must be nonnegative'') else Inr x
      | Inr _ \<Rightarrow> Inl (ValueError ''must be finite''))"

definition optional_finite :: "pyval \<Rightarrow> rat option res" where
  "optional_finite v = (if v = PNone then Inr None else bindE (require_finite False v) (\<lambda>x. Inr (Some x)))"

subsection \<open>Recalculation\<close>

definition position_price :: "cache \<Rightarrow> exposure \<Rightarrow> string \<Rightarrow> rat" where
  "position_price ca ex symbol =
     (let mark = get_mark_price ca symbol; bid = fst (get_best_quote ca symbol) in
      if mark > 0 then mark else if bid > 0 then bid else dgetd (ex_avg_prices ex) symbol 0)"

definition get_price_safely :: "cache \<Rightarrow> string \<Rightarrow> rat" where
  "get_price_safely ca symbol =
     (let mark = get_mark_price ca symbol; bid = fst (get_best_quote ca symbol) in
      if mark > 0 then mark else if bid > 0 then bid else 0)"

fun position_loop :: "cache \<Rightarrow> exposure \<Rightarrow> rat \<Rightarrow> (string \<times> rat) list \<Rightarrow> rat \<times> rat \<Rightarrow> rat \<times> rat" where
  "position_loop ca ex leverage [] acc = acc"
| "position_loop ca ex leverage ((symbol, pos_vol) # rest) (unrealized_pnl, pos_margin) =
     (let mark_price = position_price ca ex symbol; avg_price = dgetd (ex_avg_prices ex) symbol 0 in
      position_loop ca ex leverage rest
        (if pos_vol = 0 \<or> mark_price \<le> 0 then (unrealized_pnl, pos_margin)
         else (fl (unrealized_pnl + fl (fl (mark_price - avg_price) * pos_vol)),
               fl (pos_margin + fl (fl (\<bar>pos_vol\<bar> * mark_price) / leverage)))))"

fun order_loop :: "cache \<Rightarrow> rat \<Rightarrow> (string \<times> rat) list \<Rightarrow> rat \<Rightarrow> rat res" where
  "order_loop ca leverage [] order_margin = Inr order_margin"
| "order_loop ca leverage ((symbol, qty) # rest) order_margin =
     (let mark_price = get_price_safely ca symbol in
      if qty < 0 then Inl (ValueError ''Non-finite open quantity'')
      else order_loop ca leverage rest
        (if mark_price > 0 then fl (order_margin + fl (fl (qty * mark_price) / leverage)) else order_margin))"

definition settle_margins :: "rat \<Rightarrow> rat \<Rightarrow> rat option \<Rightarrow> rat option \<Rightarrow> account \<Rightarrow> account" where
  "settle_margins unrealized_pnl local_used_margin used_margin_override available_override a =
     (let equity = fl (ac_balance a + unrealized_pnl);
          exchange_used_margin = (case used_margin_override of None \<Rightarrow> 0 | Some u \<Rightarrow> max 0 u);
          available_used_margin = (case available_override of None \<Rightarrow> 0 | Some v \<Rightarrow> max 0 (fl (equity - max 0 v)));
          used_margin = max local_used_margin (max exchange_used_margin available_used_margin);
          budget = budget_of (ac_trading_budget_total a) equity
      in a\<lparr>ac_equity := equity, ac_used_margin := used_margin, ac_available := max 0 (fl (equity - used_margin)),
           ac_budget_equity := budget, ac_budget_balance := budget,
           ac_budget_available := max 0 (fl (budget - used_margin)),
           ac_margin_balance := (if ac_margin_snapshot_synced a then ac_margin_balance a else equity),
           ac_maintenance_margin_ratio :=
             (if \<not> ac_margin_snapshot_synced a then Fin 0
              else if ac_margin_balance a > 0 then Fin (fl (ac_maintenance_margin a / ac_margin_balance a))
              else if ac_maintenance_margin a > 0 then PInf else Fin 0)\<rparr>)"

definition calculate ::
  "cache \<Rightarrow> exposure \<Rightarrow> rat option \<Rightarrow> rat option \<Rightarrow> account \<Rightarrow> account \<times> unit res" where
  "calculate ca ex used_margin_override available_override a =
     (if ac_leverage a \<le> 0 then (a, Inl (ValueError ''Account state is not finite''))
      else if (case used_margin_override of None \<Rightarrow> False | Some u \<Rightarrow> u < 0)
      then (a, Inl (ValueError ''must be nonnegative''))
      else
        let (unrealized_pnl, pos_margin) = position_loop ca ex (ac_leverage a) (ex_net_positions ex) (0, 0) in
        case bindE (order_loop ca (ac_leverage a) (ex_open_buy_qty ex) 0)
               (order_loop ca (ac_leverage a) (ex_open_sell_qty ex)) of
          Inl e \<Rightarrow> (a, Inl e)
        | Inr order_margin \<Rightarrow>
            (settle_margins unrealized_pnl (fl (pos_margin + order_margin)) used_margin_override available_override a,
             Inr ()))"

subsection \<open>Exchange truth\<close>

type_synonym balance_payload = "(string, rat \<times> rat option) dict"

definition normalize_entry :: "string \<times> pyval \<Rightarrow> (string \<times> rat \<times> rat option) res" where
  "normalize_entry entry =
     (let asset = strip (upper (fst entry)) in
      case snd entry of
        PDict payload \<Rightarrow>
          if asset = [] then Inl (ValueError ''invalid asset entry'')
          else bindE (require_finite False (vget payload ''wallet_balance'' (PFloat (Fin 0)))) (\<lambda>wallet.
            bindE (optional_finite (vget payload ''available_balance'' PNone)) (\<lambda>available.
              Inr (asset, wallet, available)))
      | _ \<Rightarrow> Inl (ValueError ''invalid asset entry''))"

definition normalize_balance_payload :: "pyval \<Rightarrow> balance_payload option res" where
  "normalize_balance_payload balances =
     (case balances of
        PNone \<Rightarrow> Inr None
      | PDict d \<Rightarrow> bindE (mapE normalize_entry d) (\<lambda>es. Inr (Some (fold (\<lambda>(k, v). dset k v) es [])))
      | _ \<Rightarrow> Inl (ValueError ''balances must be a mapping''))"

definition dupdate :: "('k, 'v) dict \<Rightarrow> ('k, 'v) dict \<Rightarrow> ('k, 'v) dict" where
  "dupdate d updates = fold (\<lambda>(k, v). dset k v) updates d"

definition wallet_updates :: "balance_payload \<Rightarrow> (string, rat) dict" where
  "wallet_updates bs = map (\<lambda>(k, w, _). (k, w)) bs"

definition available_updates :: "balance_payload \<Rightarrow> (string, rat) dict" where
  "available_updates bs = List.map_filter (\<lambda>(k, _, v). map_option (Pair k) v) bs"

definition sync_asset :: "string \<Rightarrow> rat \<Rightarrow> rat option \<Rightarrow> account \<Rightarrow> account" where
  "sync_asset asset balance available a =
     (if asset = [] then a
      else a\<lparr>ac_balances := dset (upper asset) balance (ac_balances a),
             ac_available_balances := (case available of None \<Rightarrow> ac_available_balances a
               | Some v \<Rightarrow> dset (upper asset) v (ac_available_balances a))\<rparr>)"

definition sync_balance_maps ::
  "string \<Rightarrow> rat \<Rightarrow> rat option \<Rightarrow> balance_payload option \<Rightarrow> bool \<Rightarrow> account \<Rightarrow> account" where
  "sync_balance_maps asset balance available balances replace a =
     (case balances of
        None \<Rightarrow> sync_asset asset balance available a
      | Some bs \<Rightarrow>
          if replace then a\<lparr>ac_balances := wallet_updates bs, ac_available_balances := available_updates bs\<rparr>
          else if bs = [] then sync_asset asset balance available a
          else a\<lparr>ac_balances := dupdate (ac_balances a) (wallet_updates bs),
                 ac_available_balances := dupdate (ac_available_balances a) (available_updates bs)\<rparr>)"

definition USD_EQUIVALENT_ASSETS :: "string list" where
  "USD_EQUIVALENT_ASSETS = [''BUSD'', ''FDUSD'', ''USDC'', ''USDT'']"

definition stable_balance_totals :: "account \<Rightarrow> rat option \<times> rat option" where
  "stable_balance_totals a =
     (let assets = filter (\<lambda>x. x \<in> set (dkeys (ac_balances a))) USD_EQUIVALENT_ASSETS in
      if assets = [] then (None, None)
      else (Some (float_sum (map (\<lambda>x. dgetd (ac_balances a) x 0) assets)),
            if list_all (\<lambda>x. x \<in> set (dkeys (ac_available_balances a))) assets
            then Some (float_sum (map (\<lambda>x. dgetd (ac_available_balances a) x 0) assets)) else None))"

definition snapshot_times :: "clocks \<Rightarrow> pyval \<Rightarrow> pyval \<Rightarrow> (pyfloat \<times> pyfloat) res" where
  "snapshot_times ck snapshot_time snapshot_monotonic =
     (if snapshot_time = PNone \<and> snapshot_monotonic = PNone then Inr (Fin (ck_time ck), Fin (ck_perf_counter ck))
      else bindE (if snapshot_time = PNone then Inr (Fin (ck_time ck)) else float_of snapshot_time) (\<lambda>wall_at.
        bindE (if snapshot_monotonic = PNone then Inr (Fin 0) else float_of snapshot_monotonic) (\<lambda>mono_at.
          Inr (wall_at, mono_at))))"

definition set_margin_health ::
  "clocks \<Rightarrow> pyval \<Rightarrow> pyval \<Rightarrow> pyval \<Rightarrow> pyval \<Rightarrow> account \<Rightarrow> account \<times> bool res" where
  "set_margin_health ck maintenance_margin margin_balance snapshot_time snapshot_monotonic a =
     (if maintenance_margin = PNone \<or> margin_balance = PNone then (a, Inr False)
      else case bindE (float_of maintenance_margin) (\<lambda>m. bindE (float_of margin_balance) (\<lambda>b. Inr (m, b))) of
          Inr (Fin m, Fin b) \<Rightarrow>
            if m < 0 then (a, Inr False)
            else
              let a1 = a\<lparr>ac_maintenance_margin := m, ac_margin_balance := b\<rparr> in
              (case snapshot_times ck snapshot_time snapshot_monotonic of
                 Inl e \<Rightarrow> (a1, Inl e)
               | Inr (wall_at, mono_at) \<Rightarrow>
                   (a1\<lparr>ac_margin_snapshot_time := wall_at, ac_margin_snapshot_monotonic := mono_at,
                       ac_margin_snapshot_synced := True\<rparr>, Inr True))
        | _ \<Rightarrow> (a, Inr False))"

definition force_sync_account ::
  "cache \<Rightarrow> exposure \<Rightarrow> clocks \<Rightarrow> pyval \<Rightarrow> pyval \<Rightarrow> pyval \<Rightarrow> string \<Rightarrow> pyval \<Rightarrow> pyval \<Rightarrow> pyval \<Rightarrow> pyval \<Rightarrow> pyval
   \<Rightarrow> account \<Rightarrow> account \<times> unit res" where
  "force_sync_account ca ex ck balance0 used_margin0 available0 asset balances0 maintenance margin_bal snap_time snap_mono a =
     (case bindE (require_finite False balance0) (\<lambda>balance.
           bindE (require_finite True used_margin0) (\<lambda>used_margin.
           bindE (optional_finite available0) (\<lambda>available.
           bindE (normalize_balance_payload balances0) (\<lambda>balances.
             Inr (balance, used_margin, available, balances))))) of
        Inl e \<Rightarrow> (a, Inl e)
      | Inr (balance, used_margin, available, balances) \<Rightarrow>
          let a1 = sync_balance_maps asset balance available balances True
                     (a\<lparr>ac_balance := balance, ac_exchange_balance_synced := True\<rparr>) in
          (case set_margin_health ck maintenance margin_bal snap_time snap_mono a1 of
             (a2, Inl e) \<Rightarrow> (a2, Inl e)
           | (a2, Inr _) \<Rightarrow> calculate ca ex (Some used_margin) available a2))"

definition sync_exchange_balance ::
  "cache \<Rightarrow> exposure \<Rightarrow> pyval \<Rightarrow> pyval \<Rightarrow> string \<Rightarrow> pyval \<Rightarrow> account \<Rightarrow> account \<times> unit res" where
  "sync_exchange_balance ca ex balance0 available0 asset balances0 a =
     (case bindE (require_finite False balance0) (\<lambda>balance.
           bindE (optional_finite available0) (\<lambda>available.
           bindE (normalize_balance_payload balances0) (\<lambda>balances.
             Inr (balance, available, balances)))) of
        Inl e \<Rightarrow> (a, Inl e)
      | Inr (balance, available, balances) \<Rightarrow>
          let a1 = sync_balance_maps asset balance available balances False a;
              (aggregate_balance, aggregate_available) = stable_balance_totals a1
          in calculate ca ex None (case aggregate_available of None \<Rightarrow> available | Some v \<Rightarrow> Some v)
               (a1\<lparr>ac_balance := (case aggregate_balance of None \<Rightarrow> balance | Some b \<Rightarrow> b),
                   ac_exchange_balance_synced := True\<rparr>))"

definition sync_margin_health ::
  "cache \<Rightarrow> exposure \<Rightarrow> clocks \<Rightarrow> pyval \<Rightarrow> pyval \<Rightarrow> pyval \<Rightarrow> pyval \<Rightarrow> account \<Rightarrow> account \<times> bool res" where
  "sync_margin_health ca ex ck maintenance margin_bal snap_time snap_mono a =
     (case set_margin_health ck maintenance margin_bal snap_time snap_mono a of
        (a1, Inr True) \<Rightarrow> (let (a2, r) = calculate ca ex None None a1 in (a2, bindE r (\<lambda>_. Inr True)))
      | r \<Rightarrow> r)"

definition sync_external_cash_flow_truth ::
  "cache \<Rightarrow> exposure \<Rightarrow> clocks \<Rightarrow> pyval \<Rightarrow> pyval \<Rightarrow> pyval \<Rightarrow> account \<Rightarrow> account \<times> bool res" where
  "sync_external_cash_flow_truth ca ex ck flow_total snap_time snap_mono a =
     (case float_of flow_total of
        Inr (Fin t) \<Rightarrow>
          let a1 = a\<lparr>ac_external_cash_flow_total := t\<rparr> in
          (case snapshot_times ck snap_time snap_mono of
             Inl e \<Rightarrow> (a1, Inl e)
           | Inr (wall_at, mono_at) \<Rightarrow>
               let (a2, r) = calculate ca ex None None
                     (a1\<lparr>ac_cash_flow_snapshot_time := wall_at, ac_cash_flow_snapshot_monotonic := mono_at,
                         ac_cash_flow_snapshot_synced := True\<rparr>)
               in (a2, bindE r (\<lambda>_. Inr True)))
      | _ \<Rightarrow> (a, Inr False))"

definition mark_external_cash_flow_truth_unavailable :: "cache \<Rightarrow> exposure \<Rightarrow> account \<Rightarrow> account \<times> unit res" where
  "mark_external_cash_flow_truth_unavailable ca ex a = calculate ca ex None None
     (a\<lparr>ac_cash_flow_snapshot_synced := False, ac_cash_flow_snapshot_time := Fin 0,
        ac_cash_flow_snapshot_monotonic := Fin 0\<rparr>)"

definition update_balance :: "cache \<Rightarrow> exposure \<Rightarrow> pyval \<Rightarrow> pyval \<Rightarrow> account \<Rightarrow> account \<times> unit res" where
  "update_balance ca ex realized_pnl0 commission0 a =
     (case bindE (require_finite False realized_pnl0) (\<lambda>pnl. bindE (require_finite False commission0) (\<lambda>c. Inr (pnl, c))) of
        Inl e \<Rightarrow> (a, Inl e)
      | Inr (realized_pnl, commission) \<Rightarrow>
          calculate ca ex None None (a\<lparr>ac_balance := fl (fl (ac_balance a + realized_pnl) - commission)\<rparr>))"

subsection \<open>Margin check\<close>

definition effective_available :: "account \<Rightarrow> rat" where
  "effective_available a = (if ac_trading_budget_total a > 0 then ac_budget_available a else ac_available a)"

definition check_margin :: "cache \<Rightarrow> exposure \<Rightarrow> rat \<Rightarrow> account \<Rightarrow> account \<times> bool res" where
  "check_margin ca ex notional_value a =
     (let required = fl (notional_value / ac_leverage a) in
      if ac_leverage a = 0 then (a, Inl ZeroDivisionError)
      else if effective_available a = 0 then
        let (a1, r) = calculate ca ex None None a in (a1, bindE r (\<lambda>_. Inr (effective_available a1 \<ge> required)))
      else (a, Inr (effective_available a \<ge> required)))"

definition get_margin_ratio :: "account \<Rightarrow> rat" where
  "get_margin_ratio a = (if ac_equity a \<le> 0 then 0 else fl (ac_used_margin a / ac_equity a))"

subsection \<open>The account as a system\<close>

datatype account_op =
    Force_sync clocks pyval pyval pyval string pyval pyval pyval pyval pyval
  | Sync_balance pyval pyval string pyval
  | Sync_margin clocks pyval pyval pyval pyval
  | Sync_cash_flow clocks pyval pyval pyval
  | Cash_flow_unavailable
  | Update_balance pyval pyval
  | Calculate "rat option" "rat option"
  | Check_margin rat

text \<open>Each operation runs against the exposure and the cache of its moment.\<close>

fun account_step :: "cache \<times> exposure \<times> account_op \<Rightarrow> account \<Rightarrow> account" where
  "account_step (ca, ex, Force_sync ck b u v asset bs m mb t mt) a = fst (force_sync_account ca ex ck b u v asset bs m mb t mt a)"
| "account_step (ca, ex, Sync_balance b v asset bs) a = fst (sync_exchange_balance ca ex b v asset bs a)"
| "account_step (ca, ex, Sync_margin ck m mb t mt) a = fst (sync_margin_health ca ex ck m mb t mt a)"
| "account_step (ca, ex, Sync_cash_flow ck v t mt) a = fst (sync_external_cash_flow_truth ca ex ck v t mt a)"
| "account_step (ca, ex, Cash_flow_unavailable) a = fst (mark_external_cash_flow_truth_unavailable ca ex a)"
| "account_step (ca, ex, Update_balance p c) a = fst (update_balance ca ex p c a)"
| "account_step (ca, ex, Calculate u v) a = fst (calculate ca ex u v a)"
| "account_step (ca, ex, Check_margin n) a = fst (check_margin ca ex n a)"

text \<open>What the margin fields promise: nothing is spendable that is not equity, and nothing beyond the trading budget.\<close>

definition margins_sound :: "account \<Rightarrow> bool" where
  "margins_sound a \<longleftrightarrow>
     0 \<le> ac_used_margin a \<and> 0 \<le> ac_budget_available a \<and> ac_budget_available a \<le> ac_available a \<and>
     ac_available a \<le> max 0 (ac_equity a) \<and> ac_budget_equity a = budget_of (ac_trading_budget_total a) (ac_equity a) \<and>
     ac_budget_available a \<le> max 0 (ac_budget_equity a) \<and> representable (ac_trading_budget_total a)"

text \<open>The fields it speaks of.\<close>

definition margin_fields :: "account \<Rightarrow> rat \<times> rat \<times> rat \<times> rat \<times> rat \<times> rat" where
  "margin_fields a = (ac_used_margin a, ac_budget_available a, ac_available a, ac_equity a, ac_budget_equity a,
     ac_trading_budget_total a)"

lemma margins_sound_cong: "margin_fields b = margin_fields a \<Longrightarrow> margins_sound b = margins_sound a"
  by (simp add: margins_sound_def margin_fields_def)

lemma position_margin_nonneg:
  "0 < lev \<Longrightarrow> 0 \<le> snd acc \<Longrightarrow> 0 \<le> snd (position_loop ca ex lev ps acc)"
  by (induction ca ex lev ps acc rule: position_loop.induct) (auto simp: Let_def)

lemma order_margin_nonneg: "order_loop ca lev qs m = Inr r \<Longrightarrow> 0 < lev \<Longrightarrow> 0 \<le> m \<Longrightarrow> 0 \<le> r"
  by (induction ca lev qs m rule: order_loop.induct) (auto simp: Let_def split: if_splits)

lemma budget_of_le: "budget_of limit x \<le> x"
  by (simp add: budget_of_def)

lemma settle_margins_sound:
  assumes "0 \<le> m" and "representable (ac_trading_budget_total a)"
  shows "margins_sound (settle_margins u m uo ao a)"
proof -
  define e where "e = fl (ac_balance a + u)"
  define b where "b = budget_of (ac_trading_budget_total a) e"
  define used where "used = max m (max (case uo of None \<Rightarrow> 0 | Some x \<Rightarrow> max 0 x)
    (case ao of None \<Rightarrow> 0 | Some v \<Rightarrow> max 0 (fl (e - max 0 v))))"
  have used: "0 \<le> used" using assms(1) by (simp add: used_def)
  have rep: "representable e" "representable b"
    using assms(2) by (simp_all add: e_def b_def budget_of_def min_def)
  have "b \<le> e" by (simp add: b_def budget_of_le)
  then have "fl (b - used) \<le> fl (e - used)" by (intro fl_mono) simp
  moreover have "fl (e - used) \<le> e" "fl (b - used) \<le> b"
    using used rep by (simp_all add: fl_le_rep)
  ultimately show ?thesis
    using used assms(2)
    by (auto simp: margins_sound_def settle_margins_def Let_def simp flip: e_def b_def used_def)
qed

lemma calculate_sound: "margins_sound a \<Longrightarrow> margins_sound (fst (calculate ca ex uo ao a))"
proof (cases "bindE (order_loop ca (ac_leverage a) (ex_open_buy_qty ex) 0)
               (order_loop ca (ac_leverage a) (ex_open_sell_qty ex))")
  case (Inr m)
  assume a: "margins_sound a"
  obtain u p where loop: "position_loop ca ex (ac_leverage a) (ex_net_positions ex) (0, 0) = (u, p)" by fastforce
  show ?thesis
  proof (cases "ac_leverage a > 0")
    case True
    then have "0 \<le> p" using position_margin_nonneg [of "ac_leverage a" "(0, 0)"] loop by (metis order_refl snd_conv)
    moreover have "0 \<le> m" using Inr True by (auto simp: bindE_Inr_iff dest!: order_margin_nonneg)
    ultimately have "0 \<le> fl (p + m)" by simp
    moreover have "representable (ac_trading_budget_total a)" using a by (simp add: margins_sound_def)
    ultimately show ?thesis using Inr loop a by (simp add: calculate_def settle_margins_sound)
  qed (use a in \<open>simp add: calculate_def\<close>)
qed (simp add: calculate_def case_prod_unfold)

lemma sync_maps_fields: "margin_fields (sync_balance_maps asset b v bs r a) = margin_fields a"
  by (simp add: margin_fields_def sync_balance_maps_def sync_asset_def split: option.split)

lemma set_margin_health_fields: "margin_fields (fst (set_margin_health ck m b t mt a)) = margin_fields a"
  by (auto simp: margin_fields_def set_margin_health_def Let_def split: sum.split pyfloat.split)

lemma margins_sound_frame [simp]:
  "margins_sound (a\<lparr>ac_balance := b\<rparr>) = margins_sound a"
  "margins_sound (a\<lparr>ac_exchange_balance_synced := sy\<rparr>) = margins_sound a"
  "margins_sound (a\<lparr>ac_external_cash_flow_total := b\<rparr>) = margins_sound a"
  "margins_sound (a\<lparr>ac_cash_flow_snapshot_time := f\<rparr>) = margins_sound a"
  "margins_sound (a\<lparr>ac_cash_flow_snapshot_monotonic := f\<rparr>) = margins_sound a"
  "margins_sound (a\<lparr>ac_cash_flow_snapshot_synced := sy\<rparr>) = margins_sound a"
  by (rule margins_sound_cong, simp add: margin_fields_def)+

lemmas margins_sound_sync [simp] = sync_maps_fields [THEN margins_sound_cong]
  set_margin_health_fields [THEN margins_sound_cong]

lemma margin_then_calculate_sound:
  assumes "margins_sound a"
  shows "margins_sound (fst (case set_margin_health ck m b t mt a of
      (a2, Inl e) \<Rightarrow> (a2, Inl e) | (a2, Inr z) \<Rightarrow> calculate ca ex uo ao a2))"
proof -
  obtain a2 r where h: "set_margin_health ck m b t mt a = (a2, r)" by fastforce
  have "margins_sound (fst (set_margin_health ck m b t mt a))" using assms by simp
  with h show ?thesis by (cases r) (simp_all add: calculate_sound)
qed

lemma account_step_sound:
  assumes "margins_sound a"
  shows "margins_sound (account_step x a)"
proof -
  obtain ca ex y where x: "x = (ca, ex, y)" by (metis prod_cases3)
  show ?thesis
  proof (cases y)
    case (Force_sync ck b u v asset bs m mb t mt)
    then show ?thesis using assms
      by (auto simp: x force_sync_account_def Let_def margin_then_calculate_sound split: sum.split)
  next
    case (Sync_margin ck m mb t mt)
    have "margins_sound (fst (set_margin_health ck m mb t mt a))" using assms by simp
    then show ?thesis using calculate_sound
      by (fastforce simp: x Sync_margin sync_margin_health_def Let_def case_prod_unfold split: sum.split bool.split)
  qed (use assms calculate_sound in \<open>auto simp: x sync_exchange_balance_def sync_external_cash_flow_truth_def
      mark_external_cash_flow_truth_unavailable_def update_balance_def check_margin_def Let_def case_prod_unfold
      split: sum.split pyfloat.split\<close>)
qed

interpretation acct: invariant_system account_step margins_sound
  by unfold_locales (rule account_step_sound)

lemma float_sum_rep: "representable (float_sum xs)"
  by (induction xs rule: rev_induct) (simp_all add: float_sum_def)

text \<open>The configuration values are floats, and the opening balance is not negative.\<close>

definition opening_config :: "rat option \<Rightarrow> rat option \<Rightarrow> bool" where
  "opening_config initial_balance budget_total \<longleftrightarrow>
     (\<forall>b. initial_balance = Some b \<longrightarrow> 0 \<le> b \<and> representable b) \<and>
     (\<forall>t. budget_total = Some t \<longrightarrow> representable t)"

lemma account_init_sound: "opening_config ib bt \<Longrightarrow> margins_sound (account_init ib lev bs bt)"
  by (auto simp: opening_config_def margins_sound_def account_init_def Let_def budget_of_def float_sum_rep
      split: option.split)

text \<open>Claim C21: an order that passes the margin check is paid for. Over every sequence of balance, margin and cash-flow
  messages, fills, recalculations and margin checks, with whatever values the exchange sends, when
  \<open>check_margin\<close> accepts an order of a given notional value, the margin it needs (the value over the leverage) is
  covered by the spendable amount the account then shows, which is at most its equity and, where a
  trading budget is configured, at most that budget.\<close>

theorem accepted_margin_covered:
  assumes "opening_config ib bt"
    and "a = run_ops account_step xs (account_init ib lev bs bt)"
    and "check_margin ca ex notional_value a = (a', Inr True)"
  shows "fl (notional_value / ac_leverage a) \<le> effective_available a' \<and>
    0 \<le> effective_available a' \<and> effective_available a' \<le> max 0 (ac_equity a') \<and>
    (ac_trading_budget_total a' > 0 \<longrightarrow> effective_available a' \<le> ac_trading_budget_total a')"
proof -
  have "margins_sound a" using assms(1,2) by (simp add: acct.run_inv account_init_sound)
  then have "margins_sound (account_step (ca, ex, Check_margin notional_value) a)" by (rule account_step_sound)
  then have "margins_sound a'" using assms(3) by simp
  moreover have "fl (notional_value / ac_leverage a) \<le> effective_available a'"
    using assms(3) by (auto simp: check_margin_def Let_def case_prod_unfold res_simps split: if_splits)
  ultimately show ?thesis
    by (auto simp: effective_available_def margins_sound_def budget_of_def split: if_splits)
qed

definition demo_account :: account where
  "demo_account = account_init (Some 1000) 10 [(''usdt'', 500)] None"

theorem accepted_margin_covered_witness:
  "\<exists>a'. check_margin demo_cache exposure_init 4000
       (run_ops account_step [(demo_cache, exposure_init, Update_balance (PFloat (Fin 20)) (PInt 1))] demo_account) = (a', Inr True) \<and>
     fl (4000 / 10) \<le> effective_available a' \<and> effective_available a' \<le> 500"
proof -
  define a where "a = run_ops account_step [(demo_cache, exposure_init, Update_balance (PFloat (Fin 20)) (PInt 1))] demo_account"
  define r where "r = check_margin demo_cache exposure_init 4000 a"
  have start: "ac_leverage demo_account = 10" "ac_balance demo_account = 1000" "ac_trading_budget_total demo_account = 500"
    by code_simp+
  have a: "a = settle_margins 0 0 None None (demo_account\<lparr>ac_balance := 1019\<rparr>)"
    by (simp add: a_def update_balance_def require_finite_def calculate_def exposure_init_def start)
  have fields: "ac_leverage a = 10" "ac_trading_budget_total a = 500" "effective_available a = 500"
    by (simp_all add: a settle_margins_def effective_available_def budget_of_def Let_def start)
  then have r: "r = (a, Inr True)" by (simp add: r_def check_margin_def)
  then have run: "r = (fst r, Inr True)" by simp
  have config: "opening_config (Some 1000) None" by (simp add: opening_config_def)
  have "fl (4000 / 10) \<le> effective_available (fst r) \<and> effective_available (fst r) \<le> 500"
    using accepted_margin_covered [OF config a_def [unfolded demo_account_def] run [unfolded r_def]] fields r by simp
  then show ?thesis using run unfolding r_def a_def by blast
qed

subsection \<open>An exhausted account\<close>

lemma calculate_flat:
  assumes "ex_net_positions ex = []" "ex_open_buy_qty ex = []" "ex_open_sell_qty ex = []" and "ac_leverage a > 0"
  shows "calculate ca ex None ao a = (settle_margins 0 0 None ao a, Inr ())"
  using assms by (simp add: calculate_def)

text \<open>Claim C40: a report that the exchange has no margin left does not bind the margin check. With nothing held
  and nothing open, let the exchange report an available balance of zero: the account then shows nothing
  spendable. The next margin check takes that zero for a missing value, recalculates without the report, and
  accepts every order that the wallet balance or the trading budget alone would cover.\<close>

theorem exhausted_margin_recalculated:
  assumes "ex_net_positions ex = []" "ex_open_buy_qty ex = []" "ex_open_sell_qty ex = []"
    and "ac_leverage a > 0" and "ac_balance a \<ge> 0" and "representable (ac_trading_budget_total a)"
    and "calculate ca ex None (Some 0) a = (a', Inr ())"
  shows "effective_available a' = 0 \<and>
    snd (check_margin ca ex notional_value a') =
      Inr (fl (notional_value / ac_leverage a) \<le> budget_of (ac_trading_budget_total a) (fl (ac_balance a)))"
proof -
  define e where "e = fl (ac_balance a)"
  define b where "b = budget_of (ac_trading_budget_total a) e"
  have e: "0 \<le> e" "fl e = e" using assms(5) by (simp_all add: e_def)
  have b: "b \<le> e" "0 \<le> b" "fl b = b"
    using e assms(6) by (auto simp: b_def budget_of_def min_def representable_def)
  have a': "a' = settle_margins 0 0 None (Some 0) a" using assms(6-) calculate_flat [OF assms(1-4)] by simp
  then have none: "effective_available a' = 0"
    using e b by (simp add: settle_margins_def effective_available_def Let_def flip: e_def b_def)
  have same: "ac_balance a' = ac_balance a" "ac_leverage a' = ac_leverage a"
    "ac_trading_budget_total a' = ac_trading_budget_total a"
    by (simp_all add: a' settle_margins_def Let_def)
  have "effective_available (settle_margins 0 0 None None a') = b"
    using e b same b_def
    by (cases "ac_trading_budget_total a > 0")
      (simp_all add: settle_margins_def effective_available_def Let_def budget_of_def flip: e_def)
  then show ?thesis
    using none assms(4) calculate_flat [of ex a'] assms(1-3) same
    by (simp add: check_margin_def Let_def flip: e_def b_def)
qed

text \<open>An account with 1000 in its wallet, none of it available, passes an order that needs 400.\<close>

theorem exhausted_margin_recalculated_witness:
  "effective_available (fst (calculate demo_cache exposure_init None (Some 0) demo_account)) = 0 \<and>
   snd (check_margin demo_cache exposure_init 4000 (fst (calculate demo_cache exposure_init None (Some 0) demo_account))) = Inr True"
proof -
  define r where "r = calculate demo_cache exposure_init None (Some 0) demo_account"
  have flat: "ex_net_positions exposure_init = []" "ex_open_buy_qty exposure_init = []" "ex_open_sell_qty exposure_init = []"
    by (simp_all add: exposure_init_def)
  have demo: "ac_leverage demo_account = 10" "ac_balance demo_account = 1000" "ac_trading_budget_total demo_account = 500"
    by code_simp+
  have "r = (fst r, Inr ())" using calculate_flat [OF flat, of demo_account] demo by (simp add: r_def)
  from exhausted_margin_recalculated [OF flat _ _ _ this [unfolded r_def], of 4000] demo
  show ?thesis by (simp add: budget_of_def)
qed

end
