(* ===== verification/Message_Budget.thy ===== *)
theory Message_Budget
  imports Chronos_Prelude Op_System "HOL-Library.Sublist"
begin

text \<open>
  The sliding-window budget for outbound messages of \<open>oms/outbound_budget.py\<close> and the sequence
  validator of \<open>oms/sequence.py\<close>. The clock value and the fresh reservation id are arguments.
  The bounds are stated on a log of every reservation that was granted and not rolled back, which the
  code does not keep: the code keeps only the part of it that may still lie in a window.
\<close>

subsection \<open>State\<close>

type_synonym reservation_item = "rat \<times> string \<times> string"

record reservation =
  reservation_id :: string
  message_kind :: string
  reserved_at :: rat

definition NEW_ORDER :: string where "NEW_ORDER = ''NEW_ORDER''"
definition REDUCE_ORDER :: string where "REDUCE_ORDER = ''REDUCE_ORDER''"
definition CANCEL :: string where "CANCEL = ''CANCEL''"

lemmas kind_defs = NEW_ORDER_def REDUCE_ORDER_def CANCEL_def

definition MESSAGE_KINDS :: "string list" where
  "MESSAGE_KINDS = [NEW_ORDER, REDUCE_ORDER, CANCEL]"

record message_budget =
  mb_enabled :: bool
  mb_window_sec :: pyfloat
  mb_max_total :: int
  mb_max_new_orders :: int
  mb_max_reduce_orders :: int
  mb_max_cancels :: int
  mb_reserved_risk_messages :: int
  mb_reserved_cancel_messages :: int
  mb_history :: "reservation_item list"
  mb_last_observed_at :: rat

text \<open>\<open>max(0, int(config.get(key, default) or 0))\<close> and \<open>max(0.05, float(.. or 1.0))\<close>; \<open>max\<close> keeps
  its first argument when the second is not a number.\<close>

definition config_count :: "(string \<times> pyval) list \<Rightarrow> string \<Rightarrow> int \<Rightarrow> int res" where
  "config_count config key dflt =
     (let v = vget config key (PInt dflt) in
      bindE (int_of (if truthy v then v else PInt 0)) (\<lambda>n. Inr (max 0 n)))"

definition fmax :: "pyfloat \<Rightarrow> pyfloat \<Rightarrow> pyfloat" where
  "fmax x y = (if flt x y then y else x)"

definition config_window :: "(string \<times> pyval) list \<Rightarrow> pyfloat res" where
  "config_window config =
     (let v = vget config ''window_sec'' (PFloat (Fin 1)) in
      bindE (float_of (if truthy v then v else PFloat (Fin 1))) (\<lambda>w. Inr (fmax (Fin (fl (1 / 20))) w)))"

definition budget_limits :: "(string \<times> pyval) list \<Rightarrow> message_budget res" where
  "budget_limits config =
     bindE (config_window config) (\<lambda>window_sec.
     bindE (config_count config ''max_total_messages_per_window'' 20) (\<lambda>max_total.
     bindE (config_count config ''max_new_orders_per_window'' 10) (\<lambda>max_new_orders.
     bindE (config_count config ''max_reduce_orders_per_window'' 10) (\<lambda>max_reduce_orders.
     bindE (config_count config ''max_cancel_messages_per_window'' 20) (\<lambda>max_cancels.
     bindE (config_count config ''reserved_risk_messages_per_window'' 5) (\<lambda>configured_reserved.
     let reserved_risk = (if max_total > 0 then min configured_reserved max_total else configured_reserved);
         default_cancel_reserved =
           (if max_total > 0 \<and> configured_reserved > 0
            then min configured_reserved (max 1 (max_total div 4)) else configured_reserved)
     in
     bindE (config_count config ''reserved_cancel_messages_per_window'' default_cancel_reserved)
       (\<lambda>configured_cancel_reserved.
     Inr \<lparr>mb_enabled = truthy (vget config ''enabled'' (PBool False)), mb_window_sec = window_sec,
       mb_max_total = max_total, mb_max_new_orders = max_new_orders,
       mb_max_reduce_orders = max_reduce_orders, mb_max_cancels = max_cancels,
       mb_reserved_risk_messages = reserved_risk,
       mb_reserved_cancel_messages =
         (if max_total > 0 then min configured_cancel_reserved reserved_risk else configured_cancel_reserved),
       mb_history = [], mb_last_observed_at = 0\<rparr>)))))))"

definition budget_init :: "(string \<times> pyval) list \<Rightarrow> message_budget res" where
  "budget_init config = bindE (budget_limits config) (\<lambda>b.
     if \<not> mb_enabled b then Inr b
     else if mb_max_total b \<le> 0 then Inl (ValueError ''max_total_messages_per_window'')
     else if mb_reserved_cancel_messages b \<le> 0 then Inl (ValueError ''reserve at least one cancel'')
     else if mb_max_cancels b \<le> 0 then Inl (ValueError ''max_cancel_messages_per_window'')
     else if mb_max_cancels b < mb_reserved_cancel_messages b then Inl (ValueError ''must cover reserved_cancel'')
     else Inr b)"

subsection \<open>Operations\<close>

definition normalize_now :: "pyfloat \<Rightarrow> message_budget \<Rightarrow> (message_budget \<times> rat) res" where
  "normalize_now now b = (case now of
      Fin t \<Rightarrow>
        (if t < mb_last_observed_at b then Inl (ValueError ''time moved backwards'')
         else Inr (b\<lparr>mb_last_observed_at := t\<rparr>, t))
    | _ \<Rightarrow> Inl (ValueError ''time must be finite''))"

text \<open>\<open>now - window_sec\<close>; the window may be infinite.\<close>

fun fneg :: "pyfloat \<Rightarrow> pyfloat" where
  "fneg (Fin x) = Fin (- x)"
| "fneg PInf = NInf"
| "fneg NInf = PInf"
| "fneg NaN = NaN"

definition cutoff_at :: "pyfloat \<Rightarrow> rat \<Rightarrow> pyfloat" where
  "cutoff_at window now = fadd (Fin now) (fneg window)"

fun popleft_expired :: "pyfloat \<Rightarrow> reservation_item list \<Rightarrow> reservation_item list" where
  "popleft_expired cutoff [] = []"
| "popleft_expired cutoff (item # rest) =
     (if fle (Fin (fst item)) cutoff then popleft_expired cutoff rest else item # rest)"

definition prune :: "rat \<Rightarrow> message_budget \<Rightarrow> message_budget" where
  "prune now b = b\<lparr>mb_history := popleft_expired (cutoff_at (mb_window_sec b) now) (mb_history b)\<rparr>"

definition count_item :: "reservation_item \<Rightarrow> (string, int) dict \<Rightarrow> (string, int) dict" where
  "count_item item counts = (case dget counts (fst (snd item)) of
     None \<Rightarrow> counts | Some n \<Rightarrow> dset (fst (snd item)) (n + 1) counts)"

definition counts :: "message_budget \<Rightarrow> (string, int) dict" where
  "counts b = dset ''TOTAL'' (int (length (mb_history b)))
     (fold count_item (mb_history b) [(NEW_ORDER, 0), (REDUCE_ORDER, 0), (CANCEL, 0)])"

definition class_limits :: "message_budget \<Rightarrow> (string, int) dict" where
  "class_limits b = [(NEW_ORDER, mb_max_new_orders b), (REDUCE_ORDER, mb_max_reduce_orders b),
     (CANCEL, mb_max_cancels b)]"

definition opening_risk_ceiling :: "message_budget \<Rightarrow> int" where
  "opening_risk_ceiling b = max 0 (mb_max_total b - mb_reserved_risk_messages b)"

definition reduce_ceiling :: "message_budget \<Rightarrow> int" where
  "reduce_ceiling b = max 0 (mb_max_total b - mb_reserved_cancel_messages b)"

definition rejection_text :: "string \<Rightarrow> int \<Rightarrow> int \<Rightarrow> string" where
  "rejection_text what n limit =
     ''outbound_message_budget:'' @ what @ '':'' @ str_of_int n @ ''>='' @ str_of_int limit"

text \<open>The two rejections of \<open>reserve_token\<close>, tried in this order on the pruned history; the empty string
  is no rejection.\<close>

definition rejection :: "string \<Rightarrow> message_budget \<Rightarrow> string" where
  "rejection kind b =
     (let class_limit = dgetd (class_limits b) kind 0; n = dgetd (counts b) kind 0;
          total_count = dgetd (counts b) ''TOTAL'' 0
      in if class_limit > 0 \<and> n \<ge> class_limit then rejection_text (lower kind @ ''_limit'') n class_limit
         else if mb_max_total b > 0 then
           if kind = NEW_ORDER then
             if total_count \<ge> opening_risk_ceiling b
             then rejection_text ''risk_capacity_reserved'' total_count (opening_risk_ceiling b) else []
           else if kind = REDUCE_ORDER then
             if total_count \<ge> reduce_ceiling b
             then rejection_text ''cancel_capacity_reserved'' total_count (reduce_ceiling b) else []
           else if total_count \<ge> mb_max_total b
             then rejection_text ''total_limit'' total_count (mb_max_total b) else []
         else [])"

definition reserve_token ::
  "string \<Rightarrow> pyfloat \<Rightarrow> string \<Rightarrow> message_budget \<Rightarrow> message_budget \<times> (reservation option \<times> string) res" where
  "reserve_token kind now fresh b =
     (if \<not> mb_enabled b then (b, Inr (None, []))
      else if kind \<notin> set MESSAGE_KINDS then (b, Inl (ValueError ''unsupported_outbound_message_kind''))
      else case normalize_now now b of
          Inl e \<Rightarrow> (b, Inl e)
        | Inr (b1, observed_at) \<Rightarrow>
            let b2 = prune observed_at b1; why = rejection kind b2 in
            if why \<noteq> [] then (b2, Inr (None, why))
            else (b2\<lparr>mb_history := mb_history b2 @ [(observed_at, kind, fresh)]\<rparr>,
                  Inr (Some \<lparr>reservation_id = fresh, message_kind = kind, reserved_at = observed_at\<rparr>, [])))"

definition reserve :: "string \<Rightarrow> pyfloat \<Rightarrow> string \<Rightarrow> message_budget \<Rightarrow> message_budget \<times> string res" where
  "reserve kind now fresh b =
     (case reserve_token kind now fresh b of
        (b', Inl e) \<Rightarrow> (b', Inl e) | (b', Inr (_, why)) \<Rightarrow> (b', Inr why))"

text \<open>The loop of \<open>rollback\<close> over the reversed indices: the history without its last item that carries the
  id, or None when there is none.\<close>

fun del_first :: "string \<Rightarrow> reservation_item list \<Rightarrow> reservation_item list option" where
  "del_first i [] = None"
| "del_first i (item # rest) =
     (if snd (snd item) = i then Some rest
      else case del_first i rest of None \<Rightarrow> None | Some xs \<Rightarrow> Some (item # xs))"

definition del_last :: "string \<Rightarrow> reservation_item list \<Rightarrow> reservation_item list option" where
  "del_last i xs = map_option rev (del_first i (rev xs))"

definition rollback :: "reservation option \<Rightarrow> message_budget \<Rightarrow> message_budget \<times> bool" where
  "rollback r b = (case r of
      None \<Rightarrow> (b, False)
    | Some res \<Rightarrow>
        if \<not> mb_enabled b then (b, False)
        else case del_last (reservation_id res) (mb_history b) of
            None \<Rightarrow> (b, False)
          | Some h \<Rightarrow> (b\<lparr>mb_history := h\<rparr>, True))"

record budget_report =
  br_enabled :: bool
  br_window_sec :: pyfloat
  br_counts :: "(string, int) dict"
  br_total :: int
  br_new_orders :: int
  br_reduce_orders :: int
  br_cancels :: int
  br_reserved_risk_messages :: int
  br_reserved_cancel_messages :: int
  br_opening_risk_ceiling :: "int option"
  br_reduce_order_ceiling :: "int option"

definition budget_snapshot :: "pyfloat \<Rightarrow> message_budget \<Rightarrow> message_budget \<times> budget_report res" where
  "budget_snapshot now b = (case normalize_now now b of
      Inl e \<Rightarrow> (b, Inl e)
    | Inr (b1, observed_at) \<Rightarrow>
        let b2 = prune observed_at b1 in
        (b2, Inr \<lparr>br_enabled = mb_enabled b2, br_window_sec = mb_window_sec b2, br_counts = counts b2,
          br_total = mb_max_total b2, br_new_orders = mb_max_new_orders b2,
          br_reduce_orders = mb_max_reduce_orders b2, br_cancels = mb_max_cancels b2,
          br_reserved_risk_messages = mb_reserved_risk_messages b2,
          br_reserved_cancel_messages = mb_reserved_cancel_messages b2,
          br_opening_risk_ceiling = (if mb_max_total b2 > 0 then Some (opening_risk_ceiling b2) else None),
          br_reduce_order_ceiling = (if mb_max_total b2 > 0 then Some (reduce_ceiling b2) else None)\<rparr>))"

text \<open>\<open>oms/sequence.py\<close>: the validator of a strictly increasing sequence, with 0 for not started.\<close>

definition check_sequence :: "int \<Rightarrow> int \<Rightarrow> int \<times> bool" where
  "check_sequence incoming last_seq =
     (if last_seq = 0 then (incoming, True)
      else if incoming = last_seq + 1 then (incoming, True)
      else (last_seq, False))"

subsection \<open>Counting\<close>

definition n_kind :: "string \<Rightarrow> reservation_item list \<Rightarrow> int" where
  "n_kind k xs = int (length (filter (\<lambda>x. fst (snd x) = k) xs))"

lemma n_kind_simps [simp]:
  "n_kind k [] = 0" "n_kind k (x # xs) = (if fst (snd x) = k then 1 else 0) + n_kind k xs"
  "n_kind k (xs @ ys) = n_kind k xs + n_kind k ys"
  by (auto simp: n_kind_def)

lemma n_kind_nonneg: "0 \<le> n_kind k xs"
  by (simp add: n_kind_def)

lemma kind_distinct [simp]:
  "NEW_ORDER \<noteq> REDUCE_ORDER" "NEW_ORDER \<noteq> CANCEL" "REDUCE_ORDER \<noteq> CANCEL" "REDUCE_ORDER \<noteq> NEW_ORDER"
  "CANCEL \<noteq> NEW_ORDER" "CANCEL \<noteq> REDUCE_ORDER" "NEW_ORDER \<noteq> ''TOTAL''" "REDUCE_ORDER \<noteq> ''TOTAL''"
  "CANCEL \<noteq> ''TOTAL''"
  by (simp_all add: kind_defs)

lemma fold_count_item:
  "dget d k = Some n \<Longrightarrow> dget (fold count_item xs d) k = Some (n + n_kind k xs)"
  by (induction xs arbitrary: d n) (auto simp: count_item_def split: option.splits)

lemma counts_lookup:
  "k \<in> set MESSAGE_KINDS \<Longrightarrow> dgetd (counts b) k 0 = n_kind k (mb_history b)"
  "dgetd (counts b) ''TOTAL'' 0 = int (length (mb_history b))"
  by (auto simp: counts_def dgetd_def MESSAGE_KINDS_def fold_count_item)

lemma class_limits_lookup [simp]:
  "dgetd (class_limits b) NEW_ORDER 0 = mb_max_new_orders b"
  "dgetd (class_limits b) REDUCE_ORDER 0 = mb_max_reduce_orders b"
  "dgetd (class_limits b) CANCEL 0 = mb_max_cancels b"
  by (simp_all add: class_limits_def dgetd_def)

lemma total_kinds:
  assumes "\<forall>x \<in> set xs. fst (snd x) \<in> set MESSAGE_KINDS"
  shows "int (length xs) = n_kind NEW_ORDER xs + n_kind REDUCE_ORDER xs + n_kind CANCEL xs"
  using assms by (induction xs) (auto simp: MESSAGE_KINDS_def)

lemma n_kind_subseq: "subseq xs ys \<Longrightarrow> n_kind k xs \<le> n_kind k ys"
  unfolding n_kind_def by (intro of_nat_mono list_emb_length [of "(=)"] subseq_filter)

lemma rejection_text_nonempty [simp]: "rejection_text w n l \<noteq> []"
  by (simp add: rejection_text_def)

subsection \<open>What a window may hold\<close>

definition fits :: "message_budget \<Rightarrow> reservation_item list \<Rightarrow> bool" where
  "fits b xs \<longleftrightarrow> int (length xs) \<le> mb_max_total b \<and>
     (0 < mb_max_new_orders b \<longrightarrow> n_kind NEW_ORDER xs \<le> mb_max_new_orders b) \<and>
     (0 < mb_max_reduce_orders b \<longrightarrow> n_kind REDUCE_ORDER xs \<le> mb_max_reduce_orders b) \<and>
     n_kind CANCEL xs \<le> mb_max_cancels b \<and>
     n_kind NEW_ORDER xs \<le> opening_risk_ceiling b \<and>
     n_kind NEW_ORDER xs + n_kind REDUCE_ORDER xs \<le> reduce_ceiling b"

definition budget_config :: "message_budget \<Rightarrow> bool" where
  "budget_config b \<longleftrightarrow> mb_enabled b \<and> 0 < mb_max_total b \<and> 0 < mb_reserved_cancel_messages b \<and>
     mb_reserved_cancel_messages b \<le> mb_reserved_risk_messages b \<and>
     mb_reserved_risk_messages b \<le> mb_max_total b \<and> mb_reserved_cancel_messages b \<le> mb_max_cancels b \<and>
     (mb_window_sec b = PInf \<or> (\<exists>w. mb_window_sec b = Fin w \<and> 0 < w))"

lemma fits_subseq: "subseq xs ys \<Longrightarrow> fits b ys \<Longrightarrow> fits b xs"
  using n_kind_subseq [of xs ys NEW_ORDER] n_kind_subseq [of xs ys REDUCE_ORDER]
    n_kind_subseq [of xs ys CANCEL] list_emb_length [of "(=)" xs ys]
  by (auto simp: fits_def)

lemma fits_config:
  "mb_max_total b' = mb_max_total b \<Longrightarrow> mb_max_new_orders b' = mb_max_new_orders b \<Longrightarrow>
   mb_max_reduce_orders b' = mb_max_reduce_orders b \<Longrightarrow> mb_max_cancels b' = mb_max_cancels b \<Longrightarrow>
   mb_reserved_risk_messages b' = mb_reserved_risk_messages b \<Longrightarrow>
   mb_reserved_cancel_messages b' = mb_reserved_cancel_messages b \<Longrightarrow> fits b' = fits b"
  by (auto simp: fits_def opening_risk_ceiling_def reduce_ceiling_def fun_eq_iff)

lemma rejection_fits:
  assumes "budget_config b" "kind \<in> set MESSAGE_KINDS" "rejection kind b = []" "fits b (mb_history b)"
    and "\<forall>x \<in> set (mb_history b). fst (snd x) \<in> set MESSAGE_KINDS"
  shows "fits b (mb_history b @ [(t, kind, i)])"
proof -
  note pos = n_kind_nonneg [of NEW_ORDER "mb_history b"] n_kind_nonneg [of REDUCE_ORDER "mb_history b"]
    n_kind_nonneg [of CANCEL "mb_history b"]
  have "kind = NEW_ORDER \<or> kind = REDUCE_ORDER \<or> kind = CANCEL"
    using assms(2) by (auto simp: MESSAGE_KINDS_def)
  with assms total_kinds [OF assms(5)] pos show ?thesis
    by (auto simp: rejection_def Let_def counts_lookup fits_def budget_config_def
        opening_risk_ceiling_def reduce_ceiling_def split: if_splits)
qed

lemma cancel_accepted:
  assumes "budget_config b" "fits b (mb_history b)"
    and "\<forall>x \<in> set (mb_history b). fst (snd x) \<in> set MESSAGE_KINDS"
    and "n_kind CANCEL (mb_history b) < mb_reserved_cancel_messages b"
  shows "rejection CANCEL b = []"
proof -
  have "CANCEL \<in> set MESSAGE_KINDS" by (simp add: MESSAGE_KINDS_def)
  with assms total_kinds [OF assms(3)] n_kind_nonneg [of CANCEL "mb_history b"] show ?thesis
    by (auto simp: rejection_def Let_def counts_lookup fits_def budget_config_def
        reduce_ceiling_def)
qed

subsection \<open>The log of granted reservations\<close>

datatype budget_op =
    Reserve string pyfloat string
  | Rollback "reservation option"
  | Snapshot pyfloat

fun budget_step :: "budget_op \<Rightarrow> message_budget \<Rightarrow> message_budget" where
  "budget_step (Reserve kind now fresh) b = fst (reserve_token kind now fresh b)"
| "budget_step (Rollback r) b = fst (rollback r b)"
| "budget_step (Snapshot now) b = fst (budget_snapshot now b)"

fun log_step :: "budget_op \<Rightarrow> message_budget \<Rightarrow> reservation_item list \<Rightarrow> reservation_item list" where
  "log_step (Reserve kind now fresh) b gl =
     (case snd (reserve_token kind now fresh b) of
        Inr (Some r, _) \<Rightarrow> gl @ [(reserved_at r, message_kind r, reservation_id r)] | _ \<Rightarrow> gl)"
| "log_step (Rollback (Some r)) b gl =
     (if snd (rollback (Some r) b) then case del_last (reservation_id r) gl of None \<Rightarrow> gl | Some l \<Rightarrow> l else gl)"
| "log_step _ b gl = gl"

definition logged_step :: "budget_op \<Rightarrow> message_budget \<times> reservation_item list \<Rightarrow> message_budget \<times> reservation_item list" where
  "logged_step x s = (budget_step x (fst s), log_step x (fst s) (snd s))"

text \<open>The part of a log that lies in the window that ends at \<open>t\<close>.\<close>

definition in_window :: "pyfloat \<Rightarrow> rat \<Rightarrow> reservation_item list \<Rightarrow> reservation_item list" where
  "in_window w t gl = filter (\<lambda>x. fst x \<le> t \<and> \<not> fle (Fin (fst x)) (cutoff_at w t)) gl"

lemma del_first_subseq: "del_first i xs = Some ys \<Longrightarrow> subseq ys xs"
  by (induction xs arbitrary: ys) (auto split: if_splits option.splits)

lemma del_first_append: "del_first i xs = Some ys \<Longrightarrow> del_first i (xs @ zs) = Some (ys @ zs)"
  by (induction xs arbitrary: ys) (auto split: if_splits option.splits)

lemma subseq_revI: "subseq xs ys \<Longrightarrow> subseq (rev xs) (rev ys)"
  by (induction rule: list_emb.induct) (auto intro: subseq_rev_drop_many list_emb_append_mono)

lemma del_last_props:
  assumes "del_last i xs = Some ys"
  shows "subseq ys xs" "del_last i (zs @ xs) = Some (zs @ ys)"
proof -
  from assms obtain z where z: "del_first i (rev xs) = Some z" "ys = rev z"
    by (auto simp: del_last_def)
  from subseq_revI [OF del_first_subseq [OF z(1)]] show "subseq ys xs" using z(2) by simp
  from z show "del_last i (zs @ xs) = Some (zs @ ys)" by (simp add: del_last_def del_first_append)
qed

lemma popleft_filter:
  assumes "sorted (map fst xs)" "cutoff \<noteq> NaN"
  shows "popleft_expired cutoff xs = filter (\<lambda>x. \<not> fle (Fin (fst x)) cutoff) xs"
  using assms(1)
proof (induction xs)
  case (Cons x xs)
  have "filter (\<lambda>y. \<not> fle (Fin (fst y)) cutoff) xs = xs" if "\<not> fle (Fin (fst x)) cutoff"
    using Cons.prems that assms(2) by (cases cutoff) (auto intro!: filter_True)
  with Cons show ?case by auto
qed simp

lemma popleft_split:
  "\<exists>d. xs = d @ popleft_expired c xs \<and> (\<forall>x \<in> set d. fle (Fin (fst x)) c)"
proof (induction xs)
  case (Cons x xs)
  then obtain d where "xs = d @ popleft_expired c xs" "\<forall>x \<in> set d. fle (Fin (fst x)) c" by blast
  then have "x # xs = (x # d) @ popleft_expired c (x # xs) \<and> (\<forall>y \<in> set (x # d). fle (Fin (fst y)) c)"
    if "fle (Fin (fst x)) c" using that by simp
  moreover have "x # xs = [] @ popleft_expired c (x # xs)" if "\<not> fle (Fin (fst x)) c" using that by simp
  ultimately show ?case by (metis empty_iff empty_set)
qed simp

lemma cutoff_mono:
  assumes "w = PInf \<or> (\<exists>v. w = Fin v)" "t \<le> t'" "fle x (cutoff_at w t)"
  shows "fle x (cutoff_at w t')"
proof -
  have "fl (t - v) \<le> fl (t' - v)" for v using assms(2) by (intro fl_mono) simp
  note trans = order_trans [OF _ this]
  from assms show ?thesis by (cases x) (auto simp: cutoff_at_def intro: trans)
qed

lemma cutoff_not_nan: "w = PInf \<or> (\<exists>v. w = Fin v) \<Longrightarrow> cutoff_at w t \<noteq> NaN"
  by (auto simp: cutoff_at_def)

definition budget_inv :: "message_budget \<times> reservation_item list \<Rightarrow> bool" where
  "budget_inv s \<longleftrightarrow> (case s of (b, gl) \<Rightarrow> budget_config b \<and> sorted (map fst gl) \<and>
     (\<forall>x \<in> set gl. fst x \<le> mb_last_observed_at b \<and> fst (snd x) \<in> set MESSAGE_KINDS) \<and>
     (\<exists>pre. gl = pre @ mb_history b \<and>
        (\<forall>x \<in> set pre. fle (Fin (fst x)) (cutoff_at (mb_window_sec b) (mb_last_observed_at b)))) \<and>
     (\<forall>t. fits b (in_window (mb_window_sec b) t gl)))"

lemma budget_inv_D:
  assumes "budget_inv (b, gl)"
  shows "budget_config b" "mb_window_sec b = PInf \<or> (\<exists>v. mb_window_sec b = Fin v)"
  using assms by (auto simp: budget_inv_def budget_config_def)

lemma prune_frame:
  "\<exists>h. prune t b = b\<lparr>mb_history := h\<rparr>"
  by (auto simp: prune_def)

text \<open>After the clock has moved to \<open>t\<close> and the expired head is dropped, the history is the window that ends
  at \<open>t\<close>.\<close>

lemma pruned_is_window:
  assumes "budget_inv (b, gl)" "mb_last_observed_at b \<le> t"
  shows "mb_history (prune t (b\<lparr>mb_last_observed_at := t\<rparr>)) = in_window (mb_window_sec b) t gl"
    "budget_inv (prune t (b\<lparr>mb_last_observed_at := t\<rparr>), gl)"
proof -
  let ?c = "cutoff_at (mb_window_sec b) t"
  note w = budget_inv_D [OF assms(1)]
  obtain pre where gl: "gl = pre @ mb_history b"
    and pre: "\<forall>x \<in> set pre. fle (Fin (fst x)) (cutoff_at (mb_window_sec b) (mb_last_observed_at b))"
    using assms(1) by (auto simp: budget_inv_def)
  have pre': "\<forall>x \<in> set pre. fle (Fin (fst x)) ?c" using pre cutoff_mono [OF w(2) assms(2)] by blast
  have srt: "sorted (map fst gl)" and le: "\<forall>x \<in> set gl. fst x \<le> t"
    using assms by (auto simp: budget_inv_def)
  have h: "mb_history (prune t (b\<lparr>mb_last_observed_at := t\<rparr>)) =
      filter (\<lambda>x. \<not> fle (Fin (fst x)) ?c) (mb_history b)"
    using srt popleft_filter [OF _ cutoff_not_nan [OF w(2)], of "mb_history b" t]
    by (simp add: prune_def gl sorted_append)
  also have "\<dots> = in_window (mb_window_sec b) t gl"
    using le pre' by (auto simp: in_window_def gl intro: filter_cong)
  finally show hist: "mb_history (prune t (b\<lparr>mb_last_observed_at := t\<rparr>)) = in_window (mb_window_sec b) t gl" .
  obtain d where d: "mb_history b = d @ mb_history (prune t (b\<lparr>mb_last_observed_at := t\<rparr>))"
      "\<forall>x \<in> set d. fle (Fin (fst x)) ?c"
    using popleft_split [of "mb_history b" ?c] by (auto simp: prune_def)
  obtain h where p: "prune t (b\<lparr>mb_last_observed_at := t\<rparr>) = b\<lparr>mb_last_observed_at := t, mb_history := h\<rparr>"
    using prune_frame [of t "b\<lparr>mb_last_observed_at := t\<rparr>"] by auto
  have "gl = (pre @ d) @ h \<and> (\<forall>x \<in> set (pre @ d). fle (Fin (fst x)) ?c)"
    using gl d pre' p by auto
  moreover have "fits (b\<lparr>mb_last_observed_at := t, mb_history := h\<rparr>) xs = fits b xs" for xs
    by (simp add: fits_config [of "b\<lparr>mb_last_observed_at := t, mb_history := h\<rparr>" b])
  ultimately show "budget_inv (prune t (b\<lparr>mb_last_observed_at := t\<rparr>), gl)"
    using assms(1) le unfolding p by (auto simp: budget_inv_def budget_config_def)
qed

lemma filter_subseq_mono:
  "(\<And>x. x \<in> set xs \<Longrightarrow> Q x \<Longrightarrow> P x) \<Longrightarrow> subseq (filter Q xs) (filter P xs)"
  by (induction xs) auto

lemma subseq_sorted_fst: "subseq xs ys \<Longrightarrow> sorted (map fst ys) \<Longrightarrow> sorted (map fst xs)"
  by (induction rule: list_emb.induct) (auto dest: list_emb_set)

lemma grant_inv:
  assumes "budget_inv (b, gl)" "kind \<in> set MESSAGE_KINDS" "rejection kind b = []"
    and "mb_history b = in_window (mb_window_sec b) t gl" "mb_last_observed_at b = t"
  shows "budget_inv (b\<lparr>mb_history := mb_history b @ [(t, kind, i)]\<rparr>, gl @ [(t, kind, i)])"
proof -
  let ?w = "mb_window_sec b" and ?e = "(t, kind, i)"
  have cfg: "budget_config b" and w: "?w = PInf \<or> (\<exists>v. ?w = Fin v)" using budget_inv_D [OF assms(1)] by auto
  have le: "fst x \<le> t" "fst (snd x) \<in> set MESSAGE_KINDS" if "x \<in> set gl" for x
    using assms(1,5) that by (auto simp: budget_inv_def)
  have "\<forall>x \<in> set (mb_history b). fst (snd x) \<in> set MESSAGE_KINDS"
    using le by (simp add: assms(4) in_window_def)
  moreover have "fits b (mb_history b)" using assms(1,4) by (simp add: budget_inv_def)
  ultimately have fits: "fits b (mb_history b @ [?e])" using rejection_fits [OF cfg assms(2,3)] by blast
  have win: "fits b (in_window ?w t' (gl @ [?e]))" for t'
  proof (cases "t \<le> t'")
    case True
    have "subseq (in_window ?w t' gl) (in_window ?w t gl)"
      unfolding in_window_def using le cutoff_mono [OF w True] by (intro filter_subseq_mono) auto
    then have "subseq (in_window ?w t' (gl @ [?e])) (in_window ?w t gl @ [?e])"
      by (auto simp: in_window_def intro: subseq_rev_drop_many)
    with fits show ?thesis using assms(4) fits_subseq by simp
  next
    case False
    then show ?thesis using assms(1) by (simp add: in_window_def budget_inv_def)
  qed
  have "fits (b\<lparr>mb_history := h\<rparr>) xs = fits b xs" for h xs
    by (simp add: fits_config [of "b\<lparr>mb_history := h\<rparr>" b])
  with win show ?thesis using assms(1,2,5)
    by (auto simp: budget_inv_def budget_config_def sorted_append)
qed

lemma rollback_inv:
  assumes "budget_inv (b, gl)" "del_last i (mb_history b) = Some h"
  shows "\<exists>gl'. del_last i gl = Some gl' \<and> budget_inv (b\<lparr>mb_history := h\<rparr>, gl')"
proof -
  obtain pre where gl: "gl = pre @ mb_history b"
    and pre: "\<forall>x \<in> set pre. fle (Fin (fst x)) (cutoff_at (mb_window_sec b) (mb_last_observed_at b))"
    using assms(1) by (auto simp: budget_inv_def)
  have del: "del_last i gl = Some (pre @ h)" and sub: "subseq (pre @ h) gl"
    using del_last_props [OF assms(2)] by (auto simp: gl intro: list_emb_append_mono)
  have "fits b (in_window (mb_window_sec b) t (pre @ h))" for t
    using assms(1) fits_subseq [OF subseq_filter [OF sub]] by (simp add: budget_inv_def in_window_def)
  moreover have "set (pre @ h) \<subseteq> set gl" using sub by (auto dest: list_emb_set)
  moreover have "sorted (map fst (pre @ h))" using subseq_sorted_fst [OF sub] assms(1) by (simp add: budget_inv_def)
  moreover have "fits (b\<lparr>mb_history := h\<rparr>) xs = fits b xs" for xs
    by (simp add: fits_config [of "b\<lparr>mb_history := h\<rparr>" b])
  ultimately have "budget_inv (b\<lparr>mb_history := h\<rparr>, pre @ h)"
    using assms(1) pre by (auto simp: budget_inv_def budget_config_def)
  with del show ?thesis by blast
qed

lemma normalize_now_Inr:
  "normalize_now now b = Inr (b', t) \<Longrightarrow>
     now = Fin t \<and> mb_last_observed_at b \<le> t \<and> b' = b\<lparr>mb_last_observed_at := t\<rparr>"
  by (auto simp: normalize_now_def split: pyfloat.splits if_splits)

lemma budget_logged_inv:
  assumes "budget_inv (b, gl)"
  shows "budget_inv (logged_step x (b, gl))"
proof (cases x)
  case (Reserve kind now fresh)
  show ?thesis
  proof (cases "kind \<in> set MESSAGE_KINDS")
    case True
    show ?thesis
    proof (cases "normalize_now now b")
      case (Inr bt)
      then obtain t where now: "mb_last_observed_at b \<le> t" "bt = (b\<lparr>mb_last_observed_at := t\<rparr>, t)"
        using normalize_now_Inr by (metis surj_pair)
      let ?b2 = "prune t (b\<lparr>mb_last_observed_at := t\<rparr>)"
      have "mb_last_observed_at ?b2 = t" "mb_window_sec ?b2 = mb_window_sec b" by (auto simp: prune_def)
      with grant_inv [OF pruned_is_window(2) [OF assms now(1)] True, of t fresh]
        pruned_is_window [OF assms now(1)] True Inr now
      show ?thesis
        by (auto simp: Reserve logged_step_def reserve_token_def Let_def assms)
    qed (use assms True in \<open>simp add: Reserve logged_step_def reserve_token_def\<close>)
  qed (use assms in \<open>simp add: Reserve logged_step_def reserve_token_def\<close>)
next
  case (Rollback r)
  then show ?thesis using assms rollback_inv [OF assms]
    by (cases r) (fastforce simp: logged_step_def rollback_def split: option.splits)+
next
  case (Snapshot now)
  then show ?thesis using assms pruned_is_window(2) [OF assms]
    by (auto simp: logged_step_def budget_snapshot_def Let_def dest!: normalize_now_Inr split: sum.splits prod.splits)
qed

interpretation msg: invariant_system logged_step budget_inv
  by unfold_locales (metis budget_logged_inv surj_pair)

subsection \<open>Properties\<close>

lemma config_count_nonneg: "config_count c k d = Inr n \<Longrightarrow> 0 \<le> n"
  by (auto simp: config_count_def Let_def res_simps)

lemma config_window_pos:
  assumes "config_window c = Inr w" shows "w = PInf \<or> (\<exists>v. w = Fin v \<and> 0 < v)"
proof -
  have c: "0 < fl (1 / 20)" by (simp add: fl_pos)
  from assms obtain x where "w = fmax (Fin (fl (1 / 20))) x"
    by (auto simp: config_window_def Let_def res_simps)
  then show ?thesis using c by (cases x) (auto simp: fmax_def intro: less_trans [OF c])
qed

lemma budget_init_inv:
  assumes "budget_init config = Inr b" "mb_enabled b"
  shows "budget_inv (b, [])"
proof -
  have lim: "budget_limits config = Inr b" and c: "0 < mb_max_total b" "0 < mb_reserved_cancel_messages b"
      "mb_reserved_cancel_messages b \<le> mb_max_cancels b"
    using assms by (auto simp: budget_init_def res_simps split: if_splits)
  have "mb_history b = []" "mb_reserved_risk_messages b \<le> mb_max_total b"
      "mb_reserved_cancel_messages b \<le> mb_reserved_risk_messages b"
      "mb_window_sec b = PInf \<or> (\<exists>v. mb_window_sec b = Fin v \<and> 0 < v)"
    using lim c(1) by (auto simp: budget_limits_def Let_def res_simps dest!: config_window_pos)
  with assms(2) c show ?thesis
    by (auto simp: budget_inv_def budget_config_def in_window_def fits_def opening_risk_ceiling_def
        reduce_ceiling_def)
qed

lemma budget_reach:
  assumes "budget_init config = Inr b0" "mb_enabled b0" "(b, gl) = run_ops logged_step xs (b0, [])"
  shows "budget_inv (b, gl)"
  using msg.run_inv [OF budget_init_inv [OF assms(1,2)]] assms(3) by metis

text \<open>Claim C16: the budget bounds every window of the message stream. Over every sequence of reservations,
  rollbacks and snapshots, and for every moment \<open>t\<close> (not only the moments at which the code looks), the
  reservations granted and not rolled back in the window that ends at \<open>t\<close> respect the total and class
  limits, openings never enter the capacity reserved for risk messages and openings with reductions
  never enter the capacity reserved for cancels.\<close>

theorem message_window_bounds:
  assumes "budget_init config = Inr b0" "mb_enabled b0" "(b, gl) = run_ops logged_step xs (b0, [])"
    and "win = in_window (mb_window_sec b) t gl"
  shows "int (length win) \<le> mb_max_total b \<and>
    (mb_max_new_orders b \<le> 0 \<or> n_kind NEW_ORDER win \<le> mb_max_new_orders b) \<and>
    (mb_max_reduce_orders b \<le> 0 \<or> n_kind REDUCE_ORDER win \<le> mb_max_reduce_orders b) \<and>
    n_kind CANCEL win \<le> mb_max_cancels b \<and>
    n_kind NEW_ORDER win \<le> mb_max_total b - mb_reserved_risk_messages b \<and>
    n_kind NEW_ORDER win + n_kind REDUCE_ORDER win \<le> mb_max_total b - mb_reserved_cancel_messages b"
proof -
  have inv: "budget_inv (b, gl)" using assms(1-3) by (rule budget_reach)
  then have "fits b win" "budget_config b" using assms(4) by (auto simp: budget_inv_def)
  then show ?thesis
    by (auto simp: fits_def budget_config_def opening_risk_ceiling_def reduce_ceiling_def)
qed

definition demo_config :: "(string \<times> pyval) list" where
  "demo_config = [(''enabled'', PBool True), (''max_total_messages_per_window'', PInt 4),
     (''reserved_risk_messages_per_window'', PInt 2)]"

definition demo_budget :: message_budget where
  "demo_budget = \<lparr>mb_enabled = True, mb_window_sec = Fin 1, mb_max_total = 4, mb_max_new_orders = 10,
     mb_max_reduce_orders = 10, mb_max_cancels = 20, mb_reserved_risk_messages = 2,
     mb_reserved_cancel_messages = 1, mb_history = [], mb_last_observed_at = 0\<rparr>"

definition demo_msgs :: "budget_op list" where
  "demo_msgs = [Reserve NEW_ORDER (Fin 1) ''a'', Reserve NEW_ORDER (Fin 1) ''b'',
     Reserve NEW_ORDER (Fin 1) ''c'', Reserve REDUCE_ORDER (Fin 1) ''d'']"

lemma demo_init: "budget_init demo_config = Inr demo_budget" "mb_enabled demo_budget"
  by code_simp+

lemma demo_log:
  "snd (run_ops logged_step demo_msgs (demo_budget, [])) =
     [(1, NEW_ORDER, ''a''), (1, NEW_ORDER, ''b''), (1, REDUCE_ORDER, ''d'')]"
  by code_simp

theorem message_window_bounds_witness:
  "\<exists>b gl. (b, gl) = run_ops logged_step demo_msgs (demo_budget, []) \<and> length gl = 3 \<and>
     int (length (in_window (mb_window_sec b) 1 gl)) \<le> mb_max_total b"
proof -
  obtain b gl where r: "(b, gl) = run_ops logged_step demo_msgs (demo_budget, [])" by (metis surj_pair)
  then have "length gl = 3" using demo_log by (metis length_Cons list.size(3) numeral_3_eq_3 snd_conv)
  with message_window_bounds [OF demo_init r refl] r show ?thesis by blast
qed

text \<open>Claim C17: the cancel reserve is always available. In every reachable state, at every moment at which
  the clock has not moved backwards and fewer cancels than the reserve were granted in the window, a
  cancel is granted, however many other messages compete.\<close>

theorem cancel_reserve_available:
  assumes "budget_init config = Inr b0" "mb_enabled b0" "(b, gl) = run_ops logged_step xs (b0, [])"
    and "mb_last_observed_at b \<le> t"
    and "n_kind CANCEL (in_window (mb_window_sec b) t gl) < mb_reserved_cancel_messages b"
  shows "snd (reserve_token CANCEL (Fin t) fresh b) =
    Inr (Some \<lparr>reservation_id = fresh, message_kind = CANCEL, reserved_at = t\<rparr>, [])"
proof -
  let ?b2 = "prune t (b\<lparr>mb_last_observed_at := t\<rparr>)"
  have inv: "budget_inv (b, gl)" using assms(1-3) by (rule budget_reach)
  note p = pruned_is_window [OF inv assms(4)]
  have same: "mb_window_sec ?b2 = mb_window_sec b" "mb_reserved_cancel_messages ?b2 = mb_reserved_cancel_messages b"
    by (simp_all add: prune_def)
  have "budget_config ?b2" "fits ?b2 (mb_history ?b2)"
      "\<forall>x \<in> set (mb_history ?b2). fst (snd x) \<in> set MESSAGE_KINDS"
    using p by (auto simp: budget_inv_def same in_window_def)
  from cancel_accepted [OF this] have "rejection CANCEL ?b2 = []" using assms(5) p(1) same by simp
  moreover have "mb_enabled b" "CANCEL \<in> set MESSAGE_KINDS"
    using inv by (auto simp: budget_inv_def budget_config_def MESSAGE_KINDS_def)
  ultimately show ?thesis using assms(4) by (simp add: reserve_token_def normalize_now_def Let_def)
qed

theorem cancel_reserve_available_witness:
  "\<exists>r. snd (reserve_token CANCEL (Fin 1) ''x'' (fst (run_ops logged_step demo_msgs (demo_budget, [])))) =
     Inr (Some r, [])"
proof -
  obtain b gl where r: "(b, gl) = run_ops logged_step demo_msgs (demo_budget, [])" by (metis surj_pair)
  have "mb_last_observed_at (fst (run_ops logged_step demo_msgs (demo_budget, []))) \<le> 1 \<and>
    n_kind CANCEL (in_window (Fin 1) 1 (snd (run_ops logged_step demo_msgs (demo_budget, [])))) < 1 \<and>
    mb_window_sec (fst (run_ops logged_step demo_msgs (demo_budget, []))) = Fin 1 \<and>
    mb_reserved_cancel_messages (fst (run_ops logged_step demo_msgs (demo_budget, []))) = 1"
    by code_simp
  then have "mb_last_observed_at b \<le> 1"
      "n_kind CANCEL (in_window (mb_window_sec b) 1 gl) < mb_reserved_cancel_messages b"
    by (simp_all flip: r)
  from cancel_reserve_available [OF demo_init r this] show ?thesis by (simp flip: r)
qed

text \<open>What the code forgets cannot matter. The counts that a snapshot reports from the pruned
  deque are the counts over the complete log of granted reservations in the window.\<close>

theorem snapshot_counts_exact:
  assumes "budget_init config = Inr b0" "mb_enabled b0" "(b, gl) = run_ops logged_step xs (b0, [])"
    and "budget_snapshot (Fin t) b = (b', Inr rep)" "win = in_window (mb_window_sec b) t gl"
  shows "dgetd (br_counts rep) ''TOTAL'' 0 = int (length win) \<and>
    dgetd (br_counts rep) NEW_ORDER 0 = n_kind NEW_ORDER win \<and>
    dgetd (br_counts rep) REDUCE_ORDER 0 = n_kind REDUCE_ORDER win \<and>
    dgetd (br_counts rep) CANCEL 0 = n_kind CANCEL win \<and> mb_history b' = win"
proof -
  have inv: "budget_inv (b, gl)" using assms(1-3) by (rule budget_reach)
  have le: "mb_last_observed_at b \<le> t" and b': "b' = prune t (b\<lparr>mb_last_observed_at := t\<rparr>)"
    and rep: "br_counts rep = counts b'"
    using assms(4) by (auto simp: budget_snapshot_def Let_def dest!: normalize_now_Inr split: sum.splits prod.splits)
  have "mb_history b' = win" using pruned_is_window(1) [OF inv le] assms(5) b' by simp
  then show ?thesis by (simp add: rep counts_lookup MESSAGE_KINDS_def)
qed

theorem snapshot_counts_exact_witness:
  "\<exists>b gl b' rep. (b, gl) = run_ops logged_step demo_msgs (demo_budget, []) \<and>
     budget_snapshot (Fin (3 / 2)) b = (b', Inr rep) \<and>
     dgetd (br_counts rep) ''TOTAL'' 0 = int (length (in_window (mb_window_sec b) (3 / 2) gl))"
proof -
  obtain b gl where r: "(b, gl) = run_ops logged_step demo_msgs (demo_budget, [])" by (metis surj_pair)
  have "\<not> isl (snd (budget_snapshot (Fin (3 / 2)) (fst (run_ops logged_step demo_msgs (demo_budget, [])))))"
    by code_simp
  then have "\<not> isl (snd (budget_snapshot (Fin (3 / 2)) b))" by (simp flip: r)
  then obtain b' rep where s: "budget_snapshot (Fin (3 / 2)) b = (b', Inr rep)"
    by (metis prod.collapse sum.collapse(2))
  from snapshot_counts_exact [OF demo_init r s refl] r s show ?thesis by blast
qed

subsection \<open>The sequence validator\<close>

fun accepted :: "int list \<Rightarrow> int \<Rightarrow> int list" where
  "accepted [] l = []"
| "accepted (x # xs) l = (case check_sequence x l of (l', ok) \<Rightarrow> (if ok then [x] else []) @ accepted xs l')"

lemma accepted_consecutive:
  "0 < l \<Longrightarrow> accepted xs l = map (\<lambda>i. l + 1 + int i) [0..<length (accepted xs l)]"
proof (induction xs arbitrary: l)
  case (Cons x xs)
  show ?case
  proof (cases "x = l + 1")
    case True
    have "accepted xs (l + 1) = map (\<lambda>i. l + 1 + 1 + int i) [0..<length (accepted xs (l + 1))]"
      by (rule Cons.IH) (use Cons.prems in simp)
    moreover have "map (\<lambda>i. l + 1 + int i) [0..<Suc n] = (l + 1) # map (\<lambda>i. l + 1 + 1 + int i) [0..<n]" for n
      by (subst upt_conv_Cons, simp, subst map_Suc_upt [symmetric]) simp
    ultimately show ?thesis using True Cons.prems by (simp add: check_sequence_def del: upt_Suc)
  next
    case False
    with Cons show ?thesis by (simp add: check_sequence_def)
  qed
qed simp

end
