(* ===== verification/Order_Checks.thy ===== *)
theory Order_Checks
  imports OMS_State Account Message_Budget
begin

text \<open>
  The checks an order intent passes before it may be sent: \<open>OrderValidator\<close> of \<open>oms/validator.py\<close> and the
  rejections of \<open>OMSOrderPolicy\<close> in \<open>oms/order_policy.py\<close>. A check returns the reason of the refusal, the empty
  string when it passes; of a reason only the leading words are kept. What the checks read of other
  components (clock health, database health, heartbeat, dead-man switch, contract data) and each clock reading
  are arguments.
\<close>

subsection \<open>Validator\<close>

record validator =
  v_max_order_qty :: rat
  v_max_order_notional :: rat
  v_max_deviation_pct :: rat
  v_max_spread_pct :: rat
  v_max_orders_per_sec :: int
  v_max_reduce_orders_per_sec :: int
  v_freshness_enabled :: bool
  v_require_mark_price :: bool
  v_require_book :: bool
  v_max_mark_age_ms :: rat
  v_max_book_age_ms :: rat
  v_order_timestamps :: "rat list"
  v_reduce_order_timestamps :: "rat list"

text \<open>What the validator reads of a contract and of the cached market data.\<close>

record contract_info =
  ci_min_notional :: rat
  ci_supports_rpi :: bool

record risk_snapshot =
  rs_mark_price :: rat
  rs_mark_age_ms :: "rat option"
  rs_bid_price :: rat
  rs_ask_price :: rat
  rs_book_age_ms :: "rat option"

definition get_risk_snapshot :: "cache \<Rightarrow> rat \<Rightarrow> string \<Rightarrow> risk_snapshot" where
  "get_risk_snapshot ca now symbol =
     (let (bid, ask) = get_best_quote ca symbol in
      \<lparr>rs_mark_price = (case dget (ca_mark_prices ca) symbol of None \<Rightarrow> 0 | Some e \<Rightarrow> me_mark_price e),
       rs_mark_age_ms = age_ms now (dgetd (ca_mark_update_times ca) symbol 0),
       rs_bid_price = bid, rs_ask_price = ask,
       rs_book_age_ms = age_ms now (dgetd (ca_book_update_times ca) symbol 0)\<rparr>)"

text \<open>One source: its price is there when required, its age is known and not too old.\<close>

definition source_freshness :: "bool \<Rightarrow> bool \<Rightarrow> rat option \<Rightarrow> rat \<Rightarrow> string \<Rightarrow> string" where
  "source_freshness missing present age max_age source =
     (if missing then ''market_data_unavailable:'' @ source
      else if present \<and> age = None then ''market_data_timestamp_missing:'' @ source
      else if (case age of None \<Rightarrow> False | Some x \<Rightarrow> x < 0) then ''market_data_timestamp_invalid:'' @ source
      else if present \<and> max_age > 0 \<and> (case age of None \<Rightarrow> False | Some x \<Rightarrow> x > max_age)
      then ''market_data_stale:'' @ source
      else [])"

definition validate_market_data_freshness :: "risk_snapshot \<Rightarrow> validator \<Rightarrow> string" where
  "validate_market_data_freshness snap v =
     (let mark_present = rs_mark_price snap > 0;
          both = rs_bid_price snap > 0 \<and> rs_ask_price snap > 0;
          some_quote = rs_bid_price snap > 0 \<or> rs_ask_price snap > 0
      in str_or (source_freshness (v_require_mark_price v \<and> \<not> mark_present) mark_present (rs_mark_age_ms snap)
                   (v_max_mark_age_ms v) ''mark_price'')
           (source_freshness (v_require_book v \<and> \<not> both) some_quote (rs_book_age_ms snap)
              (v_max_book_age_ms v) ''book''))"

definition price_deviates :: "rat \<Rightarrow> rat \<Rightarrow> validator \<Rightarrow> bool" where
  "price_deviates price mark_price v \<longleftrightarrow>
     mark_price > 0 \<and> fl (\<bar>fl (price - mark_price)\<bar> / mark_price) > v_max_deviation_pct v"

definition spread_too_wide :: "rat \<Rightarrow> rat \<Rightarrow> validator \<Rightarrow> bool" where
  "spread_too_wide bid ask v \<longleftrightarrow>
     bid > 0 \<and> ask > 0 \<and> ask \<ge> bid \<and>
     (let mid_price = fl (fl (bid + ask) / 2) in mid_price > 0 \<and> fl (fl (ask - bid) / mid_price) > v_max_spread_pct v)"

text \<open>A sliding window of one second per channel.\<close>

definition check_rate_limit :: "bool \<Rightarrow> rat \<Rightarrow> validator \<Rightarrow> validator \<times> string" where
  "check_rate_limit reduce_only now v =
     (let cutoff = fl (now - 1);
          timestamps = dropWhile (\<lambda>t. t < cutoff) (if reduce_only then v_reduce_order_timestamps v else v_order_timestamps v);
          limit = (if reduce_only then v_max_reduce_orders_per_sec v else v_max_orders_per_sec v);
          store = (\<lambda>ts. if reduce_only then v\<lparr>v_reduce_order_timestamps := ts\<rparr> else v\<lparr>v_order_timestamps := ts\<rparr>)
      in if int (length timestamps) \<ge> limit then (store timestamps, ''rate_limit'')
         else (store (timestamps @ [now]), []))"

text \<open>The checks that do not touch the rate limiter, on a price and volume already known to be finite
  and positive.\<close>

definition validate_size :: "contract_info option \<Rightarrow> order_intent \<Rightarrow> rat \<Rightarrow> validator \<Rightarrow> string" where
  "validate_size info i notional v =
     (if (case info of None \<Rightarrow> False | Some c \<Rightarrow> notional < max (ci_min_notional c) 5) then ''notional_below_min''
      else if oi_volume i > v_max_order_qty v then ''qty_exceeded''
      else if \<not> oi_reduce_only i \<and> notional > v_max_order_notional v then ''notional_exceeded''
      else [])"

definition validate_market :: "cache \<Rightarrow> risk_snapshot \<Rightarrow> order_intent \<Rightarrow> validator \<Rightarrow> string" where
  "validate_market ca snap i v =
     (if oi_reduce_only i then []
      else
        let stale = (if v_freshness_enabled v then validate_market_data_freshness snap v else []);
            mark_price = (if rs_mark_price snap \<le> 0 \<and> \<not> v_freshness_enabled v then get_mark_price ca (oi_symbol i)
                          else rs_mark_price snap);
            (bid, ask) = (if \<not> v_freshness_enabled v \<and> (rs_bid_price snap \<le> 0 \<or> rs_ask_price snap \<le> 0)
                          then get_best_quote ca (oi_symbol i) else (rs_bid_price snap, rs_ask_price snap))
        in if stale \<noteq> [] then stale
           else if price_deviates (oi_price i) mark_price v then ''price_deviation''
           else if spread_too_wide bid ask v then ''spread_too_wide''
           else [])"

definition validate_form :: "contract_info option \<Rightarrow> order_intent \<Rightarrow> string" where
  "validate_form info i =
     (if oi_time_in_force i = ''RPI'' \<and> oi_order_type i \<noteq> ''LIMIT'' then ''rpi_requires_limit_order''
      else if oi_is_post_only i \<and> oi_order_type i \<noteq> ''LIMIT'' then ''post_only_requires_limit_order''
      else if oi_is_post_only i \<and> oi_time_in_force i \<notin> {''GTX'', ''RPI''} then ''post_only_incompatible_time_in_force''
      else if oi_time_in_force i = ''RPI'' \<and> info = None then ''rpi_capability_unknown''
      else if oi_time_in_force i = ''RPI'' \<and> \<not> (case info of None \<Rightarrow> False | Some c \<Rightarrow> ci_supports_rpi c)
      then ''rpi_unsupported_symbol''
      else [])"

text \<open>The price and volume arrive unchecked; the checked numbers are stored in the intent. \<open>now\<close> is the clock of
  the snapshot, \<open>rate_now\<close> that of the rate limiter.\<close>

definition validate_params ::
  "cache \<Rightarrow> contract_info option \<Rightarrow> rat \<Rightarrow> rat \<Rightarrow> pyval \<Rightarrow> pyval \<Rightarrow> order_intent \<Rightarrow> validator
   \<Rightarrow> validator \<times> order_intent \<times> string" where
  "validate_params ca info now rate_now price0 volume0 i v =
     (if validate_form info i \<noteq> [] then (v, i, validate_form info i)
      else case bindE (float_of price0) (\<lambda>p. bindE (float_of volume0) (\<lambda>q. Inr (p, q))) of
          Inl _ \<Rightarrow> (v, i, ''non_numeric_price_or_volume'')
        | Inr (Fin price, Fin volume) \<Rightarrow>
            if price \<le> 0 \<or> volume \<le> 0 then (v, i, ''non_positive_price_or_volume'')
            else
              let i1 = i\<lparr>oi_price := price, oi_volume := volume\<rparr>;
                  reason = str_or (validate_size info i1 (fl (price * volume)) v)
                    (validate_market ca (get_risk_snapshot ca now (oi_symbol i)) i1 v)
              in if reason \<noteq> [] then (v, i1, reason)
                 else let (v1, rate_reason) = check_rate_limit (oi_reduce_only i) rate_now v in (v1, i1, rate_reason)
        | Inr _ \<Rightarrow> (v, i, ''non_finite_price_or_volume''))"

subsection \<open>Policy configuration and sensors\<close>

record policy_config =
  pc_venue :: string
  pc_degraded_aggressive_to_passive :: bool
  pc_require_healthy_clock :: bool
  pc_venue_dead_man_switch_enabled :: bool
  pc_heartbeat_enabled :: bool
  pc_heartbeat_max_age_sec :: rat
  pc_margin_health_enabled :: bool
  pc_margin_health_require_snapshot :: bool
  pc_margin_snapshot_max_age_sec :: rat
  pc_margin_reduce_only_ratio :: rat
  pc_self_trade_prevention_enabled :: bool
  pc_local_self_cross_check_enabled :: bool
  pc_self_trade_prevention_mode :: string
  pc_duplicate_intent_window_sec :: rat
  pc_max_total_active_orders :: int
  pc_max_symbol_active_orders :: int
  pc_max_strategy_active_orders :: int
  pc_max_strategy_symbol_active_orders :: int
  pc_strategy_risk_budgets_enabled :: bool
  pc_require_explicit_strategy_budget :: bool
  pc_strategy_risk_budgets :: "(string, rat \<times> rat) dict"   \<comment> \<open>gross and per-symbol notional\<close>
  pc_max_pos_notional :: rat
  pc_max_account_gross_notional :: rat
  pc_max_concurrent_symbols :: int

text \<open>A health report is the class of the exception that reading it raised, or what it says.\<close>

record sensors =
  sn_clock :: "string + bool \<times> string \<times> string"       \<comment> \<open>ready, state, reason\<close>
  sn_database :: "(string + bool \<times> string) option"      \<comment> \<open>healthy, last error\<close>
  sn_dead_man_switch :: "bool \<times> string"
  sn_heartbeat_at :: rat
  sn_heartbeat_status :: string
  sn_heartbeat_reason :: string
  sn_heartbeat_now :: rat
  sn_margin_now :: rat
  sn_margin_wall :: rat
  sn_duplicate_now :: rat

subsection \<open>Rejections\<close>

definition get_paper_database_rejection :: "sensors \<Rightarrow> order_intent \<Rightarrow> string" where
  "get_paper_database_rejection sn i =
     (if oi_reduce_only i then []
      else case sn_database sn of
          None \<Rightarrow> []
        | Some (Inl exc) \<Rightarrow> ''paper_trade_database_health_unavailable:'' @ exc
        | Some (Inr (healthy, last_error)) \<Rightarrow>
            if healthy then [] else ''paper_trade_database_unhealthy:'' @ str_or last_error ''unhealthy'')"

definition get_clock_health_rejection :: "policy_config \<Rightarrow> sensors \<Rightarrow> order_intent \<Rightarrow> string" where
  "get_clock_health_rejection c sn i =
     (if oi_reduce_only i \<or> \<not> pc_require_healthy_clock c then []
      else case sn_clock sn of
          Inl exc \<Rightarrow> ''clock_health_unavailable:'' @ exc
        | Inr (ready, state, reason) \<Rightarrow>
            if ready then []
            else ''clock_health:'' @ str_or state ''unhealthy'' @ '':'' @ str_or reason ''unsynchronized'')"

definition get_venue_dead_man_switch_rejection :: "policy_config \<Rightarrow> sensors \<Rightarrow> order_intent \<Rightarrow> string" where
  "get_venue_dead_man_switch_rejection c sn i =
     (if oi_reduce_only i \<or> \<not> pc_venue_dead_man_switch_enabled c then []
      else if fst (sn_dead_man_switch sn) then []
      else ''venue_dead_man_switch:'' @ str_or (snd (sn_dead_man_switch sn)) ''unhealthy'')"

definition get_risk_control_heartbeat_rejection :: "policy_config \<Rightarrow> sensors \<Rightarrow> order_intent \<Rightarrow> string" where
  "get_risk_control_heartbeat_rejection c sn i =
     (if oi_reduce_only i \<or> \<not> pc_heartbeat_enabled c then []
      else if sn_heartbeat_at sn \<le> 0 then ''risk_control_heartbeat_missing''
      else if sn_heartbeat_status sn \<noteq> ''healthy''
      then ''risk_control_heartbeat_unhealthy:'' @ str_or (sn_heartbeat_reason sn) ''unhealthy''
      else if max 0 (fl (sn_heartbeat_now sn - sn_heartbeat_at sn)) > pc_heartbeat_max_age_sec c
      then ''risk_control_heartbeat_stale''
      else [])"

definition margin_snapshot_age :: "sensors \<Rightarrow> account \<Rightarrow> pyfloat" where
  "margin_snapshot_age sn a =
     (if flt (Fin 0) (ac_margin_snapshot_monotonic a)
      then fmax (Fin 0) (fadd (Fin (sn_margin_now sn)) (fneg (ac_margin_snapshot_monotonic a)))
      else if ac_margin_snapshot_time a \<noteq> Fin 0
      then fmax (Fin 0) (fadd (Fin (sn_margin_wall sn)) (fneg (ac_margin_snapshot_time a)))
      else PInf)"

definition get_margin_health_rejection :: "policy_config \<Rightarrow> sensors \<Rightarrow> account \<Rightarrow> order_intent \<Rightarrow> string" where
  "get_margin_health_rejection c sn a i =
     (if oi_reduce_only i \<or> \<not> pc_margin_health_enabled c then []
      else if \<not> ac_margin_snapshot_synced a
      then if pc_margin_health_require_snapshot c then ''margin_health_unavailable'' else []
      else if pc_margin_snapshot_max_age_sec c > 0 \<and>
              flt (Fin (pc_margin_snapshot_max_age_sec c)) (margin_snapshot_age sn a)
      then ''margin_health_stale''
      else if ac_maintenance_margin_ratio a = NaN \<or> flt (ac_maintenance_margin_ratio a) (Fin 0)
      then ''margin_health_invalid''
      else if fle (Fin (pc_margin_reduce_only_ratio c)) (ac_maintenance_margin_ratio a)
      then ''margin_health_reduce_only''
      else [])"

definition eps12 :: rat where "eps12 = fl (1 / 1000000000000)"

definition is_market :: "order_intent \<Rightarrow> bool" where
  "is_market i \<longleftrightarrow> upper (oi_order_type i) = ''MARKET''"

definition prices_cross :: "order_intent \<Rightarrow> order_intent \<Rightarrow> bool" where
  "prices_cross incoming resting \<longleftrightarrow>
     is_market incoming \<or> is_market resting \<or>
     (if oi_side incoming = BUY then oi_price incoming \<ge> oi_price resting else oi_price incoming \<le> oi_price resting)"

definition self_crosses :: "order_intent \<Rightarrow> order \<Rightarrow> bool" where
  "self_crosses i resting \<longleftrightarrow>
     is_active resting \<and> oi_symbol (o_intent resting) = oi_symbol i \<and> oi_side (o_intent resting) \<noteq> oi_side i \<and>
     \<not> fl (oi_volume (o_intent resting) - o_filled_volume resting) \<le> eps12 \<and>
     \<not> intent_is_rpi i \<and> \<not> intent_is_rpi (o_intent resting) \<and> prices_cross i (o_intent resting)"

definition get_self_trade_prevention_rejection :: "policy_config \<Rightarrow> order list \<Rightarrow> order_intent \<Rightarrow> string" where
  "get_self_trade_prevention_rejection c orders i =
     (if \<not> pc_self_trade_prevention_enabled c \<or> \<not> pc_local_self_cross_check_enabled c then []
      else case find (self_crosses i) orders of
          None \<Rightarrow> []
        | Some resting \<Rightarrow> ''self_trade_prevention:crossing_active_order:'' @ o_client_oid resting)"

definition duplicates :: "policy_config \<Rightarrow> sensors \<Rightarrow> order_intent \<Rightarrow> order \<Rightarrow> bool" where
  "duplicates c sn i ord \<longleftrightarrow>
     (let j = o_intent ord in
      is_active ord \<and> pc_duplicate_intent_window_sec c > 0 \<and>
      \<not> fl (sn_duplicate_now sn - o_created_monotonic ord) > pc_duplicate_intent_window_sec c \<and>
      oi_symbol j = oi_symbol i \<and> oi_strategy_id j = oi_strategy_id i \<and> oi_side j = oi_side i \<and>
      oi_order_type j = oi_order_type i \<and> oi_time_in_force j = oi_time_in_force i \<and>
      oi_is_post_only j = oi_is_post_only i \<and>
      \<not> \<bar>fl (oi_price j - oi_price i)\<bar> > eps9 \<and> \<not> \<bar>fl (oi_volume j - oi_volume i)\<bar> > eps9)"

definition active_count :: "(order_intent \<Rightarrow> bool) \<Rightarrow> order list \<Rightarrow> int" where
  "active_count P orders = int (length (filter (\<lambda>ord. is_active ord \<and> P (o_intent ord)) orders))"

definition over_limit :: "int \<Rightarrow> int \<Rightarrow> bool" where
  "over_limit n limit \<longleftrightarrow> limit > 0 \<and> n \<ge> limit"

definition get_active_order_rejection :: "policy_config \<Rightarrow> sensors \<Rightarrow> order list \<Rightarrow> order_intent \<Rightarrow> string" where
  "get_active_order_rejection c sn orders i =
     (let same_symbol = (\<lambda>j. oi_symbol j = oi_symbol i); same_strategy = (\<lambda>j. oi_strategy_id j = oi_strategy_id i) in
      if list_ex (duplicates c sn i) orders then ''duplicate_active_intent''
      else if over_limit (active_count (\<lambda>_. True) orders) (pc_max_total_active_orders c) then ''active_order_limit:total''
      else if over_limit (active_count same_symbol orders) (pc_max_symbol_active_orders c) then ''active_order_limit:symbol''
      else if over_limit (active_count same_strategy orders) (pc_max_strategy_active_orders c) then ''active_order_limit:strategy''
      else if over_limit (active_count (\<lambda>j. same_symbol j \<and> same_strategy j) orders) (pc_max_strategy_symbol_active_orders c)
      then ''active_order_limit:strategy_symbol''
      else [])"

text \<open>The first nonempty reason of a chain of checks.\<close>

definition first_reason :: "string list \<Rightarrow> string" where
  "first_reason reasons = (case find (\<lambda>r. r \<noteq> []) reasons of None \<Rightarrow> [] | Some r \<Rightarrow> r)"

lemma first_reason_Nil [simp]: "first_reason rs = [] \<longleftrightarrow> (\<forall>r\<in>set rs. r = [])"
  by (induction rs) (auto simp: first_reason_def)

definition get_submission_safety_reason ::
  "policy_config \<Rightarrow> sensors \<Rightarrow> account \<Rightarrow> order list \<Rightarrow> order_intent \<Rightarrow> string" where
  "get_submission_safety_reason c sn a orders i =
     first_reason [get_paper_database_rejection sn i, get_clock_health_rejection c sn i,
       get_venue_dead_man_switch_rejection c sn i, get_risk_control_heartbeat_rejection c sn i,
       get_margin_health_rejection c sn a i, get_self_trade_prevention_rejection c orders i,
       get_active_order_rejection c sn orders i]"

definition get_strategy_budget_rejection ::
  "(string list \<Rightarrow> string list) \<Rightarrow> cache \<Rightarrow> policy_config \<Rightarrow> exposure \<Rightarrow> order_intent \<Rightarrow> string" where
  "get_strategy_budget_rejection iter ca c ex i =
     (let strategy_id = strip (oi_strategy_id i) in
      if oi_reduce_only i \<or> \<not> pc_strategy_risk_budgets_enabled c then []
      else case dget (pc_strategy_risk_budgets c) strategy_id of
          None \<Rightarrow> if pc_require_explicit_strategy_budget c then ''strategy_budget_unconfigured'' else []
        | Some (max_gross, max_symbol) \<Rightarrow>
            let (ok, reason) = check_strategy_risk iter ca ex strategy_id (oi_symbol i) (oi_side i) (oi_volume i)
                  max_gross max_symbol (Fin (oi_price i))
            in if ok then [] else ''strategy_budget_limit:'' @ reason)"

end
