(* ===== verification/OMS_Safety.thy ===== *)
theory OMS_Safety
  imports OMS_State
begin

text \<open>
  The safety invariant of the OMS state and what follows from it: the fail-closed outbound gate and
  the exact permit counters. The locale \<open>oms_closed\<close> lifts any property that the elementary state
  changes keep to every handler, so each history property is proved on the elementary changes only.
\<close>

subsection \<open>Frame lemmas\<close>

lemma audit_frame [simp]:
  "s_stopped (fst (audit kind s)) = s_stopped s"
  "s_shutdown_requested (fst (audit kind s)) = s_shutdown_requested s"
  "s_shutdown_reason (fst (audit kind s)) = s_shutdown_reason s"
  "s_shutdown_cancel_verified (fst (audit kind s)) = s_shutdown_cancel_verified s"
  "s_state (fst (audit kind s)) = s_state s"
  "s_lifecycle_generation (fst (audit kind s)) = s_lifecycle_generation s"
  "s_manual_rearm_required (fst (audit kind s)) = s_manual_rearm_required s"
  "s_last_freeze_reason (fst (audit kind s)) = s_last_freeze_reason s"
  "s_last_halt_reason (fst (audit kind s)) = s_last_halt_reason s"
  "s_capability_mode (fst (audit kind s)) = s_capability_mode s"
  "s_capability_reason (fst (audit kind s)) = s_capability_reason s"
  "s_mode_override (fst (audit kind s)) = s_mode_override s"
  "s_mode_override_reason (fst (audit kind s)) = s_mode_override_reason s"
  "s_mode_constraints (fst (audit kind s)) = s_mode_constraints s"
  "s_mode_constraint_generations (fst (audit kind s)) = s_mode_constraint_generations s"
  "s_mode_constraint_generation (fst (audit kind s)) = s_mode_constraint_generation s"
  "s_gate_open (fst (audit kind s)) = s_gate_open s"
  "s_gate_epoch (fst (audit kind s)) = s_gate_epoch s"
  "s_gate_reason (fst (audit kind s)) = s_gate_reason s"
  "s_gate_holds (fst (audit kind s)) = s_gate_holds s"
  "s_all_order_seal_reason (fst (audit kind s)) = s_all_order_seal_reason s"
  "s_order_inflight (fst (audit kind s)) = s_order_inflight s"
  "s_risk_inflight (fst (audit kind s)) = s_risk_inflight s"
  "s_risk_by_symbol (fst (audit kind s)) = s_risk_by_symbol s"
  "s_settling (fst (audit kind s)) = s_settling s"
  "s_orders (fst (audit kind s)) = s_orders s"
  "s_symbol_guards (fst (audit kind s)) = s_symbol_guards s"
  "s_venue_guards (fst (audit kind s)) = s_venue_guards s"
  "s_cancel_symbols (fst (audit kind s)) = s_cancel_symbols s"
  "s_effects (fst (audit kind s)) = s_effects s"
  by (auto simp: audit_def split: list.splits)

lemma emit_frame [simp]:
  "s_stopped (emit es s) = s_stopped s"
  "s_shutdown_requested (emit es s) = s_shutdown_requested s"
  "s_shutdown_reason (emit es s) = s_shutdown_reason s"
  "s_shutdown_cancel_verified (emit es s) = s_shutdown_cancel_verified s"
  "s_state (emit es s) = s_state s"
  "s_lifecycle_generation (emit es s) = s_lifecycle_generation s"
  "s_manual_rearm_required (emit es s) = s_manual_rearm_required s"
  "s_last_freeze_reason (emit es s) = s_last_freeze_reason s"
  "s_last_halt_reason (emit es s) = s_last_halt_reason s"
  "s_capability_mode (emit es s) = s_capability_mode s"
  "s_capability_reason (emit es s) = s_capability_reason s"
  "s_mode_override (emit es s) = s_mode_override s"
  "s_mode_override_reason (emit es s) = s_mode_override_reason s"
  "s_mode_constraints (emit es s) = s_mode_constraints s"
  "s_mode_constraint_generations (emit es s) = s_mode_constraint_generations s"
  "s_mode_constraint_generation (emit es s) = s_mode_constraint_generation s"
  "s_gate_open (emit es s) = s_gate_open s"
  "s_gate_epoch (emit es s) = s_gate_epoch s"
  "s_gate_reason (emit es s) = s_gate_reason s"
  "s_gate_holds (emit es s) = s_gate_holds s"
  "s_all_order_seal_reason (emit es s) = s_all_order_seal_reason s"
  "s_order_inflight (emit es s) = s_order_inflight s"
  "s_risk_inflight (emit es s) = s_risk_inflight s"
  "s_risk_by_symbol (emit es s) = s_risk_by_symbol s"
  "s_settling (emit es s) = s_settling s"
  "s_orders (emit es s) = s_orders s"
  "s_symbol_guards (emit es s) = s_symbol_guards s"
  "s_venue_guards (emit es s) = s_venue_guards s"
  "s_cancel_symbols (emit es s) = s_cancel_symbols s"
  "s_audit_script (emit es s) = s_audit_script s"
  "s_audit_log (emit es s) = s_audit_log s"
  by (simp_all add: emit_def)

lemma close_gate_frame [simp]:
  "s_stopped (close_outbound_gate_locked reason hold s) = s_stopped s"
  "s_shutdown_requested (close_outbound_gate_locked reason hold s) = s_shutdown_requested s"
  "s_shutdown_reason (close_outbound_gate_locked reason hold s) = s_shutdown_reason s"
  "s_shutdown_cancel_verified (close_outbound_gate_locked reason hold s) = s_shutdown_cancel_verified s"
  "s_state (close_outbound_gate_locked reason hold s) = s_state s"
  "s_lifecycle_generation (close_outbound_gate_locked reason hold s) = s_lifecycle_generation s"
  "s_manual_rearm_required (close_outbound_gate_locked reason hold s) = s_manual_rearm_required s"
  "s_last_freeze_reason (close_outbound_gate_locked reason hold s) = s_last_freeze_reason s"
  "s_last_halt_reason (close_outbound_gate_locked reason hold s) = s_last_halt_reason s"
  "s_capability_mode (close_outbound_gate_locked reason hold s) = s_capability_mode s"
  "s_capability_reason (close_outbound_gate_locked reason hold s) = s_capability_reason s"
  "s_mode_override (close_outbound_gate_locked reason hold s) = s_mode_override s"
  "s_mode_override_reason (close_outbound_gate_locked reason hold s) = s_mode_override_reason s"
  "s_mode_constraints (close_outbound_gate_locked reason hold s) = s_mode_constraints s"
  "s_mode_constraint_generations (close_outbound_gate_locked reason hold s) = s_mode_constraint_generations s"
  "s_mode_constraint_generation (close_outbound_gate_locked reason hold s) = s_mode_constraint_generation s"
  "s_all_order_seal_reason (close_outbound_gate_locked reason hold s) = s_all_order_seal_reason s"
  "s_order_inflight (close_outbound_gate_locked reason hold s) = s_order_inflight s"
  "s_risk_inflight (close_outbound_gate_locked reason hold s) = s_risk_inflight s"
  "s_risk_by_symbol (close_outbound_gate_locked reason hold s) = s_risk_by_symbol s"
  "s_settling (close_outbound_gate_locked reason hold s) = s_settling s"
  "s_orders (close_outbound_gate_locked reason hold s) = s_orders s"
  "s_symbol_guards (close_outbound_gate_locked reason hold s) = s_symbol_guards s"
  "s_venue_guards (close_outbound_gate_locked reason hold s) = s_venue_guards s"
  "s_cancel_symbols (close_outbound_gate_locked reason hold s) = s_cancel_symbols s"
  "s_audit_script (close_outbound_gate_locked reason hold s) = s_audit_script s"
  "s_audit_log (close_outbound_gate_locked reason hold s) = s_audit_log s"
  "s_effects (close_outbound_gate_locked reason hold s) = s_effects s"
  by (simp_all add: close_outbound_gate_locked_def)

lemma refresh_gate_frame [simp]:
  "s_stopped (refresh_outbound_gate_locked reason s) = s_stopped s"
  "s_shutdown_requested (refresh_outbound_gate_locked reason s) = s_shutdown_requested s"
  "s_shutdown_reason (refresh_outbound_gate_locked reason s) = s_shutdown_reason s"
  "s_shutdown_cancel_verified (refresh_outbound_gate_locked reason s) = s_shutdown_cancel_verified s"
  "s_state (refresh_outbound_gate_locked reason s) = s_state s"
  "s_lifecycle_generation (refresh_outbound_gate_locked reason s) = s_lifecycle_generation s"
  "s_manual_rearm_required (refresh_outbound_gate_locked reason s) = s_manual_rearm_required s"
  "s_last_freeze_reason (refresh_outbound_gate_locked reason s) = s_last_freeze_reason s"
  "s_last_halt_reason (refresh_outbound_gate_locked reason s) = s_last_halt_reason s"
  "s_capability_mode (refresh_outbound_gate_locked reason s) = s_capability_mode s"
  "s_capability_reason (refresh_outbound_gate_locked reason s) = s_capability_reason s"
  "s_mode_override (refresh_outbound_gate_locked reason s) = s_mode_override s"
  "s_mode_override_reason (refresh_outbound_gate_locked reason s) = s_mode_override_reason s"
  "s_mode_constraints (refresh_outbound_gate_locked reason s) = s_mode_constraints s"
  "s_mode_constraint_generations (refresh_outbound_gate_locked reason s) = s_mode_constraint_generations s"
  "s_mode_constraint_generation (refresh_outbound_gate_locked reason s) = s_mode_constraint_generation s"
  "s_gate_holds (refresh_outbound_gate_locked reason s) = s_gate_holds s"
  "s_all_order_seal_reason (refresh_outbound_gate_locked reason s) = s_all_order_seal_reason s"
  "s_order_inflight (refresh_outbound_gate_locked reason s) = s_order_inflight s"
  "s_risk_inflight (refresh_outbound_gate_locked reason s) = s_risk_inflight s"
  "s_risk_by_symbol (refresh_outbound_gate_locked reason s) = s_risk_by_symbol s"
  "s_settling (refresh_outbound_gate_locked reason s) = s_settling s"
  "s_orders (refresh_outbound_gate_locked reason s) = s_orders s"
  "s_symbol_guards (refresh_outbound_gate_locked reason s) = s_symbol_guards s"
  "s_venue_guards (refresh_outbound_gate_locked reason s) = s_venue_guards s"
  "s_cancel_symbols (refresh_outbound_gate_locked reason s) = s_cancel_symbols s"
  "s_audit_script (refresh_outbound_gate_locked reason s) = s_audit_script s"
  "s_audit_log (refresh_outbound_gate_locked reason s) = s_audit_log s"
  "s_effects (refresh_outbound_gate_locked reason s) = s_effects s"
  by (simp_all add: refresh_outbound_gate_locked_def Let_def)

lemma sync_frame [simp]:
  "s_stopped (fst (sync_capability_mode reason s)) = s_stopped s"
  "s_shutdown_requested (fst (sync_capability_mode reason s)) = s_shutdown_requested s"
  "s_shutdown_reason (fst (sync_capability_mode reason s)) = s_shutdown_reason s"
  "s_shutdown_cancel_verified (fst (sync_capability_mode reason s)) = s_shutdown_cancel_verified s"
  "s_state (fst (sync_capability_mode reason s)) = s_state s"
  "s_lifecycle_generation (fst (sync_capability_mode reason s)) = s_lifecycle_generation s"
  "s_manual_rearm_required (fst (sync_capability_mode reason s)) = s_manual_rearm_required s"
  "s_last_freeze_reason (fst (sync_capability_mode reason s)) = s_last_freeze_reason s"
  "s_last_halt_reason (fst (sync_capability_mode reason s)) = s_last_halt_reason s"
  "s_mode_override (fst (sync_capability_mode reason s)) = s_mode_override s"
  "s_mode_override_reason (fst (sync_capability_mode reason s)) = s_mode_override_reason s"
  "s_mode_constraints (fst (sync_capability_mode reason s)) = s_mode_constraints s"
  "s_mode_constraint_generations (fst (sync_capability_mode reason s)) = s_mode_constraint_generations s"
  "s_mode_constraint_generation (fst (sync_capability_mode reason s)) = s_mode_constraint_generation s"
  "s_gate_holds (fst (sync_capability_mode reason s)) = s_gate_holds s"
  "s_all_order_seal_reason (fst (sync_capability_mode reason s)) = s_all_order_seal_reason s"
  "s_order_inflight (fst (sync_capability_mode reason s)) = s_order_inflight s"
  "s_risk_inflight (fst (sync_capability_mode reason s)) = s_risk_inflight s"
  "s_risk_by_symbol (fst (sync_capability_mode reason s)) = s_risk_by_symbol s"
  "s_settling (fst (sync_capability_mode reason s)) = s_settling s"
  "s_orders (fst (sync_capability_mode reason s)) = s_orders s"
  "s_symbol_guards (fst (sync_capability_mode reason s)) = s_symbol_guards s"
  "s_venue_guards (fst (sync_capability_mode reason s)) = s_venue_guards s"
  "s_cancel_symbols (fst (sync_capability_mode reason s)) = s_cancel_symbols s"
  by (simp_all add: sync_capability_mode_def Let_def)

lemma select_frame [simp]:
  "s_stopped (refresh_selected_mode_constraint s) = s_stopped s"
  "s_shutdown_requested (refresh_selected_mode_constraint s) = s_shutdown_requested s"
  "s_shutdown_reason (refresh_selected_mode_constraint s) = s_shutdown_reason s"
  "s_shutdown_cancel_verified (refresh_selected_mode_constraint s) = s_shutdown_cancel_verified s"
  "s_state (refresh_selected_mode_constraint s) = s_state s"
  "s_lifecycle_generation (refresh_selected_mode_constraint s) = s_lifecycle_generation s"
  "s_manual_rearm_required (refresh_selected_mode_constraint s) = s_manual_rearm_required s"
  "s_last_freeze_reason (refresh_selected_mode_constraint s) = s_last_freeze_reason s"
  "s_last_halt_reason (refresh_selected_mode_constraint s) = s_last_halt_reason s"
  "s_capability_mode (refresh_selected_mode_constraint s) = s_capability_mode s"
  "s_capability_reason (refresh_selected_mode_constraint s) = s_capability_reason s"
  "s_mode_constraints (refresh_selected_mode_constraint s) = s_mode_constraints s"
  "s_mode_constraint_generations (refresh_selected_mode_constraint s) = s_mode_constraint_generations s"
  "s_mode_constraint_generation (refresh_selected_mode_constraint s) = s_mode_constraint_generation s"
  "s_gate_open (refresh_selected_mode_constraint s) = s_gate_open s"
  "s_gate_epoch (refresh_selected_mode_constraint s) = s_gate_epoch s"
  "s_gate_reason (refresh_selected_mode_constraint s) = s_gate_reason s"
  "s_gate_holds (refresh_selected_mode_constraint s) = s_gate_holds s"
  "s_all_order_seal_reason (refresh_selected_mode_constraint s) = s_all_order_seal_reason s"
  "s_order_inflight (refresh_selected_mode_constraint s) = s_order_inflight s"
  "s_risk_inflight (refresh_selected_mode_constraint s) = s_risk_inflight s"
  "s_risk_by_symbol (refresh_selected_mode_constraint s) = s_risk_by_symbol s"
  "s_settling (refresh_selected_mode_constraint s) = s_settling s"
  "s_orders (refresh_selected_mode_constraint s) = s_orders s"
  "s_symbol_guards (refresh_selected_mode_constraint s) = s_symbol_guards s"
  "s_venue_guards (refresh_selected_mode_constraint s) = s_venue_guards s"
  "s_cancel_symbols (refresh_selected_mode_constraint s) = s_cancel_symbols s"
  "s_audit_script (refresh_selected_mode_constraint s) = s_audit_script s"
  "s_audit_log (refresh_selected_mode_constraint s) = s_audit_log s"
  "s_effects (refresh_selected_mode_constraint s) = s_effects s"
  by (auto simp: refresh_selected_mode_constraint_def Let_def split: list.splits)

subsection \<open>The invariant\<close>

definition override_modes :: "oms_capability_mode set" where
  "override_modes = {CM_DEGRADED, CM_PASSIVE_ONLY, CM_REDUCE_ONLY}"

definition base_inv :: "oms \<Rightarrow> bool" where
  "base_inv s \<longleftrightarrow>
     s_gate_open s = odd (s_gate_epoch s) \<and>
     (\<forall>c \<in> set (s_mode_constraints s). fst (snd c) \<in> override_modes) \<and>
     (\<forall>m. s_mode_override s = Some m \<longrightarrow> m \<in> override_modes) \<and>
     gt_wf (s_symbol_guards s) \<and> gt_wf (s_venue_guards s)"

definition oms_inv :: "oms \<Rightarrow> bool" where
  "oms_inv s \<longleftrightarrow> base_inv s \<and> (s_gate_open s \<longrightarrow> outbound_gate_should_open s) \<and>
     s_capability_mode s = effective_mode s"

lemma base_inv_frame [simp]:
  "base_inv (s\<lparr>s_stopped := x_stopped\<rparr>) = base_inv s"
  "base_inv (s\<lparr>s_shutdown_requested := x_shutdown_requested\<rparr>) = base_inv s"
  "base_inv (s\<lparr>s_shutdown_reason := x_shutdown_reason\<rparr>) = base_inv s"
  "base_inv (s\<lparr>s_shutdown_cancel_verified := x_shutdown_cancel_verified\<rparr>) = base_inv s"
  "base_inv (s\<lparr>s_state := x_state\<rparr>) = base_inv s"
  "base_inv (s\<lparr>s_lifecycle_generation := x_lifecycle_generation\<rparr>) = base_inv s"
  "base_inv (s\<lparr>s_manual_rearm_required := x_manual_rearm_required\<rparr>) = base_inv s"
  "base_inv (s\<lparr>s_last_freeze_reason := x_last_freeze_reason\<rparr>) = base_inv s"
  "base_inv (s\<lparr>s_last_halt_reason := x_last_halt_reason\<rparr>) = base_inv s"
  "base_inv (s\<lparr>s_capability_mode := x_capability_mode\<rparr>) = base_inv s"
  "base_inv (s\<lparr>s_capability_reason := x_capability_reason\<rparr>) = base_inv s"
  "base_inv (s\<lparr>s_mode_override_reason := x_mode_override_reason\<rparr>) = base_inv s"
  "base_inv (s\<lparr>s_mode_constraint_generations := x_mode_constraint_generations\<rparr>) = base_inv s"
  "base_inv (s\<lparr>s_mode_constraint_generation := x_mode_constraint_generation\<rparr>) = base_inv s"
  "base_inv (s\<lparr>s_gate_reason := x_gate_reason\<rparr>) = base_inv s"
  "base_inv (s\<lparr>s_gate_holds := x_gate_holds\<rparr>) = base_inv s"
  "base_inv (s\<lparr>s_all_order_seal_reason := x_all_order_seal_reason\<rparr>) = base_inv s"
  "base_inv (s\<lparr>s_order_inflight := x_order_inflight\<rparr>) = base_inv s"
  "base_inv (s\<lparr>s_risk_inflight := x_risk_inflight\<rparr>) = base_inv s"
  "base_inv (s\<lparr>s_risk_by_symbol := x_risk_by_symbol\<rparr>) = base_inv s"
  "base_inv (s\<lparr>s_settling := x_settling\<rparr>) = base_inv s"
  "base_inv (s\<lparr>s_orders := x_orders\<rparr>) = base_inv s"
  "base_inv (s\<lparr>s_cancel_symbols := x_cancel_symbols\<rparr>) = base_inv s"
  "base_inv (s\<lparr>s_audit_script := x_audit_script\<rparr>) = base_inv s"
  "base_inv (s\<lparr>s_audit_log := x_audit_log\<rparr>) = base_inv s"
  "base_inv (s\<lparr>s_effects := x_effects\<rparr>) = base_inv s"
  "base_inv (s\<lparr>s_strategy_guards := x_sg\<rparr>) = base_inv s"
  "base_inv (s\<lparr>s_strategy_symbol_guards := x_ssg\<rparr>) = base_inv s"
  "base_inv (s\<lparr>s_recovered_pending := x_rp\<rparr>) = base_inv s"
  "base_inv (s\<lparr>s_recovered_snapshot := x_rs\<rparr>) = base_inv s"
  "base_inv (s\<lparr>s_pending_reconcile := x_pr\<rparr>) = base_inv s"
  "base_inv (s\<lparr>s_max_pending_reconcile := x_mp\<rparr>) = base_inv s"
  "base_inv (s\<lparr>s_background_rejections := x_br\<rparr>) = base_inv s"
  by (simp_all add: base_inv_def)

lemma oms_inv_frame [simp]:
  "oms_inv (s\<lparr>s_shutdown_reason := x_shutdown_reason\<rparr>) = oms_inv s"
  "oms_inv (s\<lparr>s_shutdown_cancel_verified := x_shutdown_cancel_verified\<rparr>) = oms_inv s"
  "oms_inv (s\<lparr>s_lifecycle_generation := x_lifecycle_generation\<rparr>) = oms_inv s"
  "oms_inv (s\<lparr>s_manual_rearm_required := x_manual_rearm_required\<rparr>) = oms_inv s"
  "oms_inv (s\<lparr>s_last_freeze_reason := x_last_freeze_reason\<rparr>) = oms_inv s"
  "oms_inv (s\<lparr>s_last_halt_reason := x_last_halt_reason\<rparr>) = oms_inv s"
  "oms_inv (s\<lparr>s_capability_reason := x_capability_reason\<rparr>) = oms_inv s"
  "oms_inv (s\<lparr>s_mode_override_reason := x_mode_override_reason\<rparr>) = oms_inv s"
  "oms_inv (s\<lparr>s_mode_constraint_generations := x_mode_constraint_generations\<rparr>) = oms_inv s"
  "oms_inv (s\<lparr>s_mode_constraint_generation := x_mode_constraint_generation\<rparr>) = oms_inv s"
  "oms_inv (s\<lparr>s_gate_reason := x_gate_reason\<rparr>) = oms_inv s"
  "oms_inv (s\<lparr>s_all_order_seal_reason := x_all_order_seal_reason\<rparr>) = oms_inv s"
  "oms_inv (s\<lparr>s_order_inflight := x_order_inflight\<rparr>) = oms_inv s"
  "oms_inv (s\<lparr>s_risk_inflight := x_risk_inflight\<rparr>) = oms_inv s"
  "oms_inv (s\<lparr>s_risk_by_symbol := x_risk_by_symbol\<rparr>) = oms_inv s"
  "oms_inv (s\<lparr>s_settling := x_settling\<rparr>) = oms_inv s"
  "oms_inv (s\<lparr>s_orders := x_orders\<rparr>) = oms_inv s"
  "oms_inv (s\<lparr>s_cancel_symbols := x_cancel_symbols\<rparr>) = oms_inv s"
  "oms_inv (s\<lparr>s_audit_script := x_audit_script\<rparr>) = oms_inv s"
  "oms_inv (s\<lparr>s_audit_log := x_audit_log\<rparr>) = oms_inv s"
  "oms_inv (s\<lparr>s_effects := x_effects\<rparr>) = oms_inv s"
  "oms_inv (s\<lparr>s_strategy_guards := x_sg\<rparr>) = oms_inv s"
  "oms_inv (s\<lparr>s_strategy_symbol_guards := x_ssg\<rparr>) = oms_inv s"
  "oms_inv (s\<lparr>s_recovered_pending := x_rp\<rparr>) = oms_inv s"
  "oms_inv (s\<lparr>s_recovered_snapshot := x_rs\<rparr>) = oms_inv s"
  "oms_inv (s\<lparr>s_pending_reconcile := x_pr\<rparr>) = oms_inv s"
  "oms_inv (s\<lparr>s_max_pending_reconcile := x_mp\<rparr>) = oms_inv s"
  "oms_inv (s\<lparr>s_background_rejections := x_br\<rparr>) = oms_inv s"
  by (simp_all add: oms_inv_def outbound_gate_should_open_def effective_mode_def)

lemma inv_audit_emit [simp]:
  "base_inv (fst (audit kind s)) = base_inv s" "oms_inv (fst (audit kind s)) = oms_inv s"
  "base_inv (emit es s) = base_inv s" "oms_inv (emit es s) = oms_inv s"
  by (simp_all add: base_inv_def oms_inv_def outbound_gate_should_open_def effective_mode_def)

lemma oms_inv_base: "oms_inv s \<Longrightarrow> base_inv s"
  by (simp add: oms_inv_def)

lemma close_gate_inv:
  "base_inv s \<Longrightarrow> base_inv (close_outbound_gate_locked reason hold s)"
  "oms_inv s \<Longrightarrow> oms_inv (close_outbound_gate_locked reason hold s)"
  "\<not> s_gate_open (close_outbound_gate_locked reason hold s)"
  by (auto simp: close_outbound_gate_locked_def base_inv_def oms_inv_def effective_mode_def)

lemma close_gate_establishes:
  "base_inv s \<Longrightarrow> s_capability_mode s = effective_mode s \<Longrightarrow>
     oms_inv (close_outbound_gate_locked reason hold s)"
  by (auto simp: close_outbound_gate_locked_def base_inv_def oms_inv_def effective_mode_def)

lemma refresh_gate_inv:
  "base_inv s \<Longrightarrow> base_inv (refresh_outbound_gate_locked reason s)"
  "base_inv s \<Longrightarrow> s_capability_mode s = effective_mode s \<Longrightarrow>
     oms_inv (refresh_outbound_gate_locked reason s)"
  by (auto simp: refresh_outbound_gate_locked_def base_inv_def oms_inv_def Let_def
      outbound_gate_should_open_def effective_mode_def)

lemma effective_mode_cong:
  "s_state s' = s_state s \<Longrightarrow> s_mode_override s' = s_mode_override s \<Longrightarrow>
     effective_mode s' = effective_mode s"
  by (simp add: effective_mode_def)

lemma sync_inv: "base_inv s \<Longrightarrow> oms_inv (fst (sync_capability_mode reason s))"
  unfolding sync_capability_mode_def Let_def
  by (auto intro!: refresh_gate_inv(2) effective_mode_cong [symmetric])

lemma select_base_inv: "base_inv s \<Longrightarrow> base_inv (refresh_selected_mode_constraint s)"
proof -
  have mem: "fold (\<lambda>x b. if constraint_less b x then x else b) cs c \<in> insert c (set cs)" for cs c
    by (induction cs arbitrary: c) (auto split: if_splits)
  assume inv: "base_inv s"
  show ?thesis
  proof (cases "s_mode_constraints s")
    case Nil
    with inv show ?thesis by (simp add: base_inv_def refresh_selected_mode_constraint_def)
  next
    case (Cons c cs)
    have "fst (snd (fold (\<lambda>x b. if constraint_less b x then x else b) cs c)) \<in> override_modes"
      using inv mem [of cs c] Cons by (auto simp: base_inv_def)
    with inv Cons show ?thesis
      by (simp add: base_inv_def refresh_selected_mode_constraint_def Let_def)
  qed
qed

lemma latch_inv:
  assumes "base_inv s" shows "oms_inv (fst (latch_journal_failure_locked exc context symbol s))"
proof -
  have closed: "oms_inv s'" if "base_inv s'" "\<not> s_gate_open s'" "s_state s' = LS_HALTED"
    "s_capability_mode s' = CM_CANCEL_ONLY" for s'
    using that by (auto simp: oms_inv_def base_inv_def effective_mode_def capability_mode_for_state_def
        override_modes_def split: option.splits)
  have sym: "base_inv (s'\<lparr>s_symbol_guards := t\<rparr>)" if "base_inv s'" "gt_wf t" for s' t
    using that by (simp add: base_inv_def)
  have wf: "gt_wf (s_symbol_guards s)" using assms by (simp add: base_inv_def)
  show ?thesis unfolding latch_journal_failure_locked_def Let_def fst_conv
    by (intro closed)
       (auto simp: close_gate_inv assms wf intro!: sym gt_wf_ensure gt_wf_commit)
qed

lemma fail_closed_inv: "base_inv s \<Longrightarrow> oms_inv (fail_closed_on_journal_error exc context symbol s)"
  by (simp add: fail_closed_on_journal_error_def split_beta latch_inv)

lemma audit_after_simps:
  "base_inv (fst (audit_after k r)) = base_inv (fst r)" "oms_inv (fst (audit_after k r)) = oms_inv (fst r)"
  by (simp_all add: audit_after_def)

lemma afail_inv: "base_inv (fst r) \<Longrightarrow> (snd r \<Longrightarrow> oms_inv (k (fst r))) \<Longrightarrow> oms_inv (afail exc context r k)"
  by (simp add: afail_def fail_closed_inv)

lemmas inv_intros = sync_inv sync_inv [THEN oms_inv_base] select_base_inv fail_closed_inv
  refresh_gate_inv close_gate_inv(1,2) afail_inv gt_wf_ensure gt_wf_commit gt_wf_release

lemma base_inv_guards:
  "base_inv s \<Longrightarrow> gt_wf t \<Longrightarrow> base_inv (s\<lparr>s_symbol_guards := t\<rparr>)"
  "base_inv s \<Longrightarrow> gt_wf t \<Longrightarrow> base_inv (s\<lparr>s_venue_guards := t\<rparr>)"
  "base_inv s \<Longrightarrow> gt_wf (s_symbol_guards s)" "base_inv s \<Longrightarrow> gt_wf (s_venue_guards s)"
  by (simp_all add: base_inv_def)

lemma add_base_inv:
  "base_inv s \<Longrightarrow> mode \<in> override_modes \<Longrightarrow> base_inv (add_constraint key mode reason s)"
  by (auto simp: base_inv_def add_constraint_def Let_def dest: mem_dset)

lemma set_trading_mode_inv:
  assumes "oms_inv s" shows "oms_inv (fst (set_trading_mode exc mode reason s))"
proof (cases "mode \<in> override_modes")
  case True
  then have "base_inv (refresh_selected_mode_constraint (add_constraint (mode_constraint_key reason) mode reason s))"
    using assms by (intro select_base_inv add_base_inv oms_inv_base)
  then have synced: "oms_inv (fst (audit_after k (sync_capability_mode r (refresh_selected_mode_constraint
      (add_constraint (mode_constraint_key reason) mode reason s)))))" for k r
    by (simp add: audit_after_simps sync_inv)
  show ?thesis
    unfolding set_trading_mode_def Let_def if_distrib [of fst] if_distrib [of oms_inv] fst_conv
    using assms synced oms_inv_base [OF synced] by (simp only: inv_audit_emit fail_closed_inv if_cancel)
next
  case False
  with assms show ?thesis by (simp add: set_trading_mode_def override_modes_def)
qed

lemma mem_fold_ddel: "x \<in> set (fold ddel ks d) \<Longrightarrow> x \<in> set d"
  by (induction ks arbitrary: d) (auto dest: mem_ddel [THEN iffD1])

lemma mem_fold_restore:
  "x \<in> set (fold (\<lambda>k d. case dget old k of Some v \<Rightarrow> dset k v d | None \<Rightarrow> d) ks d) \<Longrightarrow>
     x \<in> set d \<or> x \<in> set old"
proof (induction ks arbitrary: d)
  case (Cons k ks)
  then have "x \<in> set (case dget old k of Some v \<Rightarrow> dset k v d | None \<Rightarrow> d) \<or> x \<in> set old" by simp
  then show ?case by (auto dest: mem_dset map_of_SomeD split: option.splits)
qed simp

lemma restore_base_inv:
  assumes "base_inv s" "base_inv old" shows "base_inv (restore_constraints keys old s)"
  using assms by (auto simp: base_inv_def restore_constraints_def dest!: mem_fold_restore)

lemma drop_base_inv: "base_inv s \<Longrightarrow> base_inv (drop_constraints keys s)"
  by (auto simp: base_inv_def drop_constraints_def dest!: mem_fold_ddel)

lemma clear_trading_mode_inv:
  assumes "oms_inv s" shows "oms_inv (fst (clear_trading_mode exc reason prefixes expected s))"
  using assms oms_inv_base [OF assms] unfolding clear_trading_mode_def Let_def
  by (simp add: audit_after_simps inv_intros drop_base_inv restore_base_inv)

lemma freeze_system_inv: "oms_inv s \<Longrightarrow> oms_inv (fst (freeze_system exc reason cancel s))"
  using oms_inv_base [of s] unfolding freeze_system_def Let_def by (simp add: inv_intros)

lemma halt_system_base: "base_inv s \<Longrightarrow> oms_inv (halt_system exc reason s)"
  unfolding halt_system_def Let_def by (rule afail_inv) (simp_all add: audit_after_simps inv_intros)

lemma rearm_begin_inv: "oms_inv s \<Longrightarrow> oms_inv (fst (rearm_begin exc reason s))"
  using oms_inv_base [of s] unfolding rearm_begin_def Let_def
  by (simp add: audit_after_simps inv_intros)

lemma latch_shutdown_inv: "oms_inv s \<Longrightarrow> oms_inv (latch_shutdown reason s)"
  unfolding latch_shutdown_def Let_def
  by (simp only: oms_inv_frame, rule close_gate_establishes) (auto simp: oms_inv_def effective_mode_def)

lemma begin_shutdown_inv: "oms_inv s \<Longrightarrow> oms_inv (fst (begin_shutdown exc reason s))"
  using oms_inv_base [OF latch_shutdown_inv [of s]] latch_shutdown_inv [of s]
  unfolding begin_shutdown_def Let_def by (simp add: inv_intros)

lemma stop_seal_inv: "oms_inv s \<Longrightarrow> oms_inv (stop_seal reason s)"
  unfolding stop_seal_def by (rule close_gate_establishes) (auto simp: oms_inv_def effective_mode_def)

lemma effective_mode_guards [simp]:
  "effective_mode (s\<lparr>s_symbol_guards := t\<rparr>) = effective_mode s"
  "effective_mode (s\<lparr>s_venue_guards := t\<rparr>) = effective_mode s"
  "effective_mode (fst (audit k s)) = effective_mode s"
  by (simp_all add: effective_mode_def)

lemma oms_inv_symbol_guards: "oms_inv s \<Longrightarrow> gt_wf t \<Longrightarrow> oms_inv (s\<lparr>s_symbol_guards := t\<rparr>)"
  by (auto simp: oms_inv_def base_inv_def outbound_gate_should_open_def)

lemma oms_inv_ensure_venue:
  "oms_inv s \<Longrightarrow> oms_inv (s\<lparr>s_venue_guards := ensure_records venue_guard_owner v (s_venue_guards s)\<rparr>)"
  by (auto simp: oms_inv_def base_inv_def outbound_gate_should_open_def gt_wf_ensure ensure_records_wf)

lemma oms_inv_gt_wf: "oms_inv s \<Longrightarrow> gt_wf (s_symbol_guards s)" "oms_inv s \<Longrightarrow> gt_wf (s_venue_guards s)"
  by (simp_all add: oms_inv_def base_inv_def)

lemma refresh_symbol_inv:
  "oms_inv s \<Longrightarrow> gt_wf t \<Longrightarrow>
     oms_inv (refresh_outbound_gate_locked reason ((fst (audit k (s\<lparr>s_symbol_guards := t0\<rparr>)))\<lparr>s_symbol_guards := t\<rparr>))"
  by (rule refresh_gate_inv(2)) (simp_all add: oms_inv_def base_inv_def effective_mode_def)

lemma refresh_venue_inv:
  "oms_inv s \<Longrightarrow> gt_wf t \<Longrightarrow>
     oms_inv (refresh_outbound_gate_locked reason ((fst (audit k (s\<lparr>s_venue_guards := t0\<rparr>)))\<lparr>s_venue_guards := t\<rparr>))"
  by (rule refresh_gate_inv(2)) (simp_all add: oms_inv_def base_inv_def effective_mode_def)

lemma freeze_symbol_locked_inv: "oms_inv s \<Longrightarrow> oms_inv (fst (freeze_symbol_locked symbol reason s))"
  unfolding freeze_symbol_locked_def Let_def
  by (simp add: refresh_symbol_inv oms_inv_symbol_guards oms_inv_gt_wf gt_wf_ensure gt_wf_commit)

lemma refresh_inv: "oms_inv s \<Longrightarrow> oms_inv (refresh_outbound_gate_locked reason s)"
  by (rule refresh_gate_inv(2)) (simp_all add: oms_inv_def)

lemma enforce_symbol_guard_inv: "oms_inv s \<Longrightarrow> oms_inv (enforce_symbol_guard exc symbol epoch cancel drained s)"
  unfolding enforce_symbol_guard_def Let_def
  by (rule refresh_inv) (simp add: halt_system_base oms_inv_base)

lemma freeze_symbol_inv: "oms_inv s \<Longrightarrow> oms_inv (fst (freeze_symbol exc symbol reason cancel drained s))"
  by (auto simp: freeze_symbol_def Let_def freeze_symbol_locked_inv enforce_symbol_guard_inv split: sum.splits)

lemma clear_symbol_freeze_inv: "oms_inv s \<Longrightarrow> oms_inv (fst (clear_symbol_freeze symbol reason ee er eo s))"
  unfolding clear_symbol_freeze_def Let_def
  by (simp add: refresh_symbol_inv oms_inv_symbol_guards oms_inv_gt_wf gt_wf_ensure gt_wf_release
      split: list.splits)

lemma freeze_venue_inv: "oms_inv s \<Longrightarrow> oms_inv (fst (freeze_venue exc venue reason cancel drained s))"
  unfolding freeze_venue_def Let_def
  by (simp add: refresh_venue_inv oms_inv_ensure_venue oms_inv_gt_wf gt_wf_ensure gt_wf_commit
      halt_system_base oms_inv_base)

lemma clear_venue_freeze_inv: "oms_inv s \<Longrightarrow> oms_inv (fst (clear_venue_freeze venue reason ee er eo s))"
  unfolding clear_venue_freeze_def Let_def
  by (simp add: refresh_venue_inv oms_inv_ensure_venue oms_inv_gt_wf gt_wf_ensure gt_wf_release
      split: list.splits)

lemma acquire_inv: "oms_inv (fst (acquire_outbound_order_send_permit_locked risk symbol em s)) = oms_inv s"
  by (simp add: acquire_outbound_order_send_permit_locked_def Let_def)

lemma release_inv: "oms_inv (release_outbound_order_send_permit risk symbol s) = oms_inv s"
  by (simp add: release_outbound_order_send_permit_def Let_def)

subsection \<open>Composite handlers keep the invariant\<close>

lemma clear_each_keeps:
  assumes "\<And>x s. P s \<Longrightarrow> P (fst (f x s))" "P s"
  shows "P (fst (clear_each f xs s))"
  using assms(2)
proof (induction xs arbitrary: s)
  case (Cons x xs)
  then have "P (fst (f x s))" using assms(1) by blast
  then have "P (fst (clear_each f xs (fst (f x s))))" by (rule Cons.IH)
  with \<open>P (fst (f x s))\<close> show ?case by (auto split: prod.splits sum.splits)
qed simp

lemma clear_snapshot_keeps:
  assumes sym: "\<And>sy r ee er ow s. P s \<Longrightarrow> P (fst (clear_symbol_freeze sy r ee er ow s))"
    and ven: "\<And>v r ee er ow s. P s \<Longrightarrow> P (fst (clear_venue_freeze v r ee er ow s))"
    and str: "\<And>st sy r s. P s \<Longrightarrow> P (fst (clear_strategy_freeze st sy r s))" and "P s"
  shows "P (fst (clear_guard_cleanup_snapshot snap reason s))"
proof -
  have 1: "P (fst (clear_each (\<lambda>(symbol, owner, guard_reason, epoch).
      clear_symbol_freeze symbol reason (Some epoch) guard_reason owner) xs s))" if "P s" for xs s
    using that by (rule clear_each_keeps [rotated]) (auto intro: sym)
  have 2: "P (fst (clear_each (\<lambda>(venue, guard_reason, epoch).
      clear_venue_freeze venue reason (Some epoch) (Some guard_reason) []) xs s))" if "P s" for xs s
    using that by (rule clear_each_keeps [rotated]) (auto intro: ven)
  have 3: "P (fst (clear_each (\<lambda>(strategy_id, guard_reason) st.
      if dgetd (s_strategy_guards st) strategy_id [] \<noteq> guard_reason then (st, Inr False)
      else clear_strategy_freeze strategy_id [] reason st) xs s))" if "P s" for xs s
    using that by (rule clear_each_keeps [rotated]) (auto intro: str)
  have 4: "P (fst (clear_each (\<lambda>(strategy_id, symbol, guard_reason) st.
      if dgetd (s_strategy_symbol_guards st) (strategy_id, symbol) [] \<noteq> guard_reason then (st, Inr False)
      else clear_strategy_freeze strategy_id symbol reason st) xs s))" if "P s" for xs s
    using that by (rule clear_each_keeps [rotated]) (auto intro: str)
  show ?thesis unfolding clear_guard_cleanup_snapshot_def Let_def
    using \<open>P s\<close> by (auto simp: 1 2 3 4 split: sum.split)
qed

lemma single_record_keeps:
  assumes "\<And>a b c. P (fst (f a b c))" "P (fst g)"
  shows "P (fst (case xs of [(a, (b, c))] \<Rightarrow> f a b c | _ \<Rightarrow> g))"
  using assms by (simp split: list.split prod.split)

lemma if_keeps: "P (fst x) \<Longrightarrow> P (fst y) \<Longrightarrow> P (fst (if b then x else y))"
  by simp

lemma strategy_inv:
  "oms_inv s \<Longrightarrow> oms_inv (fst (freeze_strategy st r sy c s))"
  "oms_inv s \<Longrightarrow> oms_inv (fst (clear_strategy_freeze st sy r s))"
  by (simp_all add: freeze_strategy_def clear_strategy_freeze_def Let_def refresh_inv)

lemma cleanup_inv: "oms_inv s \<Longrightarrow> oms_inv (fst (clear_guard_cleanup_snapshot snap reason s))"
  by (rule clear_snapshot_keeps) (auto intro: clear_symbol_freeze_inv clear_venue_freeze_inv strategy_inv)

lemma gt_wf_fold_ensure: "gt_wf t \<Longrightarrow> gt_wf (fold (ensure_records ow) ks t)"
  by (induction ks arbitrary: t) (auto simp: gt_wf_ensure)

lemma capture_inv: "oms_inv s \<Longrightarrow> oms_inv (fst (capture_guard_cleanup_snapshot prefixes s))"
  by (simp add: capture_guard_cleanup_snapshot_def Let_def oms_inv_symbol_guards gt_wf_fold_ensure oms_inv_gt_wf)

lemma transient_inv: "oms_inv s \<Longrightarrow> oms_inv (fst (clear_transient_guards ps sn s))"
  by (simp add: clear_transient_guards_def Let_def cleanup_inv capture_inv split: option.splits)

lemma recovered_inv: "oms_inv s \<Longrightarrow> oms_inv (fst (clear_recovered_guards_if_pending r s))"
  using cleanup_inv [of s] by (simp add: clear_recovered_guards_if_pending_def Let_def split: sum.splits)

lemma full_reset_resume_inv: "oms_inv s \<Longrightarrow> oms_inv (fst (full_reset_resume es eg sn s))"
  using oms_inv_base [of s] unfolding full_reset_resume_def Let_def
  by (simp add: audit_after_simps inv_intros transient_inv recovered_inv split: sum.splits)

lemma full_reset_commit_inv: "oms_inv s \<Longrightarrow> oms_inv (full_reset_commit exc es eg sn s)"
  unfolding full_reset_commit_def Let_def
  using full_reset_resume_inv [of s es eg sn] by (simp add: halt_system_base oms_inv_base)

lemma rearm_finish_inv: "oms_inv s \<Longrightarrow> oms_inv (fst (rearm_finish exc s))"
  by (simp add: rearm_finish_def Let_def fail_closed_inv oms_inv_base)

lemma background_inv: "oms_inv s \<Longrightarrow> oms_inv (fst (latch_background_task_failure k r s))"
  using oms_inv_base [of s] unfolding latch_background_task_failure_def Let_def by (simp add: inv_intros)

lemma schedule_inv: "oms_inv s \<Longrightarrow> oms_inv (fst (schedule_pending_reconcile_requests sub s))"
  by (simp add: schedule_pending_reconcile_requests_def Let_def background_inv split: option.splits)

lemma queue_inv: "oms_inv s \<Longrightarrow> oms_inv (fst (queue_reconcile_request r oid sub s))"
  using oms_inv_base [of s] unfolding queue_reconcile_request_def Let_def
  by (simp add: inv_intros background_inv schedule_inv)

lemma quarantine_inv: "oms_inv s \<Longrightarrow> oms_inv (fst (quarantine k r rq oid sub s))"
  using oms_inv_base [of s] unfolding quarantine_def Let_def
  by (simp add: audit_after_simps inv_intros queue_inv)

lemma submit_fence_inv: "oms_inv s \<Longrightarrow> oms_inv (close_gate_after_submit_settlement_failure clk oid c e s)"
  using oms_inv_base [of s] unfolding close_gate_after_submit_settlement_failure_def Let_def
  by (simp add: inv_intros split: option.splits)

lemma reconcile_start_inv: "oms_inv s \<Longrightarrow> oms_inv (fst (reconcile_start r su s))"
  using oms_inv_base [of s] unfolding reconcile_start_def Let_def by (simp add: audit_after_simps inv_intros)

lemma reconcile_publish_inv: "oms_inv s \<Longrightarrow> oms_inv (fst (reconcile_publish sub g s))"
  using oms_inv_base [OF background_inv [of s]] unfolding reconcile_publish_def Let_def
  by (simp add: inv_intros background_inv split: option.splits sum.splits)

lemma trigger_reconcile_inv: "oms_inv s \<Longrightarrow> oms_inv (fst (trigger_reconcile e r su sub s))"
  unfolding trigger_reconcile_def Let_def
  by (simp add: freeze_system_inv reconcile_start_inv reconcile_publish_inv split: sum.splits option.splits)

lemma reconcile_resume_inv: "oms_inv s \<Longrightarrow> oms_inv (reconcile_resume exc g s)"
  using oms_inv_base [of s] unfolding reconcile_resume_def Let_def
  by (simp add: inv_intros recovered_inv halt_system_base oms_inv_base split: sum.splits)

lemma complete_venue_inv: "oms_inv s \<Longrightarrow> oms_inv (fst (complete_venue_recovery_verification v ee eo er s))"
  using oms_inv_base [OF oms_inv_ensure_venue [of s]] unfolding complete_venue_recovery_verification_def Let_def
  by (simp add: audit_after_simps inv_intros clear_venue_freeze_inv oms_inv_ensure_venue split: sum.splits bool.splits)

lemma request_venue_inv:
  "oms_inv s \<Longrightarrow> oms_inv (fst (request_venue_recovery_verification e v r eo ee er su sub s))"
  unfolding request_venue_recovery_verification_def Let_def
  by (rule if_keeps, simp, rule single_record_keeps)
     (simp_all add: trigger_reconcile_inv oms_inv_ensure_venue)

lemma bootstrap_inv:
  assumes "oms_inv s"
  shows "oms_inv (fst (bootstrap_request s))" "oms_inv (fst (bootstrap_blocked e a s))"
    "oms_inv (fst (bootstrap_guarded e a su sub s))"
  using assms oms_inv_base [OF assms]
  by (simp_all add: bootstrap_request_def bootstrap_blocked_def bootstrap_guarded_def Let_def audit_after_simps
      inv_intros halt_system_base trigger_reconcile_inv)

lemma orders_inv: "oms_inv s \<Longrightarrow> oms_inv (s\<lparr>s_orders := x, s_settling := y\<rparr>)"
  by simp

lemma clear_orderbook_inv: "oms_inv s \<Longrightarrow> oms_inv (fst (clear_orderbook_freeze sy tok r s))"
  unfolding clear_orderbook_freeze_def Let_def
  by (simp add: clear_symbol_freeze_inv oms_inv_symbol_guards gt_wf_ensure oms_inv_gt_wf split: list.splits)

lemma oms_handler_inv: "oms_inv s \<Longrightarrow> oms_inv (oms_handler x s)"
  by (cases x) (simp_all add: close_outbound_gate_def Let_def close_gate_inv set_trading_mode_inv
      clear_trading_mode_inv freeze_system_inv halt_system_base full_reset_commit_inv rearm_begin_inv
      begin_shutdown_inv stop_seal_inv freeze_symbol_inv clear_symbol_freeze_inv freeze_venue_inv
      clear_venue_freeze_inv fail_closed_inv oms_inv_base ensure_capability_mode_consistent_def sync_inv
      full_reset_begin_def capture_inv rearm_finish_inv clear_orderbook_inv strategy_inv transient_inv
      background_inv quarantine_invalid_account_update_def quarantine_execution_gap_def
      quarantine_invalid_order_update_def quarantine_inv submit_fence_inv reconcile_start_inv
      reconcile_publish_inv trigger_reconcile_inv reconcile_resume_inv complete_venue_inv
      request_venue_inv bootstrap_inv orders_inv)

interpretation oms_gate: invariant_system oms_step "\<lambda>(s, held). oms_inv s"
proof
  fix x and sys :: oms_sys
  assume "case sys of (s, held) \<Rightarrow> oms_inv s"
  then show "case oms_step x sys of (s, held) \<Rightarrow> oms_inv s"
    using oms_handler_inv [of "fst sys" x] acquire_inv release_inv
    by (cases x; cases sys) (auto split: sum.splits prod.splits, (metis fst_conv)+)
qed

lemma oms_init_inv [simp]: "oms_inv (oms_init symbols script)"
  by (simp add: oms_inv_def base_inv_def oms_init_def effective_mode_def capability_mode_for_state_def)

text \<open>Claim C3: the outbound gate is fail-closed. In every state the OMS can reach, over any interleaving
  of its locked sections and handlers and any pattern of journal failures, an open gate means that
  the OMS is LIVE, not stopped, not shutting down, no venue is frozen, no hold is set, and the
  capability mode allows new risk.\<close>

theorem open_gate_safe:
  assumes "run_ops oms_step xs (oms_init symbols script, []) = (s, held)" "s_gate_open s"
  shows "\<not> s_stopped s \<and> \<not> s_shutdown_requested s \<and> s_state s = LS_LIVE \<and>
    (\<forall>v. \<not> is_frozen (s_venue_guards s) v) \<and> s_gate_holds s = {} \<and>
    s_capability_mode s \<in> {CM_LIVE, CM_DEGRADED, CM_PASSIVE_ONLY}"
proof -
  have "case run_ops oms_step xs (oms_init symbols script, []) of (s, held) \<Rightarrow> oms_inv s"
    by (rule oms_gate.run_inv) simp
  with assms show ?thesis
    by (auto simp: oms_inv_def outbound_gate_should_open_def trading_mode_def is_frozen_def)
qed

lemma demo_live_run:
  "run_ops oms_step [Full_reset_commit [] LS_BOOTSTRAP 0 empty_snapshot, Acquire_permit True ''BTCUSDT'' False]
     (oms_init [] [], []) =
   ((oms_init [] [])\<lparr>s_state := LS_LIVE, s_lifecycle_generation := 1, s_capability_mode := CM_LIVE,
      s_capability_reason := ''full_reset_completed'', s_gate_open := True, s_gate_epoch := 1,
      s_gate_reason := [], s_order_inflight := 1, s_risk_inflight := 1,
      s_risk_by_symbol := [(''BTCUSDT'', 1)],
      s_audit_log := [''capability_mode_changed'', ''full_reset_completed'']\<rparr>, [(True, ''BTCUSDT'')])"
  by code_simp

theorem open_gate_safe_witness:
  "\<exists>s held. run_ops oms_step [Full_reset_commit [] LS_BOOTSTRAP 0 empty_snapshot, Acquire_permit True ''BTCUSDT'' False]
     (oms_init [] [], []) = (s, held) \<and> s_gate_open s \<and> s_state s = LS_LIVE"
  unfolding demo_live_run
  using open_gate_safe [OF demo_live_run] by (intro exI conjI) (rule refl, simp_all)

subsection \<open>Properties closed under the elementary state changes\<close>

text \<open>What the history properties look at; the rest of the state does not concern them.\<close>

definition core :: "oms \<Rightarrow> _" where
  "core s = (s_stopped s, s_shutdown_requested s, s_state s, s_lifecycle_generation s, s_mode_override s,
     s_mode_constraints s, s_gate_epoch s, s_gate_holds s, s_all_order_seal_reason s, s_order_inflight s,
     s_risk_inflight s, s_risk_by_symbol s, s_symbol_guards s)"

lemma emit_Nil [simp]: "emit [] s = s"
  by (simp add: emit_def)

lemma emit_branches:
  "(if b then x else if c then emit es s else s) = x \<or>
     (\<exists>es'. (if b then x else if c then emit es s else s) = emit es' s)"
  by (metis emit_Nil)

lemma set_trading_mode_cases:
  obtains (same) "fst (set_trading_mode exc mode reason s) = s"
  | (synced) r s1 where "mode \<in> override_modes"
      "s1 = fst (audit_after ''trading_mode_override_set'' (sync_capability_mode r
         (refresh_selected_mode_constraint (add_constraint (mode_constraint_key reason) mode reason s))))"
      "fst (set_trading_mode exc mode reason s) = fail_closed_on_journal_error exc ''set_trading_mode'' [] s1 \<or>
       (\<exists>es. fst (set_trading_mode exc mode reason s) = emit es s1)"
proof (cases "mode \<notin> override_modes \<or>
    mode_constraint_key reason \<noteq> ''venue_dead_man_switch:'' \<and>
    dget (s_mode_constraints s) (mode_constraint_key reason) = Some (mode, reason)")
  case True
  then have "fst (set_trading_mode exc mode reason s) = s"
    unfolding set_trading_mode_def Let_def if_distrib [of fst] fst_conv override_modes_def
    by (elim disjE) (simp_all only: if_cancel simp_thms if_True not_False_eq_True)
  then show ?thesis by (rule same)
next
  case False
  then have m: "(mode \<notin> {CM_DEGRADED, CM_PASSIVE_ONLY, CM_REDUCE_ONLY}) = False"
    and k: "(mode_constraint_key reason \<noteq> ''venue_dead_man_switch:'' \<and>
      dget (s_mode_constraints s) (mode_constraint_key reason) = Some (mode, reason)) = False"
    by (auto simp only: override_modes_def)
  show ?thesis
    by (rule synced [OF _ refl])
       (use False in blast, unfold set_trading_mode_def Let_def m k if_False if_distrib [of fst] fst_conv,
        rule emit_branches)
qed

lemma core_select:
  "core (refresh_selected_mode_constraint (add_constraint k m r s)) =
   core (refresh_selected_mode_constraint (s\<lparr>s_mode_constraints := dset k (m, r) (s_mode_constraints s)\<rparr>))"
  "core (refresh_selected_mode_constraint (drop_constraints ks s)) =
   core (refresh_selected_mode_constraint (s\<lparr>s_mode_constraints := fold ddel ks (s_mode_constraints s)\<rparr>))"
  "core (refresh_selected_mode_constraint (restore_constraints ks old s)) =
   core (refresh_selected_mode_constraint (s\<lparr>s_mode_constraints :=
     fold (\<lambda>k d. case dget (s_mode_constraints old) k of Some v \<Rightarrow> dset k v d | None \<Rightarrow> d)
       ks (s_mode_constraints s)\<rparr>))"
  by (simp_all add: core_def refresh_selected_mode_constraint_def add_constraint_def drop_constraints_def
      restore_constraints_def Let_def split: list.split)

locale oms_closed =
  fixes P :: "oms \<Rightarrow> bool"
  assumes P_core: "core s' = core s \<Longrightarrow> P s' = P s"
    and P_close: "P s \<Longrightarrow> P (close_outbound_gate_locked reason hold s)"
    and P_refresh: "P s \<Longrightarrow> P (refresh_outbound_gate_locked reason s)"
    and P_select: "P s \<Longrightarrow> P (refresh_selected_mode_constraint (s\<lparr>s_mode_constraints := d\<rparr>))"
    and P_enter: "P s \<Longrightarrow> P (s\<lparr>s_state := st, s_lifecycle_generation := s_lifecycle_generation s + 1\<rparr>)"
    and P_generation: "P s \<Longrightarrow> P (s\<lparr>s_lifecycle_generation := s_lifecycle_generation s + 1\<rparr>)"
    and P_stopped_state: "P s \<Longrightarrow> st \<in> {LS_FROZEN, LS_HALTED} \<Longrightarrow> P (s\<lparr>s_state := st\<rparr>)"
    and P_seal: "P s \<Longrightarrow> a \<noteq> [] \<Longrightarrow> P (s\<lparr>s_all_order_seal_reason := a\<rparr>)"
    and P_stop: "P s \<Longrightarrow> P (s\<lparr>s_stopped := True\<rparr>)"
    and P_shutdown: "P s \<Longrightarrow> P (s\<lparr>s_shutdown_requested := True\<rparr>)"
    and P_ensure: "P s \<Longrightarrow> P (s\<lparr>s_symbol_guards := ensure_records ow k (s_symbol_guards s)\<rparr>)"
    and P_commit: "P s \<Longrightarrow> P (s\<lparr>s_symbol_guards := commit_guard k ow' r e (s_symbol_guards s)\<rparr>)"
begin

lemma P_frame [simp]:
  "P (fst (audit k s)) = P s"
  "P (emit es s) = P s"
  "P (s\<lparr>s_last_freeze_reason := a\<rparr>) = P s"
  "P (s\<lparr>s_last_halt_reason := a\<rparr>) = P s"
  "P (s\<lparr>s_manual_rearm_required := b\<rparr>) = P s"
  "P (s\<lparr>s_capability_mode := m\<rparr>) = P s"
  "P (s\<lparr>s_capability_reason := a\<rparr>) = P s"
  "P (s\<lparr>s_venue_guards := t\<rparr>) = P s"
  "P (s\<lparr>s_strategy_guards := sg\<rparr>) = P s"
  "P (s\<lparr>s_strategy_symbol_guards := ssg\<rparr>) = P s"
  "P (s\<lparr>s_shutdown_reason := a\<rparr>) = P s"
  "P (s\<lparr>s_shutdown_cancel_verified := b\<rparr>) = P s"
  "P (s\<lparr>s_recovered_pending := b\<rparr>) = P s"
  "P (s\<lparr>s_recovered_snapshot := sn\<rparr>) = P s"
  "P (s\<lparr>s_pending_reconcile := pr\<rparr>) = P s"
  "P (s\<lparr>s_background_rejections := n\<rparr>) = P s"
  "P (s\<lparr>s_orders := os\<rparr>) = P s"
  by (rule P_core; simp add: core_def)+

lemma P_constraints:
  "P s \<Longrightarrow> P (refresh_selected_mode_constraint (add_constraint k m r s))"
  "P s \<Longrightarrow> P (refresh_selected_mode_constraint (drop_constraints ks s))"
  "P s \<Longrightarrow> P (refresh_selected_mode_constraint (restore_constraints ks old s))"
  using P_core [OF core_select(1)] P_core [OF core_select(2)] P_core [OF core_select(3)] P_select by blast+

lemma P_enter_with:
  "P s \<Longrightarrow> g = s_lifecycle_generation s + 1 \<Longrightarrow> P (s\<lparr>s_state := st, s_lifecycle_generation := g\<rparr>)"
  "P s \<Longrightarrow> g = s_lifecycle_generation s + 1 \<Longrightarrow> P (s\<lparr>s_lifecycle_generation := g, s_state := st\<rparr>)"
  "P s \<Longrightarrow> g = s_lifecycle_generation s + 1 \<Longrightarrow> P (s\<lparr>s_lifecycle_generation := g\<rparr>)"
  using P_enter [of s st] P_core [of "s\<lparr>s_lifecycle_generation := g, s_state := st\<rparr>"
    "s\<lparr>s_state := st, s_lifecycle_generation := g\<rparr>"] P_generation [of s] by (simp_all add: core_def)

lemma P_stop_with:
  assumes "P s" "st \<in> {LS_FROZEN, LS_HALTED}" "g \<in> {s_lifecycle_generation s, s_lifecycle_generation s + 1}"
  shows "P (s\<lparr>s_state := st, s_lifecycle_generation := g\<rparr>)" "P (s\<lparr>s_lifecycle_generation := g, s_state := st\<rparr>)"
proof -
  have swap: "s\<lparr>s_lifecycle_generation := g, s_state := st\<rparr> = s\<lparr>s_state := st, s_lifecycle_generation := g\<rparr>"
    by simp
  show *: "P (s\<lparr>s_state := st, s_lifecycle_generation := g\<rparr>)"
  proof (cases "g = s_lifecycle_generation s")
    case True
    then have "core (s\<lparr>s_state := st, s_lifecycle_generation := g\<rparr>) = core (s\<lparr>s_state := st\<rparr>)"
      by (simp add: core_def)
    from P_core [OF this] P_stopped_state [OF assms(1,2)] show ?thesis by blast
  next
    case False
    with assms(1,3) show ?thesis by (intro P_enter_with(1)) auto
  qed
  from * show "P (s\<lparr>s_lifecycle_generation := g, s_state := st\<rparr>)" unfolding swap .
qed

lemma P_guards:
  "P s \<Longrightarrow> t = s_symbol_guards s \<Longrightarrow>
     P (s\<lparr>s_symbol_guards := commit_guard k ow r e (ensure_records ow' k' t)\<rparr>)"
  "P s \<Longrightarrow> t = s_symbol_guards s \<Longrightarrow> P (s\<lparr>s_symbol_guards := ensure_records ow' k' t\<rparr>)"
  "P s \<Longrightarrow> t = s_symbol_guards s \<Longrightarrow> P (s\<lparr>s_symbol_guards := commit_guard k ow r e t\<rparr>)"
  using P_commit [of s k ow r e] P_commit [OF P_ensure [of s ow' k'], of k ow r e] P_ensure by simp_all

lemma P_sync: "P s \<Longrightarrow> P (fst (sync_capability_mode reason s))"
  by (simp add: sync_capability_mode_def Let_def P_refresh)

lemma P_audit_after: "P (fst r) \<Longrightarrow> P (fst (audit_after k r))"
  by (simp add: audit_after_def)

lemma P_latch: "P s \<Longrightarrow> P (fst (latch_journal_failure_locked exc context symbol s))"
proof -
  assume s: "P s"
  have seal: "P (if b then s else s\<lparr>s_all_order_seal_reason := a\<rparr>)" if "a \<noteq> []" for a b
    using s that by (simp add: P_seal)
  show ?thesis
    unfolding latch_journal_failure_locked_def Let_def fst_conv
    by (simp add: P_guards P_stop_with P_close seal s)
qed

lemma P_fail_closed: "P s \<Longrightarrow> P (fail_closed_on_journal_error exc context symbol s)"
  by (simp add: fail_closed_on_journal_error_def split_beta P_latch)

lemma P_afail: "P (fst r) \<Longrightarrow> (snd r \<Longrightarrow> P (k (fst r))) \<Longrightarrow> P (afail exc c r k)"
  by (simp add: afail_def P_fail_closed)

lemmas P_rules = P_refresh P_close P_sync P_audit_after P_enter_with P_stopped_state P_fail_closed P_afail
  P_constraints P_guards P_ensure P_stop P_shutdown P_seal

lemma P_set_mode: "P s \<Longrightarrow> P (fst (set_trading_mode exc m r s))"
  by (cases rule: set_trading_mode_cases [of exc m r s]) (auto simp: P_rules)

lemma P_clear_mode: "P s \<Longrightarrow> P (fst (clear_trading_mode exc r ps ex s))"
  by (simp add: clear_trading_mode_def Let_def P_rules)

lemma P_freeze: "P s \<Longrightarrow> P (fst (freeze_system exc r c s))"
  by (simp add: freeze_system_def Let_def P_rules)

lemma P_halt: "P s \<Longrightarrow> P (halt_system exc r s)"
  unfolding halt_system_def Let_def by (rule P_afail) (simp_all add: P_rules)

lemma P_rearm:
  "P s \<Longrightarrow> P (fst (rearm_begin exc r s))" "P s \<Longrightarrow> P (fst (rearm_finish exc s))"
  by (simp_all add: rearm_begin_def rearm_finish_def Let_def P_rules)

lemma P_latch_shutdown: "P s \<Longrightarrow> P (latch_shutdown r s)"
  by (simp add: latch_shutdown_def Let_def P_rules)

lemma P_begin_shutdown: "P s \<Longrightarrow> P (fst (begin_shutdown exc r s))"
  by (simp add: begin_shutdown_def Let_def P_rules P_latch_shutdown)

lemma P_stop_seal: "P s \<Longrightarrow> P (stop_seal r s)"
  by (simp add: stop_seal_def P_rules str_or_def)

lemma P_freeze_symbol: "P s \<Longrightarrow> P (fst (freeze_symbol exc sy r c d s))"
  by (simp add: freeze_symbol_def freeze_symbol_locked_def enforce_symbol_guard_def Let_def P_rules P_halt
      split: sum.splits)

lemma P_freeze_venue: "P s \<Longrightarrow> P (fst (freeze_venue exc v r c d s))"
  by (simp add: freeze_venue_def Let_def P_rules P_halt)

lemma P_clear_venue: "P s \<Longrightarrow> P (fst (clear_venue_freeze v r ee er eo s))"
  by (simp add: clear_venue_freeze_def Let_def P_rules split: list.splits)

lemma P_strategy:
  "P s \<Longrightarrow> P (fst (freeze_strategy st r sy c s))" "P s \<Longrightarrow> P (fst (clear_strategy_freeze st sy r s))"
  by (simp_all add: freeze_strategy_def clear_strategy_freeze_def Let_def P_rules)

lemma P_ensure_fold: "P s \<Longrightarrow> P (s\<lparr>s_symbol_guards := fold (ensure_records ow) ks (s_symbol_guards s)\<rparr>)"
proof (induction ks arbitrary: s)
  case (Cons k ks)
  from Cons.IH [OF P_ensure [OF Cons.prems, of ow k]] show ?case by simp
qed simp

lemma P_capture: "P s \<Longrightarrow> P (fst (capture_guard_cleanup_snapshot prefixes s))"
  by (simp add: capture_guard_cleanup_snapshot_def Let_def P_ensure_fold)

lemma P_background: "P s \<Longrightarrow> P (fst (latch_background_task_failure k r s))"
  unfolding latch_background_task_failure_def Let_def
  by (simp add: P_sync P_stop_with P_close)

lemma P_schedule: "P s \<Longrightarrow> P (fst (schedule_pending_reconcile_requests sub s))"
  by (simp add: schedule_pending_reconcile_requests_def Let_def P_background split: option.splits)

lemma P_queue: "P s \<Longrightarrow> P (fst (queue_reconcile_request r oid sub s))"
  unfolding queue_reconcile_request_def Let_def
  by (simp add: P_background P_schedule P_sync P_stop_with)

lemma P_quarantine: "P s \<Longrightarrow> P (fst (quarantine k r rq oid sub s))"
  by (simp add: quarantine_def Let_def P_queue P_rules)

lemma P_submit_fence: "P s \<Longrightarrow> P (close_gate_after_submit_settlement_failure clk oid c e s)"
  by (simp add: close_gate_after_submit_settlement_failure_def Let_def P_rules split: option.splits)

lemma P_reconcile_start: "P s \<Longrightarrow> P (fst (reconcile_start r su s))"
  by (simp add: reconcile_start_def Let_def P_rules)

lemma P_reconcile_publish: "P s \<Longrightarrow> P (fst (reconcile_publish sub g s))"
  by (simp add: reconcile_publish_def Let_def P_background P_rules split: option.splits sum.splits)

lemma P_trigger: "P s \<Longrightarrow> P (fst (trigger_reconcile e r su sub s))"
  by (simp add: trigger_reconcile_def Let_def P_freeze P_reconcile_start P_reconcile_publish
      split: sum.splits option.splits)

lemma P_complete_venue: "P s \<Longrightarrow> P (fst (complete_venue_recovery_verification v ee eo er s))"
  by (simp add: complete_venue_recovery_verification_def Let_def P_clear_venue P_rules split: sum.splits bool.splits)

lemma P_request_venue: "P s \<Longrightarrow> P (fst (request_venue_recovery_verification e v r eo ee er su sub s))"
  unfolding request_venue_recovery_verification_def Let_def
  by (rule if_keeps, simp, rule single_record_keeps) (simp_all add: P_trigger)

lemma P_bootstrap:
  assumes "P s"
  shows "P (fst (bootstrap_request s))" "P (fst (bootstrap_blocked e a s))" "P (fst (bootstrap_guarded e a su sub s))"
  using assms by (simp_all add: bootstrap_request_def bootstrap_blocked_def bootstrap_guarded_def Let_def
      P_halt P_trigger P_rules)

lemma P_orders: "P s \<Longrightarrow> P (s\<lparr>s_orders := x, s_settling := y\<rparr>)"
  using P_core [of "s\<lparr>s_orders := x, s_settling := y\<rparr>" s] by (simp add: core_def)

lemmas P_handlers = P_set_mode P_clear_mode P_freeze P_halt P_rearm P_begin_shutdown P_stop_seal P_freeze_symbol
  P_freeze_venue P_clear_venue P_strategy P_capture P_background P_quarantine P_submit_fence
  P_reconcile_start P_reconcile_publish P_trigger P_complete_venue P_request_venue P_bootstrap P_orders P_fail_closed
  P_close P_sync

end

text \<open>The operations that can release a symbol guard.\<close>

fun releases_symbol :: "oms_op \<Rightarrow> bool" where
  "releases_symbol (Clear_symbol sy r ee er eo) = True"
| "releases_symbol (Clear_orderbook sy tok r) = True"
| "releases_symbol (Clear_transient ps sn) = True"
| "releases_symbol (Full_reset_commit e st g sn) = True"
| "releases_symbol (Reconcile_resume e g) = True"
| "releases_symbol _ = False"

context oms_closed
begin

lemma P_handler_keeping: "P s \<Longrightarrow> \<not> releases_symbol x \<Longrightarrow> P (oms_handler x s)"
  by (cases x) (simp_all add: close_outbound_gate_def ensure_capability_mode_consistent_def Let_def
      full_reset_begin_def quarantine_invalid_account_update_def quarantine_execution_gap_def
      quarantine_invalid_order_update_def P_handlers)

end

locale oms_closed_release = oms_closed +
  assumes P_release: "P s \<Longrightarrow> P (s\<lparr>s_symbol_guards := release_guard k ow (s_symbol_guards s)\<rparr>)"
begin

lemma P_release_ensured: "P s \<Longrightarrow> t = s_symbol_guards s \<Longrightarrow> P (s\<lparr>s_symbol_guards := release_guard k ow t\<rparr>)"
  using P_release by simp

lemma P_clear_symbol: "P s \<Longrightarrow> P (fst (clear_symbol_freeze sy r ee er eo s))"
  by (simp add: clear_symbol_freeze_def Let_def P_rules P_release_ensured split: list.splits)

lemma P_clear_orderbook: "P s \<Longrightarrow> P (fst (clear_orderbook_freeze sy tok r s))"
  by (simp add: clear_orderbook_freeze_def Let_def P_clear_symbol P_ensure split: list.splits)

lemma P_cleanup: "P s \<Longrightarrow> P (fst (clear_guard_cleanup_snapshot snap reason s))"
  by (rule clear_snapshot_keeps) (auto intro: P_clear_symbol P_clear_venue P_strategy)

lemma P_transient: "P s \<Longrightarrow> P (fst (clear_transient_guards ps sn s))"
  by (simp add: clear_transient_guards_def Let_def P_cleanup P_capture split: option.splits)

lemma P_recovered: "P s \<Longrightarrow> P (fst (clear_recovered_guards_if_pending r s))"
  using P_cleanup [of s] by (simp add: clear_recovered_guards_if_pending_def Let_def split: sum.splits)

lemma P_full_reset: "P s \<Longrightarrow> P (full_reset_commit exc es eg sn s)"
  by (simp add: full_reset_commit_def full_reset_resume_def Let_def P_rules P_halt P_transient P_recovered
      split: sum.splits)

lemma P_reconcile_resume: "P s \<Longrightarrow> P (reconcile_resume exc g s)"
  by (simp add: reconcile_resume_def Let_def P_rules P_halt P_recovered split: sum.splits)

lemma P_handler: "P s \<Longrightarrow> P (oms_handler x s)"
proof (cases "releases_symbol x")
  case True
  then show "P s \<Longrightarrow> P (oms_handler x s)"
    by (cases x) (simp_all add: P_clear_symbol P_clear_orderbook P_transient P_full_reset P_reconcile_resume)
qed (simp add: P_handler_keeping)

end

subsection \<open>Send permits\<close>

text \<open>The counters are exactly the counts of the permits held.\<close>

definition permits_exact :: "oms_sys \<Rightarrow> bool" where
  "permits_exact sys \<longleftrightarrow> (case sys of (s, held) \<Rightarrow>
     s_order_inflight s = int (length held) \<and>
     s_risk_inflight s = int (length (filter fst held)) \<and>
     (\<forall>sym. sym \<noteq> [] \<longrightarrow> dgetd (s_risk_by_symbol s) sym 0 = int (count_list held (True, sym))))"

lemma int_filter_remove1:
  "x \<in> set xs \<Longrightarrow>
     int (length (filter P (remove1 x xs))) = int (length (filter P xs)) - (if P x then 1 else 0)"
  by (induction xs) auto

lemma int_count_remove1:
  "x \<in> set xs \<Longrightarrow> int (count_list (remove1 x xs) y) = int (count_list xs y) - (if x = y then 1 else 0)"
  by (induction xs) auto

definition counters :: "oms \<Rightarrow> int \<times> int \<times> (string, int) dict" where
  "counters s = (s_order_inflight s, s_risk_inflight s, s_risk_by_symbol s)"

interpretation counters_fixed: oms_closed_release "\<lambda>s. counters s = c" for c
  by unfold_locales (auto simp: core_def counters_def)

lemma handler_counters: "counters (oms_handler x s) = counters s"
  by (rule counters_fixed.P_handler) (rule refl)

lemma handler_permits [simp]:
  "s_order_inflight (oms_handler x s) = s_order_inflight s"
  "s_risk_inflight (oms_handler x s) = s_risk_inflight s"
  "s_risk_by_symbol (oms_handler x s) = s_risk_by_symbol s"
  using handler_counters [of x s] by (simp_all add: counters_def)

lemma permits_handler: "permits_exact (oms_handler x s, held) = permits_exact (s, held)"
  by (simp add: permits_exact_def)

lemma permits_acquire:
  assumes "permits_exact (s, held)" "acquire_outbound_order_send_permit_locked risk symbol em s = (s', r)"
  shows "permits_exact (s', case r of Inr _ \<Rightarrow> (risk, upper symbol) # held | Inl _ \<Rightarrow> held)"
  using assms by (auto simp: acquire_outbound_order_send_permit_locked_def Let_def permits_exact_def
      split: if_splits)

lemma permits_release:
  assumes ex: "permits_exact (s, held)" and mem: "(risk, upper symbol) \<in> set held"
  shows "permits_exact (release_outbound_order_send_permit risk symbol s, remove1 (risk, upper symbol) held)"
proof -
  have order_pos: "0 < s_order_inflight s" using ex mem by (auto simp: permits_exact_def length_pos_if_in_set)
  have len: "int (length (remove1 (risk, upper symbol) held)) = int (length held) - 1"
    using mem int_filter_remove1 [OF mem, of "\<lambda>_. True"] by simp
  show ?thesis
  proof (cases risk)
    case True
    then have "filter fst held \<noteq> []" using mem by (force simp: filter_empty_conv)
    then have risk_pos: "0 < s_risk_inflight s" using ex by (simp add: permits_exact_def)
    have sym_pos: "0 < dgetd (s_risk_by_symbol s) (upper symbol) 0" if "upper symbol \<noteq> []"
      using ex mem True that count_list_0_iff [of held "(True, upper symbol)"]
      by (simp add: permits_exact_def)
    have sym_count: "dgetd (s_risk_by_symbol s) (upper symbol) 0 = int (count_list held (True, upper symbol))"
      if "upper symbol \<noteq> []" using ex that by (simp add: permits_exact_def)
    show ?thesis
    proof (cases "upper symbol = []")
      case True
      with ex order_pos risk_pos len \<open>risk\<close> int_filter_remove1 [OF mem, of fst] int_count_remove1 [OF mem]
      show ?thesis by (auto simp: permits_exact_def release_outbound_order_send_permit_def Let_def)
    next
      case False
      note pos = sym_pos [OF False] and cnt = sym_count [OF False]
      from False ex order_pos risk_pos len pos \<open>risk\<close>
        int_filter_remove1 [OF mem, of fst] int_count_remove1 [OF mem]
      show ?thesis
        by (auto simp: permits_exact_def release_outbound_order_send_permit_def Let_def cnt)
    qed
  next
    case False
    with ex order_pos len int_filter_remove1 [OF mem, of fst] int_count_remove1 [OF mem]
    show ?thesis by (auto simp: permits_exact_def release_outbound_order_send_permit_def Let_def)
  qed
qed

interpretation oms_permits: invariant_system oms_step permits_exact
proof
  fix x and sys :: oms_sys
  assume ex: "permits_exact sys"
  obtain s held where sys: "sys = (s, held)" by force
  show "permits_exact (oms_step x sys)"
  proof (cases x)
    case (Acquire_permit risk symbol em)
    obtain s' r where a: "acquire_outbound_order_send_permit_locked risk symbol em s = (s', r)" by force
    from permits_acquire [OF ex [unfolded sys] a] a show ?thesis
      by (cases r) (simp_all add: sys Acquire_permit)
  next
    case (Release_permit risk symbol)
    with ex permits_release show ?thesis by (simp add: sys)
  qed (use ex in \<open>simp_all only: sys oms_step.simps permits_handler\<close>)
qed

text \<open>Claim C5: send permits are accounted for exactly. Over every interleaving, the order-send counter
  equals the number of permits threads hold, the risk-send counter the number of risk-increasing
  ones, and the per-symbol counters the number for that symbol; so a drain that sees zero has
  waited for every send, and no counter ever underflows.\<close>

theorem permit_counters_exact:
  assumes "run_ops oms_step xs (oms_init symbols script, []) = (s, held)"
  shows "s_order_inflight s = int (length held) \<and>
    s_risk_inflight s = int (length (filter fst held)) \<and>
    (\<forall>sym. sym \<noteq> [] \<longrightarrow> dgetd (s_risk_by_symbol s) sym 0 = int (count_list held (True, sym))) \<and>
    (order_sends_drained s \<longrightarrow> held = [])"
proof -
  have "permits_exact (run_ops oms_step xs (oms_init symbols script, []))"
    by (rule oms_permits.run_inv) (simp add: permits_exact_def oms_init_def)
  with assms show ?thesis by (simp add: permits_exact_def order_sends_drained_def)
qed

theorem permit_counters_exact_witness:
  "\<exists>s. run_ops oms_step [Full_reset_commit [] LS_BOOTSTRAP 0 empty_snapshot, Acquire_permit True ''BTCUSDT'' False]
     (oms_init [] [], []) = (s, [(True, ''BTCUSDT'')]) \<and> s_risk_inflight s = 1"
  unfolding demo_live_run using permit_counters_exact [OF demo_live_run] by (intro exI conjI) (rule refl, simp)

end
