(* ===== verification/OMS_Lifecycle.thy ===== *)
theory OMS_Lifecycle
  imports OMS_Safety
begin

text \<open>
  What two observations of the OMS say about the time in between: the gate epoch and the lifecycle
  generation as fences, the latches that are never released (seals, shutdown, holds), HALTED, and the
  capability mode as the most restrictive of the lifecycle and of every constraint.
\<close>

subsection \<open>The history of an OMS\<close>

text \<open>What every operation does to the epochs and latches.\<close>

definition progress :: "oms \<Rightarrow> oms \<Rightarrow> bool" where
  "progress s s' \<longleftrightarrow>
     s_gate_epoch s \<le> s_gate_epoch s' \<and>
     (s_all_order_seal_reason s \<noteq> [] \<longrightarrow> s_all_order_seal_reason s' \<noteq> []) \<and>
     (s_stopped s \<longrightarrow> s_stopped s') \<and> (s_shutdown_requested s \<longrightarrow> s_shutdown_requested s') \<and>
     s_gate_holds s \<subseteq> s_gate_holds s' \<and>
     s_lifecycle_generation s \<le> s_lifecycle_generation s' \<and>
     (s_lifecycle_generation s = s_lifecycle_generation s' \<longrightarrow> s_state s' \<in> {s_state s, LS_FROZEN, LS_HALTED})"

lemma progress_refl [simp]: "progress s s"
  by (simp add: progress_def)

lemma progress_trans: "progress s s' \<Longrightarrow> progress s' s'' \<Longrightarrow> progress s s''"
  unfolding progress_def by (intro conjI impI) (simp, blast, blast, blast, blast, simp, auto)

lemma progress_core: "core s' = core s'' \<Longrightarrow> progress s s' = progress s s''"
  by (simp add: core_def progress_def)

lemma progress_close: "progress s x \<Longrightarrow> progress s (close_outbound_gate_locked reason hold x)"
  by (rule progress_trans) (auto simp: progress_def close_outbound_gate_locked_def)

lemma progress_refresh: "progress s x \<Longrightarrow> progress s (refresh_outbound_gate_locked reason x)"
  by (rule progress_trans) (auto simp: progress_def refresh_outbound_gate_locked_def Let_def)

lemma progress_select:
  "progress s x \<Longrightarrow> progress s (refresh_selected_mode_constraint (x\<lparr>s_mode_constraints := d\<rparr>))"
  by (rule progress_trans) (auto simp: progress_def)

lemma progress_updates:
  "progress s x \<Longrightarrow> progress s (x\<lparr>s_state := st, s_lifecycle_generation := s_lifecycle_generation x + 1\<rparr>)"
  "progress s x \<Longrightarrow> progress s (x\<lparr>s_lifecycle_generation := s_lifecycle_generation x + 1\<rparr>)"
  "progress s x \<Longrightarrow> st \<in> {LS_FROZEN, LS_HALTED} \<Longrightarrow> progress s (x\<lparr>s_state := st\<rparr>)"
  "progress s x \<Longrightarrow> a \<noteq> [] \<Longrightarrow> progress s (x\<lparr>s_all_order_seal_reason := a\<rparr>)"
  "progress s x \<Longrightarrow> progress s (x\<lparr>s_stopped := True\<rparr>)"
  "progress s x \<Longrightarrow> progress s (x\<lparr>s_shutdown_requested := True\<rparr>)"
  "progress s (x\<lparr>s_symbol_guards := t\<rparr>) = progress s x"
  "progress s (x\<lparr>s_order_inflight := n\<rparr>) = progress s x"
  "progress s (x\<lparr>s_risk_inflight := n\<rparr>) = progress s x"
  "progress s (x\<lparr>s_risk_by_symbol := c\<rparr>) = progress s x"
  by (auto simp: progress_def)

interpretation progress_closed: oms_closed_release "progress s" for s
  by (unfold_locales, erule progress_core) (simp_all add: progress_close progress_refresh progress_select progress_updates)

lemma progress_handler: "progress s (oms_handler x s)"
  by (rule progress_closed.P_handler) simp

lemma progress_fail_closed: "progress s x \<Longrightarrow> progress s (fail_closed_on_journal_error exc context symbol x)"
  by (rule progress_closed.P_fail_closed)

lemma progress_permits:
  "progress s (fst (acquire_outbound_order_send_permit_locked risk symbol em s))"
  "progress s (release_outbound_order_send_permit risk symbol s)"
  by (simp_all add: acquire_outbound_order_send_permit_locked_def release_outbound_order_send_permit_def Let_def
      progress_updates)

lemma progress_step: "progress (fst sys) (fst (oms_step x sys))"
proof (cases sys)
  case (Pair s held)
  show ?thesis
    using progress_handler [of s x] progress_permits [of s]
    by (cases x) (auto simp: Pair split: sum.splits prod.splits, (metis fst_conv)+)
qed

interpretation oms_history: history_system oms_step "\<lambda>a b. progress (fst a) (fst b)"
  by unfold_locales (auto intro: progress_trans progress_step)

lemma reach_inv: "oms_inv (fst (run_ops oms_step xs (oms_init symbols script, [])))"
  using oms_gate.run_inv [of "(oms_init symbols script, [])" xs] by (simp add: split_beta)

lemma reach_gate:
  "s_gate_open (fst (run_ops oms_step xs (oms_init symbols script, []))) =
   odd (s_gate_epoch (fst (run_ops oms_step xs (oms_init symbols script, []))))"
  using reach_inv [of xs symbols script] by (simp add: oms_inv_def base_inv_def)

text \<open>The gate epoch is a fence. When a sender reads the same epoch at two moments, the gate
  stood in the same position at every moment in between, so a permit whose epoch is unchanged when
  the order is sent was granted under a gate that never closed.\<close>

theorem gate_epoch_fence:
  assumes "s_gate_epoch (fst (run_ops oms_step (xs @ ys @ zs) (oms_init symbols script, []))) =
    s_gate_epoch (fst (run_ops oms_step xs (oms_init symbols script, [])))"
  shows "s_gate_open (fst (run_ops oms_step (xs @ ys) (oms_init symbols script, []))) =
    s_gate_open (fst (run_ops oms_step xs (oms_init symbols script, [])))"
proof -
  let ?r = "\<lambda>us. fst (run_ops oms_step us (oms_init symbols script, []))"
  have "progress (?r xs) (?r (xs @ ys))" "progress (?r (xs @ ys)) (?r (xs @ ys @ zs))"
    using oms_history.run_between(2) [of xs _ ys] oms_history.run_between(2) [of "xs @ ys" _ zs] by simp_all
  with assms have "s_gate_epoch (?r (xs @ ys)) = s_gate_epoch (?r xs)" by (simp add: progress_def)
  then show ?thesis by (simp only: reach_gate)
qed

theorem gate_epoch_fence_witness:
  "s_gate_open (fst (run_ops oms_step ([Full_reset_commit [] LS_BOOTSTRAP 0 empty_snapshot] @ [Acquire_permit True ''BTCUSDT'' False])
     (oms_init [] [], []))) =
   s_gate_open (fst (run_ops oms_step [Full_reset_commit [] LS_BOOTSTRAP 0 empty_snapshot] (oms_init [] [], [])))"
  by (rule gate_epoch_fence [where zs = "[]"]) code_simp

text \<open>Claim C23: a journal failure seals the OMS. After \<open>fail_closed_on_journal_error\<close>, whatever runs
  afterwards, rearm and full reset included, no order-send permit of any kind is granted again in this
  process, not even a reduce-only or emergency one.\<close>

theorem journal_failure_seals:
  "\<exists>why. acquire_outbound_order_send_permit_locked risk symbol emergency
     (fst (run_ops oms_step xs (fail_closed_on_journal_error exc context target s, held))) =
     (fst (run_ops oms_step xs (fail_closed_on_journal_error exc context target s, held)), Inl why)"
proof -
  have "s_all_order_seal_reason (fail_closed_on_journal_error exc context target s) \<noteq> []"
    by (auto simp: fail_closed_on_journal_error_def latch_journal_failure_locked_def Let_def)
  moreover have "progress (fail_closed_on_journal_error exc context target s)
      (fst (run_ops oms_step xs (fail_closed_on_journal_error exc context target s, held)))"
    using oms_history.run_rel [of "(fail_closed_on_journal_error exc context target s, held)" xs] by simp
  ultimately show ?thesis
    by (auto simp: progress_def acquire_outbound_order_send_permit_locked_def Let_def)
qed

lemma begin_shutdown_requested: "s_shutdown_requested (fst (begin_shutdown exc r s))"
proof -
  have "s_shutdown_requested (latch_shutdown r' s)" for r'
    by (simp add: latch_shutdown_def Let_def)
  moreover have "s_shutdown_requested x \<Longrightarrow> s_shutdown_requested (fail_closed_on_journal_error e c sy x)" for e c sy x
    using progress_fail_closed [OF progress_refl, of x] by (simp add: progress_def)
  ultimately show ?thesis by (simp add: begin_shutdown_def Let_def)
qed

text \<open>Shutdown is final for new risk. Once \<open>begin_shutdown\<close> ran, no risk-increasing permit
  is granted at any later moment, and of the other permits only those that ask for the shutdown
  emergency path.\<close>

theorem shutdown_blocks_sends:
  assumes "s = fst (run_ops oms_step (xs @ Begin_shutdown exc r # ys) (oms_init symbols script, []))"
    and "risk \<or> \<not> emergency"
  shows "\<exists>why. acquire_outbound_order_send_permit_locked risk symbol emergency s = (s, Inl why)"
proof -
  obtain s0 held where s0: "run_ops oms_step xs (oms_init symbols script, []) = (s0, held)" by force
  have s: "s = fst (run_ops oms_step ys (fst (begin_shutdown exc r s0), held))"
    using assms(1) by (simp add: run_ops_append s0)
  have "progress (fst (begin_shutdown exc r s0)) s"
    using oms_history.run_rel [of "(fst (begin_shutdown exc r s0), held)" ys] by (simp add: s)
  then have req: "s_shutdown_requested s" by (simp add: progress_def begin_shutdown_requested)
  have "oms_inv s" using reach_inv assms(1) by simp
  with req have "\<not> s_gate_open s" by (auto simp: oms_inv_def outbound_gate_should_open_def)
  with req assms(2) show ?thesis
    by (auto simp: acquire_outbound_order_send_permit_locked_def Let_def)
qed

theorem shutdown_blocks_sends_witness:
  "\<exists>s why. s = fst (run_ops oms_step ([Full_reset_commit [] LS_BOOTSTRAP 0 empty_snapshot] @ Begin_shutdown [] ''operator'' # [])
       (oms_init [] [], [])) \<and>
     acquire_outbound_order_send_permit_locked True ''BTCUSDT'' True s = (s, Inl why)"
  by (simp only: ex_simps simp_thms, rule shutdown_blocks_sends [OF refl]) simp

subsection \<open>HALTED\<close>

lemma halted_audit_after [simp]: "s_state (fst (audit_after k r)) = s_state (fst r)"
  by (simp add: audit_after_def)

lemma halted_fail_closed [simp]: "s_state (fail_closed_on_journal_error exc context symbol s) = LS_HALTED"
  by (simp add: fail_closed_on_journal_error_def latch_journal_failure_locked_def Let_def)

lemma halted_halt [simp]: "s_state (halt_system exc r s) = LS_HALTED"
  by (simp add: halt_system_def Let_def afail_def)

lemma state_constraints [simp]:
  "s_state (add_constraint key m r s) = s_state s" "s_state (drop_constraints keys s) = s_state s"
  "s_state (restore_constraints keys old s) = s_state s"
  by (simp_all add: add_constraint_def drop_constraints_def restore_constraints_def Let_def)

lemma halted_set_mode: "s_state s = LS_HALTED \<Longrightarrow> s_state (fst (set_trading_mode exc m r s)) = LS_HALTED"
  by (cases rule: set_trading_mode_cases [of exc m r s]) auto

lemma state_clears:
  "s_state (fst (clear_symbol_freeze sy r ee er eo s)) = s_state s"
  "s_state (fst (clear_venue_freeze v r ee er' eo s)) = s_state s"
  "s_state (fst (clear_strategy_freeze st sy r s)) = s_state s"
  "s_state (fst (clear_orderbook_freeze sy tok r s)) = s_state s"
  by (simp_all add: clear_symbol_freeze_def clear_venue_freeze_def clear_strategy_freeze_def
      clear_orderbook_freeze_def Let_def split: list.splits)

lemma state_cleanup: "s_state (fst (clear_guard_cleanup_snapshot snap reason s)) = s_state s"
  by (rule clear_snapshot_keeps [where P = "\<lambda>x. s_state x = s_state s"]) (simp_all add: state_clears)

lemma state_recovery:
  "s_state (fst (clear_transient_guards ps sn s)) = s_state s"
  "s_state (fst (clear_recovered_guards_if_pending r s)) = s_state s"
  "s_state (fst (capture_guard_cleanup_snapshot ps s)) = s_state s"
  using state_cleanup by (simp_all add: clear_transient_guards_def clear_recovered_guards_if_pending_def
      capture_guard_cleanup_snapshot_def Let_def split: option.splits sum.splits)

lemma halted_background [simp]: "s_state (fst (latch_background_task_failure k r s)) = LS_HALTED"
  by (simp add: latch_background_task_failure_def Let_def)

lemma halted_reconcile:
  assumes "s_state s = LS_HALTED"
  shows "s_state (fst (queue_reconcile_request r oid sub s)) = LS_HALTED"
    "s_state (fst (trigger_reconcile e r su sub s)) = LS_HALTED"
    "s_state (fst (reconcile_start r su s)) = LS_HALTED"
    "s_state (fst (reconcile_publish sub g s)) = LS_HALTED"
    "s_state (reconcile_resume e g s) = LS_HALTED"
  using assms by (simp_all add: queue_reconcile_request_def trigger_reconcile_def reconcile_start_def
      reconcile_publish_def reconcile_resume_def Let_def split: option.splits sum.splits)

lemma halted_quarantine: "s_state s = LS_HALTED \<Longrightarrow> s_state (fst (quarantine k r rq oid sub s)) = LS_HALTED"
  by (simp add: quarantine_def Let_def halted_reconcile)

lemma halted_request_venue:
  "s_state s = LS_HALTED \<Longrightarrow> s_state (fst (request_venue_recovery_verification e v r eo ee er su sub s)) = LS_HALTED"
  unfolding request_venue_recovery_verification_def Let_def
  by (rule if_keeps [where P = "\<lambda>x. s_state x = LS_HALTED"], simp,
      rule single_record_keeps [where P = "\<lambda>x. s_state x = LS_HALTED"]) (simp_all add: halted_reconcile)

lemma halted_freezes:
  assumes "s_state s = LS_HALTED"
  shows "s_state (fst (freeze_symbol e sy r c d s)) = LS_HALTED"
    "s_state (fst (freeze_venue e v r c d s)) = LS_HALTED"
    "s_state (fst (freeze_strategy st r sy c s)) = LS_HALTED"
    "s_state (fst (freeze_system e r c s)) = LS_HALTED"
    "s_state (fst (clear_trading_mode e r ps ex s)) = LS_HALTED"
    "s_state (full_reset_commit e es g sn s) = LS_HALTED"
    "s_state (close_gate_after_submit_settlement_failure clk oid c' e s) = LS_HALTED"
  subgoal using assms by (simp add: freeze_symbol_def freeze_symbol_locked_def enforce_symbol_guard_def Let_def
      split: sum.splits)
  subgoal using assms by (simp add: freeze_venue_def Let_def)
  subgoal using assms by (simp add: freeze_strategy_def Let_def)
  subgoal using assms by (simp add: freeze_system_def Let_def)
  subgoal using assms by (simp add: clear_trading_mode_def Let_def)
  subgoal using assms by (auto simp: full_reset_commit_def full_reset_resume_def Let_def)
  subgoal using assms by (simp add: close_gate_after_submit_settlement_failure_def Let_def split: option.splits)
  done

text \<open>The two operations that can take the OMS out of HALTED.\<close>

fun leaves_halt :: "oms_op \<Rightarrow> bool" where
  "leaves_halt (Rearm_begin e r) = True"
| "leaves_halt (Bootstrap_guarded e a su sub) = True"
| "leaves_halt _ = False"

lemma halted_handler:
  assumes "s_state s = LS_HALTED" "\<not> leaves_halt x"
  shows "s_state (oms_handler x s) = LS_HALTED"
proof (cases x)
  case (Begin_shutdown e r)
  have "s_state (latch_shutdown r' s) = LS_HALTED" for r'
    using assms(1) by (simp add: latch_shutdown_def Let_def)
  then show ?thesis by (simp add: Begin_shutdown begin_shutdown_def Let_def)
next
  case Bootstrap_request
  then show ?thesis using assms(1) by (simp add: bootstrap_request_def Let_def)
next
  case (Bootstrap_blocked e a)
  then show ?thesis using assms(1) by (simp add: bootstrap_blocked_def Let_def)
qed (use assms in \<open>simp_all add: halted_set_mode halted_freezes halted_reconcile halted_quarantine
  halted_request_venue state_clears state_recovery close_outbound_gate_def stop_seal_def full_reset_begin_def
  rearm_finish_def quarantine_invalid_account_update_def quarantine_execution_gap_def
  quarantine_invalid_order_update_def complete_venue_recovery_verification_def
  ensure_capability_mode_consistent_def Let_def\<close>)

lemma halted_step:
  assumes "s_state (fst sys) = LS_HALTED" "\<not> leaves_halt x"
  shows "s_state (fst (oms_step x sys)) = LS_HALTED"
proof (cases sys)
  case (Pair s held)
  have "s_state (fst (acquire_outbound_order_send_permit_locked risk symbol em s)) = s_state s"
    "s_state (release_outbound_order_send_permit risk symbol s) = s_state s" for risk symbol em
    by (simp_all add: acquire_outbound_order_send_permit_locked_def release_outbound_order_send_permit_def Let_def)
  with halted_handler [of s x] assms show ?thesis
    by (cases x) (auto simp: Pair split: sum.splits prod.splits, (metis fst_conv)+)
qed

lemma halted_run:
  "s_state (fst sys) = LS_HALTED \<Longrightarrow> \<forall>x\<in>set xs. \<not> leaves_halt x \<Longrightarrow>
     s_state (fst (run_ops oms_step xs sys)) = LS_HALTED"
proof (induction xs arbitrary: sys)
  case (Cons x xs)
  then have "s_state (fst (oms_step x sys)) = LS_HALTED" by (intro halted_step) auto
  with Cons show ?case by simp
qed simp

text \<open>Claim C24: a halt is lifted by a manual rearm, or by a bootstrap that passed its test before the halt, and by nothing else. From a halt on, as
  long as \<open>rearm_system\<close> is not called and no such bootstrap writes its state, the OMS stays HALTED through every reset, freeze,
  unfreeze, mode change and shutdown, no risk-increasing permit is granted, and a bootstrap
  requested meanwhile is sent down the blocked route.\<close>

theorem halted_until_rearm:
  assumes "s = fst (run_ops oms_step (xs @ Halt_system exc r # ys) (oms_init symbols script, []))"
    and "\<forall>x\<in>set ys. (\<forall>e r. x \<noteq> Rearm_begin e r) \<and> (\<forall>e a su sub. x \<noteq> Bootstrap_guarded e a su sub)"
  shows "s_state s = LS_HALTED \<and>
    (\<exists>why. acquire_outbound_order_send_permit_locked True symbol emergency s = (s, Inl why)) \<and>
    snd (bootstrap_request s) \<in> {Inr Route_blocked, Inl JournalError}"
proof -
  obtain s0 held where s0: "run_ops oms_step xs (oms_init symbols script, []) = (s0, held)" by force
  have "\<not> leaves_halt x" if "x \<in> set ys" for x
    using assms(2) that by (cases x rule: leaves_halt.cases) fastforce+
  then have halted: "s_state s = LS_HALTED"
    using halted_run [of "(halt_system exc r s0, held)" ys] assms(1) by (simp add: run_ops_append s0)
  have "oms_inv s" using reach_inv assms(1) by simp
  with halted have "\<not> s_gate_open s" by (auto simp: oms_inv_def outbound_gate_should_open_def)
  with halted show ?thesis
    by (auto simp: acquire_outbound_order_send_permit_locked_def bootstrap_request_def Let_def)
qed

theorem halted_until_rearm_witness:
  "s_state (fst (run_ops oms_step ([] @ Halt_system [] ''feed'' # [Full_reset_commit [] LS_BOOTSTRAP 0 empty_snapshot, Bootstrap_request])
     (oms_init [] [], []))) = LS_HALTED"
  using halted_until_rearm [OF refl, of "[Full_reset_commit [] LS_BOOTSTRAP 0 empty_snapshot, Bootstrap_request]" "[]"] by simp

lemma reliable_audit:
  assumes "s_audit_script s = []"
  shows "snd (audit k s)" "s_audit_script (fst (audit k s)) = []" "snd (sync_capability_mode r s)"
    "s_audit_script (fst (sync_capability_mode r s)) = []"
  using assms by (simp_all add: audit_def sync_capability_mode_def refresh_outbound_gate_locked_def Let_def)

text \<open>Claim C38: a bootstrap can undo a halt. \<open>bootstrap\<close> tests for HALTED, then waits for the venue's dead-man switch and writes FROZEN without a
  second test. So whenever a bootstrap finds the OMS frozen or guarded, the OMS is halted while it waits, and the journal and the
  executor work, the OMS leaves HALTED with no rearm and starts a reconciliation, although the manual rearm is still
  required.\<close>

theorem stale_bootstrap_lifts_halt:
  assumes "snd (bootstrap_request s) = Inr Route_guarded" and "s_audit_script s = []"
    and "\<not> s_shutdown_requested s" and "\<not> s_stopped s"
    and "s1 = halt_system exc r (fst (bootstrap_request s))"
    and "s2 = fst (bootstrap_guarded exc True [] None s1)"
  shows "s_state s1 = LS_HALTED \<and> s_state s2 = LS_RECONCILING \<and> s_manual_rearm_required s2"
proof -
  have s1: "s_state s1 = LS_HALTED" "s_manual_rearm_required s1" "s_audit_script s1 = []" "\<not> s_shutdown_requested s1" "\<not> s_stopped s1"
    using assms(2-5) by (simp_all add: halt_system_def bootstrap_request_def afail_def audit_after_def reliable_audit Let_def)
  then show ?thesis unfolding assms(6)
    by (simp add: bootstrap_guarded_def trigger_reconcile_def freeze_system_def reconcile_start_def reconcile_publish_def
        audit_after_def reliable_audit Let_def)
qed

definition recovering :: oms where
  "recovering = fst (run_ops oms_step [Freeze_system [] ''recovered'' False, Bootstrap_request] (oms_init [] [], []))"

text \<open>The run goes on to a LIVE system with an open gate and no rearm.\<close>

theorem stale_bootstrap_lifts_halt_witness:
  "s_state (fst (bootstrap_guarded [] True [] None (halt_system [] ''operator'' (fst (bootstrap_request recovering))))) = LS_RECONCILING \<and>
   (let s = fst (run_ops oms_step [Halt_system [] ''operator'', Bootstrap_guarded [] True [] None] (recovering, [])) in
    s_state (full_reset_commit [] (s_state s) (s_lifecycle_generation s) empty_snapshot s) = LS_LIVE \<and>
    s_gate_open (full_reset_commit [] (s_state s) (s_lifecycle_generation s) empty_snapshot s))"
proof -
  have "snd (bootstrap_request recovering) = Inr Route_guarded" "s_audit_script recovering = []"
    "\<not> s_shutdown_requested recovering" "\<not> s_stopped recovering" by code_simp+
  from stale_bootstrap_lifts_halt [OF this refl refl, of "[]" "''operator''"] show ?thesis
    by (simp del: halted_halt) code_simp
qed

subsection \<open>The full-reset fence\<close>

text \<open>The operations that take the OMS out of the state a reset started in.\<close>

fun stops_trading :: "oms_op \<Rightarrow> bool" where
  "stops_trading (Halt_system e r) = True"
| "stops_trading (Freeze_system e r c) = True"
| "stops_trading (Begin_shutdown e r) = True"
| "stops_trading (Journal_failure e c sy) = True"
| "stops_trading (Background_failure k r) = True"
| "stops_trading _ = False"

lemma generation_strict:
  assumes "stops_trading x"
  shows "s_lifecycle_generation (fst sys) < s_lifecycle_generation (fst (oms_step x sys)) \<or>
    s_state (fst (oms_step x sys)) = LS_HALTED"
proof (cases sys)
  case (Pair s held)
  have gen: "s_lifecycle_generation a \<le> s_lifecycle_generation (fail_closed_on_journal_error e c sy a)" for a e c sy
    using progress_fail_closed [OF progress_refl, of a] by (simp add: progress_def)
  have latch: "s_lifecycle_generation s < s_lifecycle_generation (latch_shutdown r' s)" for r'
    by (simp add: latch_shutdown_def Let_def)
  have "s_lifecycle_generation s < s_lifecycle_generation (fst (begin_shutdown e r s)) \<or>
      s_state (fst (begin_shutdown e r s)) = LS_HALTED" for e r
    using latch by (simp add: begin_shutdown_def Let_def)
  moreover have "s_lifecycle_generation s < s_lifecycle_generation (fst (freeze_system e r c s)) \<or>
      s_state (fst (freeze_system e r c s)) = LS_HALTED" for e r c
    by (simp add: freeze_system_def Let_def)
  ultimately show ?thesis using assms by (cases x) (simp_all add: Pair)
qed

lemma commit_live:
  assumes "s_state s \<noteq> LS_LIVE" "s_state (full_reset_commit exc st g sn s) = LS_LIVE"
  shows "st \<in> {LS_BOOTSTRAP, LS_RECONCILING} \<and> s_state s = st \<and> s_lifecycle_generation s = g \<and>
    \<not> s_shutdown_requested s \<and> \<not> s_stopped s"
  using assms by (auto simp: full_reset_commit_def full_reset_resume_def Let_def split: if_splits sum.splits)

text \<open>Claim C25: a full reset cannot override a stop. A reset that reads the state and the lifecycle
  generation when it begins, lets any operations \<open>ys\<close> run, and then commits, turns the OMS LIVE only
  if no halt, freeze, shutdown or journal failure ran meanwhile and the lifecycle state was the same at
  every moment in between.\<close>

theorem full_reset_fence:
  assumes "s = fst (run_ops oms_step ys (s0, held))" and "s_state s \<noteq> LS_LIVE"
    and "s_state (full_reset_commit exc (s_state s0) (s_lifecycle_generation s0) sn s) = LS_LIVE"
  shows "(\<forall>us vs. ys = us @ vs \<longrightarrow> s_state (fst (run_ops oms_step us (s0, held))) = s_state s0) \<and>
    (\<forall>x \<in> set ys. \<not> stops_trading x)"
proof -
  let ?r = "\<lambda>us. fst (run_ops oms_step us (s0, held))"
  have live: "s_state s = s_state s0" "s_lifecycle_generation s = s_lifecycle_generation s0"
    "s_state s0 \<in> {LS_BOOTSTRAP, LS_RECONCILING}"
    using commit_live [OF assms(2,3)] by simp_all
  have between: "s_lifecycle_generation (?r us) = s_lifecycle_generation s0 \<and> s_state (?r us) = s_state s0"
    if "ys = us @ vs" for us vs
  proof -
    have "progress s0 (?r us)" using oms_history.run_between(1) [of "(s0, held)" us] by simp
    moreover have "progress (?r us) s"
      using oms_history.run_between(2) [of us "(s0, held)" vs] assms(1) that by simp
    ultimately show ?thesis using live by (auto simp: progress_def)
  qed
  have "\<not> stops_trading x" if "x \<in> set ys" for x
  proof
    assume stop: "stops_trading x"
    obtain us vs where ys: "ys = us @ x # vs" using \<open>x \<in> set ys\<close> by (meson split_list)
    have "s_lifecycle_generation (?r us) = s_lifecycle_generation s0"
      using between [of us "x # vs"] ys by simp
    moreover have "?r (us @ [x]) = fst (oms_step x (run_ops oms_step us (s0, held)))"
      by (simp add: run_ops_append)
    moreover have "s_lifecycle_generation (?r (us @ [x])) = s_lifecycle_generation s0 \<and>
        s_state (?r (us @ [x])) \<noteq> LS_HALTED"
      using between [of "us @ [x]" vs] ys live(3) by auto
    ultimately show False using generation_strict [OF stop, of "run_ops oms_step us (s0, held)"] by auto
  qed
  with between show ?thesis by blast
qed

theorem full_reset_fence_witness:
  "\<not> stops_trading (Freeze_symbol [] ''BTCUSDT'' ''scope'' False True)"
proof -
  have "s_state (fst (run_ops oms_step [Freeze_symbol [] ''BTCUSDT'' ''scope'' False True] (oms_init [] [], [])))
      \<noteq> LS_LIVE" by code_simp
  moreover have "s_state (full_reset_commit [] (s_state (oms_init [] [])) (s_lifecycle_generation (oms_init [] [])) empty_snapshot
      (fst (run_ops oms_step [Freeze_symbol [] ''BTCUSDT'' ''scope'' False True] (oms_init [] [], [])))) = LS_LIVE"
    by code_simp
  ultimately have "\<forall>x \<in> set [Freeze_symbol [] ''BTCUSDT'' ''scope'' False True]. \<not> stops_trading x"
    by (rule full_reset_fence [OF refl, THEN conjunct2])
  then show ?thesis by (rule bspec) simp
qed

subsection \<open>Capability modes\<close>

definition constraint_ranks :: "(string, oms_capability_mode \<times> string) dict \<Rightarrow> nat set" where
  "constraint_ranks cs = (\<lambda>c. mode_rank (fst (snd c))) ` set cs"

definition selected_of :: "oms_capability_mode option \<Rightarrow> (string, oms_capability_mode \<times> string) dict \<Rightarrow> bool" where
  "selected_of ov cs \<longleftrightarrow> (case ov of
      None \<Rightarrow> constraint_ranks cs = {}
    | Some m \<Rightarrow> mode_rank m \<in> constraint_ranks cs \<and> (\<forall>n \<in> constraint_ranks cs. n \<le> mode_rank m))"

definition override_selected :: "oms \<Rightarrow> bool" where
  "override_selected s \<longleftrightarrow> selected_of (s_mode_override s) (s_mode_constraints s)"

lemma fold_constraint_max:
  "fold (\<lambda>x b. if constraint_less b x then x else b) cs c \<in> insert c (set cs) \<and>
   (\<forall>x \<in> insert c (set cs). mode_rank (fst (snd x)) \<le>
      mode_rank (fst (snd (fold (\<lambda>x b. if constraint_less b x then x else b) cs c))))"
proof (induction cs arbitrary: c)
  case (Cons x xs)
  show ?case
  proof (cases "constraint_less c x")
    case True
    then have "mode_rank (fst (snd c)) \<le> mode_rank (fst (snd x))" by (auto simp: constraint_less_def)
    with True Cons [of x] show ?thesis by (auto intro: le_trans)
  next
    case False
    then have "mode_rank (fst (snd x)) \<le> mode_rank (fst (snd c))" by (auto simp: constraint_less_def)
    with False Cons [of c] show ?thesis by (auto intro: le_trans)
  qed
qed simp

lemma selected_select [simp]: "override_selected (refresh_selected_mode_constraint s)"
proof (cases "s_mode_constraints s")
  case Nil
  then show ?thesis
    by (simp add: override_selected_def selected_of_def constraint_ranks_def refresh_selected_mode_constraint_def)
next
  case (Cons c cs)
  with fold_constraint_max [of cs c] show ?thesis
    by (auto simp: override_selected_def selected_of_def constraint_ranks_def refresh_selected_mode_constraint_def Let_def)
qed

lemma selected_core: "core s' = core s \<Longrightarrow> override_selected s' = override_selected s"
  by (simp add: override_selected_def core_def)

lemma selected_updates:
  "override_selected (close_outbound_gate_locked r h s) = override_selected s"
  "override_selected (refresh_outbound_gate_locked r s) = override_selected s"
  "override_selected (s\<lparr>s_state := st\<rparr>) = override_selected s"
  "override_selected (s\<lparr>s_lifecycle_generation := g\<rparr>) = override_selected s"
  "override_selected (s\<lparr>s_stopped := b\<rparr>) = override_selected s"
  "override_selected (s\<lparr>s_all_order_seal_reason := a\<rparr>) = override_selected s"
  "override_selected (s\<lparr>s_shutdown_requested := b\<rparr>) = override_selected s"
  "override_selected (s\<lparr>s_symbol_guards := t\<rparr>) = override_selected s"
  by (simp_all add: override_selected_def core_def)

interpretation selected_closed: oms_closed_release override_selected
  by (unfold_locales, erule selected_core) (simp_all add: selected_updates)

lemma selected_permits:
  "override_selected (fst (acquire_outbound_order_send_permit_locked risk symbol em s)) = override_selected s"
  "override_selected (release_outbound_order_send_permit risk symbol s) = override_selected s"
  by (simp_all add: override_selected_def acquire_outbound_order_send_permit_locked_def
      release_outbound_order_send_permit_def Let_def)

interpretation oms_modes: invariant_system oms_step "\<lambda>sys. override_selected (fst sys)"
proof
  fix x and sys :: oms_sys
  assume "override_selected (fst sys)"
  then show "override_selected (fst (oms_step x sys))"
    using selected_closed.P_handler [of "fst sys" x] selected_permits
    by (cases x; cases sys) (auto split: sum.splits prod.splits, (metis fst_conv)+)
qed

text \<open>The capability mode is the most restrictive one. In every reachable state the rank of
  the current mode is the maximum of the rank the lifecycle state demands and of the ranks of all
  active constraints, so no constraint is ever masked and none outlives its removal.\<close>

theorem capability_most_restrictive:
  assumes "s = fst (run_ops oms_step xs (oms_init symbols script, []))"
  shows "mode_rank (s_capability_mode s) =
    Max (insert (mode_rank (capability_mode_for_state (s_state s)))
      ((\<lambda>c. mode_rank (fst (snd c))) ` set (s_mode_constraints s)))"
proof -
  have "override_selected s" unfolding assms
    by (rule oms_modes.run_inv) (simp add: oms_init_def override_selected_def selected_of_def constraint_ranks_def)
  moreover have "s_capability_mode s = effective_mode s" using reach_inv assms by (simp add: oms_inv_def)
  ultimately show ?thesis
    by (intro Max_eqI [symmetric])
       (auto simp: override_selected_def selected_of_def effective_mode_def Let_def constraint_ranks_def
         split: option.splits)
qed

theorem capability_most_restrictive_witness:
  "mode_rank (s_capability_mode (fst (run_ops oms_step
     [Full_reset_commit [] LS_BOOTSTRAP 0 empty_snapshot, Set_mode [] CM_PASSIVE_ONLY ''feed:lag'', Set_mode [] CM_DEGRADED ''cpu'']
     (oms_init [] [], [])))) = 2"
proof -
  let ?s = "fst (run_ops oms_step
     [Full_reset_commit [] LS_BOOTSTRAP 0 empty_snapshot, Set_mode [] CM_PASSIVE_ONLY ''feed:lag'', Set_mode [] CM_DEGRADED ''cpu'']
     (oms_init [] [], []))"
  have "s_mode_constraints ?s = [(''feed:'', CM_PASSIVE_ONLY, ''feed:lag''), (''cpu'', CM_DEGRADED, ''cpu'')]"
    by code_simp
  moreover have "s_state ?s = LS_LIVE" by code_simp
  ultimately show ?thesis
    by (subst capability_most_restrictive [OF refl]) (simp add: capability_mode_for_state_def)
qed

subsection \<open>Frozen symbols\<close>

lemma frozen_ensure [simp]: "is_frozen (ensure_records owner k t) j = is_frozen t j"
  by (simp add: is_frozen_def ensure_records_def Let_def split: option.splits)

lemma frozen_refresh:
  "records_of k t \<noteq> [] \<Longrightarrow> is_frozen (refresh_effective k t) k"
  "j \<noteq> k \<Longrightarrow> is_frozen (refresh_effective k t) j = is_frozen t j"
  by (auto simp: is_frozen_def refresh_effective_def split: list.splits)

lemma frozen_commit:
  "is_frozen (commit_guard k ow r e t) k"
  "is_frozen t j \<Longrightarrow> is_frozen (commit_guard k ow r e t) j"
proof -
  show k: "is_frozen (commit_guard k ow r e t) k" by (simp add: commit_guard_def frozen_refresh(1))
  show "is_frozen t j \<Longrightarrow> is_frozen (commit_guard k ow r e t) j"
    using k by (cases "j = k") (simp_all add: commit_guard_def frozen_refresh(2), simp add: is_frozen_def)
qed

lemma frozen_release_other: "j \<noteq> k \<Longrightarrow> is_frozen (release_guard k ow t) j = is_frozen t j"
  by (simp add: release_guard_def frozen_refresh, simp add: is_frozen_def)

definition symbol_frozen :: "string \<Rightarrow> oms \<Rightarrow> bool" where
  "symbol_frozen sy s = is_frozen (s_symbol_guards s) sy"

lemma symbol_frozen_core: "core s' = core s \<Longrightarrow> symbol_frozen sy s' = symbol_frozen sy s"
  by (simp add: symbol_frozen_def core_def)

lemma symbol_frozen_updates:
  "symbol_frozen sy (close_outbound_gate_locked r h s) = symbol_frozen sy s"
  "symbol_frozen sy (refresh_outbound_gate_locked r s) = symbol_frozen sy s"
  "symbol_frozen sy (refresh_selected_mode_constraint (s\<lparr>s_mode_constraints := d\<rparr>)) = symbol_frozen sy s"
  "symbol_frozen sy (s\<lparr>s_state := st\<rparr>) = symbol_frozen sy s"
  "symbol_frozen sy (s\<lparr>s_lifecycle_generation := g\<rparr>) = symbol_frozen sy s"
  "symbol_frozen sy (s\<lparr>s_stopped := b\<rparr>) = symbol_frozen sy s"
  "symbol_frozen sy (s\<lparr>s_all_order_seal_reason := a\<rparr>) = symbol_frozen sy s"
  "symbol_frozen sy (s\<lparr>s_shutdown_requested := b\<rparr>) = symbol_frozen sy s"
  "symbol_frozen sy (s\<lparr>s_symbol_guards := t\<rparr>) = is_frozen t sy"
  by (simp_all add: symbol_frozen_def core_def)

interpretation frozen_closed: oms_closed "symbol_frozen sy" for sy
  by (unfold_locales, erule symbol_frozen_core)
     (simp_all add: symbol_frozen_updates, simp_all add: symbol_frozen_def frozen_commit)

text \<open>Clearing another symbol, alone or in a recovery, keeps the symbol frozen.\<close>

lemma symbol_frozen_clear:
  assumes "symbol_frozen sy s" "upper sy' \<noteq> sy"
  shows "symbol_frozen sy (fst (clear_symbol_freeze sy' r ee er eo s))"
proof -
  have "is_frozen (s_symbol_guards s) sy" using assms(1) by (simp add: symbol_frozen_def)
  then show ?thesis
    using assms frozen_release_other [of sy "upper sy'"]
    by (simp add: clear_symbol_freeze_def Let_def symbol_frozen_updates split: list.splits)
qed

fun may_release :: "string \<Rightarrow> oms_op \<Rightarrow> bool" where
  "may_release sy (Clear_symbol sy' r ee er eo) = (upper sy' = sy)"
| "may_release sy x = releases_symbol x"

lemma symbol_frozen_handler:
  assumes "symbol_frozen sy s" "\<not> may_release sy x"
  shows "symbol_frozen sy (oms_handler x s)"
proof (cases "releases_symbol x")
  case True
  with assms show ?thesis by (cases x) (auto intro: symbol_frozen_clear)
qed (use assms in \<open>simp add: frozen_closed.P_handler_keeping\<close>)

lemma symbol_frozen_step:
  assumes "symbol_frozen sy (fst sys)" "\<not> may_release sy x"
  shows "symbol_frozen sy (fst (oms_step x sys))"
proof (cases sys)
  case (Pair s held)
  have "symbol_frozen sy (fst (acquire_outbound_order_send_permit_locked risk symbol em s)) = symbol_frozen sy s"
    "symbol_frozen sy (release_outbound_order_send_permit risk symbol s) = symbol_frozen sy s" for risk symbol em
    by (simp_all add: symbol_frozen_def acquire_outbound_order_send_permit_locked_def
        release_outbound_order_send_permit_def Let_def)
  with symbol_frozen_handler [of sy s x] assms show ?thesis
    by (cases x) (auto simp: Pair split: sum.splits prod.splits, (metis fst_conv)+)
qed

lemma symbol_frozen_run:
  "symbol_frozen sy (fst sys) \<Longrightarrow> \<forall>x \<in> set xs. \<not> may_release sy x \<Longrightarrow>
     symbol_frozen sy (fst (run_ops oms_step xs sys))"
proof (induction xs arbitrary: sys)
  case (Cons x xs)
  then have "symbol_frozen sy (fst (oms_step x sys))" by (intro symbol_frozen_step) auto
  with Cons show ?case by simp
qed simp

text \<open>A frozen symbol gets no new risk. Once \<open>freeze_symbol\<close> has returned an epoch, every
  risk-increasing permit for that symbol is refused, through rearms, mode changes, freezes, quarantines
  and clears of other symbols, until a clear of that symbol or a recovery that proved the exchange state
  (the end of a full reset or of a reconcile) runs.\<close>

theorem frozen_symbol_refuses_risk:
  assumes "freeze_symbol exc symbol reason cancel drained s0 = (s1, Inr (Some epoch))"
    and "\<forall>x \<in> set xs. \<not> may_release (upper symbol) x"
    and "s = fst (run_ops oms_step xs (s1, held))"
  shows "\<exists>why. acquire_outbound_order_send_permit_locked True symbol emergency s = (s, Inl why)"
proof -
  have "symbol_frozen (upper symbol) s1"
    using assms(1)
    by (auto simp: freeze_symbol_def freeze_symbol_locked_def enforce_symbol_guard_def Let_def frozen_commit
        symbol_frozen_updates frozen_closed.P_halt split: if_splits sum.splits)
  with symbol_frozen_run [of "upper symbol" "(s1, held)" xs] assms(2,3)
  have "is_frozen (s_symbol_guards s) (upper symbol)" by (simp add: symbol_frozen_def)
  then show ?thesis
    by (auto simp: acquire_outbound_order_send_permit_locked_def Let_def is_frozen_def)
qed

theorem frozen_symbol_refuses_risk_witness:
  "\<exists>s why. s = fst (run_ops oms_step [Halt_system [] ''feed'', Clear_symbol ''ethusdt'' [] None [] []]
       (fst (freeze_symbol [] ''btcusdt'' ''latency:80'' False True (oms_init [] [])), [])) \<and>
     acquire_outbound_order_send_permit_locked True ''btcusdt'' False s = (s, Inl why)"
proof -
  have "snd (freeze_symbol [] ''btcusdt'' ''latency:80'' False True (oms_init [] [])) = Inr (Some 1)"
    by code_simp
  then have "freeze_symbol [] ''btcusdt'' ''latency:80'' False True (oms_init [] []) =
     (fst (freeze_symbol [] ''btcusdt'' ''latency:80'' False True (oms_init [] [])), Inr (Some 1))"
    by (metis prod.collapse)
  moreover have "\<forall>x \<in> set [Halt_system [] ''feed'', Clear_symbol ''ethusdt'' [] None [] []].
      \<not> may_release (upper ''btcusdt'') x" by code_simp
  ultimately show ?thesis
    by (simp only: ex_simps simp_thms, elim frozen_symbol_refuses_risk [OF _ _ refl])
qed

end
