(* ===== verification/Order_Admission.thy ===== *)
theory Order_Admission
  imports Order_Checks OMS_Lifecycle
begin

text \<open>
  The admission of a strategy order: the first part of \<open>OMSOrderSubmission.submit_order\<close>
  (\<open>oms/order_submission.py\<close>), from the intent to the durable \<open>PREPARED\<close> record, with the mode adaptation and the
  block reasons of \<open>oms/order_policy.py\<close> and the cleanup of \<open>oms/submit_settlement.py\<close>. Risk evaluation,
  permit and reservation are one critical section of the code and one function here; it composes the safety
  state of \<open>OMS_State\<close> with the exposure, the account and the validator.

  Arguments stand for: the market cache, the iteration order of sets, contract data and sensors; the outcome of the
  calibration reservation (a component that is not modelled); the outcomes of the journal writes.
\<close>

subsection \<open>State\<close>

record desk =
  d_oms :: oms
  d_exposure :: exposure
  d_account :: account
  d_validator :: validator
  d_cancel_requested :: "string list"     \<comment> \<open>\<open>_submit_cancel_requested_oids\<close>\<close>
  d_queued_cancels :: "string list"       \<comment> \<open>cancels handed to the background executor\<close>

abbreviation d_orders :: "desk \<Rightarrow> order list" where
  "d_orders d \<equiv> map snd (s_orders (d_oms d))"

text \<open>What the critical section reads of its surroundings.\<close>

record market =
  mk_cache :: cache
  mk_iter :: "string list \<Rightarrow> string list"
  mk_info :: "contract_info option"
  mk_now :: rat
  mk_rate_now :: rat

subsection \<open>Steps that refuse_if, raise or go on\<close>

text \<open>\<open>Lost\<close> is a refusal after which the local variable \<open>intent\<close> is \<open>None\<close>: \<open>adapt_intent_for_trading_mode\<close> returns
  \<open>(None, reason)\<close> and the caller unpacks the pair into \<open>intent\<close>.\<close>

datatype stopped = Refused string | Lost string | Raised py_exc

type_synonym 'a step = "desk \<Rightarrow> desk \<times> (stopped + 'a)"

definition sbind :: "'a step \<Rightarrow> ('a \<Rightarrow> 'b step) \<Rightarrow> 'b step" where
  "sbind m f d = (case m d of (d', Inl e) \<Rightarrow> (d', Inl e) | (d', Inr x) \<Rightarrow> f x d')"

definition refuse_if :: "string \<Rightarrow> unit step" where
  "refuse_if reason d = (d, if reason = [] then Inr () else Inl (Refused reason))"

lemma sbind_Inr: "sbind m f d = (d', Inr y) \<longleftrightarrow> (\<exists>d1 x. m d = (d1, Inr x) \<and> f x d1 = (d', Inr y))"
  by (auto simp: sbind_def split: prod.split sum.split)

lemma refuse_if_Inr [simp]: "refuse_if r d = (d', Inr u) \<longleftrightarrow> r = [] \<and> d' = d"
  by (auto simp: refuse_if_def)

subsection \<open>Block reasons and mode adaptation\<close>

definition ensure_mode :: "oms_capability_mode step" where
  "ensure_mode d =
     (let (s, ok) = ensure_capability_mode_consistent (d_oms d) in
      (d\<lparr>d_oms := s\<rparr>, if ok then Inr (s_capability_mode s) else Inl (Raised JournalError)))"

definition freeze_reason :: "policy_config \<Rightarrow> string \<Rightarrow> string \<Rightarrow> oms \<Rightarrow> string" where
  "freeze_reason c strategy_id symbol s =
     (let venue_reason = dgetd (gt_guards (s_venue_guards s)) (upper (pc_venue c)) [];
          symbol_reason = (if symbol = [] then [] else dgetd (gt_guards (s_symbol_guards s)) (upper symbol) []);
          strategy_reason = get_strategy_freeze_reason strategy_id symbol s
      in if venue_reason \<noteq> [] then ''venue_frozen:'' @ venue_reason
         else if symbol_reason \<noteq> [] then ''symbol_frozen:'' @ symbol_reason
         else if strategy_reason \<noteq> [] then ''strategy_frozen:'' @ strategy_reason
         else [])"

definition get_order_block_reason :: "policy_config \<Rightarrow> string \<Rightarrow> string \<Rightarrow> bool \<Rightarrow> unit step" where
  "get_order_block_reason c strategy_id symbol reduce_only =
     sbind ensure_mode (\<lambda>mode d.
       if \<not> trading_mode mode \<and> mode \<noteq> CM_REDUCE_ONLY
       then refuse_if (''open_risk_blocked:'' @ capability_value mode @ '':'' @
              str_or (s_capability_reason (d_oms d)) (lifecycle_value (s_state (d_oms d)))) d
       else if \<not> trading_mode mode \<and> \<not> reduce_only then refuse_if ''oms_mode_reduce_only'' d
       else refuse_if (freeze_reason c strategy_id symbol (d_oms d)) d)"

definition degraded_intent :: "order_intent \<Rightarrow> order_intent" where
  "degraded_intent i = intent_post_init (i\<lparr>oi_order_type := ''LIMIT'', oi_time_in_force := ''GTX'', oi_is_post_only := True,
     oi_policy := PASSIVE, oi_tag := (if oi_tag i \<noteq> [] then oi_tag i @ ''|degraded'' else ''degraded'')\<rparr>)"

definition adapt_intent_for_trading_mode :: "policy_config \<Rightarrow> order_intent \<Rightarrow> order_intent step" where
  "adapt_intent_for_trading_mode c i =
     sbind ensure_mode (\<lambda>mode d.
       if mode = CM_REDUCE_ONLY \<and> \<not> oi_reduce_only i then (d, Inl (Lost ''oms_mode_reduce_only''))
       else if mode = CM_PASSIVE_ONLY \<and> \<not> oi_is_post_only i then (d, Inl (Lost ''oms_mode_passive_only''))
       else if mode = CM_DEGRADED \<and> pc_degraded_aggressive_to_passive c \<and> \<not> oi_is_post_only i then
         let (s, ok) = audit ''intent_degraded_to_passive'' (d_oms d) in
         (d\<lparr>d_oms := s\<rparr>, if ok then Inr (degraded_intent i) else Inl (Raised JournalError))
       else (d, Inr i))"

subsection \<open>The critical section\<close>

definition run_validator :: "market \<Rightarrow> pyval \<Rightarrow> pyval \<Rightarrow> order_intent \<Rightarrow> order_intent step" where
  "run_validator mk price0 volume0 i d =
     (let (v, i1, reason) = validate_params (mk_cache mk) (mk_info mk) (mk_now mk) (mk_rate_now mk) price0 volume0 i (d_validator d)
      in (d\<lparr>d_validator := v\<rparr>, if reason = [] then Inr i1 else Inl (Refused reason)))"

definition check_exposure :: "policy_config \<Rightarrow> market \<Rightarrow> order_intent \<Rightarrow> unit step" where
  "check_exposure c mk i d =
     (if oi_reduce_only i then
        let (ok, reason) = check_reduce_only (oi_symbol i) (oi_side i) (oi_volume i) (d_exposure d) in
        (d, if ok then Inr () else Inl (Refused reason))
      else
        let (a, covered) = check_margin (mk_cache mk) (d_exposure d) (fl (oi_price i * oi_volume i)) (d_account d);
            d1 = d\<lparr>d_account := a\<rparr>
        in case covered of
             Inl e \<Rightarrow> (d1, Inl (Raised e))
           | Inr False \<Rightarrow> (d1, Inl (Refused ''insufficient_margin''))
           | Inr True \<Rightarrow>
               let (ok, reason) = check_risk (mk_iter mk) (mk_cache mk) (d_exposure d) (oi_symbol i) (oi_side i) (oi_volume i)
                     (pc_max_pos_notional c) (pc_max_account_gross_notional c) (Fin (oi_price i)) (pc_max_concurrent_symbols c)
               in (d1, if ok then Inr () else Inl (Refused (''exposure_limit:'' @ reason))))"

text \<open>Everything that is checked before the permit; the result is the intent as adapted and checked.\<close>

definition admission_checks ::
  "policy_config \<Rightarrow> market \<Rightarrow> sensors \<Rightarrow> order_intent \<Rightarrow> pyval \<Rightarrow> pyval \<Rightarrow> order_intent step" where
  "admission_checks c mk sn intent price0 volume0 =
     sbind (get_order_block_reason c (oi_strategy_id intent) (oi_symbol intent) (oi_reduce_only intent)) (\<lambda>_.
     sbind (adapt_intent_for_trading_mode c intent) (\<lambda>i0.
     sbind (run_validator mk price0 volume0 i0) (\<lambda>i.
     sbind (\<lambda>d. refuse_if (get_submission_safety_reason c sn (d_account d) (d_orders d) i) d) (\<lambda>_.
     sbind (check_exposure c mk i) (\<lambda>_.
     sbind (\<lambda>d. refuse_if (get_strategy_budget_rejection (mk_iter mk) (mk_cache mk) c (d_exposure d) i) d) (\<lambda>_.
       (\<lambda>d. (d, Inr i))))))))"

definition acquire_permit :: "order_intent \<Rightarrow> int step" where
  "acquire_permit i d =
     (let (s, r) = acquire_outbound_order_send_permit_locked (\<not> oi_reduce_only i) (oi_symbol i) False (d_oms d) in
      (d\<lparr>d_oms := s\<rparr>, case r of Inl reason \<Rightarrow> Inl (Refused reason) | Inr epoch \<Rightarrow> Inr epoch))"

definition make_request :: "policy_config \<Rightarrow> order_intent \<Rightarrow> order_request" where
  "make_request c i = request_post_init \<lparr>rq_symbol = oi_symbol i, rq_price = oi_price i, rq_volume = oi_volume i,
     rq_side = side_value (oi_side i), rq_order_type = oi_order_type i, rq_time_in_force = oi_time_in_force i,
     rq_post_only = oi_is_post_only i, rq_reduce_only = oi_reduce_only i,
     rq_self_trade_prevention_mode = pc_self_trade_prevention_mode c\<rparr>"

text \<open>\<open>self.exposure.update_open_orders(self.orders)\<close> and \<open>self.account.calculate()\<close>.\<close>

definition recompute :: "cache \<Rightarrow> unit step" where
  "recompute ca d =
     (let ex = update_open_orders (d_orders d) (d_exposure d);
          (a, r) = calculate ca ex None None (d_account d)
      in (d\<lparr>d_exposure := ex, d_account := a\<rparr>, case r of Inl e \<Rightarrow> Inl (Raised e) | Inr _ \<Rightarrow> Inr ()))"

definition set_order :: "string \<Rightarrow> order \<Rightarrow> desk \<Rightarrow> desk" where
  "set_order oid ord d = d\<lparr>d_oms := (d_oms d)\<lparr>s_orders := dset oid ord (s_orders (d_oms d))\<rparr>\<rparr>"

definition drop_order :: "string \<Rightarrow> desk \<Rightarrow> desk" where
  "drop_order oid d = d\<lparr>d_oms := (d_oms d)\<lparr>s_orders := ddel oid (s_orders (d_oms d))\<rparr>\<rparr>"

definition add_settling :: "string \<Rightarrow> desk \<Rightarrow> desk" where
  "add_settling oid d = d\<lparr>d_oms := (d_oms d)\<lparr>s_settling := List.insert oid (s_settling (d_oms d))\<rparr>\<rparr>"

definition register_order :: "cache \<Rightarrow> clock \<Rightarrow> string \<Rightarrow> order_intent \<Rightarrow> unit step" where
  "register_order ca clk oid i d =
     (case mark_submitting clk (order_init clk oid i) of
        (ord, Inl e) \<Rightarrow> (set_order oid ord d, Inl (Raised e))
      | (ord, Inr _) \<Rightarrow> sbind (recompute ca) (\<lambda>_ d1. (add_settling oid d1, Inr ())) (set_order oid ord d))"

text \<open>The critical section: the refusal carries whether a permit is held and whether the intent is lost, the exception also whether the order is
  registered. \<open>calibration\<close> is the outcome of the calibration reservation.\<close>

datatype admission =
    Turned_away string bool bool
  | Broke py_exc bool bool
  | Admitted order_intent order_request int

fun stopped_as :: "stopped \<Rightarrow> bool \<Rightarrow> bool \<Rightarrow> admission" where
  "stopped_as (Refused r) permit registered = Turned_away r permit False"
| "stopped_as (Lost r) permit registered = Turned_away r permit True"
| "stopped_as (Raised e) permit registered = Broke e permit registered"

definition admit ::
  "policy_config \<Rightarrow> market \<Rightarrow> sensors \<Rightarrow> stopped option \<Rightarrow> clock \<Rightarrow> string \<Rightarrow> order_intent \<Rightarrow> pyval \<Rightarrow> pyval
   \<Rightarrow> desk \<Rightarrow> desk \<times> admission" where
  "admit c mk sn calibration clk oid intent price0 volume0 d =
     (case admission_checks c mk sn intent price0 volume0 d of
        (d1, Inl e) \<Rightarrow> (d1, stopped_as e False False)
      | (d1, Inr i) \<Rightarrow>
          (case acquire_permit i d1 of
             (d2, Inl e) \<Rightarrow> (d2, stopped_as e False False)
           | (d2, Inr epoch) \<Rightarrow>
               (case calibration of
                  Some e \<Rightarrow> (d2, stopped_as e True False)
                | None \<Rightarrow>
                    (case register_order (mk_cache mk) clk oid i d2 of
                       (d3, Inl e) \<Rightarrow> (d3, stopped_as e True True)
                     | (d3, Inr _) \<Rightarrow> (d3, Admitted i (make_request c i) epoch)))))"

subsection \<open>Cleanup\<close>

fun exc_name :: "py_exc \<Rightarrow> string" where
  "exc_name TypeError = ''TypeError''"
| "exc_name KeyError = ''KeyError''"
| "exc_name ZeroDivisionError = ''ZeroDivisionError''"
| "exc_name AttributeError = ''AttributeError''"
| "exc_name OverflowError = ''OverflowError''"
| "exc_name (ValueError _) = ''ValueError''"
| "exc_name (OrderBookGapError _) = ''OrderBookGapError''"
| "exc_name JournalError = ''JournalError''"
| "exc_name (DatabaseError n) = n"

definition on_oms :: "(oms \<Rightarrow> oms) \<Rightarrow> desk \<Rightarrow> desk" where
  "on_oms f d = d\<lparr>d_oms := f (d_oms d)\<rparr>"

definition release_permit :: "order_intent \<Rightarrow> desk \<Rightarrow> desk" where
  "release_permit i = on_oms (release_outbound_order_send_permit (\<not> oi_reduce_only i) (oi_symbol i))"

text \<open>A queued cancel goes to the background executor; its execution is not part of the submission.\<close>

definition finish_submit_settlement :: "string \<Rightarrow> desk \<Rightarrow> desk" where
  "finish_submit_settlement oid d =
     (let s = d_oms d in
      if oid \<notin> set (s_settling s) then d
      else
        let d1 = on_oms (\<lambda>s. s\<lparr>s_settling := removeAll oid (s_settling s)\<rparr>) d;
            should_cancel = (oid \<in> set (d_cancel_requested d) \<and>
              (case dget (s_orders s) oid of None \<Rightarrow> False | Some ord \<Rightarrow> is_active ord) \<and>
              \<not> s_stopped s \<and> ''journal_failure'' \<notin> s_gate_holds s)
        in if should_cancel then d1\<lparr>d_queued_cancels := d_queued_cancels d @ [oid]\<rparr>
           else d1\<lparr>d_cancel_requested := removeAll oid (d_cancel_requested d)\<rparr>)"

definition mark_order :: "string \<Rightarrow> order_status set \<Rightarrow> (order \<Rightarrow> order \<times> bool res) \<Rightarrow> desk \<Rightarrow> desk" where
  "mark_order oid from f d =
     (case dget (s_orders (d_oms d)) oid of
        None \<Rightarrow> d
      | Some ord \<Rightarrow> if o_status ord \<in> from then set_order oid (fst (f ord)) d else d)"

definition fence_settlement :: "clock \<Rightarrow> string \<Rightarrow> string \<Rightarrow> py_exc \<Rightarrow> desk \<Rightarrow> desk" where
  "fence_settlement clk oid context e = on_oms (close_gate_after_submit_settlement_failure clk oid context (exc_name e))"

text \<open>Drop the order and recompute; an exception there closes the gate for good.\<close>

definition drop_and_recompute :: "cache \<Rightarrow> clock \<Rightarrow> string \<Rightarrow> string \<Rightarrow> desk \<Rightarrow> desk" where
  "drop_and_recompute ca clk oid context d =
     (case recompute ca (drop_order oid d) of
        (d1, Inl (Raised e)) \<Rightarrow> fence_settlement clk oid context e d1
      | (d1, _) \<Rightarrow> d1)"

definition withdraw_order :: "cache \<Rightarrow> clock \<Rightarrow> string \<Rightarrow> string \<Rightarrow> order_intent \<Rightarrow> bool \<Rightarrow> desk \<Rightarrow> desk" where
  "withdraw_order ca clk exc oid i registered d =
     (let d1 = on_oms (\<lambda>s. fst (latch_journal_failure_locked exc ''prepare_submit'' (oi_symbol i) s)) d in
      if registered
      then finish_submit_settlement oid (drop_and_recompute ca clk oid ''prepare_submit_journal_cleanup''
             (mark_order oid {SUBMITTING} (mark_rejected_locally clk ''durable_journal_unavailable'') d1))
      else fst (recompute ca (drop_order oid d1)))"

definition prepare_journal_failed ::
  "cache \<Rightarrow> clock \<Rightarrow> string \<Rightarrow> string \<Rightarrow> order_intent \<Rightarrow> bool \<Rightarrow> bool \<Rightarrow> desk \<Rightarrow> desk" where
  "prepare_journal_failed ca clk exc oid i permit registered d =
     (let d1 = withdraw_order ca clk exc oid i registered d;
          d2 = (if permit then release_permit i d1 else d1)
      in on_oms (fail_closed_on_journal_error exc ''prepare_submit'' (oi_symbol i)) d2)"

text \<open>\<open>_cleanup_pre_dispatch_submit_exception\<close>; \<open>snapshot\<close> is the outcome of its journal write, and the result says
  whether the journal failed.\<close>

definition cleanup_pre_dispatch ::
  "cache \<Rightarrow> clock \<Rightarrow> string \<Rightarrow> string \<Rightarrow> string \<Rightarrow> order_intent \<Rightarrow> py_exc \<Rightarrow> py_exc option \<Rightarrow> desk \<Rightarrow> desk \<times> bool" where
  "cleanup_pre_dispatch ca clk exc context oid i e snapshot d =
     (let d1 = mark_order oid {CREATED, SUBMITTING} (mark_rejected_locally clk (''pre_dispatch_exception:'' @ exc_name e)) d;
          terminal = (case dget (s_orders (d_oms d1)) oid of None \<Rightarrow> False | Some ord \<Rightarrow> is_terminal ord);
          (d2, failed) =
            (case snapshot of
               None \<Rightarrow> (if terminal then drop_and_recompute ca clk oid context d1 else d1, False)
             | Some JournalError \<Rightarrow>
                 (let d' = on_oms (\<lambda>s. fst (latch_journal_failure_locked exc (context @ ''_cleanup'') (oi_symbol i) s)) d1 in
                  (if terminal then drop_and_recompute ca clk oid (context @ ''_journal_cleanup'') d' else d', True))
             | Some e' \<Rightarrow> (fence_settlement clk oid context e' d1, False))
      in (finish_submit_settlement oid d2, failed))"

definition prepare_exception ::
  "cache \<Rightarrow> clock \<Rightarrow> string \<Rightarrow> string \<Rightarrow> order_intent \<Rightarrow> bool \<Rightarrow> bool \<Rightarrow> py_exc \<Rightarrow> py_exc option \<Rightarrow> desk \<Rightarrow> desk" where
  "prepare_exception ca clk exc oid i permit registered e snapshot d =
     (let (d1, failed) = (if registered then cleanup_pre_dispatch ca clk exc ''prepare_submit_exception'' oid i e snapshot d
                          else (d, False));
          d2 = (if permit then release_permit i d1 else d1)
      in if failed then on_oms (fail_closed_on_journal_error exc ''prepare_submit_exception_cleanup'' (oi_symbol i)) d2 else d2)"

subsection \<open>From intent to durable preparation\<close>

datatype prepare_outcome =
    Answered bool string           \<comment> \<open>accepted, reason\<close>
  | Reraised py_exc
  | Prepared order_intent order_request int

text \<open>\<open>reject_write\<close> is the outcome of the journal writes of \<open>_reject_intent_locally\<close>, \<open>prepared_write\<close> that of the
  \<open>PREPARED\<close> batch, \<open>snapshot\<close> that of the snapshot during cleanup, \<open>exc\<close> the text of a journal error. The handler
  of a journal error reads \<open>intent.symbol\<close>, which raises when the intent is lost.\<close>

definition prepare_failed ::
  "cache \<Rightarrow> clock \<Rightarrow> string \<Rightarrow> string \<Rightarrow> order_intent \<Rightarrow> py_exc option \<Rightarrow> py_exc \<Rightarrow> bool \<Rightarrow> bool \<Rightarrow> desk
   \<Rightarrow> desk \<times> prepare_outcome" where
  "prepare_failed ca clk exc oid i snapshot e permit registered d =
     (if e = JournalError
      then (prepare_journal_failed ca clk exc oid i permit registered d, Answered False ''durable_journal_unavailable'')
      else (prepare_exception ca clk exc oid i permit registered e snapshot d, Reraised e))"

definition submit_prepare ::
  "policy_config \<Rightarrow> market \<Rightarrow> sensors \<Rightarrow> stopped option \<Rightarrow> clock \<Rightarrow> string \<Rightarrow> py_exc option \<Rightarrow> py_exc option \<Rightarrow> py_exc option
   \<Rightarrow> string \<Rightarrow> order_intent \<Rightarrow> pyval \<Rightarrow> pyval \<Rightarrow> desk \<Rightarrow> desk \<times> prepare_outcome" where
  "submit_prepare c mk sn calibration clk exc reject_write prepared_write snapshot oid intent price0 volume0 d =
     (let failed = prepare_failed (mk_cache mk) clk exc oid intent snapshot in
      case admit c mk sn calibration clk oid intent price0 volume0 d of
        (d1, Turned_away reason permit lost) \<Rightarrow>
          (let d2 = (if permit then release_permit intent d1 else d1) in
           case reject_write of
             None \<Rightarrow> (d2, Answered False reason)
           | Some e \<Rightarrow> if lost \<and> e = JournalError then (d2, Reraised AttributeError) else failed e False False d2)
      | (d1, Broke e permit registered) \<Rightarrow> failed e permit registered d1
      | (d1, Admitted i rq epoch) \<Rightarrow>
          (case prepared_write of
             None \<Rightarrow> (d1, Prepared i rq epoch)
           | Some e \<Rightarrow> failed e True True d1))"

subsection \<open>What the checks leave alone\<close>

definition kept :: "desk \<Rightarrow> desk \<Rightarrow> bool" where
  "kept d d' \<longleftrightarrow> counters (d_oms d') = counters (d_oms d) \<and> s_orders (d_oms d') = s_orders (d_oms d) \<and>
     s_settling (d_oms d') = s_settling (d_oms d) \<and> d_exposure d' = d_exposure d"

definition keeps :: "'a step \<Rightarrow> bool" where
  "keeps m \<longleftrightarrow> (\<forall>d. kept d (fst (m d)))"

lemma kept_refl [simp]: "kept d d"
  by (simp add: kept_def)

lemma kept_trans: "kept d d1 \<Longrightarrow> kept d1 d2 \<Longrightarrow> kept d d2"
  by (simp add: kept_def)

lemma keepsD: "keeps m \<Longrightarrow> m d = (d', r) \<Longrightarrow> kept d d'"
  by (metis fst_conv keeps_def)

lemma keeps_sbind:
  assumes "keeps m" and "\<And>x. keeps (f x)"
  shows "keeps (sbind m f)"
  unfolding keeps_def
proof
  fix d
  obtain d1 r where m: "m d = (d1, r)" by fastforce
  then have "kept d d1" by (rule keepsD [OF assms(1)])
  then show "kept d (fst (sbind m f d))"
    using m assms(2) by (auto simp: sbind_def keeps_def intro: kept_trans split: sum.split)
qed

lemma audit_kept [simp]:
  "counters (fst (audit k s)) = counters s" "s_orders (fst (audit k s)) = s_orders s"
  "s_settling (fst (audit k s)) = s_settling s"
  by (simp_all add: audit_def counters_def split: list.split)

lemma sync_kept [simp]:
  "counters (fst (sync_capability_mode r s)) = counters s"
  "s_orders (fst (sync_capability_mode r s)) = s_orders s"
  "s_settling (fst (sync_capability_mode r s)) = s_settling s"
  by (simp_all add: sync_capability_mode_def refresh_outbound_gate_locked_def Let_def) (simp_all add: counters_def)

lemma ensure_kept [simp]:
  "counters (fst (ensure_capability_mode_consistent s)) = counters s"
  "s_orders (fst (ensure_capability_mode_consistent s)) = s_orders s"
  "s_settling (fst (ensure_capability_mode_consistent s)) = s_settling s"
  by (simp_all add: ensure_capability_mode_consistent_def)

lemma keeps_simple: "keeps ensure_mode" "keeps (refuse_if r)" "keeps (\<lambda>d. refuse_if (g d) d)" "keeps (\<lambda>d. (d, Inr x))"
  by (auto simp: keeps_def ensure_mode_def refuse_if_def kept_def case_prod_unfold Let_def)

lemma keeps_block: "keeps (get_order_block_reason c st sy ro)"
  unfolding get_order_block_reason_def
  by (rule keeps_sbind) (auto simp: keeps_simple, auto simp: keeps_def refuse_if_def)

lemma keeps_adapt: "keeps (adapt_intent_for_trading_mode c i)"
  unfolding adapt_intent_for_trading_mode_def
  by (rule keeps_sbind) (auto simp: keeps_simple, auto simp: keeps_def kept_def Let_def case_prod_unfold)

lemma keeps_validator: "keeps (run_validator mk p v i)"
  by (simp add: keeps_def run_validator_def kept_def Let_def case_prod_unfold)

lemma keeps_exposure: "keeps (check_exposure c mk i)"
  by (simp add: keeps_def check_exposure_def kept_def Let_def case_prod_unfold split: sum.split bool.split)

lemma keeps_checks: "keeps (admission_checks c mk sn i p v)"
  unfolding admission_checks_def
  by (intro keeps_sbind keeps_block keeps_adapt keeps_validator keeps_exposure keeps_simple)

subsection \<open>A submission that is not prepared leaves nothing behind\<close>

text \<open>The desk with the permits held by others, and what is true of an order's id when its submission is over.\<close>

definition clear_of :: "string \<Rightarrow> (bool \<times> string) list \<Rightarrow> desk \<Rightarrow> bool" where
  "clear_of oid permits d \<longleftrightarrow> permits_exact (d_oms d, permits) \<and> oid \<notin> set (s_settling (d_oms d)) \<and>
     (\<forall>ord. dget (s_orders (d_oms d)) oid = Some ord \<longrightarrow> \<not> is_active ord)"

definition others :: "string \<Rightarrow> desk \<Rightarrow> string \<Rightarrow> order option" where
  "others oid d = (dget (s_orders (d_oms d)))(oid := None)"

lemma permits_counters: "counters s = counters s' \<Longrightarrow> permits_exact (s, permits) = permits_exact (s', permits)"
  by (simp add: permits_exact_def counters_def)

lemma latch_frame [simp]:
  "counters (fst (latch_journal_failure_locked e c sy s)) = counters s"
  "s_orders (fst (latch_journal_failure_locked e c sy s)) = s_orders s"
  "s_settling (fst (latch_journal_failure_locked e c sy s)) = s_settling s"
  by (simp_all add: latch_journal_failure_locked_def close_outbound_gate_locked_def counters_def Let_def)

lemma emit_orders [simp]:
  "counters (emit es s) = counters s" "s_orders (emit es s) = s_orders s" "s_settling (emit es s) = s_settling s"
  by (simp_all add: emit_def counters_def)

lemma fail_closed_frame [simp]:
  "counters (fail_closed_on_journal_error e c sy s) = counters s"
  "s_orders (fail_closed_on_journal_error e c sy s) = s_orders s"
  "s_settling (fail_closed_on_journal_error e c sy s) = s_settling s"
  by (simp_all add: fail_closed_on_journal_error_def case_prod_unfold Let_def)

lemma close_gate_orders [simp]:
  "s_orders (close_outbound_gate_locked r h s) = s_orders s"
  "s_settling (close_outbound_gate_locked r h s) = s_settling s"
  "s_state (close_outbound_gate_locked r h s) = s_state s"
  by (simp_all add: close_outbound_gate_locked_def)

lemma fence_frame [simp]:
  "counters (close_gate_after_submit_settlement_failure clk oid c e s) = counters s"
  "s_settling (close_gate_after_submit_settlement_failure clk oid c e s) = s_settling s"
  using handler_counters [of "Submit_fence clk oid c e" s]
  by (simp_all add: close_gate_after_submit_settlement_failure_def Let_def split: option.split)

lemma fence_orders_eq:
  "s_orders (close_gate_after_submit_settlement_failure clk oid c e s) =
     (case dget (s_orders s) oid of
        None \<Rightarrow> s_orders s
      | Some ord \<Rightarrow> if o_status ord = SUBMITTING
          then dset oid (fst (mark_submit_unknown clk (''submit_settlement_failed:'' @ e) ord)) (s_orders s)
          else s_orders s)"
  by (simp add: close_gate_after_submit_settlement_failure_def Let_def split: option.split)

lemma fence_orders:
  "dget (s_orders s) oid = None \<Longrightarrow> s_orders (close_gate_after_submit_settlement_failure clk oid c e s) = s_orders s"
  "dget (s_orders s) oid = Some ord \<Longrightarrow> o_status ord \<noteq> SUBMITTING \<Longrightarrow>
     s_orders (close_gate_after_submit_settlement_failure clk oid c e s) = s_orders s"
  "k \<noteq> oid \<Longrightarrow> dget (s_orders (close_gate_after_submit_settlement_failure clk oid c e s)) k = dget (s_orders s) k"
  by (simp_all add: fence_orders_eq split: option.split)

lemma release_frame [simp]:
  "s_orders (release_outbound_order_send_permit r sy s) = s_orders s"
  "s_settling (release_outbound_order_send_permit r sy s) = s_settling s"
  by (simp_all add: release_outbound_order_send_permit_def Let_def)

lemma recompute_oms [simp]: "d_oms (fst (recompute ca d)) = d_oms d"
  by (simp add: recompute_def Let_def case_prod_unfold)

lemma desk_frame [simp]:
  "d_oms (on_oms f d) = f (d_oms d)"
  "d_oms (drop_order oid d) = (d_oms d)\<lparr>s_orders := ddel oid (s_orders (d_oms d))\<rparr>"
  "d_oms (set_order oid ord d) = (d_oms d)\<lparr>s_orders := dset oid ord (s_orders (d_oms d))\<rparr>"
  "d_oms (add_settling oid d) = (d_oms d)\<lparr>s_settling := List.insert oid (s_settling (d_oms d))\<rparr>"
  "counters (s\<lparr>s_orders := os\<rparr>) = counters s" "counters (s\<lparr>s_settling := st\<rparr>) = counters s"
  by (simp_all add: on_oms_def drop_order_def set_order_def add_settling_def counters_def)

lemma finish_frame [simp]:
  "counters (d_oms (finish_submit_settlement oid d)) = counters (d_oms d)"
  "s_orders (d_oms (finish_submit_settlement oid d)) = s_orders (d_oms d)"
  "set (s_settling (d_oms (finish_submit_settlement oid d))) = set (s_settling (d_oms d)) - {oid}"
  by (auto simp: finish_submit_settlement_def Let_def)

lemma drop_and_recompute_frame:
  "counters (d_oms (drop_and_recompute ca clk oid cx d)) = counters (d_oms d)"
  "s_orders (d_oms (drop_and_recompute ca clk oid cx d)) = ddel oid (s_orders (d_oms d))"
  "s_settling (d_oms (drop_and_recompute ca clk oid cx d)) = s_settling (d_oms d)"
proof -
  obtain d1 r where rc: "recompute ca (drop_order oid d) = (d1, r)" by fastforce
  then have "d_oms d1 = d_oms (drop_order oid d)" using recompute_oms [of ca "drop_order oid d"] by simp
  then show "counters (d_oms (drop_and_recompute ca clk oid cx d)) = counters (d_oms d)"
    "s_orders (d_oms (drop_and_recompute ca clk oid cx d)) = ddel oid (s_orders (d_oms d))"
    "s_settling (d_oms (drop_and_recompute ca clk oid cx d)) = s_settling (d_oms d)"
    using rc by (auto simp: drop_and_recompute_def fence_settlement_def fence_orders split: sum.split stopped.split)
qed

text \<open>What a failed submission has acquired when its cleanup starts.\<close>

definition acquired :: "string \<Rightarrow> order_intent \<Rightarrow> bool \<Rightarrow> bool \<Rightarrow> (bool \<times> string) list \<Rightarrow> desk \<Rightarrow> bool" where
  "acquired oid i permit registered permits d \<longleftrightarrow>
     permits_exact (d_oms d, if permit then (\<not> oi_reduce_only i, upper (oi_symbol i)) # permits else permits) \<and>
     (if registered then (\<exists>ord. dget (s_orders (d_oms d)) oid = Some ord \<and> o_status ord = SUBMITTING)
      else oid \<notin> set (s_settling (d_oms d)) \<and> dget (s_orders (d_oms d)) oid = None)"

lemma released_exact:
  assumes "permits_exact (d_oms d0, (\<not> oi_reduce_only i, upper (oi_symbol i)) # permits)"
    and "counters (d_oms d) = counters (d_oms d0)"
  shows "permits_exact (d_oms (release_permit i d), permits)"
  using permits_release [of "d_oms d" "(\<not> oi_reduce_only i, upper (oi_symbol i)) # permits" "\<not> oi_reduce_only i" "oi_symbol i"]
    assms permits_counters [of "d_oms d" "d_oms d0"] by (simp add: release_permit_def)

lemma release_if_exact:
  assumes "permits_exact (d_oms d0, if permit then (\<not> oi_reduce_only i, upper (oi_symbol i)) # permits else permits)"
    and "counters (d_oms d) = counters (d_oms d0)"
  shows "permits_exact (d_oms (if permit then release_permit i d else d), permits)"
  using assms released_exact [of d0 i permits d] permits_counters [of "d_oms d" "d_oms d0" permits] by (cases permit) auto

lemma release_if_orders [simp]:
  "s_orders (d_oms (if permit then release_permit i d else d)) = s_orders (d_oms d)"
  "s_settling (d_oms (if permit then release_permit i d else d)) = s_settling (d_oms d)"
  by (simp_all add: release_permit_def)

lemma mark_order_frame [simp]:
  "counters (d_oms (mark_order oid S f d)) = counters (d_oms d)"
  "s_settling (d_oms (mark_order oid S f d)) = s_settling (d_oms d)"
  by (simp_all add: mark_order_def split: option.split)

lemma mark_order_orders:
  "k \<noteq> oid \<Longrightarrow> dget (s_orders (d_oms (mark_order oid S f d))) k = dget (s_orders (d_oms d)) k"
  "dget (s_orders (d_oms (mark_order oid S f d))) oid = map_option (\<lambda>ord. if o_status ord \<in> S then fst (f ord) else ord)
     (dget (s_orders (d_oms d)) oid)"
  by (simp_all add: mark_order_def split: option.split)

lemma withdraw_frame:
  "counters (d_oms (withdraw_order ca clk exc oid i registered d)) = counters (d_oms d)"
  "dget (s_orders (d_oms (withdraw_order ca clk exc oid i registered d))) k = (if k = oid then None else dget (s_orders (d_oms d)) k)"
  "set (s_settling (d_oms (withdraw_order ca clk exc oid i registered d))) =
     set (s_settling (d_oms d)) - (if registered then {oid} else {})"
  by (simp_all add: withdraw_order_def Let_def drop_and_recompute_frame mark_order_orders)

lemma journal_failed_clear:
  assumes "acquired oid i permit registered permits d"
  shows "clear_of oid permits (prepare_journal_failed ca clk exc oid i permit registered d)"
    and "others oid (prepare_journal_failed ca clk exc oid i permit registered d) = others oid d"
proof -
  define d1 where "d1 = withdraw_order ca clk exc oid i registered d"
  have "permits_exact (d_oms (if permit then release_permit i d1 else d1), permits)"
    using assms by (intro release_if_exact [of d]) (simp_all add: acquired_def d1_def withdraw_frame)
  moreover have frame: "counters (d_oms (prepare_journal_failed ca clk exc oid i permit registered d)) =
      counters (d_oms (if permit then release_permit i d1 else d1))"
    "s_orders (d_oms (prepare_journal_failed ca clk exc oid i permit registered d)) = s_orders (d_oms d1)"
    "s_settling (d_oms (prepare_journal_failed ca clk exc oid i permit registered d)) = s_settling (d_oms d1)"
    by (simp_all add: prepare_journal_failed_def Let_def split del: if_split flip: d1_def)
  ultimately show "clear_of oid permits (prepare_journal_failed ca clk exc oid i permit registered d)"
    using assms permits_counters [OF frame(1), of permits]
    by (auto simp: clear_of_def acquired_def frame d1_def withdraw_frame split: if_splits)
  show "others oid (prepare_journal_failed ca clk exc oid i permit registered d) = others oid d"
    by (simp add: frame others_def fun_eq_iff d1_def withdraw_frame)
qed

lemma rejected_locally_status:
  assumes "o_status ord = SUBMITTING"
  shows "is_terminal (fst (mark_rejected_locally clk r ord))" "\<not> is_active (fst (mark_rejected_locally clk r ord))"
    "o_status (fst (mark_rejected_locally clk r ord)) = REJECTED_LOCALLY"
  using assms by (simp_all add: mark_rejected_locally_def transition_def is_terminal_def is_active_def TERMINAL_STATUSES_def Let_def)

lemma cleanup_clear:
  assumes "dget (s_orders (d_oms d)) oid = Some ord" and "o_status ord = SUBMITTING"
    and "cleanup_pre_dispatch ca clk exc cx oid i e snap d = (d', failed)"
  shows "counters (d_oms d') = counters (d_oms d)" and "oid \<notin> set (s_settling (d_oms d'))"
    and "\<And>o'. dget (s_orders (d_oms d')) oid = Some o' \<Longrightarrow> \<not> is_active o'" and "others oid d' = others oid d"
proof -
  define d1 where "d1 = mark_order oid {CREATED, SUBMITTING} (mark_rejected_locally clk (''pre_dispatch_exception:'' @ exc_name e)) d"
  define d2 where "d2 = (case snap of
       None \<Rightarrow> drop_and_recompute ca clk oid cx d1
     | Some JournalError \<Rightarrow> drop_and_recompute ca clk oid (cx @ ''_journal_cleanup'')
         (on_oms (\<lambda>s. fst (latch_journal_failure_locked exc (cx @ ''_cleanup'') (oi_symbol i) s)) d1)
     | Some e' \<Rightarrow> fence_settlement clk oid cx e' d1)"
  obtain o1 where o1: "dget (s_orders (d_oms d1)) oid = Some o1" "is_terminal o1" "\<not> is_active o1" "o_status o1 = REJECTED_LOCALLY"
    using assms(1,2) rejected_locally_status [OF assms(2)] by (simp add: d1_def mark_order_orders)
  have d1: "counters (d_oms d1) = counters (d_oms d)" "others oid d1 = others oid d"
    by (auto simp: d1_def others_def fun_eq_iff mark_order_orders)
  have d2: "counters (d_oms d2) = counters (d_oms d1)" "others oid d2 = others oid d1"
    "\<And>o'. dget (s_orders (d_oms d2)) oid = Some o' \<Longrightarrow> \<not> is_active o'"
    using o1 by (auto simp: d2_def others_def fun_eq_iff drop_and_recompute_frame fence_settlement_def fence_orders
        split: option.splits py_exc.splits)
  have "d' = finish_submit_settlement oid d2"
    using assms(3) o1(1,2) unfolding cleanup_pre_dispatch_def Let_def d1_def [symmetric]
    by (auto simp: d2_def split: option.splits py_exc.splits)
  then show "counters (d_oms d') = counters (d_oms d)" "oid \<notin> set (s_settling (d_oms d'))"
    "\<And>o'. dget (s_orders (d_oms d')) oid = Some o' \<Longrightarrow> \<not> is_active o'" "others oid d' = others oid d"
    using d1 d2 by (simp_all add: others_def)
qed

lemma exception_clear:
  assumes "acquired oid i permit registered permits d"
  shows "clear_of oid permits (prepare_exception ca clk exc oid i permit registered e snap d)"
    and "others oid (prepare_exception ca clk exc oid i permit registered e snap d) = others oid d"
proof -
  obtain d1 failed where d1: "(if registered then cleanup_pre_dispatch ca clk exc ''prepare_submit_exception'' oid i e snap d
      else (d, False)) = (d1, failed)" by fastforce
  have c: "counters (d_oms d1) = counters (d_oms d)" "oid \<notin> set (s_settling (d_oms d1))"
    "\<And>o'. dget (s_orders (d_oms d1)) oid = Some o' \<Longrightarrow> \<not> is_active o'" "others oid d1 = others oid d"
    using assms d1 cleanup_clear [of d oid _ ca clk exc "''prepare_submit_exception''" i e snap d1 failed]
    by (auto simp: acquired_def split: if_splits)
  define d2 where "d2 = (if permit then release_permit i d1 else d1)"
  define d3 where "d3 = prepare_exception ca clk exc oid i permit registered e snap d"
  have exact: "permits_exact (d_oms d2, permits)"
    unfolding d2_def using assms c(1) by (intro release_if_exact [of d]) (simp_all add: acquired_def)
  have frame: "counters (d_oms d3) = counters (d_oms d2)" "s_orders (d_oms d3) = s_orders (d_oms d1)"
    "s_settling (d_oms d3) = s_settling (d_oms d1)"
    by (simp_all add: d3_def prepare_exception_def d1 d2_def split del: if_split) (simp_all add: release_permit_def)
  show "clear_of oid permits d3" "others oid d3 = others oid d"
    using exact c permits_counters [OF frame(1)] by (simp_all add: clear_of_def others_def frame)
qed

lemma post_init_keeps [simp]:
  "oi_symbol (intent_post_init i) = oi_symbol i" "oi_side (intent_post_init i) = oi_side i"
  "oi_reduce_only (intent_post_init i) = oi_reduce_only i" "oi_strategy_id (intent_post_init i) = oi_strategy_id i"
  by (simp_all add: intent_post_init_def Let_def)

definition same_trade :: "order_intent \<Rightarrow> order_intent \<Rightarrow> bool" where
  "same_trade i j \<longleftrightarrow> oi_symbol i = oi_symbol j \<and> oi_side i = oi_side j \<and> oi_reduce_only i = oi_reduce_only j \<and>
     oi_strategy_id i = oi_strategy_id j"

lemma adapt_same: "adapt_intent_for_trading_mode c i d = (d', Inr j) \<Longrightarrow> same_trade j i"
  by (auto simp: adapt_intent_for_trading_mode_def sbind_def same_trade_def degraded_intent_def case_prod_unfold Let_def
      split: sum.splits if_splits)

lemma validate_same:
  "validate_params ca info now rn p v i val = (val', j, r) \<Longrightarrow> same_trade j i"
  by (auto simp: validate_params_def same_trade_def Let_def case_prod_unfold split: if_splits sum.splits pyfloat.splits)

lemma run_validator_same:
  assumes "run_validator mk p v i d = (d', Inr j)"
  shows "same_trade j i"
proof -
  obtain val k r where w: "validate_params (mk_cache mk) (mk_info mk) (mk_now mk) (mk_rate_now mk) p v i (d_validator d) = (val, k, r)"
    by (rule prod_cases3)
  then have "j = k" using assms by (simp add: run_validator_def split: if_splits)
  then show ?thesis using validate_same [OF w] by simp
qed

lemma same_trade_trans: "same_trade k j \<Longrightarrow> same_trade j i \<Longrightarrow> same_trade k i"
  by (simp add: same_trade_def)

lemma checks_same: "admission_checks c mk sn i p v d = (d', Inr j) \<Longrightarrow> same_trade j i"
  unfolding admission_checks_def sbind_Inr by (auto dest!: adapt_same run_validator_same intro: same_trade_trans)

lemma acquire_refused: "acquire_permit i d = (d', Inl e) \<Longrightarrow> kept d d' \<and> (\<exists>r. e = Refused r)"
  by (auto simp: acquire_permit_def acquire_outbound_order_send_permit_locked_def Let_def kept_def counters_def
      split: if_splits)

text \<open>A granted permit changes the counters only.\<close>

lemma acquire_Inr:
  assumes "acquire_outbound_order_send_permit_locked risk sy False s = (s', Inr epoch)"
  shows "s_orders s' = s_orders s" "s_settling s' = s_settling s" "epoch = s_gate_epoch s'"
    and "\<not> s_stopped s'" "\<not> s_shutdown_requested s'" "s_all_order_seal_reason s' = []"
    and "risk \<Longrightarrow> s_gate_open s'" "risk \<Longrightarrow> dget (gt_guards (s_symbol_guards s')) (upper sy) = None"
  using assms by (simp_all add: acquire_outbound_order_send_permit_locked_def Let_def split: if_splits) auto

lemma acquire_granted:
  assumes "acquire_permit i d = (d', Inr epoch)"
  obtains s where "acquire_outbound_order_send_permit_locked (\<not> oi_reduce_only i) (oi_symbol i) False (d_oms d) = (s, Inr epoch)"
    and "d' = d\<lparr>d_oms := s\<rparr>"
proof -
  obtain s r where a: "acquire_outbound_order_send_permit_locked (\<not> oi_reduce_only i) (oi_symbol i) False (d_oms d) = (s, r)"
    by fastforce
  then have "r = Inr epoch" "d' = d\<lparr>d_oms := s\<rparr>" using assms by (auto simp: acquire_permit_def split: sum.splits)
  with a that show ?thesis by simp
qed

lemma submitting_status:
  "mark_submitting clk (order_init clk oid i) = (ord, r) \<Longrightarrow> r = Inr True \<and> o_status ord = SUBMITTING"
  by (auto simp: mark_submitting_def transition_def order_init_def Let_def split: if_splits)

lemma register_shape:
  assumes "register_order ca clk oid i d = (d', r)"
  shows "counters (d_oms d') = counters (d_oms d)" and "others oid d' = others oid d"
    and "\<exists>ord. dget (s_orders (d_oms d')) oid = Some ord \<and> o_status ord = SUBMITTING"
    and "r = Inl e \<Longrightarrow> \<exists>x. e = Raised x"
proof -
  obtain ord t where m: "mark_submitting clk (order_init clk oid i) = (ord, t)" by fastforce
  obtain d1 q where rc: "recompute ca (set_order oid ord d) = (d1, q)" by fastforce
  then have "d_oms d1 = d_oms (set_order oid ord d)" using recompute_oms [of ca "set_order oid ord d"] by simp
  moreover have "d' = (case q of Inl _ \<Rightarrow> d1 | Inr _ \<Rightarrow> add_settling oid d1)" "r = (case q of Inl e \<Rightarrow> Inl e | Inr _ \<Rightarrow> Inr ())"
    using assms m submitting_status [OF m] rc by (auto simp: register_order_def sbind_def split: sum.splits)
  moreover have "q = Inl e \<Longrightarrow> \<exists>x. e = Raised x" using rc by (auto simp: recompute_def Let_def case_prod_unfold split: sum.splits)
  ultimately show "counters (d_oms d') = counters (d_oms d)" "others oid d' = others oid d"
    "\<exists>ord. dget (s_orders (d_oms d')) oid = Some ord \<and> o_status ord = SUBMITTING"
    "r = Inl e \<Longrightarrow> \<exists>x. e = Raised x"
    using submitting_status [OF m] by (auto simp: others_def fun_eq_iff split: sum.splits)
qed

definition fresh :: "string \<Rightarrow> (bool \<times> string) list \<Rightarrow> desk \<Rightarrow> bool" where
  "fresh oid permits d \<longleftrightarrow> permits_exact (d_oms d, permits) \<and> oid \<notin> set (s_settling (d_oms d)) \<and> dget (s_orders (d_oms d)) oid = None"

lemma fresh_kept: "fresh oid permits d \<Longrightarrow> kept d d' \<Longrightarrow> fresh oid permits d' \<and> others oid d' = others oid d"
  using permits_counters [of "d_oms d'" "d_oms d"] by (auto simp: fresh_def kept_def others_def)

fun left_with :: "string \<Rightarrow> order_intent \<Rightarrow> (bool \<times> string) list \<Rightarrow> admission \<Rightarrow> desk \<Rightarrow> bool" where
  "left_with oid i permits (Turned_away _ permit _) d = acquired oid i permit False permits d"
| "left_with oid i permits (Broke _ permit registered) d = acquired oid i permit registered permits d"
| "left_with oid i permits (Admitted _ _ _) d = acquired oid i True True permits d"

lemma fresh_left: "fresh oid permits d \<Longrightarrow> left_with oid i permits (stopped_as e False False) d"
  by (cases e) (simp_all add: fresh_def acquired_def)

lemma admit_acquired:
  assumes "fresh oid permits d" and "admit c mk sn cal clk oid i p v d = (d', out)"
  shows "left_with oid i permits out d' \<and> others oid d' = others oid d"
proof -
  obtain d1 r1 where checks: "admission_checks c mk sn i p v d = (d1, r1)" by fastforce
  have f1: "fresh oid permits d1" "others oid d1 = others oid d"
    using fresh_kept [OF assms(1) keepsD [OF keeps_checks checks]] by simp_all
  show ?thesis
  proof (cases r1)
    case (Inl e)
    then show ?thesis using checks f1 assms(2) fresh_left by (auto simp: admit_def)
  next
    case (Inr j)
    then have same: "oi_reduce_only j = oi_reduce_only i" "oi_symbol j = oi_symbol i"
      using checks_same checks by (auto simp: same_trade_def)
    obtain d2 r2 where acq: "acquire_permit j d1 = (d2, r2)" by fastforce
    show ?thesis
    proof (cases r2)
      case Inl2: (Inl e)
      then have "fresh oid permits d2 \<and> others oid d2 = others oid d"
        using fresh_kept [OF f1(1)] acquire_refused acq f1(2) by metis
      then show ?thesis using checks Inr acq Inl2 assms(2) fresh_left by (auto simp: admit_def)
    next
      case Inr2: (Inr epoch)
      obtain s where s: "acquire_outbound_order_send_permit_locked (\<not> oi_reduce_only j) (oi_symbol j) False (d_oms d1) = (s, Inr epoch)"
        "d2 = d1\<lparr>d_oms := s\<rparr>" using acquire_granted acq Inr2 by metis
      have f2: "permits_exact (d_oms d2, (\<not> oi_reduce_only i, upper (oi_symbol i)) # permits)"
        using permits_acquire [of "d_oms d1" permits, OF _ s(1)] f1(1) s(2) same by (simp add: fresh_def)
      have f2': "oid \<notin> set (s_settling (d_oms d2))" "dget (s_orders (d_oms d2)) oid = None" "others oid d2 = others oid d"
        using acquire_Inr [OF s(1)] s(2) f1 by (auto simp: fresh_def others_def)
      obtain d3 r3 where reg: "register_order (mk_cache mk) clk oid j d2 = (d3, r3)" by fastforce
      have "acquired oid i True True permits d3" "others oid d3 = others oid d2"
        using register_shape [OF reg] f2 permits_counters [of "d_oms d3" "d_oms d2"] by (auto simp: acquired_def)
      moreover have "acquired oid i True False permits d2" using f2 f2' by (simp add: acquired_def)
      ultimately have held: "acquired oid i True True permits d3" "others oid d3 = others oid d2" "acquired oid i True False permits d2"
        by simp_all
      show ?thesis
      proof (cases cal)
        case (Some e)
        then show ?thesis using assms(2) checks Inr acq Inr2 f2'(3) held(3) by (cases e) (auto simp: admit_def)
      next
        case None
        then show ?thesis using assms(2) checks Inr acq Inr2 f2'(3) held(1,2) reg register_shape(4) [OF reg]
          by (cases r3) (auto simp: admit_def)
      qed
    qed
  qed
qed

lemma failed_clear:
  assumes "acquired oid i permit registered permits d"
    and "prepare_failed ca clk exc oid i snap e permit registered d = (d', out)"
  shows "clear_of oid permits d' \<and> others oid d' = others oid d"
  using assms journal_failed_clear [OF assms(1)] exception_clear [OF assms(1)] by (auto simp: prepare_failed_def split: if_splits)

lemma turned_away_clear:
  assumes "acquired oid i permit False permits d" and "d' = (if permit then release_permit i d else d)"
  shows "clear_of oid permits d'" and "acquired oid i False False permits d'" and "others oid d' = others oid d"
  using assms release_if_exact [of d permit i permits d]
  by (simp_all add: acquired_def clear_of_def others_def split del: if_split)

text \<open>Claim C15: a submission that is not prepared leaves nothing behind. Whatever refuses the intent or raises, and
  whichever of its journal writes fail, the send permits held afterwards are exactly those held before by others, the
  order's id is in no settlement, no order under its id is active, and every other order is untouched.\<close>

theorem refused_submission_leaves_nothing:
  assumes "fresh oid permits d"
    and "submit_prepare c mk sn cal clk exc rw pw snap oid intent p v d = (d', out)"
    and "\<forall>i rq epoch. out \<noteq> Prepared i rq epoch"
  shows "clear_of oid permits d' \<and> others oid d' = others oid d"
proof -
  obtain d1 a where ad: "admit c mk sn cal clk oid intent p v d = (d1, a)" by fastforce
  note left = admit_acquired [OF assms(1) ad]
  show ?thesis
  proof (cases a)
    case (Turned_away r permit lost)
    define d2 where "d2 = (if permit then release_permit intent d1 else d1)"
    have "acquired oid intent permit False permits d1" using left by (simp add: Turned_away)
    then have t: "clear_of oid permits d2" "acquired oid intent False False permits d2" "others oid d2 = others oid d"
      using turned_away_clear [OF _ d2_def] left by simp_all
    have "d' = d2 \<or> (\<exists>e. prepare_failed (mk_cache mk) clk exc oid intent snap e False False d2 = (d', out))"
      using assms(2) unfolding submit_prepare_def ad Turned_away Let_def prod.case admission.case d2_def [symmetric]
      by (auto split: if_splits option.splits)
    then show ?thesis using t failed_clear [OF t(2)] by auto
  next
    case (Broke e permit registered)
    then have "acquired oid intent permit registered permits d1"
      "prepare_failed (mk_cache mk) clk exc oid intent snap e permit registered d1 = (d', out)"
      using left assms(2) by (simp_all add: submit_prepare_def ad)
    then show ?thesis using failed_clear left by metis
  next
    case (Admitted i rq epoch)
    then obtain e where "prepare_failed (mk_cache mk) clk exc oid intent snap e True True d1 = (d', out)"
      using assms(2,3) by (cases pw) (auto simp: submit_prepare_def ad)
    then show ?thesis using failed_clear left Admitted by (metis left_with.simps(3))
  qed
qed

subsection \<open>What an admitted order has passed\<close>

lemma audit_guards [simp]:
  "s_venue_guards (fst (audit k s)) = s_venue_guards s" "s_symbol_guards (fst (audit k s)) = s_symbol_guards s"
  "s_strategy_guards (fst (audit k s)) = s_strategy_guards s"
  "s_strategy_symbol_guards (fst (audit k s)) = s_strategy_symbol_guards s"
  by (simp_all add: audit_def split: list.split)

lemma sync_guards [simp]:
  "s_venue_guards (fst (sync_capability_mode r s)) = s_venue_guards s"
  "s_symbol_guards (fst (sync_capability_mode r s)) = s_symbol_guards s"
  "s_strategy_guards (fst (sync_capability_mode r s)) = s_strategy_guards s"
  "s_strategy_symbol_guards (fst (sync_capability_mode r s)) = s_strategy_symbol_guards s"
  by (simp_all add: sync_capability_mode_def refresh_outbound_gate_locked_def Let_def)

lemma ensure_guards [simp]:
  "s_venue_guards (fst (ensure_capability_mode_consistent s)) = s_venue_guards s"
  "s_symbol_guards (fst (ensure_capability_mode_consistent s)) = s_symbol_guards s"
  "s_strategy_guards (fst (ensure_capability_mode_consistent s)) = s_strategy_guards s"
  "s_strategy_symbol_guards (fst (ensure_capability_mode_consistent s)) = s_strategy_symbol_guards s"
  by (simp_all add: ensure_capability_mode_consistent_def)

text \<open>The state a check leaves as it was: guards, orders, exposure and account.\<close>

definition unmoved :: "desk \<Rightarrow> desk \<Rightarrow> bool" where
  "unmoved d d' \<longleftrightarrow> d_account d' = d_account d \<and> d_exposure d' = d_exposure d \<and> d_orders d' = d_orders d \<and>
     (\<forall>c st sy. freeze_reason c st sy (d_oms d') = freeze_reason c st sy (d_oms d))"

lemma unmoved_trans: "unmoved d d1 \<Longrightarrow> unmoved d1 d2 \<Longrightarrow> unmoved d d2"
  by (simp add: unmoved_def)

lemma freeze_reason_cong:
  assumes "s_venue_guards s' = s_venue_guards s" "s_symbol_guards s' = s_symbol_guards s"
    "s_strategy_guards s' = s_strategy_guards s" "s_strategy_symbol_guards s' = s_strategy_symbol_guards s"
  shows "freeze_reason c st sy s' = freeze_reason c st sy s"
  using assms by (simp add: freeze_reason_def get_strategy_freeze_reason_def Let_def)

lemma ensure_mode_Inr:
  assumes "ensure_mode d = (d', Inr mode)"
  shows "unmoved d d'" and "mode = s_capability_mode (d_oms d')"
proof -
  have "d' = d\<lparr>d_oms := fst (ensure_capability_mode_consistent (d_oms d))\<rparr>" "mode = s_capability_mode (d_oms d')"
    using assms by (auto simp: ensure_mode_def case_prod_unfold Let_def split: if_splits)
  then show "unmoved d d'" "mode = s_capability_mode (d_oms d')"
    by (auto simp: unmoved_def intro: freeze_reason_cong)
qed

lemma block_Inr:
  assumes "get_order_block_reason c st sy ro d = (d', Inr u)"
  shows "unmoved d d'" and "freeze_reason c st sy (d_oms d) = []"
    and "trading_mode (s_capability_mode (d_oms d')) \<or> s_capability_mode (d_oms d') = CM_REDUCE_ONLY \<and> ro"
proof -
  obtain mode where m: "ensure_mode d = (d', Inr mode)" "freeze_reason c st sy (d_oms d') = []" "trading_mode mode \<or> mode = CM_REDUCE_ONLY \<and> ro"
    using assms unfolding get_order_block_reason_def sbind_Inr by (auto split: if_splits)
  then show "unmoved d d'" "freeze_reason c st sy (d_oms d) = []"
    "trading_mode (s_capability_mode (d_oms d')) \<or> s_capability_mode (d_oms d') = CM_REDUCE_ONLY \<and> ro"
    using ensure_mode_Inr [OF m(1)] by (simp_all add: unmoved_def)
qed

lemma adapt_Inr:
  assumes "adapt_intent_for_trading_mode c i d = (d', Inr j)"
  shows "unmoved d d'"
proof -
  obtain d1 mode where m: "ensure_mode d = (d1, Inr mode)" "d' = d1 \<or> d' = d1\<lparr>d_oms := fst (audit ''intent_degraded_to_passive'' (d_oms d1))\<rparr>"
    using assms unfolding adapt_intent_for_trading_mode_def sbind_Inr by (auto simp: case_prod_unfold Let_def split: if_splits)
  then show ?thesis using ensure_mode_Inr(1) [OF m(1)] freeze_reason_cong [of "fst (audit ''intent_degraded_to_passive'' (d_oms d1))" "d_oms d1"]
    by (auto simp: unmoved_def)
qed

lemma validator_Inr: "run_validator mk p v i d = (d', Inr j) \<Longrightarrow> unmoved d d'"
  by (auto simp: run_validator_def unmoved_def case_prod_unfold Let_def split: if_splits)

lemma checks_passed:
  assumes "admission_checks c mk sn intent p v d = (d', Inr i)"
  shows "freeze_reason c (oi_strategy_id i) (oi_symbol i) (d_oms d') = []"
    and "get_submission_safety_reason c sn (d_account d) (d_orders d) i = []"
    and "\<not> oi_reduce_only i \<Longrightarrow> snd (check_margin (mk_cache mk) (d_exposure d) (fl (oi_price i * oi_volume i)) (d_account d)) = Inr True"
    and "\<not> oi_reduce_only i \<Longrightarrow> fst (check_risk (mk_iter mk) (mk_cache mk) (d_exposure d) (oi_symbol i) (oi_side i) (oi_volume i)
           (pc_max_pos_notional c) (pc_max_account_gross_notional c) (Fin (oi_price i)) (pc_max_concurrent_symbols c))"
    and "oi_reduce_only i \<Longrightarrow> fst (check_reduce_only (oi_symbol i) (oi_side i) (oi_volume i) (d_exposure d))"
    and "get_strategy_budget_rejection (mk_iter mk) (mk_cache mk) c (d_exposure d) i = []"
proof -
  obtain d1 d2 d3 i0 where s: "get_order_block_reason c (oi_strategy_id intent) (oi_symbol intent) (oi_reduce_only intent) d = (d1, Inr ())"
      "adapt_intent_for_trading_mode c intent d1 = (d2, Inr i0)" "run_validator mk p v i0 d2 = (d3, Inr i)"
      "get_submission_safety_reason c sn (d_account d3) (d_orders d3) i = []" "check_exposure c mk i d3 = (d', Inr ())"
      "get_strategy_budget_rejection (mk_iter mk) (mk_cache mk) c (d_exposure d') i = []"
    using assms unfolding admission_checks_def sbind_Inr by auto
  have un: "unmoved d d3" using block_Inr(1) [OF s(1)] adapt_Inr [OF s(2)] validator_Inr [OF s(3)] unmoved_trans by blast
  have same: "oi_symbol i = oi_symbol intent" "oi_strategy_id i = oi_strategy_id intent"
    using checks_same [OF assms] by (simp_all add: same_trade_def)
  have ex: "d_oms d' = d_oms d3" "d_exposure d' = d_exposure d3"
    using s(5) by (auto simp: check_exposure_def case_prod_unfold Let_def split: if_splits sum.splits bool.splits)
  show "freeze_reason c (oi_strategy_id i) (oi_symbol i) (d_oms d') = []"
    using block_Inr(2) [OF s(1)] un by (simp add: unmoved_def ex same)
  show "get_submission_safety_reason c sn (d_account d) (d_orders d) i = []" using s(4) un by (simp add: unmoved_def)
  show "get_strategy_budget_rejection (mk_iter mk) (mk_cache mk) c (d_exposure d) i = []" using s(6) un ex by (simp add: unmoved_def)
  show "oi_reduce_only i \<Longrightarrow> fst (check_reduce_only (oi_symbol i) (oi_side i) (oi_volume i) (d_exposure d))"
    "\<not> oi_reduce_only i \<Longrightarrow> snd (check_margin (mk_cache mk) (d_exposure d) (fl (oi_price i * oi_volume i)) (d_account d)) = Inr True"
    "\<not> oi_reduce_only i \<Longrightarrow> fst (check_risk (mk_iter mk) (mk_cache mk) (d_exposure d) (oi_symbol i) (oi_side i) (oi_volume i)
       (pc_max_pos_notional c) (pc_max_account_gross_notional c) (Fin (oi_price i)) (pc_max_concurrent_symbols c))"
    using s(5) un by (auto simp: unmoved_def check_exposure_def case_prod_unfold Let_def split: if_splits sum.splits bool.splits)
qed

lemma find_None: "find P xs = None \<longleftrightarrow> (\<forall>x\<in>set xs. \<not> P x)"
  by (induction xs) auto

lemma safety_reason_Nil:
  assumes "get_submission_safety_reason c sn a os i = []"
  shows "pc_self_trade_prevention_enabled c \<Longrightarrow> pc_local_self_cross_check_enabled c \<Longrightarrow> ord \<in> set os \<Longrightarrow> \<not> self_crosses i ord"
    and "pc_max_total_active_orders c > 0 \<Longrightarrow> active_count (\<lambda>_. True) os < pc_max_total_active_orders c"
    and "pc_max_symbol_active_orders c > 0 \<Longrightarrow> active_count (\<lambda>j. oi_symbol j = oi_symbol i) os < pc_max_symbol_active_orders c"
    and "ord \<in> set os \<Longrightarrow> \<not> duplicates c sn i ord"
    and "get_margin_health_rejection c sn a i = []"
  using assms by (auto simp: get_submission_safety_reason_def get_self_trade_prevention_rejection_def find_None
      get_active_order_rejection_def over_limit_def list_ex_iff Let_def split: if_splits option.splits)

lemma register_Inr:
  assumes "register_order ca clk oid i d = (d', Inr u)"
  shows "\<exists>ord. dget (s_orders (d_oms d')) oid = Some ord \<and> o_status ord = SUBMITTING \<and> o_intent ord = i"
    and "d_exposure d' = update_open_orders (d_orders d') (d_exposure d)" and "oid \<in> set (s_settling (d_oms d'))"
    and "\<exists>os st. d_oms d' = (d_oms d)\<lparr>s_orders := os, s_settling := st\<rparr>"
proof -
  define ord where "ord = fst (mark_submitting clk (order_init clk oid i))"
  have ord: "o_status ord = SUBMITTING" "o_intent ord = i"
    by (simp_all add: ord_def mark_submitting_def transition_def order_init_def note_exchange_update_def Let_def)
  obtain a where "d' = add_settling oid ((set_order oid ord d)\<lparr>d_exposure := update_open_orders (d_orders (set_order oid ord d)) (d_exposure d), d_account := a\<rparr>)"
    using assms unfolding register_order_def sbind_Inr
    by (auto simp: ord_def recompute_def case_prod_unfold Let_def set_order_def sbind_Inr split: prod.splits sum.splits)
  then show "\<exists>ord. dget (s_orders (d_oms d')) oid = Some ord \<and> o_status ord = SUBMITTING \<and> o_intent ord = i"
    "d_exposure d' = update_open_orders (d_orders d') (d_exposure d)" "oid \<in> set (s_settling (d_oms d'))"
    "\<exists>os st. d_oms d' = (d_oms d)\<lparr>s_orders := os, s_settling := st\<rparr>"
    using ord by (auto simp: set_order_def add_settling_def)
qed

lemma submit_prepare_Prepared:
  assumes "submit_prepare c mk sn cal clk exc rw pw snap oid intent p v d = (d', Prepared i rq epoch)"
  shows "admit c mk sn cal clk oid intent p v d = (d', Admitted i rq epoch)"
  using assms by (auto simp: submit_prepare_def prepare_failed_def Let_def
      split: prod.splits admission.splits option.splits if_splits)

lemma stopped_as_Admitted [simp]: "stopped_as e permit registered \<noteq> Admitted i rq epoch"
  by (cases e) simp_all

lemma admit_Admitted:
  assumes "admit c mk sn cal clk oid intent p v d = (d', Admitted i rq epoch)"
  obtains d1 d2 where "admission_checks c mk sn intent p v d = (d1, Inr i)" "acquire_permit i d1 = (d2, Inr epoch)"
    "register_order (mk_cache mk) clk oid i d2 = (d', Inr ())"
  using assms by (auto simp: admit_def split: prod.splits sum.splits option.splits)

lemma acquire_freeze:
  assumes "acquire_outbound_order_send_permit_locked risk sy em s = (s', r)"
  shows "freeze_reason c st sy' s' = freeze_reason c st sy' s"
proof (rule freeze_reason_cong)
  show "s_venue_guards s' = s_venue_guards s" "s_symbol_guards s' = s_symbol_guards s"
    "s_strategy_guards s' = s_strategy_guards s" "s_strategy_symbol_guards s' = s_strategy_symbol_guards s"
    using assms by (auto simp: acquire_outbound_order_send_permit_locked_def Let_def split: if_splits)
qed

subsection \<open>Theorems\<close>

text \<open>Claim C6: what a prepared order has passed. It trades the symbol, side and strategy asked for; no venue, symbol or
  strategy freeze applies to it; it crosses no resting order of the desk, duplicates none and fits the limits on active orders;
  a risk-increasing order is covered by margin and within the exposure limits, a reduce-only one reduces; it holds exactly one
  more send permit, granted at the present gate epoch, with the gate open when risk grows; and it is already registered
  and counted in the exposure that the next submission sees.\<close>

theorem prepared_order_passed_checks:
  assumes "fresh oid permits d"
    and "submit_prepare c mk sn cal clk exc rw pw snap oid intent p v d = (d', Prepared i rq epoch)"
  shows "same_trade i intent \<and> freeze_reason c (oi_strategy_id i) (oi_symbol i) (d_oms d') = [] \<and>
    (pc_self_trade_prevention_enabled c \<and> pc_local_self_cross_check_enabled c \<longrightarrow> (\<forall>ord\<in>set (d_orders d). \<not> self_crosses i ord)) \<and>
    (\<forall>ord\<in>set (d_orders d). \<not> duplicates c sn i ord) \<and>
    (pc_max_total_active_orders c > 0 \<longrightarrow> active_count (\<lambda>_. True) (d_orders d) < pc_max_total_active_orders c) \<and>
    (pc_max_symbol_active_orders c > 0 \<longrightarrow>
       active_count (\<lambda>j. oi_symbol j = oi_symbol i) (d_orders d) < pc_max_symbol_active_orders c) \<and>
    (if oi_reduce_only i then fst (check_reduce_only (oi_symbol i) (oi_side i) (oi_volume i) (d_exposure d))
     else snd (check_margin (mk_cache mk) (d_exposure d) (fl (oi_price i * oi_volume i)) (d_account d)) = Inr True \<and>
       fst (check_risk (mk_iter mk) (mk_cache mk) (d_exposure d) (oi_symbol i) (oi_side i) (oi_volume i)
         (pc_max_pos_notional c) (pc_max_account_gross_notional c) (Fin (oi_price i)) (pc_max_concurrent_symbols c)) \<and>
       s_gate_open (d_oms d')) \<and>
    permits_exact (d_oms d', (\<not> oi_reduce_only i, upper (oi_symbol i)) # permits) \<and> epoch = s_gate_epoch (d_oms d') \<and>
    s_all_order_seal_reason (d_oms d') = [] \<and> \<not> s_shutdown_requested (d_oms d') \<and>
    (\<exists>ord. dget (s_orders (d_oms d')) oid = Some ord \<and> o_status ord = SUBMITTING \<and> o_intent ord = i) \<and>
    d_exposure d' = update_open_orders (d_orders d') (d_exposure d)"
proof -
  have ad: "admit c mk sn cal clk oid intent p v d = (d', Admitted i rq epoch)" using assms(2) by (rule submit_prepare_Prepared)
  obtain d1 d2 where s: "admission_checks c mk sn intent p v d = (d1, Inr i)" "acquire_permit i d1 = (d2, Inr epoch)"
    "register_order (mk_cache mk) clk oid i d2 = (d', Inr ())" using ad by (rule admit_Admitted)
  obtain g where g: "acquire_outbound_order_send_permit_locked (\<not> oi_reduce_only i) (oi_symbol i) False (d_oms d1) = (g, Inr epoch)"
    "d2 = d1\<lparr>d_oms := g\<rparr>" using s(2) by (rule acquire_granted)
  obtain os st where oms: "d_oms d' = g\<lparr>s_orders := os, s_settling := st\<rparr>" using register_Inr(4) [OF s(3)] g(2) by auto
  have frozen: "freeze_reason c (oi_strategy_id i) (oi_symbol i) (d_oms d') = []"
    using checks_passed(1) [OF s(1)] acquire_freeze [OF g(1)] freeze_reason_cong [of "d_oms d'" g] by (simp add: oms)
  have permits: "permits_exact (d_oms d', (\<not> oi_reduce_only i, upper (oi_symbol i)) # permits)"
    using admit_acquired [OF assms(1) ad] checks_same [OF s(1)] by (simp add: acquired_def same_trade_def)
  have exposure: "d_exposure d2 = d_exposure d" using keepsD [OF keeps_checks s(1)] g(2) by (simp add: kept_def)
  show ?thesis
    using checks_same [OF s(1)] frozen safety_reason_Nil [OF checks_passed(2) [OF s(1)]] checks_passed(3-5) [OF s(1)] permits
      acquire_Inr [OF g(1)] register_Inr(1,2) [OF s(3)] exposure oms by auto
qed


subsection \<open>Witnesses\<close>

definition demo_desk :: desk where
  "demo_desk = \<lparr>d_oms = (oms_init [''BTCUSDT''] [])\<lparr>s_state := LS_LIVE, s_capability_mode := CM_LIVE, s_gate_open := True\<rparr>,
     d_exposure = exposure_init, d_account = demo_account,
     d_validator = \<lparr>v_max_order_qty = 100, v_max_order_notional = 1000, v_max_deviation_pct = 1, v_max_spread_pct = 1,
       v_max_orders_per_sec = 5, v_max_reduce_orders_per_sec = 5, v_freshness_enabled = False, v_require_mark_price = False,
       v_require_book = False, v_max_mark_age_ms = 0, v_max_book_age_ms = 0, v_order_timestamps = [], v_reduce_order_timestamps = []\<rparr>,
     d_cancel_requested = [], d_queued_cancels = []\<rparr>"

definition demo_policy :: policy_config where
  "demo_policy = \<lparr>pc_venue = ''BINANCE'', pc_degraded_aggressive_to_passive = True, pc_require_healthy_clock = False,
     pc_venue_dead_man_switch_enabled = False, pc_heartbeat_enabled = False, pc_heartbeat_max_age_sec = 1,
     pc_margin_health_enabled = False, pc_margin_health_require_snapshot = False, pc_margin_snapshot_max_age_sec = 0,
     pc_margin_reduce_only_ratio = 1, pc_self_trade_prevention_enabled = True, pc_local_self_cross_check_enabled = True,
     pc_self_trade_prevention_mode = ''EXPIRE_TAKER'', pc_duplicate_intent_window_sec = 0, pc_max_total_active_orders = 5,
     pc_max_symbol_active_orders = 2, pc_max_strategy_active_orders = 0, pc_max_strategy_symbol_active_orders = 0,
     pc_strategy_risk_budgets_enabled = False, pc_require_explicit_strategy_budget = False, pc_strategy_risk_budgets = [],
     pc_max_pos_notional = 1000, pc_max_account_gross_notional = 0, pc_max_concurrent_symbols = 3\<rparr>"

definition demo_sensors :: sensors where
  "demo_sensors = \<lparr>sn_clock = Inr (True, [], []), sn_database = None, sn_dead_man_switch = (True, []), sn_heartbeat_at = 0,
     sn_heartbeat_status = [], sn_heartbeat_reason = [], sn_heartbeat_now = 0, sn_margin_now = 0, sn_margin_wall = 0, sn_duplicate_now = 0\<rparr>"

definition demo_market :: market where
  "demo_market = \<lparr>mk_cache = demo_cache, mk_iter = id, mk_info = None, mk_now = 1, mk_rate_now = 1\<rparr>"
definition demo_admission :: "desk \<times> admission" where
  "demo_admission = admit demo_policy demo_market demo_sensors None demo_clock ''c1'' demo_intent (PFloat (Fin 100)) (PFloat (Fin 2)) demo_desk"

lemma demo_stages:
  "ensure_mode demo_desk = (demo_desk, Inr CM_LIVE)"
  "freeze_reason demo_policy ''glft'' ''BTCUSDT'' (d_oms demo_desk) = []"
  "validate_params demo_cache None 1 1 (PFloat (Fin 100)) (PFloat (Fin 2)) demo_intent (d_validator demo_desk) =
     ((d_validator demo_desk)\<lparr>v_order_timestamps := [1]\<rparr>, demo_intent, [])"
  "get_submission_safety_reason demo_policy demo_sensors demo_account [] demo_intent = []"
  "get_strategy_budget_rejection id demo_cache demo_policy exposure_init demo_intent = []"
  by (simp_all add: ensure_mode_def ensure_capability_mode_consistent_def demo_desk_def oms_init_def effective_mode_def
      capability_mode_for_state_def freeze_reason_def get_strategy_freeze_reason_def demo_policy_def empty_guards_def
      validate_params_def validate_form_def validate_size_def validate_market_def check_rate_limit_def demo_intent_def
      get_risk_snapshot_def demo_cache_def cache_init_def get_best_quote_def price_deviates_def spread_too_wide_def
      get_submission_safety_reason_def get_paper_database_rejection_def demo_sensors_def get_clock_health_rejection_def
      get_venue_dead_man_switch_rejection_def get_risk_control_heartbeat_rejection_def get_margin_health_rejection_def
      get_self_trade_prevention_rejection_def get_active_order_rejection_def over_limit_def active_count_def
      get_strategy_budget_rejection_def Let_def)

lemma demo_margin:
  "snd (check_margin demo_cache exposure_init 200 demo_account) = Inr True"
  "fst (check_risk id demo_cache exposure_init ''BTCUSDT'' BUY 2 1000 0 (Fin 100) 3)"
  "ac_leverage (fst (check_margin demo_cache exposure_init 200 demo_account)) = 10"
  by code_simp+


lemma demo_checks:
  "admission_checks demo_policy demo_market demo_sensors demo_intent (PFloat (Fin 100)) (PFloat (Fin 2)) demo_desk =
     (demo_desk\<lparr>d_validator := (d_validator demo_desk)\<lparr>v_order_timestamps := [1]\<rparr>,
        d_account := fst (check_margin demo_cache exposure_init 200 demo_account)\<rparr>, Inr demo_intent)"
proof -
  have desk: "d_orders demo_desk = []" "d_exposure demo_desk = exposure_init" "d_account demo_desk = demo_account"
    by (simp_all add: demo_desk_def oms_init_def)
  have intent: "oi_strategy_id demo_intent = ''glft''" "oi_symbol demo_intent = ''BTCUSDT''" "oi_side demo_intent = BUY"
    "\<not> oi_reduce_only demo_intent" "oi_price demo_intent = 100" "oi_volume demo_intent = 2" by (simp_all add: demo_intent_def)
  have policy: "pc_max_pos_notional demo_policy = 1000" "pc_max_account_gross_notional demo_policy = 0" "pc_max_concurrent_symbols demo_policy = 3"
    by (simp_all add: demo_policy_def)
  obtain a where a: "check_margin demo_cache exposure_init 200 demo_account = (a, Inr True)"
    using demo_margin(1) by (metis prod.collapse)
  obtain w where w: "check_risk id demo_cache exposure_init ''BTCUSDT'' BUY 2 1000 0 (Fin 100) 3 = (True, w)"
    using demo_margin(2) by (metis prod.collapse)
  show ?thesis
    using demo_stages a w
    by (simp add: admission_checks_def sbind_def get_order_block_reason_def trading_mode_def refuse_if_def intent desk policy
        adapt_intent_for_trading_mode_def run_validator_def demo_market_def check_exposure_def)
qed

lemma demo_open_orders:
  assumes "mark_submitting demo_clock (order_init demo_clock ''c1'' demo_intent) = (ord, r)"
  shows "ex_open_buy_qty (update_open_orders [ord] exposure_init) = [(''BTCUSDT'', 2)]"
    "ex_open_sell_qty (update_open_orders [ord] exposure_init) = []"
    "ex_net_positions (update_open_orders [ord] exposure_init) = []"
  using assms by (auto simp: mark_submitting_def transition_def order_init_def note_exchange_update_def demo_intent_def demo_clock_def
      update_open_orders_def add_open_order_def exposure_init_def is_active_def dadd_def dgetd_def Let_def)

lemma demo_admitted: "case snd demo_admission of Admitted i rq epoch \<Rightarrow> oi_price i = 100 \<and> epoch = 0 | _ \<Rightarrow> False"
proof -
  define d where "d = fst (acquire_permit demo_intent (fst (admission_checks demo_policy demo_market demo_sensors demo_intent (PFloat (Fin 100)) (PFloat (Fin 2)) demo_desk)))"
  have acq: "acquire_permit demo_intent (fst (admission_checks demo_policy demo_market demo_sensors demo_intent (PFloat (Fin 100)) (PFloat (Fin 2)) demo_desk)) = (d, Inr 0)"
    and d: "d_exposure d = exposure_init" "s_orders (d_oms d) = []" "d_account d = fst (check_margin demo_cache exposure_init 200 demo_account)"
    unfolding d_def demo_checks
    by (simp_all add: acquire_permit_def acquire_outbound_order_send_permit_locked_def demo_desk_def oms_init_def demo_intent_def empty_guards_def Let_def)
  obtain ord r where m: "mark_submitting demo_clock (order_init demo_clock ''c1'' demo_intent) = (ord, r)" by fastforce
  have "snd (register_order demo_cache demo_clock ''c1'' demo_intent d) = Inr ()"
    using m d submitting_status [OF m] demo_open_orders [OF m] demo_margin(3)
    by (simp add: register_order_def sbind_def recompute_def set_order_def calculate_def Let_def)
  then show ?thesis
    using acq demo_checks
    by (auto simp: demo_admission_def admit_def demo_market_def demo_intent_def split: prod.splits sum.splits)
qed

lemma demo_admission_eq:
  obtains d i rq where "admit demo_policy demo_market demo_sensors None demo_clock ''c1'' demo_intent (PFloat (Fin 100)) (PFloat (Fin 2)) demo_desk =
    (d, Admitted i rq 0)"
proof (cases "snd demo_admission")
  case (Admitted i rq epoch)
  then show ?thesis using demo_admitted that [of "fst demo_admission" i rq]
    by (simp add: demo_admission_def prod_eq_iff)
qed (use demo_admitted in simp_all)

lemma demo_fresh: "fresh ''c1'' [] demo_desk"
  by (simp add: fresh_def permits_exact_def demo_desk_def oms_init_def)

theorem refused_submission_leaves_nothing_witness:
  "\<exists>d'. fst (submit_prepare demo_policy demo_market demo_sensors None demo_clock ''disk'' None (Some JournalError) None ''c1''
      demo_intent (PFloat (Fin 100)) (PFloat (Fin 2)) demo_desk) = d' \<and> clear_of ''c1'' [] d' \<and> others ''c1'' d' = others ''c1'' demo_desk"
proof -
  obtain d i rq where a: "admit demo_policy demo_market demo_sensors None demo_clock ''c1'' demo_intent (PFloat (Fin 100)) (PFloat (Fin 2)) demo_desk =
    (d, Admitted i rq 0)" by (rule demo_admission_eq)
  obtain d' out where s: "submit_prepare demo_policy demo_market demo_sensors None demo_clock ''disk'' None (Some JournalError) None ''c1''
      demo_intent (PFloat (Fin 100)) (PFloat (Fin 2)) demo_desk = (d', out)" by fastforce
  then have "\<forall>i rq epoch. out \<noteq> Prepared i rq epoch" by (auto simp: submit_prepare_def a prepare_failed_def)
  then show ?thesis using refused_submission_leaves_nothing [OF demo_fresh s] s by simp
qed

theorem prepared_order_passed_checks_witness:
  "\<exists>d' i rq. submit_prepare demo_policy demo_market demo_sensors None demo_clock ''disk'' None None None ''c1''
      demo_intent (PFloat (Fin 100)) (PFloat (Fin 2)) demo_desk = (d', Prepared i rq 0) \<and> same_trade i demo_intent \<and>
    permits_exact (d_oms d', [(\<not> oi_reduce_only i, upper (oi_symbol i))])"
proof -
  obtain d i rq where a: "admit demo_policy demo_market demo_sensors None demo_clock ''c1'' demo_intent (PFloat (Fin 100)) (PFloat (Fin 2)) demo_desk =
    (d, Admitted i rq 0)" by (rule demo_admission_eq)
  then have "submit_prepare demo_policy demo_market demo_sensors None demo_clock ''disk'' None None None ''c1''
      demo_intent (PFloat (Fin 100)) (PFloat (Fin 2)) demo_desk = (d, Prepared i rq 0)" by (simp add: submit_prepare_def)
  with prepared_order_passed_checks [OF demo_fresh this] show ?thesis by auto
qed

subsection \<open>An intent the handler cannot name\<close>

lemma ensure_mode_settled:
  "s_capability_mode (d_oms d) = effective_mode (d_oms d) \<Longrightarrow> ensure_mode d = (d, Inr (s_capability_mode (d_oms d)))"
  by (simp add: ensure_mode_def ensure_capability_mode_consistent_def)

text \<open>Claim C39: in passive-only mode, refusing an order that is not post-only while the journal cannot be written raises
  \<open>AttributeError\<close> instead of failing closed: the handler of the journal error reads the symbol of an intent that is \<open>None\<close>, and the desk
  is as it was, so no journal-failure hold and no seal stop the next order. The same failure on any other refusal seals every order.\<close>

theorem lost_intent_not_sealed:
  assumes "s_capability_mode (d_oms d) = CM_PASSIVE_ONLY" "effective_mode (d_oms d) = CM_PASSIVE_ONLY"
    and "freeze_reason c (oi_strategy_id intent) (oi_symbol intent) (d_oms d) = []" and "\<not> oi_is_post_only intent"
  shows "submit_prepare c mk sn cal clk exc (Some JournalError) pw snap oid intent p v d = (d, Reraised AttributeError) \<and>
    (\<forall>d1 r permit. admit c mk sn cal clk oid intent' p v d0 = (d1, Turned_away r permit False) \<longrightarrow>
       (\<exists>d2. submit_prepare c mk sn cal clk exc (Some JournalError) pw snap oid intent' p v d0 =
          (d2, Answered False ''durable_journal_unavailable'') \<and> s_all_order_seal_reason (d_oms d2) \<noteq> []))"
proof -
  have "get_order_block_reason c (oi_strategy_id intent) (oi_symbol intent) (oi_reduce_only intent) d = (d, Inr ())"
    "adapt_intent_for_trading_mode c intent d = (d, Inl (Lost ''oms_mode_passive_only''))"
    using assms by (simp_all add: get_order_block_reason_def adapt_intent_for_trading_mode_def sbind_def ensure_mode_settled
        refuse_if_def trading_mode_def)
  then have "admission_checks c mk sn intent p v d = (d, Inl (Lost ''oms_mode_passive_only''))"
    by (simp add: admission_checks_def sbind_def)
  then have "submit_prepare c mk sn cal clk exc (Some JournalError) pw snap oid intent p v d = (d, Reraised AttributeError)"
    by (simp add: submit_prepare_def admit_def)
  moreover have "s_all_order_seal_reason (fail_closed_on_journal_error exc x sy s) \<noteq> []" for x sy s
    by (simp add: fail_closed_on_journal_error_def latch_journal_failure_locked_def close_outbound_gate_locked_def emit_def Let_def)
  then have "submit_prepare c mk sn cal clk exc (Some JournalError) pw snap oid intent' p v d0 =
        (fst (submit_prepare c mk sn cal clk exc (Some JournalError) pw snap oid intent' p v d0), Answered False ''durable_journal_unavailable'') \<and>
      s_all_order_seal_reason (d_oms (fst (submit_prepare c mk sn cal clk exc (Some JournalError) pw snap oid intent' p v d0))) \<noteq> []"
    if "admit c mk sn cal clk oid intent' p v d0 = (d1, Turned_away r permit False)" for d1 r permit
    using that by (simp add: submit_prepare_def prepare_failed_def prepare_journal_failed_def Let_def)
  ultimately show ?thesis by blast
qed


definition passive_desk :: desk where
  "passive_desk = on_oms (\<lambda>s. s\<lparr>s_capability_mode := CM_PASSIVE_ONLY, s_mode_override := Some CM_PASSIVE_ONLY, s_mode_override_reason := ''latency''\<rparr>) demo_desk"

theorem lost_intent_not_sealed_witness:
  "submit_prepare demo_policy demo_market demo_sensors None demo_clock ''disk'' (Some JournalError) None None ''c1'' demo_intent
      (PFloat (Fin 100)) (PFloat (Fin 2)) passive_desk = (passive_desk, Reraised AttributeError)"
proof -
  have "s_capability_mode (d_oms passive_desk) = CM_PASSIVE_ONLY" "effective_mode (d_oms passive_desk) = CM_PASSIVE_ONLY"
    "freeze_reason demo_policy (oi_strategy_id demo_intent) (oi_symbol demo_intent) (d_oms passive_desk) = []" "\<not> oi_is_post_only demo_intent"
    by code_simp+
  from lost_intent_not_sealed [OF this] show ?thesis by simp
qed

end
