(* ===== verification/Order_Transport.thy ===== *)
theory Order_Transport
  imports Event_Types Op_System
begin

text \<open>
  The path of an order to the exchange: \<open>BinanceRestGateway.send_order\<close> (\<open>gateway/binance/rest_gateway.py\<close>) over
  \<open>BinanceRestApi.new_order\<close> and \<open>request\<close> (\<open>gateway/binance/rest_api.py\<close>), with the pre-send guards the caller passes.

  The caller's state \<open>'s\<close> is changed by its guard and by other threads while the request waits. The HTTP
  client is a parameter: per attempt, an answer or an exception. The result carries the states in which a message left,
  so that a property can speak of what was sent. Waiting times and metrics are left out.
\<close>

subsection \<open>Results\<close>

datatype command_outcome = CO_ACKNOWLEDGED | CO_REJECTED | CO_UNKNOWN

record command_result =
  cr_outcome :: command_outcome
  cr_exchange_oid :: string
  cr_error_code :: string
  cr_error_message :: string

definition command :: "command_outcome \<Rightarrow> string \<Rightarrow> string \<Rightarrow> string \<Rightarrow> command_result" where
  "command outcome exchange_oid error_code error_message =
     \<lparr>cr_outcome = outcome, cr_exchange_oid = exchange_oid, cr_error_code = error_code, cr_error_message = error_message\<rparr>"

text \<open>The body of a response as far as it is read: the fields \<open>code\<close>, \<open>msg\<close> and \<open>orderId\<close> as \<open>str\<close> shows them.\<close>

datatype json_body = Not_json | Not_a_mapping | Fields "string option" string "string option"

record http_response =
  hr_status :: int
  hr_body :: json_body

definition local_guard_response :: "string \<Rightarrow> string \<Rightarrow> http_response" where
  "local_guard_response code message = \<lparr>hr_status = 409, hr_body = Fields (Some code) message None\<rparr>"

fun extract_error_details :: "http_response \<Rightarrow> string \<times> string" where
  "extract_error_details r = (case hr_body r of
      Fields code msg _ \<Rightarrow> (case code of None \<Rightarrow> [] | Some c \<Rightarrow> c, msg)
    | _ \<Rightarrow> ([], []))"

subsection \<open>Guards\<close>

text \<open>The guards in use answer with a triple, or raise.\<close>

datatype verdict = Verdict bool string string | Guard_raised string

type_synonym 's guard = "'s \<Rightarrow> 's \<times> verdict"

fun run_pre_send_guard :: "'s guard list \<Rightarrow> 's \<Rightarrow> 's \<times> http_response option" where
  "run_pre_send_guard [] s = (s, None)"
| "run_pre_send_guard (g # gs) s =
     (case g s of
        (s', Guard_raised e) \<Rightarrow> (s', Some (local_guard_response ''PRE_SEND_GUARD_UNAVAILABLE'' e))
      | (s', Verdict allowed code message) \<Rightarrow>
          if allowed then run_pre_send_guard gs s' else (s', Some (local_guard_response code message)))"

subsection \<open>The request loop\<close>

text \<open>What one attempt meets: the steps of other threads while it waits, an exception while the request is signed (which escapes)
  or built, the weight coordinator's answer, the HTTP client's, and the clock resynchronisation's.\<close>

record 's attempt_env =
  ae_wait :: "'s \<Rightarrow> 's"
  ae_sign :: "string option"
  ae_build :: "string option"
  ae_budget :: "string + (string \<times> string) option"
  ae_send :: "string + http_response"
  ae_resync :: "string + bool"

datatype attempt_result = Returned "http_response option" | Retried | Escaped string

definition is_retryable_response :: "int \<Rightarrow> string \<Rightarrow> bool" where
  "is_retryable_response status_code error_code \<longleftrightarrow>
     status_code \<ge> 500 \<or> status_code \<in> {418, 429} \<or> error_code \<in> {''-1001'', ''-1003'', ''-1007'', ''-1008''}"

definition attempt_failed :: "int \<Rightarrow> int \<Rightarrow> attempt_result" where
  "attempt_failed attempt attempt_limit = (if attempt \<ge> attempt_limit then Returned None else Retried)"

definition answer_attempt :: "bool \<Rightarrow> string list \<Rightarrow> int \<Rightarrow> int \<Rightarrow> string + bool \<Rightarrow> http_response \<Rightarrow> attempt_result" where
  "answer_attempt signed suppress attempt attempt_limit resync r =
     (let code = fst (extract_error_details r);
          conclude = (if attempt < attempt_limit \<and> is_retryable_response (hr_status r) code then Retried else Returned (Some r))
      in if hr_status r = 200 then Returned (Some r)
         else if code \<noteq> [] \<and> code \<in> set suppress then Returned (Some r)
         else if signed \<and> code = ''-1021'' then
           (case resync of
              Inl _ \<Rightarrow> attempt_failed attempt attempt_limit
            | Inr sync_ok \<Rightarrow> if attempt < attempt_limit \<and> sync_ok then Retried else conclude)
         else conclude)"

definition request_attempt ::
  "bool \<Rightarrow> string list \<Rightarrow> 's guard list \<Rightarrow> int \<Rightarrow> int \<Rightarrow> 's attempt_env \<Rightarrow> 's \<Rightarrow> 's \<times> 's list \<times> attempt_result" where
  "request_attempt signed suppress guards attempt attempt_limit env s =
     (let s1 = ae_wait env s in
      if signed \<and> ae_sign env \<noteq> None then (s1, [], Escaped (the (ae_sign env)))
      else if ae_build env \<noteq> None then (s1, [], attempt_failed attempt attempt_limit)
      else case run_pre_send_guard guards s1 of
          (s2, Some rejection) \<Rightarrow> (s2, [], Returned (Some rejection))
        | (s2, None) \<Rightarrow>
            (case ae_budget env of
               Inl _ \<Rightarrow> (s2, [], attempt_failed attempt attempt_limit)
             | Inr (Some (code, message)) \<Rightarrow> (s2, [], Returned (Some (local_guard_response code message)))
             | Inr None \<Rightarrow>
                 (case ae_send env of
                    Inl _ \<Rightarrow> (s2, [s2], attempt_failed attempt attempt_limit)
                  | Inr r \<Rightarrow> (s2, [s2], answer_attempt signed suppress attempt attempt_limit (ae_resync env) r))))"

text \<open>The attempts that are left are counted down; the loop ends after the limit.\<close>

fun request_loop ::
  "bool \<Rightarrow> string list \<Rightarrow> 's guard list \<Rightarrow> int \<Rightarrow> (int \<Rightarrow> 's attempt_env) \<Rightarrow> nat \<Rightarrow> 's \<Rightarrow> 's \<times> 's list \<times> (string + http_response option)" where
  "request_loop signed suppress guards limit envs 0 s = (s, [], Inr None)"
| "request_loop signed suppress guards limit envs (Suc n) s =
     (let attempt = limit - int n in
      case request_attempt signed suppress guards attempt limit (envs attempt) s of
        (s1, sent, Returned r) \<Rightarrow> (s1, sent, Inr r)
      | (s1, sent, Escaped e) \<Rightarrow> (s1, sent, Inl e)
      | (s1, sent, Retried) \<Rightarrow>
          (case request_loop signed suppress guards limit envs n s1 of (s2, sent2, r) \<Rightarrow> (s2, sent @ sent2, r)))"

definition request ::
  "int \<Rightarrow> bool \<Rightarrow> string list \<Rightarrow> 's guard list \<Rightarrow> int option \<Rightarrow> (int \<Rightarrow> 's attempt_env) \<Rightarrow> 's \<Rightarrow> 's \<times> 's list \<times> (string + http_response option)" where
  "request max_retries signed suppress guards max_attempts envs s =
     (let attempt_limit = (case max_attempts of None \<Rightarrow> max_retries | Some n \<Rightarrow> max 1 n) in
      request_loop signed suppress guards attempt_limit envs (nat attempt_limit) s)"

subsection \<open>Orders\<close>

record 's rest_env =
  re_book_ready :: bool               \<comment> \<open>transport active, gateway READY and the symbol's book synchronised\<close>
  re_require_healthy_clock :: bool
  re_clock_health :: verdict
  re_order_clock_guard :: "verdict option"
  re_max_retries :: int
  re_attempts :: "int \<Rightarrow> 's attempt_env"

definition clock_guards :: "'s rest_env \<Rightarrow> order_request \<Rightarrow> 's guard list" where
  "clock_guards env rq = (case re_order_clock_guard env of
      Some v \<Rightarrow> if rq_reduce_only rq then [] else [\<lambda>s. (s, v)] | None \<Rightarrow> [])"

definition new_order ::
  "'s rest_env \<Rightarrow> 's guard \<Rightarrow> order_request \<Rightarrow> 's \<Rightarrow> 's \<times> 's list \<times> (string + http_response option)" where
  "new_order env guard rq s =
     (if request_is_rpi rq \<and> rq_order_type rq \<noteq> ''LIMIT'' then (s, [], Inl ''ValueError'')
      else if rq_post_only rq \<and> rq_time_in_force rq \<notin> {''GTX'', ''RPI''} then (s, [], Inl ''ValueError'')
      else
        request (re_max_retries env) True [] (clock_guards env rq @ [guard]) (Some 1) (re_attempts env) s)"

definition AMBIGUOUS_ORDER_CODES :: "string list" where
  "AMBIGUOUS_ORDER_CODES = [''-1000'', ''-1001'', ''-1003'', ''-1006'', ''-1007'', ''-1008'', ''-4111'', ''-4116'']"

definition ambiguous :: "http_response \<Rightarrow> bool" where
  "ambiguous r \<longleftrightarrow> hr_status r \<ge> 500 \<or> hr_status r \<in> {408, 418, 429} \<or> fst (extract_error_details r) \<in> set AMBIGUOUS_ORDER_CODES"

definition classify_response :: "http_response option \<Rightarrow> command_result" where
  "classify_response response = (case response of
      None \<Rightarrow> command CO_UNKNOWN [] [] ''transport response unavailable''
    | Some r \<Rightarrow>
        if hr_status r = 200 then
          (case hr_body r of
             Fields _ _ (Some exchange_oid) \<Rightarrow> command CO_ACKNOWLEDGED exchange_oid [] []
           | _ \<Rightarrow> command CO_UNKNOWN [] [] ''invalid order acknowledgement'')
        else
          let (code, message) = extract_error_details r in
          command (if ambiguous r then CO_UNKNOWN else CO_REJECTED) [] code message)"

definition send_order ::
  "'s rest_env \<Rightarrow> 's guard \<Rightarrow> order_request \<Rightarrow> 's \<Rightarrow> 's \<times> 's list \<times> (string + command_result)" where
  "send_order env guard rq s =
     (if \<not> rq_reduce_only rq \<and> \<not> re_book_ready env
      then (s, [], Inr (command CO_REJECTED [] ''ORDERBOOK_NOT_READY'' (upper (rq_symbol rq))))
      else
        let clock = (if \<not> rq_reduce_only rq \<and> re_require_healthy_clock env then re_clock_health env else Verdict True [] []) in
        case clock of
          Guard_raised e \<Rightarrow> (s, [], Inr (command CO_REJECTED [] ''CLOCK_HEALTH_UNAVAILABLE'' e))
        | Verdict ok code message \<Rightarrow>
            if \<not> ok then (s, [], Inr (command CO_REJECTED [] code message))
            else case new_order env guard rq s of
                (s', sent, Inl e) \<Rightarrow> (s', sent, Inl e)
              | (s', sent, Inr response) \<Rightarrow> (s', sent, Inr (classify_response response)))"

subsection \<open>What is sent, and what is said of it\<close>

lemma request_attempt_sent:
  assumes "request_attempt signed suppress guards a l env s = (s', sent, r)"
  shows "length sent \<le> 1" and "x \<in> set sent \<Longrightarrow> run_pre_send_guard guards (ae_wait env s) = (x, None) \<and> s' = x"
  using assms by (auto simp: request_attempt_def Let_def split: if_splits option.splits sum.splits prod.splits)

lemma request_loop_sent:
  assumes "request_loop signed suppress guards l envs n s = (s', sent, r)"
  shows "length sent \<le> n \<and> (\<forall>x\<in>set sent. \<exists>s0. run_pre_send_guard guards s0 = (x, None))"
  using assms
proof (induction n arbitrary: s s' sent r)
  case (Suc n)
  obtain s1 sent1 r1 where a: "request_attempt signed suppress guards (l - int n) l (envs (l - int n)) s = (s1, sent1, r1)"
    by (rule prod_cases3)
  obtain s2 sent2 r2 where b: "request_loop signed suppress guards l envs n s1 = (s2, sent2, r2)" by (rule prod_cases3)
  have "sent = sent1 \<or> sent = sent1 @ sent2" using Suc.prems a b by (auto split: attempt_result.splits)
  then show ?case using request_attempt_sent [OF a] Suc.IH [OF b] by fastforce
qed simp

lemma guards_passed:
  assumes "run_pre_send_guard (gs @ [g]) s = (x, None)" and "\<And>h s. h \<in> set gs \<Longrightarrow> fst (h s) = s"
  shows "\<exists>code message. g s = (x, Verdict True code message)"
  using assms by (induction gs arbitrary: s) (auto split: verdict.splits prod.splits if_splits, (metis fst_conv)+)

lemma clock_guards_pure: "h \<in> set (clock_guards env rq) \<Longrightarrow> fst (h s) = s"
  by (auto simp: clock_guards_def split: option.splits if_splits)

lemma new_order_attempt:
  assumes "new_order env guard rq s = (s', sent, r)"
  obtains e where "sent = []" "s' = s" "r = Inl e"
  | a where "request_attempt True [] (clock_guards env rq @ [guard]) 1 1 (re_attempts env 1) s = (s', sent, a)"
      "r = (case a of Returned x \<Rightarrow> Inr x | Escaped e \<Rightarrow> Inl e | Retried \<Rightarrow> Inr None)"
proof (cases "(request_is_rpi rq \<and> rq_order_type rq \<noteq> ''LIMIT'') \<or> (rq_post_only rq \<and> rq_time_in_force rq \<notin> {''GTX'', ''RPI''})")
  case True
  then show ?thesis using assms that(1) by (auto simp: new_order_def split: if_splits)
next
  case False
  obtain s1 sent1 a where t: "request_attempt True [] (clock_guards env rq @ [guard]) 1 1 (re_attempts env 1) s = (s1, sent1, a)"
    by (rule prod_cases3)
  then have "s' = s1 \<and> sent = sent1 \<and> r = (case a of Returned x \<Rightarrow> Inr x | Escaped e \<Rightarrow> Inl e | Retried \<Rightarrow> Inr None)"
    using assms False by (auto simp: new_order_def request_def split: attempt_result.splits)
  then show ?thesis using that(2) t by blast
qed

text \<open>One attempt only, so the message leaves at most once, in the state the caller's guard let it go.\<close>

lemma new_order_once:
  assumes "new_order env guard rq s = (s', sent, r)"
  shows "sent = [] \<or> (\<exists>x code message. sent = [x] \<and> s' = x \<and> guard (ae_wait (re_attempts env 1) s) = (x, Verdict True code message))"
  using assms
proof (cases rule: new_order_attempt)
  case (2 a)
  then have "sent = [] \<or> (\<exists>x. sent = [x])" using request_attempt_sent(1) [OF 2(1)] by (cases sent) auto
  then show ?thesis using request_attempt_sent(2) [OF 2(1)] guards_passed clock_guards_pure by (metis list.set_intros(1))
qed simp

lemma send_order_cases:
  assumes "send_order env guard rq s = (s', sent, Inr cr)"
  obtains "sent = []" "s' = s" "cr_outcome cr = CO_REJECTED"
  | response where "new_order env guard rq s = (s', sent, Inr response)" "cr = classify_response response"
  using assms by (auto simp: send_order_def command_def Let_def split: if_splits verdict.splits prod.splits sum.splits)

lemma run_guard_status: "run_pre_send_guard gs s = (s', Some r) \<Longrightarrow> hr_status r = 409"
  by (induction gs arbitrary: s) (auto simp: local_guard_response_def split: prod.splits verdict.splits if_splits)

lemma answered_by:
  assumes "request_attempt True [] guards 1 1 env s = (s', sent, Returned (Some r))"
  shows "sent = [] \<and> hr_status r = 409 \<or> ae_send env = Inr r \<and> sent = [s']"
proof -
  obtain s2 g where g: "run_pre_send_guard guards (ae_wait env s) = (s2, g)" by fastforce
  then show ?thesis
    using assms run_guard_status [of guards "ae_wait env s" s2]
    by (cases g) (auto simp: request_attempt_def answer_attempt_def attempt_failed_def local_guard_response_def Let_def
        split: if_splits option.splits sum.splits)
qed

lemma new_order_response:
  assumes "new_order env guard rq s = (s', sent, Inr (Some r))"
  shows "sent = [] \<and> hr_status r = 409 \<or> ae_send (re_attempts env 1) = Inr r \<and> sent = [s']"
  using assms
proof (cases rule: new_order_attempt)
  case (2 a)
  then have "a = Returned (Some r)" by (cases a) auto
  then show ?thesis using 2(1) answered_by by metis
qed simp

subsection \<open>The contract of a gateway\<close>

text \<open>What the OMS relies on: a message leaves at most once and only in a state its guard let pass; a rejection or an
  acknowledgement is reported only when the exchange gave it or nothing left.\<close>

locale guarded_gateway =
  fixes send :: "'e \<Rightarrow> 's guard \<Rightarrow> order_request \<Rightarrow> 's \<Rightarrow> 's \<times> 's list \<times> (string + command_result)"
    and refused :: "'e \<Rightarrow> order_request \<Rightarrow> bool"
    and accepted :: "'e \<Rightarrow> order_request \<Rightarrow> string \<Rightarrow> bool"
  assumes sent_once: "send env guard rq s = (s', sent, r) \<Longrightarrow> length sent \<le> 1"
    and sent_guarded: "send env guard rq s = (s', sent, r) \<Longrightarrow> x \<in> set sent \<Longrightarrow>
      \<exists>s0 code message. guard s0 = (x, Verdict True code message)"
    and rejected_truthful: "send env guard rq s = (s', sent, Inr cr) \<Longrightarrow> cr_outcome cr = CO_REJECTED \<Longrightarrow> sent = [] \<or> refused env rq"
    and acknowledged_truthful: "send env guard rq s = (s', sent, Inr cr) \<Longrightarrow> cr_outcome cr = CO_ACKNOWLEDGED \<Longrightarrow>
      sent \<noteq> [] \<and> accepted env rq (cr_exchange_oid cr)"
begin

lemma unknown_when_undecided:
  assumes "send env guard rq s = (s', sent, Inr cr)" and "sent \<noteq> []" and "\<not> refused env rq" and "\<And>x. \<not> accepted env rq x"
  shows "cr_outcome cr = CO_UNKNOWN"
  using assms rejected_truthful acknowledged_truthful by (cases "cr_outcome cr") blast+

end

definition exchange_refused :: "'s rest_env \<Rightarrow> bool" where
  "exchange_refused env = (case ae_send (re_attempts env 1) of Inl _ \<Rightarrow> False | Inr r \<Rightarrow> hr_status r \<noteq> 200 \<and> \<not> ambiguous r)"

definition exchange_accepted :: "'s rest_env \<Rightarrow> string \<Rightarrow> bool" where
  "exchange_accepted env exchange_oid = (case ae_send (re_attempts env 1) of
      Inl _ \<Rightarrow> False
    | Inr r \<Rightarrow> hr_status r = 200 \<and> (case hr_body r of Fields _ _ (Some x) \<Rightarrow> x = exchange_oid | _ \<Rightarrow> False))"

lemma classify_outcome:
  "cr_outcome (classify_response resp) = CO_REJECTED \<Longrightarrow> \<exists>r. resp = Some r \<and> hr_status r \<noteq> 200 \<and> \<not> ambiguous r"
  "cr_outcome (classify_response resp) = CO_ACKNOWLEDGED \<Longrightarrow>
     \<exists>r c m. resp = Some r \<and> hr_status r = 200 \<and> hr_body r = Fields c m (Some (cr_exchange_oid (classify_response resp)))"
  by (auto simp: classify_response_def command_def Let_def case_prod_unfold split: option.splits if_splits json_body.splits)

lemma send_order_once:
  assumes "send_order env guard rq s = (s', sent, r)"
  shows "sent = [] \<or> (\<exists>x code message. sent = [x] \<and> s' = x \<and> guard (ae_wait (re_attempts env 1) s) = (x, Verdict True code message))"
proof (cases "sent = []")
  case False
  then obtain q where "new_order env guard rq s = (s', sent, q)"
    using assms by (auto simp: send_order_def Let_def split: if_splits verdict.splits prod.splits sum.splits)
  then show ?thesis by (rule new_order_once)
qed simp

interpretation rest: guarded_gateway send_order "\<lambda>env rq. exchange_refused env" "\<lambda>env rq. exchange_accepted env"
proof unfold_locales
  fix env :: "'s rest_env" and guard rq s s' sent r
  assume send: "send_order env guard rq s = (s', sent, r)"
  show "length sent \<le> 1" using send_order_once [OF send] by auto
  show "\<exists>s0 code message. guard s0 = (x, Verdict True code message)" if "x \<in> set sent" for x
    using send_order_once [OF send] that by (metis empty_iff list.set(1) set_ConsD)
next
  fix env :: "'s rest_env" and guard rq s s' sent cr
  assume send: "send_order env guard rq s = (s', sent, Inr cr)"
  show "sent = [] \<or> exchange_refused env" if "cr_outcome cr = CO_REJECTED"
    using send
  proof (cases rule: send_order_cases)
    case (2 response)
    then show ?thesis using that classify_outcome(1) [of response] new_order_response
      by (fastforce simp: exchange_refused_def)
  qed simp
  show "sent \<noteq> [] \<and> exchange_accepted env (cr_exchange_oid cr)" if "cr_outcome cr = CO_ACKNOWLEDGED"
    using send
  proof (cases rule: send_order_cases)
    case (2 response)
    then show ?thesis using that classify_outcome(2) [of response] new_order_response
      by (fastforce simp: exchange_accepted_def)
  qed (use that in simp)
qed

text \<open>Claim C11: what the gateway reports of an order is true. The message leaves at most once, and only in a state that the caller's guard
  let pass; a rejection is reported only when nothing left or the exchange refused it, an acknowledgement only
  when the exchange accepted it under that id; when the message left and the client failed, the outcome is unknown, never a rejection.\<close>

theorem order_outcome_truthful:
  assumes "send_order env guard rq s = (s', sent, Inr cr)"
  shows "length sent \<le> 1 \<and> (\<forall>x\<in>set sent. \<exists>code message. guard (ae_wait (re_attempts env 1) s) = (x, Verdict True code message)) \<and>
    (cr_outcome cr = CO_REJECTED \<longrightarrow> sent = [] \<or> exchange_refused env) \<and>
    (cr_outcome cr = CO_ACKNOWLEDGED \<longrightarrow> sent \<noteq> [] \<and> exchange_accepted env (cr_exchange_oid cr)) \<and>
    (sent \<noteq> [] \<and> (\<exists>e. ae_send (re_attempts env 1) = Inl e) \<longrightarrow> cr_outcome cr = CO_UNKNOWN)"
proof (intro conjI impI ballI)
  show "length sent \<le> 1" using assms by (rule rest.sent_once)
  show "\<exists>code message. guard (ae_wait (re_attempts env 1) s) = (x, Verdict True code message)" if "x \<in> set sent" for x
    using send_order_once [OF assms] that by auto
  show "sent = [] \<or> exchange_refused env" if "cr_outcome cr = CO_REJECTED" using rest.rejected_truthful [OF assms that] .
  show "sent \<noteq> []" "exchange_accepted env (cr_exchange_oid cr)" if "cr_outcome cr = CO_ACKNOWLEDGED"
    using rest.acknowledged_truthful [OF assms that] by simp_all
  show "cr_outcome cr = CO_UNKNOWN" if "sent \<noteq> [] \<and> (\<exists>e. ae_send (re_attempts env 1) = Inl e)"
    using that by (intro rest.unknown_when_undecided [OF assms]) (auto simp: exchange_refused_def exchange_accepted_def)
qed

definition demo_env :: "string + http_response \<Rightarrow> int rest_env" where
  "demo_env answer = \<lparr>re_book_ready = True, re_require_healthy_clock = True, re_clock_health = Verdict True [] [],
     re_order_clock_guard = Some (Verdict True [] []), re_max_retries = 2,
     re_attempts = (\<lambda>_. \<lparr>ae_wait = (\<lambda>s. s + 1), ae_sign = None, ae_build = None, ae_budget = Inr None, ae_send = answer,
       ae_resync = Inr True\<rparr>)\<rparr>"

definition demo_request :: order_request where
  "demo_request = \<lparr>rq_symbol = ''BTCUSDT'', rq_price = 100, rq_volume = 2, rq_side = ''BUY'', rq_order_type = ''LIMIT'',
     rq_time_in_force = ''GTX'', rq_post_only = True, rq_reduce_only = False, rq_self_trade_prevention_mode = []\<rparr>"

theorem order_outcome_truthful_witness:
  "\<exists>cr. send_order (demo_env (Inl ''Timeout'')) (\<lambda>s. (s, Verdict (s < 5) [] [])) demo_request 1 = (2, [2], Inr cr) \<and> cr_outcome cr = CO_UNKNOWN"
proof -
  define r where "r = send_order (demo_env (Inl ''Timeout'')) (\<lambda>s. (s, Verdict (s < 5) [] [])) demo_request 1"
  define cr where "cr = command CO_UNKNOWN [] [] ''transport response unavailable''"
  have "r = (2, [2], Inr cr)"
    by (simp add: r_def cr_def send_order_def new_order_def request_def request_attempt_def attempt_failed_def
        clock_guards_def classify_response_def demo_env_def demo_request_def request_is_rpi_def)
  from order_outcome_truthful [OF this [unfolded r_def]] this show ?thesis unfolding r_def by (auto simp: demo_env_def)
qed

text \<open>The last attempt is never retried, so the loop ends with what one of its attempts returned or raised.\<close>

lemma last_attempt_ends: "request_attempt signed suppress guards l l env s = (s', sent, a) \<Longrightarrow> a \<noteq> Retried"
  by (auto simp: request_attempt_def answer_attempt_def attempt_failed_def Let_def split: if_splits option.splits sum.splits prod.splits)

fun attempt_answer :: "attempt_result \<Rightarrow> string + http_response option" where
  "attempt_answer (Returned r) = Inr r"
| "attempt_answer (Escaped e) = Inl e"
| "attempt_answer Retried = Inr None"

lemma request_loop_ends:
  assumes "request_loop signed suppress guards l envs (Suc n) s = (s', sent, r)"
  shows "\<exists>k s0 last a. l - int n \<le> k \<and> k \<le> l \<and> request_attempt signed suppress guards k l (envs k) s0 = (s', last, a) \<and>
    a \<noteq> Retried \<and> r = attempt_answer a \<and> int (length sent) \<le> k - (l - int n) + 1"
  using assms
proof (induction n arbitrary: s sent)
  case 0
  obtain s1 sent1 a where a: "request_attempt signed suppress guards l l (envs l) s = (s1, sent1, a)" by (rule prod_cases3)
  then show ?case
    using 0 last_attempt_ends [OF a] request_attempt_sent(1) [OF a] by (cases a) fastforce+
next
  case (Suc n)
  define k where "k = l - int (Suc n)"
  obtain s1 sent1 a where a: "request_attempt signed suppress guards k l (envs k) s = (s1, sent1, a)" by (rule prod_cases3)
  note one = request_attempt_sent(1) [OF a]
  obtain s2 sent2 r2 where b: "request_loop signed suppress guards l envs (Suc n) s1 = (s2, sent2, r2)" by (rule prod_cases3)
  have loop: "request_loop signed suppress guards l envs (Suc (Suc n)) s =
      (case a of Retried \<Rightarrow> (s2, sent1 @ sent2, r2) | _ \<Rightarrow> (s1, sent1, attempt_answer a))"
    unfolding request_loop.simps(2) [of signed suppress guards l envs "Suc n"] k_def [symmetric] Let_def a prod.case b
    by (cases a) simp_all
  show ?case
  proof (cases "a = Retried")
    case True
    then have eq: "s2 = s'" "r2 = r" "sent = sent1 @ sent2" using Suc.prems loop by simp_all
    obtain j s0 last a where "l - int n \<le> j" "j \<le> l" "request_attempt signed suppress guards j l (envs j) s0 = (s', last, a)"
      "a \<noteq> Retried" "r = attempt_answer a" "int (length sent2) \<le> j - (l - int n) + 1"
      using Suc.IH [OF b [unfolded eq(1,2)]] by blast
    then show ?thesis using one eq(3) by (intro exI [of _ j] exI [of _ s0] exI [of _ last] exI [of _ a]) simp
  next
    case False
    then have "s1 = s'" "sent1 = sent" "r = attempt_answer a" using Suc.prems loop by (cases a; simp)+
    then show ?thesis using a one False by (intro exI [of _ k]) (auto simp: k_def)
  qed
qed

text \<open>Claim C28: a request with retries ends. With an attempt limit of at least one, its result is what an attempt numbered at most the
  limit returned or raised, never the end of an exhausted loop; it leaves the process at most once per attempt made, and each time only after all its guards.\<close>

theorem request_terminates:
  fixes envs :: "int \<Rightarrow> 's attempt_env"
  assumes "request max_retries signed suppress guards max_attempts envs s = (s', sent, r)"
    and "limit = (case max_attempts of None \<Rightarrow> max_retries | Some n \<Rightarrow> max 1 n)" and "limit \<ge> 1"
  shows "(\<exists>k s0 last a. 1 \<le> k \<and> k \<le> limit \<and> request_attempt signed suppress guards k limit (envs k) s0 = (s', last, a) \<and>
      a \<noteq> Retried \<and> r = attempt_answer a \<and> int (length sent) \<le> k) \<and>
    (\<forall>x\<in>set sent. \<exists>s0. run_pre_send_guard guards s0 = (x, None))"
proof -
  have loop: "request_loop signed suppress guards limit envs (nat limit) s = (s', sent, r)"
    using assms(1,2) by (simp add: request_def Let_def)
  obtain n where n: "nat limit = Suc n" "limit = int n + 1" using that [of "nat limit - 1"] assms(3) by simp
  show ?thesis using request_loop_ends [OF loop [unfolded n(1)]] request_loop_sent [OF loop] n(2) by simp
qed

definition flaky :: "int \<Rightarrow> int attempt_env" where
  "flaky k = \<lparr>ae_wait = (\<lambda>s. s + 1), ae_sign = None, ae_build = None, ae_budget = Inr None,
     ae_send = (if k = 1 then Inl ''Timeout'' else Inr \<lparr>hr_status = 503, hr_body = Not_json\<rparr>), ae_resync = Inr True\<rparr>"

theorem request_terminates_witness:
  "request 2 True [] [\<lambda>s. (s, Verdict True [] [])] None flaky 0 = (2, [1, 2], Inr (Some \<lparr>hr_status = 503, hr_body = Not_json\<rparr>)) \<and>
   (\<exists>k s0 last a. 1 \<le> k \<and> k \<le> 2 \<and>
      request_attempt True [] [\<lambda>s. (s, Verdict True [] [])] k 2 (flaky k) s0 = (2, last, a) \<and> a \<noteq> Retried \<and>
      Inr (Some \<lparr>hr_status = 503, hr_body = Not_json\<rparr>) = attempt_answer a)"
proof -
  have r: "request 2 True [] [\<lambda>s. (s, Verdict True [] [])] None flaky 0 = (2, [1, 2], Inr (Some \<lparr>hr_status = 503, hr_body = Not_json\<rparr>))"
    by (simp add: request_def numeral_2_eq_2 request_attempt_def flaky_def attempt_failed_def answer_attempt_def)
  from request_terminates [OF r, of 2] r show ?thesis by auto
qed

end
