(* ===== verification/Order_Dispatch.thy ===== *)
theory Order_Dispatch
  imports Order_Admission Order_Transport
begin

text \<open>
  The dispatch of a prepared order: the final send fence and the pre-send guard of \<open>oms/submit_settlement.py\<close>
  (\<open>_get_final_outbound_send_rejection_locked\<close>, \<open>_dispatch_gateway_order_with_final_fence\<close>), over a gateway that keeps
  the contract of \<open>Order_Transport\<close>. The fence is checked twice: when the dispatch starts, and by the guard right before
  the message leaves, after other threads have run.

  Arguments stand for: the sensors and clocks each check reads, and the observation of the calibration loss, which belongs to
  a component that is not modelled.
\<close>

subsection \<open>State\<close>

text \<open>What the fence reads of the calibration permit.\<close>

record calibration =
  cal_enabled :: bool
  cal_expired :: bool
  cal_expiry_reason :: string
  cal_restart_rearm_blocked :: bool
  cal_reservation_ids :: "string list"
  cal_permit_activated :: bool
  cal_not_before_ns :: int
  cal_expires_at_ns :: int
  cal_peak_observed_loss_microu :: int
  cal_effective_loss_cap_microu :: int

text \<open>The last two fields are the variables that the closures of the dispatch share.\<close>

record dispatching =
  g_desk :: desk
  g_budget :: message_budget
  g_calibration :: calibration
  g_terminal_reason :: string
  g_reservation :: "reservation option"

abbreviation g_oms :: "dispatching \<Rightarrow> oms" where
  "g_oms g \<equiv> d_oms (g_desk g)"

definition on_gate :: "(oms \<Rightarrow> oms) \<Rightarrow> dispatching \<Rightarrow> dispatching" where
  "on_gate h g = g\<lparr>g_desk := on_oms h (g_desk g)\<rparr>"

record fence_env =
  fe_sensors :: sensors
  fe_now_ns :: int
  fe_observe_loss :: "calibration \<Rightarrow> calibration \<times> string"

record send_ticket =
  tk_permit_epoch :: "int option"
  tk_intent :: order_intent
  tk_client_oid :: string
  tk_risk_increasing :: bool
  tk_allow_shutdown_emergency :: bool

subsection \<open>The final fence\<close>

text \<open>The part of the fence that reads the gate: the reason of the refusal, empty when it passes.\<close>

definition gate_rejection :: "send_ticket \<Rightarrow> oms \<Rightarrow> string" where
  "gate_rejection tk s =
     (case tk_permit_epoch tk of
        None \<Rightarrow> ''outbound_send_permit_missing''
      | Some permit_epoch \<Rightarrow>
          if s_stopped s then ''shutdown_requested:'' @ str_or (s_shutdown_reason s) ''oms_stopping''
          else if s_all_order_seal_reason s \<noteq> [] then ''outbound_order_gate_closed:'' @ s_all_order_seal_reason s
          else if s_shutdown_requested s \<and> \<not> tk_allow_shutdown_emergency tk
          then ''shutdown_requested:'' @ str_or (s_shutdown_reason s) ''oms_stopping''
          else if tk_risk_increasing tk \<and> permit_epoch \<noteq> s_gate_epoch s
          then ''outbound_gate_epoch_changed:'' @ str_of_int permit_epoch @ ''!='' @ str_of_int (s_gate_epoch s)
          else if tk_risk_increasing tk \<and> \<not> s_gate_open s then ''outbound_gate_closed:'' @ str_or (s_gate_reason s) ''closed''
          else [])"

definition mode_changed_rejection :: "policy_config \<Rightarrow> order_intent \<Rightarrow> oms \<Rightarrow> string" where
  "mode_changed_rejection c i s =
     (if s_capability_mode s = CM_PASSIVE_ONLY \<and> \<not> oi_is_post_only i then ''oms_mode_passive_only_changed_before_dispatch''
      else if s_capability_mode s = CM_DEGRADED \<and> pc_degraded_aggressive_to_passive c \<and> \<not> oi_is_post_only i
      then ''oms_mode_degraded_changed_before_dispatch''
      else [])"

definition dispatch_health_rejection :: "policy_config \<Rightarrow> sensors \<Rightarrow> desk \<Rightarrow> order_intent \<Rightarrow> string" where
  "dispatch_health_rejection c sn d i =
     first_reason [get_clock_health_rejection c sn i, get_venue_dead_man_switch_rejection c sn i,
       get_risk_control_heartbeat_rejection c sn i, get_margin_health_rejection c sn (d_account d) i,
       get_self_trade_prevention_rejection c (d_orders d) i]"

definition calibration_rejection :: "fence_env \<Rightarrow> string \<Rightarrow> calibration \<Rightarrow> calibration \<times> string \<times> string" where
  "calibration_rejection fe client_oid cal =
     (if \<not> cal_enabled cal then (cal, [], [])
      else if cal_expired cal
      then (cal, ''rpi_calibration_permit_expired_at_dispatch'', str_or (cal_expiry_reason cal) ''permit_expired'')
      else if cal_restart_rearm_blocked cal
      then (cal, ''rpi_calibration_restart_blocked_at_dispatch'', ''unclean_restart_requires_new_permit'')
      else if client_oid \<notin> set (cal_reservation_ids cal)
      then (cal, ''rpi_calibration_reservation_missing_at_dispatch'', ''reservation_missing_at_dispatch'')
      else if \<not> cal_permit_activated cal
      then (cal, ''rpi_calibration_permit_inactive_at_dispatch'', ''permit_inactive_at_dispatch'')
      else if fe_now_ns fe < cal_not_before_ns cal
      then (cal, ''rpi_calibration_permit_not_yet_valid_at_dispatch'', ''permit_time_regressed_before_not_before'')
      else if fe_now_ns fe \<ge> cal_expires_at_ns cal
      then (cal, ''rpi_calibration_permit_expired_at_dispatch'', ''permit_expired'')
      else
        let (cal1, loss_truth_reason) = fe_observe_loss fe cal in
        if loss_truth_reason \<noteq> []
        then (cal1, ''rpi_calibration_loss_truth_unavailable_at_dispatch'', ''calibration_loss_truth_unavailable:'' @ loss_truth_reason)
        else if cal_peak_observed_loss_microu cal1 \<ge> cal_effective_loss_cap_microu cal1
        then (cal1, ''rpi_calibration_loss_cap_exhausted_at_dispatch'', ''max_calibration_loss_exhausted'')
        else (cal1, [], []))"

definition final_send_rejection ::
  "policy_config \<Rightarrow> fence_env \<Rightarrow> send_ticket \<Rightarrow> dispatching \<Rightarrow> dispatching \<times> (string \<times> string) res" where
  "final_send_rejection c fe tk g =
     (let i = tk_intent tk; d = g_desk g in
      if gate_rejection tk (d_oms d) \<noteq> [] then (g, Inr (gate_rejection tk (d_oms d), []))
      else if tk_client_oid tk \<in> set (d_cancel_requested d) then (g, Inr (''cancel_requested_before_transport'', []))
      else if \<not> tk_risk_increasing tk then (g, Inr ([], []))
      else case get_order_block_reason c (oi_strategy_id i) (oi_symbol i) (oi_reduce_only i) d of
          (d1, Inl (Raised e)) \<Rightarrow> (g\<lparr>g_desk := d1\<rparr>, Inl e)
        | (d1, Inl (Refused r)) \<Rightarrow> (g\<lparr>g_desk := d1\<rparr>, Inr (r, []))
        | (d1, Inl (Lost r)) \<Rightarrow> (g\<lparr>g_desk := d1\<rparr>, Inr (r, []))
        | (d1, Inr _) \<Rightarrow>
            (let g1 = g\<lparr>g_desk := d1\<rparr>;
                 health = str_or (mode_changed_rejection c i (d_oms d1)) (dispatch_health_rejection c (fe_sensors fe) d1 i)
             in if health \<noteq> [] then (g1, Inr (health, []))
                else
                  let (cal, refusal, terminal) = calibration_rejection fe (tk_client_oid tk) (g_calibration g1)
                  in (g1\<lparr>g_calibration := cal\<rparr>, Inr (refusal, terminal))))"

text \<open>Both uses of the fence close the gate when the calibration ends here or the fence itself fails.\<close>

definition checked_fence ::
  "string \<Rightarrow> string \<Rightarrow> string \<Rightarrow> policy_config \<Rightarrow> fence_env \<Rightarrow> send_ticket \<Rightarrow> dispatching \<Rightarrow> dispatching \<times> string" where
  "checked_fence unavailable hold terminal_unavailable c fe tk g =
     (case final_send_rejection c fe tk g of
        (g1, Inr (refusal, terminal)) \<Rightarrow>
          (if terminal = [] then g1
           else on_gate (close_outbound_gate_locked (''rpi_calibration:'' @ terminal) ''rpi_calibration_dispatch_revoked'')
                  (g1\<lparr>g_terminal_reason := terminal\<rparr>), refusal)
      | (g1, Inl e) \<Rightarrow>
          (let refusal = unavailable @ exc_name e;
               g2 = (if cal_enabled (g_calibration g1) \<and> tk_risk_increasing tk
                     then g1\<lparr>g_terminal_reason := terminal_unavailable\<rparr> else g1)
           in (on_gate (close_outbound_gate_locked refusal hold) g2, refusal)))"

subsection \<open>The guard and the dispatch\<close>

definition message_kind_of :: "order_request \<Rightarrow> string" where
  "message_kind_of rq = (if rq_reduce_only rq then REDUCE_ORDER else NEW_ORDER)"

definition reserve_transport_message :: "pyfloat \<Rightarrow> string \<Rightarrow> order_request \<Rightarrow> dispatching \<Rightarrow> dispatching \<times> string res" where
  "reserve_transport_message now token rq g =
     (if g_reservation g \<noteq> None then (g, Inr [])
      else case reserve_token (message_kind_of rq) now token (g_budget g) of
          (b, Inl e) \<Rightarrow> (g\<lparr>g_budget := b\<rparr>, Inl e)
        | (b, Inr (reservation, why)) \<Rightarrow>
            (if why = [] then g\<lparr>g_budget := b, g_reservation := reservation\<rparr> else g\<lparr>g_budget := b\<rparr>, Inr why))"

definition transport_pre_send_guard ::
  "policy_config \<Rightarrow> fence_env \<Rightarrow> send_ticket \<Rightarrow> pyfloat \<Rightarrow> string \<Rightarrow> order_request \<Rightarrow> dispatching guard" where
  "transport_pre_send_guard c fe tk now token rq g =
     (let (g1, refusal) = checked_fence ''outbound_transport_guard_unavailable:'' ''outbound_transport_guard_failure''
            ''transport_guard_unavailable'' c fe tk g
      in if refusal \<noteq> [] then (g1, Verdict False ''OUTBOUND_SEND_FENCE_REVOKED'' refusal)
         else case reserve_transport_message now token rq g1 of
             (g2, Inl e) \<Rightarrow> (g2, Guard_raised (exc_name e))
           | (g2, Inr why) \<Rightarrow> (g2, if why \<noteq> [] then Verdict False ''OUTBOUND_MESSAGE_BUDGET'' why else Verdict True [] []))"

text \<open>\<open>_normalize_submit_command\<close> for a gateway without the command contract: an id, or nothing.\<close>

datatype raw_result = Raw_command command_result | Raw_oid string | Raw_nothing

fun normalize_submit_command :: "raw_result \<Rightarrow> command_result" where
  "normalize_submit_command (Raw_command cr) = cr"
| "normalize_submit_command (Raw_oid exchange_oid) =
     (if exchange_oid = [] then command CO_REJECTED [] [] ''gateway_send_failed'' else command CO_ACKNOWLEDGED exchange_oid [] [])"
| "normalize_submit_command Raw_nothing = command CO_REJECTED [] [] ''gateway_send_failed''"

text \<open>\<open>_dispatch_gateway_order_with_final_fence\<close>. \<open>send\<close> is the gateway when it supports the guard; otherwise \<open>plain\<close> is what the
  unguarded call returns or raises. The audit of a refusal is best effort.\<close>

definition dispatch_order ::
  "(dispatching guard \<Rightarrow> order_request \<Rightarrow> dispatching \<Rightarrow> dispatching \<times> dispatching list \<times> (string + raw_result)) option
   \<Rightarrow> string + raw_result \<Rightarrow> policy_config \<Rightarrow> fence_env \<Rightarrow> fence_env \<Rightarrow> send_ticket \<Rightarrow> pyfloat \<Rightarrow> string \<Rightarrow> order_request
   \<Rightarrow> dispatching \<Rightarrow> dispatching \<times> dispatching list \<times> command_result" where
  "dispatch_order send plain c fe fe' tk now token rq g =
     (let outcome = (\<lambda>r. case r of Inl e \<Rightarrow> command CO_UNKNOWN [] [] (''gateway_send_exception:'' @ e)
                         | Inr raw \<Rightarrow> normalize_submit_command raw);
          (g1, refusal) = checked_fence ''outbound_send_fence_unavailable:'' ''outbound_dispatch_fence_failure''
            ''dispatch_fence_unavailable'' c fe tk (g\<lparr>g_terminal_reason := [], g_reservation := None\<rparr>)
      in if refusal \<noteq> []
         then (on_gate (\<lambda>s. fst (audit ''outbound_send_fence_rejected'' s)) g1, [],
               command CO_REJECTED [] ''OUTBOUND_SEND_FENCE_REVOKED'' refusal)
         else case send of
             Some gateway \<Rightarrow>
               (case gateway (transport_pre_send_guard c fe' tk now token rq) rq g1 of (g2, sent, r) \<Rightarrow> (g2, sent, outcome r))
           | None \<Rightarrow>
               if cal_enabled (g_calibration g1) \<and> tk_risk_increasing tk
               then (on_gate (close_outbound_gate_locked ''rpi_calibration:transport_guard_unavailable'' ''outbound_transport_guard_failure'')
                       (g1\<lparr>g_terminal_reason := ''transport_guard_unavailable''\<rparr>), [],
                     command CO_REJECTED [] ''OUTBOUND_SEND_FENCE_REVOKED'' ''outbound_transport_guard_unavailable'')
               else case reserve_transport_message now token rq g1 of
                   (g2, Inl e) \<Rightarrow> (g2, [], command CO_UNKNOWN [] [] (''gateway_send_exception:'' @ exc_name e))
                 | (g2, Inr why) \<Rightarrow>
                     if why \<noteq> [] then (g2, [], command CO_REJECTED [] ''OUTBOUND_MESSAGE_BUDGET'' why)
                     else (g2, [g2], outcome plain))"

subsection \<open>What passes the fence\<close>

text \<open>A state in which the fence lets a ticket pass.\<close>

definition may_leave :: "policy_config \<Rightarrow> fence_env \<Rightarrow> send_ticket \<Rightarrow> dispatching \<Rightarrow> bool" where
  "may_leave c fe tk g \<longleftrightarrow>
     (let s = g_oms g; i = tk_intent tk in
      tk_permit_epoch tk \<noteq> None \<and> \<not> s_stopped s \<and> s_all_order_seal_reason s = [] \<and>
      (s_shutdown_requested s \<longrightarrow> tk_allow_shutdown_emergency tk) \<and>
      tk_client_oid tk \<notin> set (d_cancel_requested (g_desk g)) \<and>
      (tk_risk_increasing tk \<longrightarrow>
         tk_permit_epoch tk = Some (s_gate_epoch s) \<and> s_gate_open s \<and>
         freeze_reason c (oi_strategy_id i) (oi_symbol i) s = [] \<and>
         get_margin_health_rejection c (fe_sensors fe) (d_account (g_desk g)) i = [] \<and>
         (pc_self_trade_prevention_enabled c \<and> pc_local_self_cross_check_enabled c \<longrightarrow>
            (\<forall>ord\<in>set (d_orders (g_desk g)). \<not> self_crosses i ord)) \<and>
         (cal_enabled (g_calibration g) \<longrightarrow> \<not> cal_expired (g_calibration g) \<and>
            tk_client_oid tk \<in> set (cal_reservation_ids (g_calibration g)) \<and> fe_now_ns fe < cal_expires_at_ns (g_calibration g))))"

lemma gate_rejection_Nil:
  "gate_rejection tk s = [] \<longleftrightarrow>
     tk_permit_epoch tk \<noteq> None \<and> \<not> s_stopped s \<and> s_all_order_seal_reason s = [] \<and>
     (s_shutdown_requested s \<longrightarrow> tk_allow_shutdown_emergency tk) \<and>
     (tk_risk_increasing tk \<longrightarrow> tk_permit_epoch tk = Some (s_gate_epoch s) \<and> s_gate_open s)"
  by (auto simp: gate_rejection_def split: option.split)

lemma calibration_rejection_Nil:
  "calibration_rejection fe oid cal = (cal', [], t) \<Longrightarrow>
     cal_enabled cal \<longrightarrow> \<not> cal_expired cal \<and> oid \<in> set (cal_reservation_ids cal) \<and> fe_now_ns fe < cal_expires_at_ns cal"
  by (auto simp: calibration_rejection_def Let_def split: if_splits)

lemma health_rejection_Nil:
  assumes "dispatch_health_rejection c sn d i = []"
  shows "get_margin_health_rejection c sn (d_account d) i = []"
    and "pc_self_trade_prevention_enabled c \<Longrightarrow> pc_local_self_cross_check_enabled c \<Longrightarrow> ord \<in> set (d_orders d) \<Longrightarrow> \<not> self_crosses i ord"
  using assms by (auto simp: dispatch_health_rejection_def get_self_trade_prevention_rejection_def find_None split: if_splits option.splits)

lemma block_refusal:
  "get_order_block_reason c st sy ro d \<noteq> (d', Inl (Refused []))" "get_order_block_reason c st sy ro d \<noteq> (d', Inl (Lost r))"
  by (auto simp: get_order_block_reason_def sbind_def refuse_if_def ensure_mode_def Let_def
      split: prod.splits sum.splits if_splits)

lemma final_send_passed:
  assumes "final_send_rejection c fe tk g = (g', Inr ([], t))"
  shows "may_leave c fe tk g"
proof (cases "tk_risk_increasing tk")
  case False
  then show ?thesis using assms
    by (auto simp: final_send_rejection_def may_leave_def gate_rejection_Nil Let_def split: if_splits)
next
  case True
  define i d where "i = tk_intent tk" and "d = g_desk g"
  have gate: "gate_rejection tk (d_oms d) = []" "tk_client_oid tk \<notin> set (d_cancel_requested d)"
    using assms by (auto simp: final_send_rejection_def d_def Let_def split: if_splits)
  obtain d1 r where b: "get_order_block_reason c (oi_strategy_id i) (oi_symbol i) (oi_reduce_only i) d = (d1, r)" by fastforce
  have r: "r = Inr ()" "dispatch_health_rejection c (fe_sensors fe) d1 i = []" "\<exists>cal t. calibration_rejection fe (tk_client_oid tk) (g_calibration g) = (cal, [], t)"
    using assms gate b True unfolding final_send_rejection_def i_def [symmetric] d_def [symmetric] Let_def
    by (auto simp: str_or_def block_refusal split: sum.splits stopped.splits if_splits prod.splits)
  show ?thesis
    using gate block_Inr [OF b [unfolded r(1)]] health_rejection_Nil [OF r(2)] r(3) calibration_rejection_Nil
    by (auto simp: may_leave_def gate_rejection_Nil unmoved_def i_def d_def Let_def)
qed

lemma reserved_message:
  assumes "reserve_transport_message now token rq g = (x, Inr [])" and "mb_enabled (g_budget x)"
  shows "g_reservation x \<noteq> None"
  using assms by (auto simp: reserve_transport_message_def reserve_token_def Let_def split: if_splits prod.splits sum.splits)

lemma guard_passed:
  assumes "transport_pre_send_guard c fe tk now token rq g = (x, Verdict True code message)"
  shows "may_leave c fe tk g" and "mb_enabled (g_budget x) \<Longrightarrow> g_reservation x \<noteq> None"
proof -
  obtain g1 refusal where f: "checked_fence ''outbound_transport_guard_unavailable:'' ''outbound_transport_guard_failure''
      ''transport_guard_unavailable'' c fe tk g = (g1, refusal)" by fastforce
  then have ok: "refusal = []" "reserve_transport_message now token rq g1 = (x, Inr [])"
    using assms by (auto simp: transport_pre_send_guard_def split: if_splits sum.splits prod.splits)
  obtain g2 t where "final_send_rejection c fe tk g = (g2, Inr ([], t))"
    using f ok(1) by (auto simp: checked_fence_def Let_def split: prod.splits sum.splits)
  then show "may_leave c fe tk g" by (rule final_send_passed)
  show "mb_enabled (g_budget x) \<Longrightarrow> g_reservation x \<noteq> None" using ok(2) by (rule reserved_message)
qed

subsection \<open>The dispatch over a gateway that keeps its contract\<close>

definition commands :: "('e \<Rightarrow> dispatching guard \<Rightarrow> order_request \<Rightarrow> dispatching \<Rightarrow> dispatching \<times> dispatching list \<times> (string + command_result))
   \<Rightarrow> 'e \<Rightarrow> dispatching guard \<Rightarrow> order_request \<Rightarrow> dispatching \<Rightarrow> dispatching \<times> dispatching list \<times> (string + raw_result)" where
  "commands send env guard rq g = (case send env guard rq g of
      (g', sent, Inl e) \<Rightarrow> (g', sent, Inl e) | (g', sent, Inr cr) \<Rightarrow> (g', sent, Inr (Raw_command cr)))"

locale dispatch_gateway = guarded_gateway send refused accepted
  for send :: "'e \<Rightarrow> dispatching guard \<Rightarrow> order_request \<Rightarrow> dispatching \<Rightarrow> dispatching \<times> dispatching list \<times> (string + command_result)"
    and refused :: "'e \<Rightarrow> order_request \<Rightarrow> bool" and accepted :: "'e \<Rightarrow> order_request \<Rightarrow> string \<Rightarrow> bool"
begin

lemma dispatch_cases:
  assumes "dispatch_order (Some (commands send env)) plain c fe fe' tk now token rq g = (g', sent, cr)"
  obtains "sent = []" "cr_outcome cr = CO_REJECTED"
  | g1 r where "send env (transport_pre_send_guard c fe' tk now token rq) rq g1 = (g', sent, r)"
      "case r of Inl e \<Rightarrow> cr_outcome cr = CO_UNKNOWN | Inr cr' \<Rightarrow> cr = cr'"
  using assms by (auto simp: dispatch_order_def commands_def command_def Let_def split: prod.splits sum.splits if_splits)

lemma dispatch_sent:
  assumes "dispatch_order (Some (commands send env)) plain c fe fe' tk now token rq g = (g', sent, cr)"
  shows "length sent \<le> 1" and "x \<in> set sent \<Longrightarrow> \<exists>g0 code message. may_leave c fe' tk g0 \<and>
    transport_pre_send_guard c fe' tk now token rq g0 = (x, Verdict True code message) \<and>
    (mb_enabled (g_budget x) \<longrightarrow> g_reservation x \<noteq> None)"
proof -
  show "length sent \<le> 1" using assms
  proof (cases rule: dispatch_cases)
    case (2 g1 r)
    then show ?thesis using sent_once [OF 2(1)] by simp
  qed simp
  show "\<exists>g0 code message. may_leave c fe' tk g0 \<and> transport_pre_send_guard c fe' tk now token rq g0 = (x, Verdict True code message) \<and>
    (mb_enabled (g_budget x) \<longrightarrow> g_reservation x \<noteq> None)" if mem: "x \<in> set sent"
    using assms
  proof (cases rule: dispatch_cases)
    case (2 g1 r)
    obtain g0 code message where "transport_pre_send_guard c fe' tk now token rq g0 = (x, Verdict True code message)"
      using sent_guarded [OF 2(1) mem] by auto
    with guard_passed [OF this] show ?thesis by blast
  qed (use mem in simp)
qed

lemma dispatch_truthful:
  assumes "dispatch_order (Some (commands send env)) plain c fe fe' tk now token rq g = (g', sent, cr)"
  shows "cr_outcome cr = CO_REJECTED \<Longrightarrow> sent = [] \<or> refused env rq"
    and "cr_outcome cr = CO_ACKNOWLEDGED \<Longrightarrow> sent \<noteq> [] \<and> accepted env rq (cr_exchange_oid cr)"
  using assms by (cases rule: dispatch_cases; auto split: sum.splits dest: rejected_truthful acknowledged_truthful)+

end

interpretation rest_dispatch: dispatch_gateway send_order "\<lambda>env rq. exchange_refused env" "\<lambda>env rq. exchange_accepted env" ..

text \<open>Claim C1: an order leaves only through the fence. Over the REST gateway, the dispatch sends at most one message; when it
  sends one, it does so in a state in which the permit's gate epoch is still current and the gate open (for an order that increases risk), nothing is
  sealed or stopped, no cancel was requested, no freeze, bad margin or own crossing order stands against it, and the
  message budget has granted the message; and a rejection it reports means that nothing left or the exchange refused.\<close>

theorem sent_only_through_fence:
  assumes "dispatch_order (Some (commands send_order env)) plain c fe fe' tk now token rq g = (g', sent, cr)"
  shows "length sent \<le> 1 \<and>
    (\<forall>x\<in>set sent. \<exists>g0 code message. may_leave c fe' tk g0 \<and>
       transport_pre_send_guard c fe' tk now token rq g0 = (x, Verdict True code message) \<and>
       (mb_enabled (g_budget x) \<longrightarrow> g_reservation x \<noteq> None)) \<and>
    (cr_outcome cr = CO_REJECTED \<longrightarrow> sent = [] \<or> exchange_refused env) \<and>
    (cr_outcome cr = CO_ACKNOWLEDGED \<longrightarrow> sent \<noteq> [] \<and> exchange_accepted env (cr_exchange_oid cr))"
  using rest_dispatch.dispatch_sent [OF assms] rest_dispatch.dispatch_truthful [OF assms] by blast

lemma rest_guard_state:
  assumes "dispatch_order (Some (commands send_order env)) plain c fe fe' tk now token rq g = (g', sent, cr)" and "sent \<noteq> []"
  obtains g1 where "may_leave c fe' tk (ae_wait (re_attempts env 1) g1)"
  using assms(1)
proof (cases rule: rest_dispatch.dispatch_cases)
  case (2 g1 r)
  then obtain x code message where "transport_pre_send_guard c fe' tk now token rq (ae_wait (re_attempts env 1) g1) = (x, Verdict True code message)"
    using send_order_once [OF 2(1)] assms(2) by auto
  from guard_passed(1) [OF this] show ?thesis by (rule that)
qed (use assms(2) in simp)

text \<open>Claim C7: the gate never moved while a sent order was on its way. Let the OMS run any operations \<open>xs\<close> up to the grant of the
  permit, and any operations \<open>us @ vs\<close> between the grant and the last check before the send: freezes, halts, rearms, resets, and the
  registration, settlement and update of this and of other orders. If the message of a risk-increasing order nevertheless
  left, then the gate was open after every prefix \<open>us\<close> of them: a gate that closed in between, even for a moment, revokes the send.\<close>

theorem sent_order_gate_held:
  assumes "dispatch_order (Some (commands send_order env)) plain c fe fe' tk now token rq g = (g', sent, cr)" and "sent \<noteq> []"
    and "tk_risk_increasing tk"
    and "tk_permit_epoch tk = Some (s_gate_epoch (fst (run_ops oms_step xs (oms_init symbols script, []))))"
    and "\<forall>g. g_oms (ae_wait (re_attempts env 1) g) = fst (run_ops oms_step (xs @ us @ vs) (oms_init symbols script, []))"
  shows "s_gate_open (fst (run_ops oms_step (xs @ us) (oms_init symbols script, [])))"
proof -
  let ?at = "\<lambda>ops. fst (run_ops oms_step ops (oms_init symbols script, []))"
  obtain g1 where "may_leave c fe' tk (ae_wait (re_attempts env 1) g1)" using assms(1,2) by (rule rest_guard_state)
  then have last: "s_gate_epoch (?at (xs @ us @ vs)) = s_gate_epoch (?at xs)" "s_gate_open (?at (xs @ us @ vs))"
    using assms(3-5) by (auto simp: may_leave_def Let_def)
  have "s_gate_open (?at (xs @ us @ vs)) = s_gate_open (?at xs)"
    using gate_epoch_fence [where zs = "[]" and ys = "us @ vs"] last(1) by simp
  moreover have "s_gate_open (?at (xs @ us)) = s_gate_open (?at xs)" using gate_epoch_fence [where zs = vs] last(1) by simp
  ultimately show ?thesis using last(2) by simp
qed


subsection \<open>Witnesses\<close>

definition demo_live :: oms where
  "demo_live = (oms_init [] [])\<lparr>s_state := LS_LIVE, s_lifecycle_generation := 1, s_capability_mode := CM_LIVE,
      s_capability_reason := ''full_reset_completed'', s_gate_open := True, s_gate_epoch := 1,
      s_gate_reason := [], s_order_inflight := 1, s_risk_inflight := 1,
      s_risk_by_symbol := [(''BTCUSDT'', 1)], s_orders := [(''c1'', demo_order)], s_settling := [''c1''],
      s_audit_log := [''capability_mode_changed'', ''full_reset_completed'']\<rparr>"

definition idle_budget :: message_budget where
  "idle_budget = \<lparr>mb_enabled = False, mb_window_sec = Fin 1, mb_max_total = 10, mb_max_new_orders = 5, mb_max_reduce_orders = 5,
     mb_max_cancels = 5, mb_reserved_risk_messages = 1, mb_reserved_cancel_messages = 1, mb_history = [], mb_last_observed_at = 0\<rparr>"

definition demo_going :: dispatching where
  "demo_going = \<lparr>g_desk = demo_desk\<lparr>d_oms := demo_live\<rparr>, g_budget = idle_budget,
     g_calibration = \<lparr>cal_enabled = False, cal_expired = False, cal_expiry_reason = [], cal_restart_rearm_blocked = False,
       cal_reservation_ids = [], cal_permit_activated = False, cal_not_before_ns = 0, cal_expires_at_ns = 0,
       cal_peak_observed_loss_microu = 0, cal_effective_loss_cap_microu = 0\<rparr>,
     g_terminal_reason = [], g_reservation = None\<rparr>"

definition demo_fence :: fence_env where
  "demo_fence = \<lparr>fe_sensors = demo_sensors, fe_now_ns = 0, fe_observe_loss = (\<lambda>cal. (cal, []))\<rparr>"

definition demo_ticket :: send_ticket where
  "demo_ticket = \<lparr>tk_permit_epoch = Some 1, tk_intent = demo_intent, tk_client_oid = ''c1'', tk_risk_increasing = True,
     tk_allow_shutdown_emergency = False\<rparr>"

definition demo_rest :: "dispatching rest_env" where
  "demo_rest = \<lparr>re_book_ready = True, re_require_healthy_clock = False, re_clock_health = Verdict True [] [],
     re_order_clock_guard = None, re_max_retries = 2,
     re_attempts = (\<lambda>_. \<lparr>ae_wait = on_gate (\<lambda>_. demo_live), ae_sign = None, ae_build = None, ae_budget = Inr None,
       ae_send = Inr \<lparr>hr_status = 200, hr_body = Fields None [] (Some ''77'')\<rparr>, ae_resync = Inr True\<rparr>)\<rparr>"

lemma demo_live_fence:
  "final_send_rejection demo_policy demo_fence demo_ticket demo_going = (demo_going, Inr ([], []))"
  by (simp add: final_send_rejection_def demo_going_def demo_ticket_def demo_live_def gate_rejection_def oms_init_def
      get_order_block_reason_def sbind_def refuse_if_def demo_desk_def ensure_mode_def ensure_capability_mode_consistent_def effective_mode_def
      capability_mode_for_state_def freeze_reason_def get_strategy_freeze_reason_def demo_policy_def empty_guards_def demo_intent_def
      mode_changed_rejection_def dispatch_health_rejection_def demo_fence_def demo_sensors_def get_clock_health_rejection_def
      get_venue_dead_man_switch_rejection_def get_risk_control_heartbeat_rejection_def get_margin_health_rejection_def
      get_self_trade_prevention_rejection_def calibration_rejection_def trading_mode_def str_or_def Let_def self_crosses_def demo_order_def order_init_def)

lemma demo_sent:
  "dispatch_order (Some (commands send_order demo_rest)) (Inr Raw_nothing) demo_policy demo_fence demo_fence demo_ticket (Fin 1) ''t'' demo_request demo_going =
   (demo_going, [demo_going], command CO_ACKNOWLEDGED ''77'' [] [])"
proof -
  have same: "demo_going\<lparr>g_terminal_reason := [], g_reservation := None\<rparr> = demo_going" "on_gate (\<lambda>_. demo_live) demo_going = demo_going"
    "reserve_transport_message now token rq demo_going = (demo_going, Inr [])" for now token rq
    by (simp_all add: demo_going_def on_gate_def on_oms_def reserve_transport_message_def reserve_token_def idle_budget_def)
  show ?thesis
    by (simp add: dispatch_order_def checked_fence_def demo_live_fence same commands_def send_order_def new_order_def request_def
        request_attempt_def answer_attempt_def clock_guards_def classify_response_def demo_rest_def demo_request_def request_is_rpi_def
        transport_pre_send_guard_def Let_def)
qed

theorem sent_only_through_fence_witness:
  "\<exists>sent cr. dispatch_order (Some (commands send_order demo_rest)) (Inr Raw_nothing) demo_policy demo_fence demo_fence demo_ticket (Fin 1) ''t''
      demo_request demo_going = (demo_going, sent, cr) \<and> sent = [demo_going] \<and> exchange_accepted demo_rest ''77''"
  using sent_only_through_fence [OF demo_sent] demo_sent by (simp add: command_def)

theorem sent_order_gate_held_witness:
  "let s = fst (run_ops oms_step ([Full_reset_commit [] LS_BOOTSTRAP 0 empty_snapshot, Acquire_permit True ''BTCUSDT'' False] @
      [Change_orders [(''c1'', demo_order)] [''c1'']]) (oms_init [] [], [])) in
   s_gate_open s \<and> dget (s_orders s) ''c1'' = Some demo_order \<and> s_settling s = [''c1'']"
proof -
  let ?at = "\<lambda>ops. fst (run_ops oms_step ops (oms_init [] [], []))"
  let ?xs = "[Full_reset_commit [] LS_BOOTSTRAP 0 empty_snapshot, Acquire_permit True ''BTCUSDT'' False]"
  let ?us = "[Change_orders [(''c1'', demo_order)] [''c1'']]"
  have run: "?at (?xs @ ?us @ []) = demo_live" unfolding run_ops_append demo_live_run by (simp add: demo_live_def)
  have epoch: "s_gate_epoch (?at ?xs) = 1" unfolding demo_live_run by simp
  have "tk_permit_epoch demo_ticket = Some (s_gate_epoch (?at ?xs))" unfolding epoch by (simp add: demo_ticket_def)
  moreover have "\<forall>g. g_oms (ae_wait (re_attempts demo_rest 1) g) = ?at (?xs @ ?us @ [])"
    unfolding run by (simp add: demo_rest_def on_gate_def on_oms_def)
  ultimately have "s_gate_open (?at (?xs @ ?us))"
    by (intro sent_order_gate_held [OF demo_sent]) (simp_all add: demo_ticket_def del: run_ops.simps)
  moreover have "?at (?xs @ ?us) = demo_live" using run by (simp only: append_Nil2)
  ultimately show ?thesis by (simp only: Let_def) (simp add: demo_live_def)
qed

end
