(* ===== verification/Order_Settlement.thy ===== *)
theory Order_Settlement
  imports Order_Dispatch
begin

text \<open>
  What follows the dispatch of an order: the second half of \<open>submit_order\<close> (\<open>oms/order_submission.py\<close>) with
  \<open>_bind_submit_exchange_oid_locked\<close>, \<open>_handle_submit_transport_conflict\<close>, \<open>_latch_submit_ambiguity_locked\<close> and
  \<open>_settle_post_dispatch_submit_exception\<close> of \<open>oms/submit_settlement.py\<close>. While the message was on its way other threads may have
  moved the order or removed it, so the settlement starts from any state; the thread holds the order object, and
  the map of orders holds the same object as long as it has the id.

  Arguments stand for the outcome of each journal write, the answers of the background executor, what other threads do while \<open>freeze_symbol\<close>
  waits, and the commit of the gateway. Audits take their outcome from the audit script, as in \<open>OMS_State\<close>. The order monitor and published events other than
  \<open>EVENT_ORDER_SUBMITTED\<close> are left out, and so is the expiry of a calibration permit.
\<close>

subsection \<open>State\<close>

record settlement =
  t_desk :: desk
  t_order :: order
  t_exchange_ids :: "(string, string) dict"    \<comment> \<open>\<open>exchange_id_map\<close>: exchange id to client id\<close>
  t_truth_checks :: "string list"              \<comment> \<open>\<open>_order_truth_resolution_inflight\<close>\<close>
  t_published :: "order_status list"
  t_tombstones :: "string list"

record settle_env =
  se_clock :: clock
  se_exc :: string                   \<comment> \<open>text of a journal error\<close>
  se_result :: "py_exc option"       \<comment> \<open>outcome of writing the command result\<close>
  se_snapshot :: "py_exc option"     \<comment> \<open>outcome of writing the order snapshot\<close>
  se_late_result :: "py_exc option"  \<comment> \<open>the same two writes while an exception is settled\<close>
  se_late_snapshot :: "py_exc option"
  se_polls :: "string \<Rightarrow> (oms \<Rightarrow> oms) list"   \<comment> \<open>what other threads do up to each later poll of a drain\<close>
  se_suppression :: string
  se_submission :: "string option"
  se_truth_accepted :: bool
  se_commit_fails :: bool

abbreviation t_oms :: "settlement \<Rightarrow> oms" where
  "t_oms t \<equiv> d_oms (t_desk t)"

abbreviation t_oid :: "settlement \<Rightarrow> string" where
  "t_oid t \<equiv> o_client_oid (t_order t)"

abbreviation t_symbol :: "settlement \<Rightarrow> string" where
  "t_symbol t \<equiv> oi_symbol (o_intent (t_order t))"

definition in_desk :: "(desk \<Rightarrow> desk) \<Rightarrow> settlement \<Rightarrow> settlement" where
  "in_desk h t = t\<lparr>t_desk := h (t_desk t)\<rparr>"

definition in_oms :: "(oms \<Rightarrow> oms) \<Rightarrow> settlement \<Rightarrow> settlement" where
  "in_oms h = in_desk (on_oms h)"

definition put_order :: "order \<Rightarrow> settlement \<Rightarrow> settlement" where
  "put_order ord t =
     (if dget (s_orders (t_oms t)) (o_client_oid ord) = None then t\<lparr>t_order := ord\<rparr>
      else in_desk (set_order (o_client_oid ord) ord) (t\<lparr>t_order := ord\<rparr>))"

definition mark_held :: "order_status set \<Rightarrow> (order \<Rightarrow> order \<times> bool res) \<Rightarrow> settlement \<Rightarrow> settlement" where
  "mark_held from f t = (if o_status (t_order t) \<in> from then put_order (fst (f (t_order t))) t else t)"

definition release_send :: "settlement \<Rightarrow> settlement" where
  "release_send t = in_desk (release_permit (o_intent (t_order t))) t"

definition finish_send :: "settlement \<Rightarrow> settlement" where
  "finish_send t = in_desk (finish_submit_settlement (t_oid t)) t"

subsection \<open>Steps\<close>

definition latch_failure :: "settle_env \<Rightarrow> string \<Rightarrow> settlement \<Rightarrow> settlement" where
  "latch_failure env context t = in_oms (\<lambda>s. fst (latch_journal_failure_locked (se_exc env) context (t_symbol t) s)) t"

definition fail_closed_for :: "settle_env \<Rightarrow> string \<Rightarrow> settlement \<Rightarrow> settlement" where
  "fail_closed_for env context t = in_oms (fail_closed_on_journal_error (se_exc env) context (t_symbol t)) t"

definition on_order_truth_check :: "settle_env \<Rightarrow> settlement \<Rightarrow> settlement" where
  "on_order_truth_check env t =
     (if t_oid t \<in> set (t_truth_checks t) \<or> \<not> se_truth_accepted env then t
      else t\<lparr>t_truth_checks := t_oid t # t_truth_checks t\<rparr>)"

text \<open>\<open>_close_gate_after_submit_settlement_failure\<close> on the order the thread holds.\<close>

definition close_gate_after_failure :: "settle_env \<Rightarrow> string \<Rightarrow> py_exc \<Rightarrow> settlement \<Rightarrow> settlement" where
  "close_gate_after_failure env context e t =
     in_oms (close_gate_after_submit_settlement_failure (se_clock env) (t_oid t) context (exc_name e))
       (mark_held {SUBMITTING} (mark_submit_unknown (se_clock env) (''submit_settlement_failed:'' @ exc_name e)) t)"

definition bind_submit_exchange_oid :: "string \<Rightarrow> settlement \<Rightarrow> settlement \<times> string res" where
  "bind_submit_exchange_oid exchange_oid t =
     (let ord = t_order t;
          conflict = (\<lambda>kind reason. let (s, ok) = audit kind (t_oms t) in
            (in_oms (\<lambda>_. s) t, if ok then Inr reason else Inl JournalError))
      in if exchange_oid = [] then (t, Inr [])
         else if o_exchange_oid ord \<noteq> [] \<and> o_exchange_oid ord \<noteq> exchange_oid
         then conflict ''submit_exchange_oid_mismatch''
                (''submit_exchange_oid_mismatch:'' @ t_oid t @ '':'' @ o_exchange_oid ord @ ''!='' @ exchange_oid)
         else if (case dget (t_exchange_ids t) exchange_oid of None \<Rightarrow> False | Some other \<Rightarrow> other \<noteq> t_oid t)
         then conflict ''submit_exchange_oid_collision'' (''submit_exchange_oid_collision:'' @ t_oid t @ '':'' @ exchange_oid)
         else (put_order (ord\<lparr>o_exchange_oid := exchange_oid\<rparr>)
                 (t\<lparr>t_exchange_ids := dset exchange_oid (t_oid t) (t_exchange_ids t)\<rparr>), Inr []))"

text \<open>The wait of the freeze in the handler: it ends when the exit test holds at once or, after what the other threads have done by
  then, at one of the later polls before the deadline.\<close>

definition drains :: "settle_env \<Rightarrow> string \<Rightarrow> settlement \<Rightarrow> bool" where
  "drains env reason t = list_ex (\<lambda>others. risk_sends_drained (t_symbol t) (others (t_oms t))) ((\<lambda>s. s) # se_polls env reason)"

definition handle_submit_transport_conflict :: "settle_env \<Rightarrow> string \<Rightarrow> settlement \<Rightarrow> settlement" where
  "handle_submit_transport_conflict env reason t =
     (if reason = [] then t
      else
        let context = ''submit_transport_conflict:'' @ t_oid t;
            failed = (\<lambda>e t. if e = JournalError then fail_closed_for env context t else close_gate_after_failure env context e t);
            t1 = (case freeze_symbol (se_exc env) (t_symbol t) (''order_truth:'' @ reason) False (drains env reason t) (t_oms t) of
                    (s1, Inl e) \<Rightarrow> failed e (in_oms (\<lambda>_. s1) t)
                  | (s1, Inr _) \<Rightarrow>
                      (case trigger_reconcile (se_exc env) reason (se_suppression env) (se_submission env) s1 of
                         (s2, Inl e) \<Rightarrow> failed e (in_oms (\<lambda>_. s2) t)
                       | (s2, Inr _) \<Rightarrow> in_oms (\<lambda>_. s2) t))
        in on_order_truth_check env t1)"

definition latch_submit_ambiguity_locked :: "order \<Rightarrow> oms \<Rightarrow> oms \<times> bool" where
  "latch_submit_ambiguity_locked ord s =
     (if \<not> is_active ord then (s, True)
      else
        let symbol = upper (oi_symbol (o_intent ord));
            reason = ''order_truth:submit_exception:'' @ o_client_oid ord;
            owner = symbol_guard_owner reason;
            t = ensure_records symbol_guard_owner symbol (s_symbol_guards s);
            previous_owner_reason = (case dget (records_of symbol t) owner of None \<Rightarrow> [] | Some r \<Rightarrow> fst r);
            epoch = next_epoch symbol t;
            (s1, ok) = audit (if previous_owner_reason \<noteq> reason then ''symbol_frozen'' else ''symbol_freeze_reasserted'')
              (s\<lparr>s_symbol_guards := t\<rparr>)
        in if \<not> ok then (s1, False)
           else (refresh_outbound_gate_locked (''submit_exception:'' @ symbol @ '':'' @ o_client_oid ord)
                   (s1\<lparr>s_symbol_guards := commit_guard symbol owner reason epoch t\<rparr>), True))"

text \<open>\<open>_settle_post_dispatch_submit_exception\<close>: whether the journal failed.\<close>

definition settle_post_dispatch_exception :: "settle_env \<Rightarrow> string \<Rightarrow> string \<Rightarrow> settlement \<Rightarrow> settlement \<times> bool" where
  "settle_post_dispatch_exception env context exc_type t =
     (let unknown = mark_held {SUBMITTING} (mark_submit_unknown (se_clock env) (''post_dispatch_exception:'' @ exc_type));
          journal = (\<lambda>t. (mark_held {SUBMITTING} (mark_submit_unknown (se_clock env) ''result_not_durable'')
                            (latch_failure env (context @ ''_settlement'') t), True));
          failed = (\<lambda>e t. if e = JournalError then journal t else (close_gate_after_failure env context e t, False));
          (t1, journal_failed) =
            (case se_late_result env of
               Some e \<Rightarrow> failed e t
             | None \<Rightarrow>
                 (case se_late_snapshot env of
                    Some e \<Rightarrow> failed e (unknown t)
                  | None \<Rightarrow>
                      (let t' = unknown t; (s, ok) = latch_submit_ambiguity_locked (t_order t') (t_oms t') in
                       if ok then (in_oms (\<lambda>_. s) t', False) else journal (in_oms (\<lambda>_. s) t'))))
      in (on_order_truth_check env (finish_send t1), journal_failed))"

definition audit_post_submit :: "settle_env \<Rightarrow> string \<Rightarrow> settlement \<Rightarrow> settlement" where
  "audit_post_submit env kind t =
     (let (s, ok) = audit kind (t_oms t); t1 = in_oms (\<lambda>_. s) t in
      if ok then t1 else fail_closed_for env (''post_submit_audit:'' @ kind) t1)"

definition publish_submitted :: "order_status \<Rightarrow> settlement \<Rightarrow> settlement" where
  "publish_submitted status t = t\<lparr>t_published := t_published t @ [status]\<rparr>"

subsection \<open>Outcomes\<close>

datatype submit_outcome =
    Answer bool string      \<comment> \<open>accepted, reason\<close>
  | Raises string

definition settle_exception :: "settle_env \<Rightarrow> string \<Rightarrow> string \<Rightarrow> settlement \<Rightarrow> settlement \<times> submit_outcome" where
  "settle_exception env context exc_type t =
     (let (t1, journal_failed) = settle_post_dispatch_exception env context exc_type t;
          t2 = release_send t1
      in (if journal_failed then fail_closed_for env context t2 else t2, Raises exc_type))"

definition result_not_durable :: "settle_env \<Rightarrow> settlement \<Rightarrow> settlement \<times> submit_outcome" where
  "result_not_durable env t =
     (on_order_truth_check env (fail_closed_for env ''result_submit'' (release_send (finish_send
        (mark_held {SUBMITTING} (mark_submit_unknown (se_clock env) ''result_not_durable'') (latch_failure env ''result_submit'' t))))),
      Answer True ''submit_outcome_unknown'')"

definition ack_not_durable :: "settle_env \<Rightarrow> settlement \<Rightarrow> settlement \<times> submit_outcome" where
  "ack_not_durable env t =
     (fail_closed_for env ''snapshot_submit_ack'' (on_order_truth_check env (finish_send (release_send
        (mark_held {SUBMITTING} (mark_submit_unknown (se_clock env) ''ack_snapshot_not_durable'')
           (latch_failure env ''snapshot_submit_ack'' t))))),
      Answer True ''accepted_but_local_snapshot_failed'')"

definition settle_acknowledged :: "settle_env \<Rightarrow> string \<Rightarrow> settlement \<Rightarrow> settlement \<times> submit_outcome" where
  "settle_acknowledged env exchange_oid t =
     (case bind_submit_exchange_oid exchange_oid t of
        (t1, Inl _) \<Rightarrow> ack_not_durable env t1
      | (t1, Inr conflict) \<Rightarrow>
          (let t2 = mark_held {SUBMITTING, SUBMIT_UNKNOWN} (\<lambda>ord. mark_pending_ack (se_clock env) (o_exchange_oid ord) ord) t1;
               submitted_status = o_status (t_order t2)
           in case se_snapshot env of
                Some e \<Rightarrow>
                  if e = JournalError then ack_not_durable env t2
                  else settle_exception env ''snapshot_submit_ack_exception'' (exc_name e) t2
              | None \<Rightarrow>
                  let t3 = publish_submitted submitted_status (release_send t2);
                      t4 = handle_submit_transport_conflict env conflict t3;
                      t5 = (if se_commit_fails env
                            then handle_submit_transport_conflict env (''submit_commit_failed:'' @ t_oid t4) t4 else t4)
                  in (audit_post_submit env ''order_submitted'' (finish_send t5), Answer True [])))"

definition unknown_not_durable :: "settle_env \<Rightarrow> settlement \<Rightarrow> settlement \<times> submit_outcome" where
  "unknown_not_durable env t =
     (on_order_truth_check env (fail_closed_for env ''snapshot_submit_unknown'' (finish_send (release_send
        (latch_failure env ''snapshot_submit_unknown'' t)))),
      Answer True ''submit_outcome_unknown'')"

definition settle_unknown :: "settle_env \<Rightarrow> string \<Rightarrow> settlement \<Rightarrow> settlement \<times> submit_outcome" where
  "settle_unknown env error_message t =
     (let t1 = mark_held {SUBMITTING} (mark_submit_unknown (se_clock env) (str_or error_message ''submit_outcome_unknown'')) t;
          still_unknown = (o_status (t_order t1) = SUBMIT_UNKNOWN)
      in case se_snapshot env of
           Some e \<Rightarrow>
             if e = JournalError then unknown_not_durable env t1
             else settle_exception env ''snapshot_submit_unknown_exception'' (exc_name e) t1
         | None \<Rightarrow>
             let t2 = publish_submitted (o_status (t_order t1)) (finish_send (release_send t1)) in
             if \<not> still_unknown
             then (audit_post_submit env ''order_submit_transport_unknown_resolved'' t2,
                   Answer True ''transport_unknown_resolved_by_exchange_truth'')
             else (on_order_truth_check env (audit_post_submit env ''order_submit_unknown''
                     (handle_submit_transport_conflict env (''submit_unknown:'' @ t_oid t2) t2)),
                   Answer True ''submit_outcome_unknown''))"

definition rejection_not_durable :: "settle_env \<Rightarrow> bool \<Rightarrow> settlement \<Rightarrow> settlement \<times> submit_outcome" where
  "rejection_not_durable env superseded t =
     (fail_closed_for env ''snapshot_submit_rejected'' (finish_send (release_send
        (latch_failure env ''snapshot_submit_rejected'' t))),
      Answer superseded (if superseded then ''transport_rejection_superseded_but_journal_unavailable''
                         else ''durable_journal_unavailable''))"

definition settle_rejected :: "cache \<Rightarrow> settle_env \<Rightarrow> string \<Rightarrow> settlement \<Rightarrow> settlement \<times> submit_outcome" where
  "settle_rejected ca env reason t =
     (let superseded = (o_status (t_order t) \<notin> {SUBMITTING, SUBMIT_UNKNOWN});
          t1 = mark_held {SUBMITTING, SUBMIT_UNKNOWN} (mark_rejected_locally (se_clock env) reason) t
      in case se_snapshot env of
           Some e \<Rightarrow>
             if e = JournalError then rejection_not_durable env superseded t1
             else settle_exception env ''snapshot_submit_rejected_exception'' (exc_name e) t1
         | None \<Rightarrow>
             if superseded then
               let t2 = publish_submitted (o_status (t_order t1)) (finish_send (release_send t1));
                   t3 = audit_post_submit env ''order_submit_transport_rejection_superseded'' t2;
                   t4 = (if is_active (t_order t3)
                         then handle_submit_transport_conflict env (''transport_rejection_superseded:'' @ t_oid t3) t3 else t3)
               in (t4, Answer True ''transport_rejection_superseded_by_exchange_truth'')
             else
               (case recompute ca (drop_order (t_oid t1) (t_desk t1)) of
                  (d, Inl (Raised e)) \<Rightarrow> settle_exception env ''snapshot_submit_rejected_exception'' (exc_name e) (in_desk (\<lambda>_. d) t1)
                | (d, _) \<Rightarrow>
                    let t2 = finish_send (release_send (in_desk (\<lambda>_. d) t1));
                        t3 = t2\<lparr>t_tombstones := t_tombstones t2 @ [t_oid t2]\<rparr>
                    in (audit_post_submit env ''order_rejected_locally'' t3, Answer False reason)))"

text \<open>The result of the dispatch, or the exception that interrupted it.\<close>

definition settle_submission :: "cache \<Rightarrow> settle_env \<Rightarrow> string + command_result \<Rightarrow> settlement \<Rightarrow> settlement \<times> submit_outcome" where
  "settle_submission ca env dispatched t =
     (case dispatched of
        Inl exc_type \<Rightarrow> settle_exception env ''dispatch_submit_exception'' exc_type t
      | Inr cr \<Rightarrow>
          (case se_result env of
             Some e \<Rightarrow>
               if e = JournalError then result_not_durable env t
               else settle_exception env ''result_submit_exception'' (exc_name e) t
           | None \<Rightarrow>
               (case cr_outcome cr of
                  CO_ACKNOWLEDGED \<Rightarrow> settle_acknowledged env (cr_exchange_oid cr) t
                | CO_UNKNOWN \<Rightarrow> settle_unknown env (cr_error_message cr) t
                | CO_REJECTED \<Rightarrow>
                    settle_rejected ca env (str_or (cr_error_message cr) (str_or (cr_error_code cr) ''gateway_send_rejected'')) t)))"

subsection \<open>What the steps leave alone\<close>

text \<open>The send permits, the orders and the settlements under way.\<close>

definition send_ledger :: "oms \<Rightarrow> _" where
  "send_ledger s = (counters s, s_orders s, s_settling s)"

lemma ledger_D: "send_ledger s' = send_ledger s \<Longrightarrow> counters s' = counters s \<and> s_orders s' = s_orders s \<and> s_settling s' = s_settling s"
  by (simp add: send_ledger_def)

lemma ledger_updates [simp]:
  "send_ledger (s\<lparr>s_state := x1\<rparr>) = send_ledger s" "send_ledger (s\<lparr>s_lifecycle_generation := x2\<rparr>) = send_ledger s"
  "send_ledger (s\<lparr>s_last_halt_reason := x3\<rparr>) = send_ledger s" "send_ledger (s\<lparr>s_manual_rearm_required := x4\<rparr>) = send_ledger s"
  "send_ledger (s\<lparr>s_last_freeze_reason := x3\<rparr>) = send_ledger s" "send_ledger (s\<lparr>s_symbol_guards := x5\<rparr>) = send_ledger s"
  "send_ledger (s\<lparr>s_background_rejections := x6\<rparr>) = send_ledger s" "send_ledger (emit es s) = send_ledger s"
  "send_ledger (fst (audit k s)) = send_ledger s" "send_ledger (fst (sync_capability_mode r s)) = send_ledger s"
  "send_ledger (fst (latch_journal_failure_locked e c sy s)) = send_ledger s" "send_ledger (fail_closed_on_journal_error e c sy s) = send_ledger s"
  by (simp_all add: send_ledger_def) (simp_all add: counters_def)

lemma ledger_gate [simp]:
  "send_ledger (close_outbound_gate_locked r h s) = send_ledger s" "send_ledger (refresh_outbound_gate_locked r s) = send_ledger s"
  by (simp_all add: send_ledger_def close_outbound_gate_locked_def refresh_outbound_gate_locked_def counters_def Let_def)

lemma ledger_audit_after [simp]: "send_ledger (fst (audit_after k r)) = send_ledger (fst r)"
  by (simp add: audit_after_def)

lemma ledger_halt [simp]: "send_ledger (halt_system e r s) = send_ledger s"
  by (simp add: halt_system_def afail_def Let_def)

lemma ledger_freeze_symbol [simp]: "send_ledger (fst (freeze_symbol e sy r c d s)) = send_ledger s"
  by (simp add: freeze_symbol_def freeze_symbol_locked_def enforce_symbol_guard_def Let_def split: sum.split)

lemma ledger_freeze_system [simp]: "send_ledger (fst (freeze_system e r c s)) = send_ledger s"
  by (simp add: freeze_system_def Let_def)

lemma ledger_background [simp]: "send_ledger (fst (latch_background_task_failure k r s)) = send_ledger s"
  by (simp add: latch_background_task_failure_def Let_def)

lemma ledger_reconcile [simp]:
  "send_ledger (fst (reconcile_start r quiet s)) = send_ledger s" "send_ledger (fst (reconcile_publish sub g s)) = send_ledger s"
  by (simp_all add: reconcile_start_def reconcile_publish_def Let_def split: option.split sum.split)

lemma ledger_trigger [simp]: "send_ledger (fst (trigger_reconcile e r quiet sub s)) = send_ledger s"
  by (simp add: trigger_reconcile_def Let_def split: sum.split option.split)

lemma ledger_ambiguity [simp]: "send_ledger (fst (latch_submit_ambiguity_locked ord s)) = send_ledger s"
  by (simp add: latch_submit_ambiguity_locked_def case_prod_unfold Let_def)

subsection \<open>The course of a settlement\<close>

text \<open>The map holds the thread's order object or nothing under its id.\<close>

definition coherent :: "settlement \<Rightarrow> bool" where
  "coherent t \<longleftrightarrow> dget (s_orders (t_oms t)) (t_oid t) \<in> {None, Some (t_order t)}"

definition own_permit :: "settlement \<Rightarrow> bool \<times> string" where
  "own_permit t = (\<not> oi_reduce_only (o_intent (t_order t)), upper (t_symbol t))"

text \<open>Where a settlement is: whether the permit is still held, whether the id is out of the settlements, and whether
  the order is known to have left \<open>SUBMITTING\<close>.\<close>

definition at_stage :: "string \<times> order_intent \<Rightarrow> (bool \<times> string) list \<Rightarrow> bool \<Rightarrow> bool \<Rightarrow> bool \<Rightarrow> settlement \<Rightarrow> bool" where
  "at_stage me permits holding finished moved t \<longleftrightarrow>
     (o_client_oid (t_order t), o_intent (t_order t)) = me \<and> coherent t \<and>
     permits_exact (t_oms t, if holding then own_permit t # permits else permits) \<and>
     (finished \<longrightarrow> t_oid t \<notin> set (s_settling (t_oms t))) \<and>
     (moved \<longrightarrow> o_status (t_order t) \<noteq> SUBMITTING)"

lemma in_oms_simps [simp]:
  "t_oms (in_oms h t) = h (t_oms t)" "t_order (in_oms h t) = t_order t" "t_exchange_ids (in_oms h t) = t_exchange_ids t"
  "t_truth_checks (in_oms h t) = t_truth_checks t" "t_published (in_oms h t) = t_published t"
  "t_order (in_desk k t) = t_order t" "t_desk (in_desk k t) = k (t_desk t)" "t_exchange_ids (in_desk k t) = t_exchange_ids t"
  by (simp_all add: in_oms_def in_desk_def)

lemma at_stage_cong:
  assumes "at_stage me permits h f m t" and "counters (t_oms t') = counters (t_oms t)" and "coherent t'"
    and "o_client_oid (t_order t') = t_oid t" "o_intent (t_order t') = o_intent (t_order t)"
    and "f' \<Longrightarrow> t_oid t \<notin> set (s_settling (t_oms t'))" and "m' \<Longrightarrow> o_status (t_order t') \<noteq> SUBMITTING"
  shows "at_stage me permits h f' m' t'"
proof -
  have "permits_exact (t_oms t', ps) = permits_exact (t_oms t, ps)" for ps using assms(2) by (rule permits_counters)
  then show ?thesis using assms by (cases h) (simp_all add: at_stage_def own_permit_def)
qed

lemma at_stage_ledger:
  assumes "at_stage me permits h f m t" and "send_ledger (t_oms t') = send_ledger (t_oms t)" and "t_order t' = t_order t"
  shows "at_stage me permits h f m t'"
  using assms ledger_D [OF assms(2)] by (intro at_stage_cong [OF assms(1)]) (auto simp: at_stage_def coherent_def)

lemma at_stage_steps:
  assumes "at_stage me permits h f m t"
  shows "at_stage me permits h f m (latch_failure env c t)" "at_stage me permits h f m (fail_closed_for env c t)"
    "at_stage me permits h f m (on_order_truth_check env t)" "at_stage me permits h f m (publish_submitted st t)"
    "at_stage me permits h f m (audit_post_submit env k t)"
    "at_stage me permits h f m (t\<lparr>t_tombstones := ts\<rparr>)" "at_stage me permits h f m (t\<lparr>t_exchange_ids := ids\<rparr>)"
  by (rule at_stage_ledger [OF assms];
      simp add: latch_failure_def fail_closed_for_def on_order_truth_check_def publish_submitted_def audit_post_submit_def
        case_prod_unfold Let_def)+

lemma at_stage_in_oms: "at_stage me permits h f m t \<Longrightarrow> send_ledger s = send_ledger (t_oms t) \<Longrightarrow> at_stage me permits h f m (in_oms (\<lambda>_. s) t)"
  by (erule at_stage_ledger) simp_all

lemma put_order_simps [simp]:
  "t_order (put_order ord t) = ord" "counters (t_oms (put_order ord t)) = counters (t_oms t)"
  "s_settling (t_oms (put_order ord t)) = s_settling (t_oms t)"
  by (simp_all add: put_order_def)

lemma at_stage_put:
  assumes "at_stage me permits h f m t" and "o_client_oid ord = t_oid t" "o_intent ord = o_intent (t_order t)"
    and "m' \<Longrightarrow> o_status ord \<noteq> SUBMITTING"
  shows "at_stage me permits h f m' (put_order ord t)"
  using assms by (intro at_stage_cong [OF assms(1)]) (auto simp: at_stage_def coherent_def put_order_def)

lemma at_stage_mark:
  assumes "at_stage me permits h f m t" and "SUBMITTING \<in> S"
    and "\<And>ord. o_status ord \<in> S \<Longrightarrow> o_status (fst (g ord)) \<noteq> SUBMITTING"
    and "\<And>ord. o_client_oid (fst (g ord)) = o_client_oid ord" "\<And>ord. o_intent (fst (g ord)) = o_intent ord"
  shows "at_stage me permits h f True (mark_held S g t)"
proof (cases "o_status (t_order t) \<in> S")
  case True
  then show ?thesis using assms by (simp add: mark_held_def at_stage_put [OF assms(1)])
next
  case False
  then show ?thesis using assms(1,2) by (auto simp: mark_held_def at_stage_def)
qed

lemma marks_leave:
  "o_status ord = SUBMITTING \<Longrightarrow> o_status (fst (mark_submit_unknown clk r ord)) \<noteq> SUBMITTING"
  "o_status ord \<in> {SUBMITTING, SUBMIT_UNKNOWN} \<Longrightarrow> o_status (fst (mark_pending_ack clk x ord)) \<noteq> SUBMITTING"
  "o_status ord \<in> {SUBMITTING, SUBMIT_UNKNOWN} \<Longrightarrow> o_status (fst (mark_rejected_locally clk r ord)) \<noteq> SUBMITTING"
  by (auto simp: mark_submit_unknown_def mark_pending_ack_def mark_rejected_locally_def transition_def
      note_exchange_update_def Let_def)

lemma marks_ident:
  "o_client_oid (fst (mark_submit_unknown clk r ord)) = o_client_oid ord" "o_intent (fst (mark_submit_unknown clk r ord)) = o_intent ord"
  "o_client_oid (fst (mark_pending_ack clk x ord)) = o_client_oid ord" "o_intent (fst (mark_pending_ack clk x ord)) = o_intent ord"
  "o_client_oid (fst (mark_rejected_locally clk r ord)) = o_client_oid ord" "o_intent (fst (mark_rejected_locally clk r ord)) = o_intent ord"
  by (simp_all add: mark_submit_unknown_def mark_pending_ack_def mark_rejected_locally_def)

lemma at_stage_marks:
  assumes "at_stage me permits h f m t"
  shows "at_stage me permits h f True (mark_held {SUBMITTING} (mark_submit_unknown clk r) t)"
    "at_stage me permits h f True (mark_held {SUBMITTING, SUBMIT_UNKNOWN} (\<lambda>ord. mark_pending_ack clk (o_exchange_oid ord) ord) t)"
    "at_stage me permits h f True (mark_held {SUBMITTING, SUBMIT_UNKNOWN} (mark_rejected_locally clk r) t)"
  by (rule at_stage_mark [OF assms]; simp add: marks_leave marks_ident)+

lemma at_stage_release:
  assumes "at_stage me permits True f m t"
  shows "at_stage me permits False f m (release_send t)"
proof -
  have "permits_exact (t_oms (release_send t), permits)"
    using released_exact [of "t_desk t" "o_intent (t_order t)" permits "t_desk t"] assms
    by (simp add: at_stage_def release_send_def own_permit_def)
  then show ?thesis using assms by (simp add: at_stage_def release_send_def own_permit_def coherent_def release_permit_def)
qed

lemma at_stage_finish:
  assumes "at_stage me permits h f m t"
  shows "at_stage me permits h True m (finish_send t)"
  using assms by (intro at_stage_cong [OF assms]) (auto simp: at_stage_def finish_send_def coherent_def)

lemma at_stage_close_gate:
  assumes "at_stage me permits h f m t"
  shows "at_stage me permits h f True (close_gate_after_failure env c e t)"
proof -
  define t1 where "t1 = mark_held {SUBMITTING} (mark_submit_unknown (se_clock env) (''submit_settlement_failed:'' @ exc_name e)) t"
  have t1: "at_stage me permits h f True t1" unfolding t1_def using assms by (rule at_stage_marks)
  then have "s_orders (close_gate_after_submit_settlement_failure (se_clock env) (t_oid t1) c (exc_name e) (t_oms t1)) = s_orders (t_oms t1)"
    by (auto simp: at_stage_def coherent_def fence_orders_eq)
  then have "at_stage me permits h f True (in_oms (close_gate_after_submit_settlement_failure (se_clock env) (t_oid t1) c (exc_name e)) t1)"
    by (intro at_stage_ledger [OF t1]) (simp_all add: send_ledger_def)
  moreover have "t_oid t1 = t_oid t" using assms t1 by (auto simp: at_stage_def)
  ultimately show ?thesis by (simp add: close_gate_after_failure_def t1_def)
qed

lemma at_stage_close_gate_keeps: "at_stage me permits h f m t \<Longrightarrow> at_stage me permits h f m (close_gate_after_failure env c e t)"
  using at_stage_close_gate [of me permits h f m t env c e] by (cases m) (simp_all add: at_stage_def)

lemma at_stage_conflict:
  assumes "at_stage me permits h f m t"
  shows "at_stage me permits h f m (handle_submit_transport_conflict env reason t)"
proof -
  obtain s1 r1 where fr: "freeze_symbol (se_exc env) (t_symbol t) (''order_truth:'' @ reason) False (drains env reason t) (t_oms t) = (s1, r1)"
    by fastforce
  obtain s2 r2 where tr: "trigger_reconcile (se_exc env) reason (se_suppression env) (se_submission env) s1 = (s2, r2)" by fastforce
  have "send_ledger s1 = send_ledger (t_oms t)" using ledger_freeze_symbol [of "se_exc env" "t_symbol t" "''order_truth:'' @ reason"] fr by (metis fst_conv)
  moreover have "send_ledger s2 = send_ledger s1" using ledger_trigger [of "se_exc env" reason "se_suppression env" "se_submission env" s1] tr by simp
  ultimately have "at_stage me permits h f m (in_oms (\<lambda>_. s1) t)" "at_stage me permits h f m (in_oms (\<lambda>_. s2) t)"
    by (simp_all add: at_stage_in_oms [OF assms])
  then show ?thesis
    using assms unfolding handle_submit_transport_conflict_def fr tr Let_def prod.case
    by (auto simp: tr intro!: at_stage_steps at_stage_close_gate_keeps split: sum.split)
qed

lemma at_stage_bind:
  assumes "at_stage me permits h f m t"
  shows "at_stage me permits h f False (fst (bind_submit_exchange_oid x t))"
proof -
  have weak: "at_stage me permits h f False t" using assms by (simp add: at_stage_def)
  have "at_stage me permits h f False (in_oms (\<lambda>_. fst (audit k (t_oms t))) t)" for k
    by (rule at_stage_in_oms [OF weak]) simp
  moreover have "at_stage me permits h f False (put_order ((t_order t)\<lparr>o_exchange_oid := x\<rparr>) (t\<lparr>t_exchange_ids := ids\<rparr>))" for ids
    by (rule at_stage_put [OF at_stage_steps(7) [OF weak]]) simp_all
  ultimately show ?thesis using weak by (simp add: bind_submit_exchange_oid_def case_prod_unfold Let_def)
qed

lemma at_stage_exception:
  assumes "at_stage me permits h f m t" and "settle_post_dispatch_exception env c e t = (t', failed)"
  shows "at_stage me permits h True True t'"
proof -
  define u where "u = mark_held {SUBMITTING} (mark_submit_unknown (se_clock env) (''post_dispatch_exception:'' @ e)) t"
  define j where "j = (\<lambda>t. mark_held {SUBMITTING} (mark_submit_unknown (se_clock env) ''result_not_durable'') (latch_failure env (c @ ''_settlement'') t))"
  have u: "at_stage me permits h f True u" unfolding u_def using assms(1) by (rule at_stage_marks)
  have j: "at_stage me permits h f True (j t)" if "at_stage me permits h f m' t" for t m'
    unfolding j_def by (intro at_stage_marks at_stage_steps) (rule that)
  have l: "at_stage me permits h f True (in_oms (\<lambda>_. fst (latch_submit_ambiguity_locked (t_order u) (t_oms u))) u)"
    by (rule at_stage_in_oms [OF u]) simp
  obtain t1 where "t' = on_order_truth_check env (finish_send t1)" "at_stage me permits h f True t1"
    using assms(2) j [OF assms(1)] j [OF u] j [OF l] l at_stage_close_gate [OF assms(1)] at_stage_close_gate [OF u]
    unfolding settle_post_dispatch_exception_def u_def [symmetric] Let_def j_def
    by (auto simp: case_prod_unfold split: option.splits if_splits)
  then show ?thesis by (auto intro!: at_stage_steps at_stage_finish)
qed

lemma at_stage_weaken: "at_stage me permits h f m t \<Longrightarrow> at_stage me permits h False False t"
  by (simp add: at_stage_def)

lemma settled_exception:
  assumes "at_stage me permits True f m t" and "settle_exception env c e t = (t', out)"
  shows "at_stage me permits False True True t'"
proof -
  obtain t1 failed where x: "settle_post_dispatch_exception env c e t = (t1, failed)" by fastforce
  have "at_stage me permits False True True (release_send t1)" using at_stage_release at_stage_exception [OF assms(1) x] by blast
  then show ?thesis using assms(2) x by (cases failed) (auto simp: settle_exception_def Let_def intro!: at_stage_steps)
qed

lemma settled_not_durable:
  assumes "at_stage me permits True f m t"
  shows "at_stage me permits False True True (fst (result_not_durable env t))"
    "at_stage me permits False True True (fst (ack_not_durable env t))"
    "m \<Longrightarrow> at_stage me permits False True True (fst (unknown_not_durable env t))"
    "m \<Longrightarrow> at_stage me permits False True True (fst (rejection_not_durable env late t))"
  using assms by (auto simp: result_not_durable_def ack_not_durable_def unknown_not_durable_def rejection_not_durable_def
      intro!: at_stage_steps at_stage_finish at_stage_release at_stage_marks)

lemma settled_acknowledged:
  assumes "at_stage me permits True f m t" and "settle_acknowledged env x t = (t', out)"
  shows "at_stage me permits False True True t'"
proof -
  obtain t1 bound where b: "bind_submit_exchange_oid x t = (t1, bound)" by fastforce
  define t2 where "t2 = mark_held {SUBMITTING, SUBMIT_UNKNOWN} (\<lambda>ord. mark_pending_ack (se_clock env) (o_exchange_oid ord) ord) t1"
  have t1: "at_stage me permits True f False t1" using at_stage_bind [OF assms(1), of x] b by simp
  have t2: "at_stage me permits True f True t2" unfolding t2_def using t1 by (rule at_stage_marks)
  show ?thesis
    using assms(2) settled_not_durable(2) [OF t1, of env] settled_not_durable(2) [OF t2, of env] settled_exception [OF t2]
    unfolding settle_acknowledged_def b prod.case t2_def [symmetric]
    by (auto simp: Let_def split: sum.splits option.splits if_splits
        intro!: at_stage_steps at_stage_finish at_stage_conflict at_stage_release [OF t2])
qed

lemma settled_unknown:
  assumes "at_stage me permits True f m t" and "settle_unknown env x t = (t', out)"
  shows "at_stage me permits False True True t'"
proof -
  define t1 where "t1 = mark_held {SUBMITTING} (mark_submit_unknown (se_clock env) (str_or x ''submit_outcome_unknown'')) t"
  have t1: "at_stage me permits True f True t1" unfolding t1_def using assms(1) by (rule at_stage_marks)
  show ?thesis
    using assms(2) settled_not_durable(3) [OF t1, of env] settled_exception [OF t1]
    unfolding settle_unknown_def t1_def [symmetric]
    by (auto simp: Let_def split: option.splits if_splits
        intro!: at_stage_steps at_stage_finish at_stage_conflict at_stage_release [OF t1])
qed

lemma settled_rejected:
  assumes "at_stage me permits True f m t" and "settle_rejected ca env x t = (t', out)"
  shows "at_stage me permits False True True t'"
proof -
  define t1 where "t1 = mark_held {SUBMITTING, SUBMIT_UNKNOWN} (mark_rejected_locally (se_clock env) x) t"
  obtain d r where rc: "recompute ca (drop_order (t_oid t1) (t_desk t1)) = (d, r)" by fastforce
  have t1: "at_stage me permits True f True t1" unfolding t1_def using assms(1) by (rule at_stage_marks)
  have "d_oms d = d_oms (drop_order (t_oid t1) (t_desk t1))" using recompute_oms [of ca "drop_order (t_oid t1) (t_desk t1)"] rc by simp
  then have t2: "at_stage me permits True f True (in_desk (\<lambda>_. d) t1)"
    using t1 by (intro at_stage_cong [OF t1]) (auto simp: at_stage_def coherent_def)
  have lost: "at_stage me permits False True True t'" if "rejection_not_durable env late t1 = (t', out)" for late
    using settled_not_durable(4) [OF t1, of env late] that by simp
  show ?thesis
    using assms(2) lost settled_exception [OF t1] settled_exception [OF t2]
    unfolding settle_rejected_def t1_def [symmetric] rc
    by (auto simp: Let_def rc split: option.splits if_splits sum.splits stopped.splits
        intro!: at_stage_steps at_stage_finish at_stage_conflict at_stage_release [OF t1] at_stage_release [OF t2])
qed

lemma settled_submission:
  assumes "at_stage me permits True f m t" and "settle_submission ca env r t = (t', out)"
  shows "at_stage me permits False True True t'"
  using assms settled_exception [OF assms(1)] settled_acknowledged [OF assms(1)] settled_unknown [OF assms(1)]
    settled_rejected [OF assms(1)] settled_not_durable(1) [OF assms(1), of env]
  by (auto simp: settle_submission_def split: sum.splits option.splits if_splits command_outcome.splits)

text \<open>Claim C2: whatever the exchange answered and whichever journal write, audit, drain or recomputation failed, the settlement of
  a dispatched order gives the send permit back exactly once, takes the id out of the settlements under way and leaves the order out of
  \<open>SUBMITTING\<close>, with the map of orders holding that same order or nothing under its id.\<close>

theorem settlement_balanced:
  assumes "coherent t" and "permits_exact (t_oms t, own_permit t # permits)"
    and "settle_submission ca env r t = (t', out)"
  shows "permits_exact (t_oms t', permits) \<and> t_oid t \<notin> set (s_settling (t_oms t')) \<and>
    o_status (t_order t') \<noteq> SUBMITTING \<and> coherent t' \<and> t_oid t' = t_oid t"
proof -
  have "at_stage (t_oid t, o_intent (t_order t)) permits True False False t" using assms(1,2) by (simp add: at_stage_def)
  then have "at_stage (t_oid t, o_intent (t_order t)) permits False True True t'" using assms(3) by (rule settled_submission)
  then show ?thesis by (auto simp: at_stage_def)
qed

subsection \<open>An order that may live is kept\<close>

text \<open>The ids in the map of orders; every step but the rejection leaves them.\<close>

definition known_ids :: "settlement \<Rightarrow> string set" where
  "known_ids t = fst ` set (s_orders (t_oms t))"

lemma known_iff: "x \<in> known_ids t \<longleftrightarrow> dget (s_orders (t_oms t)) x \<noteq> None"
  by (simp add: known_ids_def map_of_eq_None_iff)

lemma known_ledger: "send_ledger s = send_ledger (t_oms t) \<Longrightarrow> known_ids (in_oms (\<lambda>_. s) t) = known_ids t"
  by (simp add: known_ids_def send_ledger_def)

lemma known_steps [simp]:
  "known_ids (latch_failure env c t) = known_ids t" "known_ids (fail_closed_for env c t) = known_ids t"
  "known_ids (on_order_truth_check env t) = known_ids t" "known_ids (publish_submitted st t) = known_ids t"
  "known_ids (audit_post_submit env k t) = known_ids t" "known_ids (t\<lparr>t_exchange_ids := ids\<rparr>) = known_ids t"
  "known_ids (release_send t) = known_ids t" "known_ids (finish_send t) = known_ids t"
  using ledger_updates [unfolded send_ledger_def]
  by (simp_all add: known_ids_def latch_failure_def fail_closed_for_def on_order_truth_check_def publish_submitted_def audit_post_submit_def
      release_send_def finish_send_def release_permit_def case_prod_unfold Let_def)

lemma known_put [simp]: "known_ids (put_order ord t) = known_ids t"
  by (auto simp: put_order_def known_ids_def map_of_eq_None_iff)

lemma known_mark [simp]: "known_ids (mark_held S g t) = known_ids t"
  by (simp add: mark_held_def)

lemma known_close_gate [simp]: "known_ids (close_gate_after_failure env c e t) = known_ids t"
proof -
  have "fst ` set (s_orders (close_gate_after_submit_settlement_failure clk oid c x s)) = fst ` set (s_orders s)" for clk oid x s
    by (auto simp: fence_orders_eq insert_absorb map_of_eq_None_iff [symmetric] split: option.split) (metis map_of_eq_None_iff option.distinct(1))
  then show ?thesis
    using known_mark [of "{SUBMITTING}" _ t] by (simp add: close_gate_after_failure_def known_ids_def)
qed

lemma known_conflict [simp]: "known_ids (handle_submit_transport_conflict env reason t) = known_ids t"
proof -
  obtain s1 r1 where fr: "freeze_symbol (se_exc env) (t_symbol t) (''order_truth:'' @ reason) False (drains env reason t) (t_oms t) = (s1, r1)"
    by fastforce
  obtain s2 r2 where tr: "trigger_reconcile (se_exc env) reason (se_suppression env) (se_submission env) s1 = (s2, r2)" by fastforce
  have "send_ledger s1 = send_ledger (t_oms t)" using ledger_freeze_symbol [of "se_exc env" "t_symbol t" "''order_truth:'' @ reason"] fr by (metis fst_conv)
  moreover have "send_ledger s2 = send_ledger s1" using ledger_trigger [of "se_exc env" reason "se_suppression env" "se_submission env" s1] tr by simp
  ultimately have "known_ids (in_oms (\<lambda>_. s1) t) = known_ids t" "known_ids (in_oms (\<lambda>_. s2) t) = known_ids t" by (simp_all add: known_ledger)
  then show ?thesis
    unfolding handle_submit_transport_conflict_def fr tr Let_def prod.case by (cases r1; cases r2) (simp_all add: tr)
qed

lemma known_bind [simp]: "known_ids (fst (bind_submit_exchange_oid x t)) = known_ids t"
  by (simp add: bind_submit_exchange_oid_def case_prod_unfold Let_def known_ledger)

lemma known_exception [simp]: "known_ids (fst (settle_exception env c e t)) = known_ids t"
  by (auto simp: settle_exception_def settle_post_dispatch_exception_def case_prod_unfold Let_def known_ledger split: option.split)

lemma known_not_durable [simp]:
  "known_ids (fst (result_not_durable env t)) = known_ids t" "known_ids (fst (ack_not_durable env t)) = known_ids t"
  "known_ids (fst (unknown_not_durable env t)) = known_ids t" "known_ids (fst (rejection_not_durable env late t)) = known_ids t"
  by (simp_all add: result_not_durable_def ack_not_durable_def unknown_not_durable_def rejection_not_durable_def)

lemma known_acknowledged [simp]: "known_ids (fst (settle_acknowledged env x t)) = known_ids t"
proof -
  obtain t1 b where b: "bind_submit_exchange_oid x t = (t1, b)" by fastforce
  then have "known_ids t1 = known_ids t" using known_bind [of x t] by simp
  then show ?thesis by (auto simp: settle_acknowledged_def b Let_def split: sum.split option.split)
qed

lemma known_unknown [simp]: "known_ids (fst (settle_unknown env x t)) = known_ids t"
  by (simp add: settle_unknown_def Let_def split: option.split)

lemma known_rejected:
  assumes "t_oid t \<in> known_ids t" and "settle_rejected ca env x t = (t', out)" and "o_status (t_order t) \<notin> {SUBMITTING, SUBMIT_UNKNOWN}"
  shows "known_ids t' = known_ids t"
proof -
  have "mark_held {SUBMITTING, SUBMIT_UNKNOWN} g t = t" for g using assms(3) by (simp add: mark_held_def)
  then have "known_ids (fst (settle_rejected ca env x t)) = known_ids t"
    using assms(3) by (simp add: settle_rejected_def Let_def split: option.split)
  then show ?thesis using assms(2) by simp
qed

lemma answers:
  "settle_exception env c e t = (t', out) \<Longrightarrow> out = Raises e"
  "settle_acknowledged env x t = (t', Answer False why) \<Longrightarrow> False"
  "settle_unknown env x t = (t', Answer False why) \<Longrightarrow> False"
  "settle_rejected ca env x t = (t', Answer False why) \<Longrightarrow> o_status (t_order t) \<in> {SUBMITTING, SUBMIT_UNKNOWN}"
  by (auto simp: settle_exception_def settle_acknowledged_def settle_unknown_def settle_rejected_def ack_not_durable_def
      unknown_not_durable_def rejection_not_durable_def Let_def case_prod_unfold split: sum.splits option.splits if_splits prod.splits)

lemma forgotten_only_rejected:
  assumes "t_oid t \<in> known_ids t" and "settle_submission ca env r t = (t', out)"
    and "t_oid t \<notin> known_ids t' \<or> (\<exists>why. out = Answer False why)"
  shows "\<exists>cr. r = Inr cr \<and> cr_outcome cr = CO_REJECTED \<and> o_status (t_order t) \<in> {SUBMITTING, SUBMIT_UNKNOWN}"
proof -
  have keep: False if "known_ids (fst (settle_submission ca env r t)) = known_ids t" "\<And>why. settle_submission ca env r t \<noteq> (t', Answer False why)"
    using that assms by auto
  show ?thesis
  proof (cases "\<exists>cr. r = Inr cr \<and> se_result env = None \<and> cr_outcome cr = CO_REJECTED")
    case True
    then obtain cr x where cr: "r = Inr cr" "cr_outcome cr = CO_REJECTED" "settle_rejected ca env x t = (t', out)"
      using assms(2) by (auto simp: settle_submission_def)
    then show ?thesis using known_rejected [OF assms(1) cr(3)] answers(4) assms(1,3) by blast
  next
    case False
    have "settle_submission ca env r t \<noteq> (t', Answer False why)" for why
      using False answers(1-3)
      by (fastforce simp: settle_submission_def result_not_durable_def split: sum.splits option.splits if_splits command_outcome.splits)
    moreover have "known_ids (fst (settle_submission ca env r t)) = known_ids t"
      using False by (auto simp: settle_submission_def split: sum.splits option.splits if_splits command_outcome.splits)
    ultimately show ?thesis using keep by blast
  qed
qed

text \<open>Claim C8: an order that may live at the exchange is never forgotten. When the dispatch over the REST gateway sent the order and the
  exchange did not refuse it, then whatever happens while its result is settled, the map still holds the order under its id, the
  strategy is not told that the order was refused, and the order is no longer \<open>SUBMITTING\<close>.\<close>

theorem sent_order_kept:
  assumes "dispatch_order (Some (commands send_order renv)) plain c fe fe' tk now token rq g = (g', sent, cr)"
    and "sent \<noteq> []" and "\<not> exchange_refused renv"
    and "dget (s_orders (t_oms t)) (t_oid t) = Some (t_order t)" and "permits_exact (t_oms t, own_permit t # permits)"
    and "settle_submission ca env (Inr cr) t = (t', out)"
  shows "dget (s_orders (t_oms t')) (t_oid t) = Some (t_order t') \<and> (\<forall>why. out \<noteq> Answer False why) \<and> o_status (t_order t') \<noteq> SUBMITTING"
proof -
  have known: "t_oid t \<in> known_ids t" using assms(4) by (simp add: known_iff)
  have "cr_outcome cr \<noteq> CO_REJECTED" using rest_dispatch.dispatch_truthful(1) [OF assms(1)] assms(2,3) by blast
  then have kept: "t_oid t \<in> known_ids t'" "\<forall>why. out \<noteq> Answer False why"
    using forgotten_only_rejected [OF known assms(6)] by auto
  have "at_stage (t_oid t, o_intent (t_order t)) permits True False False t" using assms(4,5) by (simp add: at_stage_def coherent_def)
  then have "at_stage (t_oid t, o_intent (t_order t)) permits False True True t'" using assms(6) by (rule settled_submission)
  with kept show ?thesis by (auto simp: at_stage_def coherent_def known_iff)
qed

subsection \<open>A failed journal write, and an exchange id that does not fit\<close>

definition sealed :: "oms \<Rightarrow> bool" where
  "sealed s \<longleftrightarrow> s_state s = LS_HALTED \<and> s_all_order_seal_reason s \<noteq> [] \<and> ''journal_failure'' \<in> s_gate_holds s \<and> \<not> s_gate_open s"

lemma sealed_fail_closed: "sealed (fail_closed_on_journal_error e c sy s)"
  by (auto simp: sealed_def fail_closed_on_journal_error_def latch_journal_failure_locked_def close_outbound_gate_locked_def
      emit_def case_prod_unfold Let_def)

lemma sealed_last: "sealed (t_oms (fail_closed_for env c t))" "sealed (t_oms (on_order_truth_check env (fail_closed_for env c t)))"
  by (simp_all add: on_order_truth_check_def fail_closed_for_def sealed_fail_closed)

lemma lost_write:
  assumes "se_result env = Some JournalError \<or> se_result env = None \<and> se_snapshot env = Some JournalError"
  shows "\<exists>t1 late. settle_submission ca env (Inr cr) t \<in> {result_not_durable env t1, ack_not_durable env t1, unknown_not_durable env t1} \<or>
    cr_outcome cr = CO_REJECTED \<and> settle_submission ca env (Inr cr) t = rejection_not_durable env late t1"
proof (cases "se_result env")
  case None
  obtain t1 b where b: "bind_submit_exchange_oid (cr_exchange_oid cr) t = (t1, b)" by fastforce
  show ?thesis
    using None assms by (cases "cr_outcome cr"; cases b)
      (simp_all add: settle_submission_def settle_acknowledged_def settle_unknown_def settle_rejected_def b Let_def; blast)+
next
  case (Some e)
  then show ?thesis using assms by (simp add: settle_submission_def; blast)
qed

text \<open>Claim C20: a settlement that cannot be written down stops the system. When the write of the command result, or of the order
  snapshot that follows it, fails with a journal error, the settlement of the answer ends halted, with the journal seal set, the gate closed
  and held, and it returns an answer; the strategy is told that the order failed only when the exchange or the fence rejected it.\<close>

theorem lost_settlement_seals:
  assumes "settle_submission ca env (Inr cr) t = (t', out)"
    and "se_result env = Some JournalError \<or> se_result env = None \<and> se_snapshot env = Some JournalError"
  shows "sealed (t_oms t') \<and> (\<exists>ok why. out = Answer ok why \<and> (\<not> ok \<longrightarrow> cr_outcome cr = CO_REJECTED))"
proof -
  obtain t1 late where "settle_submission ca env (Inr cr) t \<in> {result_not_durable env t1, ack_not_durable env t1, unknown_not_durable env t1} \<or>
    cr_outcome cr = CO_REJECTED \<and> settle_submission ca env (Inr cr) t = rejection_not_durable env late t1"
    using lost_write [OF assms(2)] by blast
  then have "sealed (t_oms (fst (settle_submission ca env (Inr cr) t)))"
    "\<exists>ok why. snd (settle_submission ca env (Inr cr) t) = Answer ok why \<and> (\<not> ok \<longrightarrow> cr_outcome cr = CO_REJECTED)"
    by (auto simp: result_not_durable_def [of env t1] ack_not_durable_def [of env t1] unknown_not_durable_def [of env t1]
        rejection_not_durable_def [of env late t1] sealed_last)
  then show ?thesis using assms(1) by simp
qed

text \<open>A state in which the order under \<open>oid\<close> counts as a settlement under way, as it does until \<open>_finish_submit_settlement\<close>.\<close>

definition settling_risk :: "string \<Rightarrow> string \<Rightarrow> oms \<Rightarrow> bool" where
  "settling_risk oid symbol s \<longleftrightarrow> oid \<in> set (s_settling s) \<and>
     (case dget (s_orders s) oid of None \<Rightarrow> False
      | Some ord \<Rightarrow> \<not> oi_reduce_only (o_intent ord) \<and> upper (oi_symbol (o_intent ord)) = upper symbol)"

lemma not_drained: "settling_risk oid symbol s \<Longrightarrow> \<not> risk_sends_drained symbol s"
  by (auto simp: settling_risk_def risk_sends_drained_def submit_settlement_count_locked_def Let_def filter_empty_conv
      split: option.splits)

lemma halted_steps:
  assumes "s_state (t_oms t) = LS_HALTED"
  shows "s_state (t_oms (close_gate_after_failure env c e t)) = LS_HALTED" "s_state (t_oms (on_order_truth_check env t)) = LS_HALTED"
    "s_state (t_oms (finish_send t)) = LS_HALTED" "s_state (t_oms (audit_post_submit env k t)) = LS_HALTED"
    "s_state (t_oms (fail_closed_for env c t)) = LS_HALTED"
proof -
  have "s_state (t_oms (mark_held S g t)) = LS_HALTED" for S g using assms by (simp add: mark_held_def put_order_def)
  then show "s_state (t_oms (close_gate_after_failure env c e t)) = LS_HALTED"
    by (simp add: close_gate_after_failure_def halted_freezes)
qed (use assms in \<open>simp_all add: on_order_truth_check_def finish_send_def audit_post_submit_def fail_closed_for_def
       finish_submit_settlement_def case_prod_unfold Let_def\<close>)

lemma undrained_freeze:
  "sy \<noteq> [] \<Longrightarrow> freeze_symbol e sy r c False s = (s', Inr x) \<Longrightarrow> s_state s' = LS_HALTED"
  by (auto simp: freeze_symbol_def enforce_symbol_guard_def Let_def split: sum.splits)

lemma halted_conflict:
  assumes "reason \<noteq> []" and "s_state (t_oms t) = LS_HALTED \<or> t_symbol t \<noteq> [] \<and> \<not> drains env reason t"
  shows "s_state (t_oms (handle_submit_transport_conflict env reason t)) = LS_HALTED"
proof -
  obtain s1 r1 where fr: "freeze_symbol (se_exc env) (t_symbol t) (''order_truth:'' @ reason) False (drains env reason t) (t_oms t) = (s1, r1)"
    by fastforce
  show ?thesis
  proof (cases r1)
    case (Inl e)
    then have "e = JournalError" using fr by (auto simp: freeze_symbol_def freeze_symbol_locked_def Let_def split: if_splits sum.splits)
    then show ?thesis using assms(1) Inl fr
      by (simp add: handle_submit_transport_conflict_def fail_closed_for_def on_order_truth_check_def Let_def)
  next
    case (Inr x)
    obtain s2 r2 where tr: "trigger_reconcile (se_exc env) reason (se_suppression env) (se_submission env) s1 = (s2, r2)" by fastforce
    have "s_state s1 = LS_HALTED" using assms(2)
    proof
      assume "s_state (t_oms t) = LS_HALTED"
      from halted_freezes(1) [OF this, of "se_exc env" "t_symbol t" "''order_truth:'' @ reason" False "drains env reason t"] fr show ?thesis by simp
    next
      assume "t_symbol t \<noteq> [] \<and> \<not> drains env reason t"
      with undrained_freeze [of "t_symbol t"] fr Inr show ?thesis by simp
    qed
    then have "s_state s2 = LS_HALTED" using halted_reconcile(2) [of s1] tr by (metis fst_conv)
    then have "s_state (t_oms (in_oms (\<lambda>_. s2) t)) = LS_HALTED" by simp
    then show ?thesis using assms(1) fr tr Inr
      by (auto simp: handle_submit_transport_conflict_def Let_def intro!: halted_steps split: sum.split)
  qed
qed

text \<open>The thread's order increases risk, is the one the map has under its id, and its settlement is under way.\<close>

definition being_settled :: "settlement \<Rightarrow> bool" where
  "being_settled t \<longleftrightarrow> dget (s_orders (t_oms t)) (t_oid t) = Some (t_order t) \<and> t_oid t \<in> set (s_settling (t_oms t)) \<and>
     \<not> oi_reduce_only (o_intent (t_order t))"

lemma being_settled_risk: "being_settled t \<Longrightarrow> settling_risk (t_oid t) (t_symbol t) (t_oms t)"
  by (simp add: being_settled_def settling_risk_def)

lemma being_settled_put:
  "being_settled t \<Longrightarrow> o_client_oid ord = t_oid t \<Longrightarrow> o_intent ord = o_intent (t_order t) \<Longrightarrow> being_settled (put_order ord t)"
  by (simp add: being_settled_def put_order_def set_order_def)

lemma being_settled_steps:
  assumes "being_settled t"
  shows "being_settled (fst (bind_submit_exchange_oid x t))"
    "being_settled (mark_held S (\<lambda>ord. mark_pending_ack clk (o_exchange_oid ord) ord) t)"
    "being_settled (publish_submitted st (release_send t))"
proof -
  have "being_settled (t\<lparr>t_exchange_ids := ids\<rparr>)" "being_settled (in_oms (\<lambda>_. fst (audit k (t_oms t))) t)" for ids k
    using assms ledger_D [OF ledger_updates(9), of k "t_oms t"] by (simp_all add: being_settled_def)
  then show "being_settled (fst (bind_submit_exchange_oid x t))"
    using assms by (auto simp: bind_submit_exchange_oid_def case_prod_unfold Let_def intro!: being_settled_put)
  show "being_settled (mark_held S (\<lambda>ord. mark_pending_ack clk (o_exchange_oid ord) ord) t)"
    using assms by (simp add: mark_held_def marks_ident being_settled_put)
  show "being_settled (publish_submitted st (release_send t))"
    using assms by (simp add: being_settled_def publish_submitted_def release_send_def release_permit_def
        on_oms_def release_outbound_order_send_permit_def Let_def)
qed

lemma undrained:
  assumes "being_settled t"
    and "\<forall>h\<in>set (se_polls env reason). \<forall>s. settling_risk (t_oid t) (t_symbol t) s \<longrightarrow> settling_risk (t_oid t) (t_symbol t) (h s)"
  shows "\<not> drains env reason t"
proof -
  have "settling_risk (t_oid t) (t_symbol t) (h (t_oms t))" if "h = (\<lambda>s. s) \<or> h \<in> set (se_polls env reason)" for h
    using that assms(2) being_settled_risk [OF assms(1)] by auto
  then show ?thesis using not_drained by (fastforce simp: drains_def list_ex_iff)
qed

definition id_conflict :: "string \<Rightarrow> settlement \<Rightarrow> bool" where
  "id_conflict x t \<longleftrightarrow> x \<noteq> [] \<and> (o_exchange_oid (t_order t) \<notin> {[], x} \<or>
     (case dget (t_exchange_ids t) x of None \<Rightarrow> False | Some other \<Rightarrow> other \<noteq> t_oid t))"

lemma bind_conflict:
  assumes "id_conflict x t" and "bind_submit_exchange_oid x t = (t1, b)"
  shows "b = Inl JournalError \<or> (\<exists>reason. b = Inr reason \<and> reason \<noteq> [])" "t_order t1 = t_order t"
  using assms by (auto simp: id_conflict_def bind_submit_exchange_oid_def case_prod_unfold Let_def split: if_splits option.splits)

lemma kept_intents [simp]:
  "o_intent (t_order (mark_held {SUBMITTING} (mark_submit_unknown clk r) t)) = o_intent (t_order t)"
  "o_intent (t_order (mark_held S (\<lambda>ord. mark_pending_ack clk (o_exchange_oid ord) ord) t)) = o_intent (t_order t)"
  "o_intent (t_order (release_send t)) = o_intent (t_order t)" "o_intent (t_order (publish_submitted st t)) = o_intent (t_order t)"
  "o_intent (t_order (on_order_truth_check env t)) = o_intent (t_order t)" "o_intent (t_order (fail_closed_for env c t)) = o_intent (t_order t)"
  by (simp_all add: mark_held_def marks_ident release_send_def publish_submitted_def on_order_truth_check_def fail_closed_for_def)

lemma conflict_intent [simp]: "o_intent (t_order (handle_submit_transport_conflict env reason t)) = o_intent (t_order t)"
  by (auto simp: handle_submit_transport_conflict_def close_gate_after_failure_def Let_def split: prod.split sum.split)

text \<open>Claim C37: one exchange id that does not fit halts the whole system. When the exchange acknowledges an order that increases risk under an id that
  contradicts the one known, or when the gateway's commit fails, the handler is to freeze the symbol and to ask for the truth. But
  the freeze waits until no risk-increasing settlement of the symbol is under way, and this very order is one: its id leaves the
  settlements only after the handler has returned. So, whatever the other threads do meanwhile, as long as they neither end this
  order's settlement nor remove the order, the wait times out, and the system is halted until a manual rearm.\<close>

theorem ack_conflict_halts:
  assumes "settle_submission ca env (Inr cr) t = (t', out)" and "cr_outcome cr = CO_ACKNOWLEDGED" and "se_result env = None" "se_snapshot env = None"
    and "id_conflict (cr_exchange_oid cr) t \<or> se_commit_fails env" and "t_symbol t \<noteq> []" and "being_settled t"
    and "\<forall>reason. \<forall>h\<in>set (se_polls env reason). \<forall>s. settling_risk (t_oid t) (t_symbol t) s \<longrightarrow> settling_risk (t_oid t) (t_symbol t) (h s)"
  shows "s_state (t_oms t') = LS_HALTED"
proof -
  let ?x = "cr_exchange_oid cr"
  obtain t1 b where b: "bind_submit_exchange_oid ?x t = (t1, b)" by fastforce
  have fail: ?thesis if "(t', out) = ack_not_durable env t1" using that by (simp add: ack_not_durable_def fail_closed_for_def)
  have t1: "being_settled t1" using being_settled_steps(1) [OF assms(7), of ?x] b by simp
  have same: "o_intent (t_order t1) = o_intent (t_order t)" "t_oid t1 = t_oid t"
    using b by (auto simp: bind_submit_exchange_oid_def case_prod_unfold Let_def split: if_splits)
  show ?thesis
  proof (cases b)
    case (Inl e)
    then show ?thesis using assms(1-3) b fail by (simp add: settle_submission_def settle_acknowledged_def)
  next
    case (Inr conflict)
    define t2 where "t2 = mark_held {SUBMITTING, SUBMIT_UNKNOWN} (\<lambda>ord. mark_pending_ack (se_clock env) (o_exchange_oid ord) ord) t1"
    define t3 where "t3 = publish_submitted (o_status (t_order t2)) (release_send t2)"
    define t4 where "t4 = handle_submit_transport_conflict env conflict t3"
    define t5 where "t5 = (if se_commit_fails env then handle_submit_transport_conflict env (''submit_commit_failed:'' @ t_oid t4) t4 else t4)"
    have "being_settled t3" unfolding t3_def t2_def by (intro being_settled_steps t1)
    moreover have t3: "t_oid t3 = t_oid t" "t_symbol t3 = t_symbol t"
      using same by (simp_all add: t3_def t2_def mark_held_def marks_ident publish_submitted_def release_send_def)
    ultimately have undrained: "\<not> drains env reason t3" for reason using undrained [of t3 env reason] assms(8) by simp
    have "conflict \<noteq> [] \<or> se_commit_fails env" using bind_conflict(1) [of ?x t t1 b] b Inr assms(5) by auto
    moreover have "s_state (t_oms t4) = LS_HALTED" if "conflict \<noteq> []"
      using halted_conflict [OF that] undrained t3 assms(6) by (simp add: t4_def)
    moreover have "t4 = t3" if "conflict = []" using that by (simp add: t4_def handle_submit_transport_conflict_def)
    ultimately have "s_state (t_oms t5) = LS_HALTED"
      using halted_conflict [of "''submit_commit_failed:'' @ t_oid t4" t4 env] undrained t3 assms(6) by (cases "conflict = []") (auto simp: t5_def)
    moreover have "t' = audit_post_submit env ''order_submitted'' (finish_send t5)"
      using assms(1-4) b Inr by (auto simp: settle_submission_def settle_acknowledged_def t5_def t4_def t3_def t2_def Let_def)
    ultimately show ?thesis by (simp add: halted_steps)
  qed
qed

subsection \<open>Witnesses\<close>

definition demo_settlement :: settlement where
  "demo_settlement = (let ord = (order_init demo_clock ''c1'' demo_intent)\<lparr>o_status := SUBMITTING\<rparr> in
     \<lparr>t_desk = demo_desk\<lparr>d_oms := demo_live\<lparr>s_orders := [(''c1'', ord)], s_settling := [''c1'']\<rparr>\<rparr>, t_order = ord,
      t_exchange_ids = [(''77'', ''c0'')], t_truth_checks = [], t_published = [], t_tombstones = []\<rparr>)"

definition demo_settling :: "py_exc option \<Rightarrow> settle_env" where
  "demo_settling result = \<lparr>se_clock = demo_clock, se_exc = ''disk'', se_result = result, se_snapshot = None, se_late_result = None,
     se_late_snapshot = None, se_polls = (\<lambda>_. [\<lambda>s. s]), se_suppression = [],
     se_submission = None, se_truth_accepted = True, se_commit_fails = False\<rparr>"

lemma demo_settlement_start:
  "coherent demo_settlement" "permits_exact (t_oms demo_settlement, [own_permit demo_settlement])" "t_oid demo_settlement = ''c1''"
  "t_symbol demo_settlement = ''BTCUSDT''" "dget (s_orders (t_oms demo_settlement)) ''c1'' = Some (t_order demo_settlement)"
  "being_settled demo_settlement" "id_conflict ''77'' demo_settlement"
  by (simp_all add: demo_settlement_def coherent_def order_init_def permits_exact_def own_permit_def demo_live_def oms_init_def demo_intent_def
      being_settled_def id_conflict_def upper_def upper_char_def dgetd_def Let_def)

theorem settlement_balanced_witness:
  "\<exists>t' out. settle_submission demo_cache (demo_settling None) (Inl ''Timeout'') demo_settlement = (t', out) \<and>
     permits_exact (t_oms t', []) \<and> ''c1'' \<notin> set (s_settling (t_oms t')) \<and> o_status (t_order t') \<noteq> SUBMITTING"
proof -
  obtain t' out where s: "settle_submission demo_cache (demo_settling None) (Inl ''Timeout'') demo_settlement = (t', out)" by fastforce
  from settlement_balanced [OF demo_settlement_start(1) demo_settlement_start(2) s] s show ?thesis
    by (simp add: demo_settlement_start)
qed

theorem sent_order_kept_witness:
  "\<exists>t' out. settle_submission demo_cache (demo_settling None) (Inr (command CO_ACKNOWLEDGED ''77'' [] [])) demo_settlement = (t', out) \<and>
     dget (s_orders (t_oms t')) ''c1'' = Some (t_order t') \<and> o_status (t_order t') \<noteq> SUBMITTING"
proof -
  obtain t' out where s: "settle_submission demo_cache (demo_settling None) (Inr (command CO_ACKNOWLEDGED ''77'' [] [])) demo_settlement = (t', out)"
    by fastforce
  have "\<not> exchange_refused demo_rest" by (simp add: exchange_refused_def demo_rest_def)
  from sent_order_kept [OF demo_sent _ this _ demo_settlement_start(2) s] s show ?thesis by (simp add: demo_settlement_start)
qed

theorem lost_settlement_seals_witness:
  "\<exists>t' out. settle_submission demo_cache (demo_settling (Some JournalError)) (Inr (command CO_ACKNOWLEDGED ''78'' [] [])) demo_settlement = (t', out) \<and>
     sealed (t_oms t')"
proof -
  obtain t' out where s: "settle_submission demo_cache (demo_settling (Some JournalError)) (Inr (command CO_ACKNOWLEDGED ''78'' [] []))
      demo_settlement = (t', out)" by fastforce
  from lost_settlement_seals [OF s] s show ?thesis by (simp add: demo_settling_def)
qed

text \<open>The same wait, in the same surroundings, does end where the settlement is finished first, as it is for an unknown outcome.\<close>

lemma demo_unknown_freezes:
  "s_state (t_oms (fst (settle_submission demo_cache (demo_settling None) (Inr (command CO_UNKNOWN [] [] [])) demo_settlement))) = LS_RECONCILING"
  by code_simp

theorem ack_conflict_halts_witness:
  "\<exists>t' out. settle_submission demo_cache (demo_settling None) (Inr (command CO_ACKNOWLEDGED ''77'' [] [])) demo_settlement = (t', out) \<and>
     s_state (t_oms demo_settlement) = LS_LIVE \<and> s_state (t_oms t') = LS_HALTED \<and>
     s_state (t_oms (fst (settle_submission demo_cache (demo_settling None) (Inr (command CO_UNKNOWN [] [] [])) demo_settlement))) = LS_RECONCILING"
proof -
  obtain t' out where s: "settle_submission demo_cache (demo_settling None) (Inr (command CO_ACKNOWLEDGED ''77'' [] [])) demo_settlement = (t', out)"
    by fastforce
  have "s_state (t_oms t') = LS_HALTED"
    by (rule ack_conflict_halts [OF s])
      (simp_all add: command_def demo_settling_def demo_settlement_start)
  then show ?thesis using s demo_unknown_freezes by (simp add: demo_settlement_def demo_live_def Let_def)
qed

end
