(* ===== verification/Paper_Venue.thy ===== *)
theory Paper_Venue
  imports Order_Checks Order_Transport Market_Cache "HOL-Library.Product_Lexorder"
begin

text \<open>
  The paper trading venue: the records of \<open>gateway/binance/paper_state.py\<close>, the matching engine
  (\<open>paper_matching.py\<close>), the ledger (\<open>paper_ledger.py\<close>) and the commands of its single-threaded worker
  (\<open>_dispatch_command\<close> and what it calls in \<open>paper_gateway.py\<close>): staging and commit of an order, cancels, the dead-man switch, books
  and public trades.

  The venue keeps its orders in a \<open>dict\<close> by client id; an operation on an order object is an operation on the entry under that id.
  Clock readings and the contract data are arguments. The fields that only describe an
  order in published messages (creation time, fill model, diagnosis of a fill) and the account messages are left out. A rejection
  carries the constant part of its text. \<open>v_fills\<close> is not a field of the gateway: it lists what every fill did, so that
  properties can speak of the past.
\<close>

subsection \<open>State\<close>

datatype paper_status = P_STAGED | P_NEW | P_PARTIALLY_FILLED | P_FILLED | P_CANCELED | P_EXPIRED | P_REJECTED

definition ACTIVE_ORDER_STATUSES :: "paper_status list" where
  "ACTIVE_ORDER_STATUSES = [P_NEW, P_PARTIALLY_FILLED]"

definition TERMINAL_ORDER_STATUSES :: "paper_status list" where
  "TERMINAL_ORDER_STATUSES = [P_FILLED, P_CANCELED, P_EXPIRED, P_REJECTED]"

record paper_position =
  pp_quantity :: rat
  pp_entry_price :: rat

definition no_position :: paper_position where
  "no_position = \<lparr>pp_quantity = 0, pp_entry_price = 0\<rparr>"

record paper_order =
  po_client_oid :: string
  po_exchange_oid :: string
  po_request :: order_request
  po_accept_seq :: int
  po_update_ms :: int
  po_status :: paper_status
  po_committed :: bool
  po_cum_filled_qty :: rat
  po_cumulative_cost :: rat
  po_avg_price :: rat
  po_queue_ahead :: rat
  po_cancel_generation_at_stage :: int
  po_pending_cancel_reason :: string
  po_terminal_reason :: string
  po_queue_inserted :: bool

definition po_remaining :: "paper_order \<Rightarrow> rat" where
  "po_remaining po = max 0 (fl (rq_volume (po_request po) - po_cum_filled_qty po))"

definition po_active :: "paper_order \<Rightarrow> bool" where
  "po_active po \<longleftrightarrow> po_status po \<in> set ACTIVE_ORDER_STATUSES"

abbreviation po_symbol :: "paper_order \<Rightarrow> string" where "po_symbol po \<equiv> rq_symbol (po_request po)"
abbreviation po_side :: "paper_order \<Rightarrow> string" where "po_side po \<equiv> rq_side (po_request po)"
abbreviation po_tif :: "paper_order \<Rightarrow> string" where "po_tif po \<equiv> rq_time_in_force (po_request po)"

text \<open>The entry of \<open>_trades\<close> and the message to \<open>on_order_update\<close>.\<close>

record paper_trade =
  pt_id :: int
  pt_symbol :: string
  pt_exchange_oid :: string
  pt_side :: string
  pt_price :: rat
  pt_qty :: rat
  pt_realized_pnl :: rat
  pt_commission :: rat
  pt_commission_asset :: string
  pt_maker :: bool

record paper_event =
  pe_seq :: int
  pe_client_oid :: string
  pe_status :: paper_status
  pe_filled_qty :: rat
  pe_filled_price :: rat
  pe_cum_filled_qty :: rat
  pe_trade_id :: int

text \<open>A fill: the order and the position it met, and the trade it made.\<close>

record fill_note =
  fn_order :: paper_order
  fn_position :: paper_position
  fn_trade :: paper_trade

record venue =
  v_orders :: "(string, paper_order) dict"
  v_exchange_to_client :: "(string, string) dict"
  v_positions :: "(string, paper_position) dict"
  v_books :: "(string, book_event) dict"
  v_liquidity :: "(string, levels \<times> levels) dict"     \<comment> \<open>bids, asks\<close>
  v_last_market_trade_id :: "(string, int) dict"
  v_balances :: "(string, rat) dict"
  v_trades :: "paper_trade list"
  v_dms_deadlines :: "(string, rat) dict"
  v_cancel_generations :: "(string, int) dict"
  v_accept_sequence :: int
  v_exchange_sequence :: int
  v_event_sequence :: int
  v_paper_trade_sequence :: int
  v_published :: "paper_event list"
  v_fills :: "fill_note list"

record venue_config =
  vc_symbols :: "string list"
  vc_rpi_fill_model :: string
  vc_cancel_ahead_fraction :: rat
  vc_market_order_max_slippage_bps :: rat
  vc_maker_fee :: rat
  vc_taker_fee :: rat
  vc_rpi_commission_rate :: rat
  vc_rpi_commission_rates :: "(string, rat) dict"
  vc_max_order_history :: int
  vc_max_trade_history :: nat

definition EPS12 :: rat where "EPS12 = fl (1 / 10 ^ 12)"

definition EPS9 :: rat where "EPS9 = fl (1 / 10 ^ 9)"

lemma EPS_code [code]: "EPS12 = 4951760157141521 / 4951760157141521099596496896" "EPS9 = 4835703278458517 / 4835703278458516698824704"
  unfolding EPS12_def EPS9_def by code_simp+

definition fsum :: "rat list \<Rightarrow> rat" where
  "fsum = foldl (\<lambda>a x. fl (a + x)) 0"

definition update_order :: "string \<Rightarrow> (paper_order \<Rightarrow> paper_order) \<Rightarrow> venue \<Rightarrow> venue" where
  "update_order oid f v = (case dget (v_orders v) oid of None \<Rightarrow> v | Some po \<Rightarrow> v\<lparr>v_orders := dset oid (f po) (v_orders v)\<rparr>)"

definition each_order :: "(paper_order \<Rightarrow> paper_order) \<Rightarrow> venue \<Rightarrow> venue" where
  "each_order f v = v\<lparr>v_orders := map (\<lambda>(k, po). (k, f po)) (v_orders v)\<rparr>"

subsection \<open>Ledger\<close>

definition paper_position_of :: "string \<Rightarrow> venue \<Rightarrow> paper_position" where
  "paper_position_of symbol v = dgetd (v_positions v) symbol no_position"

text \<open>\<open>apply_position_fill\<close>: the new position and the realised profit.\<close>

definition apply_position_fill :: "string \<Rightarrow> rat \<Rightarrow> rat \<Rightarrow> paper_position \<Rightarrow> paper_position \<times> rat" where
  "apply_position_fill side quantity price p =
     (let current = pp_quantity p; average = pp_entry_price p;
          signed_quantity = (if side = ''BUY'' then quantity else - quantity);
          next_quantity = fl (current + signed_quantity);
          increasing = (\<bar>current\<bar> \<le> EPS12 \<or> (current > 0 \<and> signed_quantity > 0) \<or> (current < 0 \<and> signed_quantity < 0));
          total_quantity = fl (\<bar>current\<bar> + quantity);
          closing_quantity = min \<bar>current\<bar> quantity;
          realized = (if increasing then 0
                      else if current > 0 then fl (fl (price - average) * closing_quantity)
                      else fl (fl (average - price) * closing_quantity));
          entry = (if increasing
                   then (if total_quantity > 0 then fl (fl (fl (\<bar>current\<bar> * average) + fl (quantity * price)) / total_quantity) else 0)
                   else average)
      in (if \<bar>next_quantity\<bar> \<le> EPS9 then no_position
          else if (current > 0 \<and> 0 > next_quantity) \<or> (current < 0 \<and> 0 < next_quantity)
          then \<lparr>pp_quantity = next_quantity, pp_entry_price = price\<rparr>
          else \<lparr>pp_quantity = next_quantity, pp_entry_price = entry\<rparr>, realized))"

definition quote_asset :: "string \<Rightarrow> string" where
  "quote_asset symbol0 = (let symbol = upper symbol0 in
     case find (\<lambda>suf. suffix suf symbol) [''USDT'', ''USDC'', ''BUSD'', ''FDUSD''] of None \<Rightarrow> ''USDT'' | Some suf \<Rightarrow> suf)"

definition rpi_fee_rate :: "venue_config \<Rightarrow> string \<Rightarrow> rat" where
  "rpi_fee_rate c symbol =
     max 0 (case dget (vc_rpi_commission_rates c) (upper symbol) of
        Some r \<Rightarrow> r
      | None \<Rightarrow> (case dget (vc_rpi_commission_rates c) symbol of Some r \<Rightarrow> r | None \<Rightarrow> vc_rpi_commission_rate c))"

definition fee_rate :: "venue_config \<Rightarrow> paper_order \<Rightarrow> bool \<Rightarrow> rat" where
  "fee_rate c po is_maker =
     (if po_tif po = ''RPI'' then rpi_fee_rate c (po_symbol po) else max 0 (if is_maker then vc_maker_fee c else vc_taker_fee c))"

definition reduce_only_fill_cap :: "paper_order \<Rightarrow> venue \<Rightarrow> rat" where
  "reduce_only_fill_cap po v =
     (if \<not> rq_reduce_only (po_request po) then po_remaining po
      else
        let q = pp_quantity (paper_position_of (po_symbol po) v) in
        if q > EPS12 \<and> po_side po = ''SELL'' then min (po_remaining po) q
        else if q < - EPS12 \<and> po_side po = ''BUY'' then min (po_remaining po) \<bar>q\<bar>
        else 0)"

definition emit_order_event :: "paper_order \<Rightarrow> rat \<Rightarrow> rat \<Rightarrow> int \<Rightarrow> venue \<Rightarrow> venue" where
  "emit_order_event po filled_qty filled_price trade_id v =
     (let seq = v_event_sequence v + 1 in
      v\<lparr>v_event_sequence := seq, v_published := v_published v @
          [\<lparr>pe_seq = seq, pe_client_oid = po_client_oid po, pe_status = po_status po, pe_filled_qty = filled_qty,
            pe_filled_price = filled_price, pe_cum_filled_qty = po_cum_filled_qty po, pe_trade_id = trade_id\<rparr>]\<rparr>)"

text \<open>A \<open>deque\<close> with a maximal length drops from the left.\<close>

definition bounded_append :: "nat \<Rightarrow> 'a \<Rightarrow> 'a list \<Rightarrow> 'a list" where
  "bounded_append maxlen x xs = (let ys = xs @ [x] in drop (length ys - maxlen) ys)"

definition filled_order :: "int \<Rightarrow> rat \<Rightarrow> rat \<Rightarrow> paper_order \<Rightarrow> paper_order" where
  "filled_order now_ms quantity price po =
     (let cum = fl (po_cum_filled_qty po + quantity);
          cost = fl (po_cumulative_cost po + fl (quantity * price));
          po' = po\<lparr>po_cum_filled_qty := cum, po_cumulative_cost := cost, po_avg_price := fl (cost / cum), po_update_ms := now_ms\<rparr>
      in po'\<lparr>po_status := (if po_remaining po' \<le> EPS9 then P_FILLED else P_PARTIALLY_FILLED)\<rparr>)"

definition apply_paper_fill :: "venue_config \<Rightarrow> int \<Rightarrow> string \<Rightarrow> rat \<Rightarrow> rat \<Rightarrow> bool \<Rightarrow> venue \<Rightarrow> venue" where
  "apply_paper_fill c now_ms oid quantity0 price is_maker v =
     (case dget (v_orders v) oid of
        None \<Rightarrow> v
      | Some po \<Rightarrow>
          let quantity = min (min quantity0 (po_remaining po)) (reduce_only_fill_cap po v) in
          if quantity \<le> EPS12 then v
          else
            let symbol = po_symbol po;
                (position, realized) = apply_position_fill (po_side po) quantity price (paper_position_of symbol v);
                commission = fl (fl (quantity * price) * fee_rate c po is_maker);
                asset = quote_asset symbol;
                po' = filled_order now_ms quantity price po;
                trade_id = v_paper_trade_sequence v + 1;
                trade = \<lparr>pt_id = trade_id, pt_symbol = symbol, pt_exchange_oid = po_exchange_oid po, pt_side = po_side po,
                  pt_price = price, pt_qty = quantity, pt_realized_pnl = realized, pt_commission = commission,
                  pt_commission_asset = asset, pt_maker = is_maker\<rparr>
            in emit_order_event po' quantity price trade_id
                 (v\<lparr>v_positions := dset symbol position (v_positions v),
                    v_balances := dset asset (fl (dgetd (v_balances v) asset 0 + fl (realized - commission))) (v_balances v),
                    v_orders := dset oid po' (v_orders v), v_paper_trade_sequence := trade_id,
                    v_trades := bounded_append (vc_max_trade_history c) trade (v_trades v),
                    v_fills := v_fills v @ [\<lparr>fn_order = po, fn_position = paper_position_of symbol v, fn_trade = trade\<rparr>]\<rparr>))"

definition prune_terminal_orders :: "venue_config \<Rightarrow> venue \<Rightarrow> venue" where
  "prune_terminal_orders c v =
     (let excess = int (length (v_orders v)) - vc_max_order_history c in
      if excess \<le> 0 then v
      else
        let removable = sort_key (\<lambda>po. (po_update_ms po, po_accept_seq po))
              (filter (\<lambda>po. po_status po \<in> set TERMINAL_ORDER_STATUSES) (map snd (v_orders v)))
        in fold (\<lambda>po v. v\<lparr>v_orders := ddel (po_client_oid po) (v_orders v),
                          v_exchange_to_client := ddel (po_exchange_oid po) (v_exchange_to_client v)\<rparr>)
             (take (nat excess) removable) v)"

subsection \<open>The local queue\<close>

definition local_queue_priority :: "paper_order \<Rightarrow> nat \<times> int" where
  "local_queue_priority po = (if po_tif po = ''RPI'' then 1 else 0, po_accept_seq po)"

definition passive_match_priority :: "paper_order \<Rightarrow> rat \<times> nat \<times> int" where
  "passive_match_priority po =
     (if po_side po = ''BUY'' then - rq_price (po_request po) else rq_price (po_request po), local_queue_priority po)"

definition same_local_level :: "paper_order \<Rightarrow> paper_order \<Rightarrow> bool" where
  "same_local_level l r \<longleftrightarrow> po_symbol l = po_symbol r \<and> po_side l = po_side r \<and>
     \<bar>fl (rq_price (po_request l) - rq_price (po_request r))\<bar> \<le> EPS12"

definition queued :: "paper_order \<Rightarrow> bool" where
  "queued po \<longleftrightarrow> po_active po \<and> po_committed po \<and> po_queue_inserted po"

definition own_book_side :: "string \<Rightarrow> book_event \<Rightarrow> levels" where
  "own_book_side side book = (if side = ''BUY'' then ev_bids book else ev_asks book)"

definition set_initial_queue_ahead :: "string \<Rightarrow> venue \<Rightarrow> venue" where
  "set_initial_queue_ahead oid v =
     (case dget (v_orders v) oid of
        None \<Rightarrow> v
      | Some po \<Rightarrow>
          if \<not> po_active po \<or> rq_order_type (po_request po) \<noteq> ''LIMIT'' then v
          else case dget (v_books v) (po_symbol po) of
              None \<Rightarrow> update_order oid (\<lambda>po. po\<lparr>po_queue_ahead := 0\<rparr>) v
            | Some book \<Rightarrow>
                let external_ahead = max 0 (dgetd (own_book_side (po_side po) book) (rq_price (po_request po)) 0);
                    local_ahead = fsum (map po_remaining (filter (\<lambda>cand. po_client_oid cand \<noteq> po_client_oid po \<and> queued cand \<and>
                      same_local_level cand po \<and> local_queue_priority cand < local_queue_priority po) (map snd (v_orders v))))
                in update_order oid (\<lambda>po. po\<lparr>po_queue_ahead := fl (external_ahead + local_ahead)\<rparr>) v)"

definition insert_into_local_queue :: "string \<Rightarrow> venue \<Rightarrow> venue" where
  "insert_into_local_queue oid v =
     (case dget (v_orders v) oid of
        None \<Rightarrow> v
      | Some po \<Rightarrow>
          if po_queue_inserted po \<or> \<not> po_active po \<or> \<not> po_committed po then v
          else
            each_order (\<lambda>cand.
                if po_client_oid cand \<noteq> po_client_oid po \<and> queued cand \<and> same_local_level cand po \<and>
                   local_queue_priority po < local_queue_priority cand
                then cand\<lparr>po_queue_ahead := fl (po_queue_ahead cand + po_remaining po)\<rparr> else cand)
              (update_order oid (\<lambda>po. po\<lparr>po_queue_inserted := True\<rparr>) (set_initial_queue_ahead oid v)))"

definition remove_from_later_local_queue :: "paper_order \<Rightarrow> rat \<Rightarrow> venue \<Rightarrow> venue" where
  "remove_from_later_local_queue po removed_quantity v =
     (if removed_quantity \<le> EPS12 \<or> \<not> po_queue_inserted po then v
      else
        update_order (po_client_oid po) (\<lambda>po. po\<lparr>po_queue_inserted := False\<rparr>)
          (each_order (\<lambda>cand.
              if queued cand \<and> same_local_level cand po \<and> local_queue_priority po < local_queue_priority cand
              then cand\<lparr>po_queue_ahead := max 0 (fl (po_queue_ahead cand - removed_quantity))\<rparr> else cand) v))"

text \<open>\<open>expire_order\<close> and \<open>cancel_order\<close> of the ledger differ in the status they set.\<close>

definition end_order :: "paper_status \<Rightarrow> int \<Rightarrow> string \<Rightarrow> venue \<Rightarrow> venue" where
  "end_order status now_ms oid v =
     (case dget (v_orders v) oid of
        None \<Rightarrow> v
      | Some po \<Rightarrow>
          if \<not> po_active po then v
          else
            let po' = po\<lparr>po_status := status, po_update_ms := now_ms\<rparr> in
            emit_order_event po' 0 0 (-1)
              (remove_from_later_local_queue po' (po_remaining po) (v\<lparr>v_orders := dset oid po' (v_orders v)\<rparr>)))"

definition expire_order :: "int \<Rightarrow> string \<Rightarrow> venue \<Rightarrow> venue" where
  "expire_order = end_order P_EXPIRED"

definition cancel_paper_order :: "int \<Rightarrow> string \<Rightarrow> venue \<Rightarrow> venue" where
  "cancel_paper_order = end_order P_CANCELED"

subsection \<open>Matching\<close>

definition would_cross :: "order_request \<Rightarrow> rat \<Rightarrow> rat \<Rightarrow> bool" where
  "would_cross rq best_bid best_ask =
     (if rq_order_type rq = ''MARKET'' then True
      else if rq_side rq = ''BUY'' then best_ask > 0 \<and> rq_price rq \<ge> fl (best_ask - EPS12)
      else best_bid > 0 \<and> rq_price rq \<le> fl (best_bid + EPS12))"

definition price_is_executable :: "venue_config \<Rightarrow> paper_order \<Rightarrow> rat \<Rightarrow> venue \<Rightarrow> bool" where
  "price_is_executable c po external_price v =
     (let rq = po_request po in
      if rq_order_type rq = ''LIMIT'' then
        if rq_side rq = ''BUY'' then external_price \<le> fl (rq_price rq + EPS12) else external_price \<ge> fl (rq_price rq - EPS12)
      else case dget (v_books v) (rq_symbol rq) of
          None \<Rightarrow> True
        | Some book \<Rightarrow>
            if vc_market_order_max_slippage_bps c \<le> 0 then True
            else
              let best_price = (if rq_side rq = ''BUY'' then fst (get_best_ask book) else fst (get_best_bid book)) in
              if best_price \<le> 0 then False
              else fl (fl (\<bar>fl (external_price - best_price)\<bar> / best_price) * 10000) \<le> fl (vc_market_order_max_slippage_bps c + EPS9))"

datatype trade_relation = At_price | Through | Not_reached

definition passive_trade_relation :: "paper_order \<Rightarrow> rat \<Rightarrow> trade_relation" where
  "passive_trade_relation po trade_price =
     (let order_price = rq_price (po_request po);
          tolerance = max EPS12 (fl (\<bar>order_price\<bar> * EPS12))
      in if \<bar>fl (trade_price - order_price)\<bar> \<le> tolerance then At_price
         else if po_side po = ''BUY'' then (if trade_price < order_price then Through else Not_reached)
         else if trade_price > order_price then Through else Not_reached)"

definition opposite_levels :: "paper_order \<Rightarrow> venue \<Rightarrow> levels" where
  "opposite_levels po v = (case dget (v_liquidity v) (po_symbol po) of
      None \<Rightarrow> [] | Some (bids, asks) \<Rightarrow> if po_side po = ''BUY'' then asks else bids)"

definition set_opposite_level :: "paper_order \<Rightarrow> rat \<Rightarrow> rat \<Rightarrow> venue \<Rightarrow> venue" where
  "set_opposite_level po price q v = (case dget (v_liquidity v) (po_symbol po) of
      None \<Rightarrow> v
    | Some (bids, asks) \<Rightarrow>
        v\<lparr>v_liquidity := dset (po_symbol po)
            (if po_side po = ''BUY'' then (bids, dset price q asks) else (dset price q bids, asks)) (v_liquidity v)\<rparr>)"

fun match_levels :: "venue_config \<Rightarrow> int \<Rightarrow> string \<Rightarrow> rat list \<Rightarrow> venue \<Rightarrow> venue" where
  "match_levels c now_ms oid [] v = v"
| "match_levels c now_ms oid (price # prices) v =
     (case dget (v_orders v) oid of
        None \<Rightarrow> v
      | Some po \<Rightarrow>
          if \<not> po_active po \<or> po_remaining po \<le> EPS12 then v
          else
            let available = max 0 (dgetd (opposite_levels po v) price 0) in
            if available \<le> EPS12 then match_levels c now_ms oid prices v
            else
              let quantity = min (min (po_remaining po) available) (reduce_only_fill_cap po v) in
              if quantity \<le> EPS12 then v
              else match_levels c now_ms oid prices
                     (apply_paper_fill c now_ms oid quantity price False (set_opposite_level po price (max 0 (fl (available - quantity))) v)))"

definition immediate_only :: "order_request \<Rightarrow> bool" where
  "immediate_only rq \<longleftrightarrow> rq_order_type rq = ''MARKET'' \<or> rq_time_in_force rq \<in> {''IOC'', ''FOK''}"

definition eligible_prices :: "venue_config \<Rightarrow> paper_order \<Rightarrow> venue \<Rightarrow> rat list" where
  "eligible_prices c po v =
     (let prices = sort (dkeys (opposite_levels po v)) in
      filter (\<lambda>price. price_is_executable c po price v) (if po_side po = ''BUY'' then prices else rev prices))"

definition fok_unfilled :: "venue_config \<Rightarrow> paper_order \<Rightarrow> venue \<Rightarrow> bool" where
  "fok_unfilled c po v =
     (let known_quantity = fsum (map (\<lambda>price. max 0 (dgetd (opposite_levels po v) price 0)) (eligible_prices c po v));
          required = min (po_remaining po) (reduce_only_fill_cap po v)
      in required \<le> EPS12 \<or> fl (known_quantity + EPS12) < required)"

definition settle_remainder :: "int \<Rightarrow> string \<Rightarrow> venue \<Rightarrow> venue" where
  "settle_remainder now_ms oid v =
     (case dget (v_orders v) oid of
        None \<Rightarrow> v
      | Some po \<Rightarrow>
          if po_active po \<and> po_remaining po > EPS12
          then (if immediate_only (po_request po) then expire_order now_ms oid v else insert_into_local_queue oid v)
          else v)"

definition match_immediate :: "venue_config \<Rightarrow> int \<Rightarrow> string \<Rightarrow> venue \<Rightarrow> venue" where
  "match_immediate c now_ms oid v =
     (case dget (v_orders v) oid of
        None \<Rightarrow> v
      | Some po \<Rightarrow>
          if \<not> po_active po \<or> \<not> po_committed po then v
          else if dget (v_liquidity v) (po_symbol po) = None
          then (if immediate_only (po_request po) then expire_order now_ms oid v else insert_into_local_queue oid v)
          else if po_tif po = ''FOK'' \<and> fok_unfilled c po v then expire_order now_ms oid v
          else settle_remainder now_ms oid (match_levels c now_ms oid (eligible_prices c po v) v))"

subsection \<open>Public trades and books\<close>

record agg_trade =
  at_symbol :: string
  at_trade_id :: int
  at_price :: rat
  at_quantity :: rat
  at_maker_is_buyer :: bool

definition trade_against :: "venue_config \<Rightarrow> int \<Rightarrow> agg_trade \<Rightarrow> string \<Rightarrow> venue \<Rightarrow> venue" where
  "trade_against c now_ms trade oid v =
     (case dget (v_orders v) oid of
        None \<Rightarrow> v
      | Some po \<Rightarrow>
          let relation = passive_trade_relation po (at_price trade);
              fill = (\<lambda>quantity v. if quantity \<le> EPS12 then v
                                   else apply_paper_fill c now_ms oid quantity (rq_price (po_request po)) True v);
              ahead_before = max 0 (po_queue_ahead po)
          in if po_tif po = ''RPI'' \<and> vc_rpi_fill_model c \<noteq> ''public_trade_proxy'' then v
             else if relation = Not_reached then v
             else if reduce_only_fill_cap po v \<le> EPS12 then expire_order now_ms oid v
             else if relation = Through then fill (min (po_remaining po) (reduce_only_fill_cap po v)) v
             else fill (min (min (po_remaining po) (max 0 (fl (at_quantity trade - ahead_before)))) (reduce_only_fill_cap po v))
                    (update_order oid (\<lambda>po. po\<lparr>po_queue_ahead := max 0 (fl (ahead_before - at_quantity trade))\<rparr>) v))"

definition trade_candidates :: "agg_trade \<Rightarrow> venue \<Rightarrow> paper_order list" where
  "trade_candidates trade v =
     (let maker_side = (if at_maker_is_buyer trade then ''BUY'' else ''SELL'') in
      sort_key passive_match_priority (filter (\<lambda>po. po_active po \<and> po_committed po \<and> po_symbol po = at_symbol trade \<and>
        po_side po = maker_side \<and> rq_order_type (po_request po) = ''LIMIT'' \<and> po_tif po \<notin> {''IOC'', ''FOK''}) (map snd (v_orders v))))"

definition on_market_trade :: "venue_config \<Rightarrow> int \<Rightarrow> agg_trade \<Rightarrow> venue \<Rightarrow> venue \<times> bool" where
  "on_market_trade c now_ms trade v =
     (if at_price trade \<le> 0 \<or> at_quantity trade \<le> 0 then (v, False)
      else if at_trade_id trade \<ge> 0 \<and> at_trade_id trade \<le> dgetd (v_last_market_trade_id v) (at_symbol trade) (-1) then (v, False)
      else
        let v1 = (if at_trade_id trade \<ge> 0
                  then v\<lparr>v_last_market_trade_id := dset (at_symbol trade) (at_trade_id trade) (v_last_market_trade_id v)\<rparr> else v)
        in (fold (trade_against c now_ms trade) (map po_client_oid (trade_candidates trade v1)) v1, True))"

definition apply_conservative_cancel_ahead :: "venue_config \<Rightarrow> string \<Rightarrow> book_event \<Rightarrow> book_event \<Rightarrow> venue \<Rightarrow> venue" where
  "apply_conservative_cancel_ahead c symbol previous current =
     each_order (\<lambda>po.
       if \<not> po_active po \<or> \<not> po_committed po \<or> po_symbol po \<noteq> symbol then po
       else
         let price = rq_price (po_request po) in
         case (dget (own_book_side (po_side po) previous) price, dget (own_book_side (po_side po) current) price) of
           (Some old_qty, Some new_qty) \<Rightarrow>
             po\<lparr>po_queue_ahead := max 0 (fl (po_queue_ahead po - fl (max 0 (fl (old_qty - new_qty)) * vc_cancel_ahead_fraction c)))\<rparr>
         | _ \<Rightarrow> po)"

definition on_book :: "venue_config \<Rightarrow> string \<Rightarrow> book_event \<Rightarrow> venue \<Rightarrow> venue" where
  "on_book c symbol book v =
     (let v1 = (case dget (v_books v) symbol of
                  Some previous \<Rightarrow> if vc_cancel_ahead_fraction c > 0 then apply_conservative_cancel_ahead c symbol previous book v else v
                | None \<Rightarrow> v)
      in v1\<lparr>v_books := dset symbol book (v_books v1), v_liquidity := dset symbol (ev_bids book, ev_asks book) (v_liquidity v1)\<rparr>)"

subsection \<open>Commands of the worker\<close>

text \<open>What admission reads of a contract (\<open>ContractInfo\<close>).\<close>

record paper_contract =
  pk_min_qty :: rat
  pk_step_size :: rat
  pk_tick_size :: rat
  pk_min_notional :: rat
  pk_supports_rpi :: bool

definition is_step_aligned :: "rat \<Rightarrow> rat \<Rightarrow> bool" where
  "is_step_aligned x step =
     (if step \<le> 0 then True
      else let units = fl (x / step) in
        \<bar>fl (units - of_int (rne units))\<bar> \<le> max (fl (1 / 10 ^ 8)) (fl (\<bar>units\<bar> * fl (1 / 10 ^ 10))))"

definition request_upper :: "order_request \<Rightarrow> order_request" where
  "request_upper rq = rq\<lparr>rq_symbol := upper (rq_symbol rq), rq_side := upper (rq_side rq),
     rq_order_type := upper (str_or (rq_order_type rq) ''LIMIT''), rq_time_in_force := upper (str_or (rq_time_in_force rq) ''GTC'')\<rparr>"

definition request_form_rejection :: "venue_config \<Rightarrow> order_request \<Rightarrow> string" where
  "request_form_rejection c rq =
     (if rq_symbol rq \<notin> set (vc_symbols c) then ''unknown_symbol''
      else if rq_side rq \<notin> {''BUY'', ''SELL''} then ''invalid_side''
      else if rq_order_type rq \<notin> {''LIMIT'', ''MARKET''} then ''unsupported_order_type''
      else if rq_order_type rq = ''LIMIT'' \<and> rq_time_in_force rq \<notin> {''GTC'', ''IOC'', ''FOK'', ''GTX'', ''RPI''}
      then ''unsupported_time_in_force''
      else if rq_order_type rq = ''MARKET'' \<and> rq_time_in_force rq \<notin> {''GTC'', ''IOC'', ''FOK''} then ''market_order_incompatible_tif''
      else if rq_time_in_force rq = ''RPI'' \<and> rq_order_type rq \<noteq> ''LIMIT'' then ''rpi_requires_limit_order''
      else if rq_post_only rq \<and> rq_time_in_force rq \<notin> {''GTX'', ''RPI''} then ''post_only_requires_gtx_or_rpi''
      else if rq_volume rq \<le> 0 then ''invalid_quantity''
      else if rq_order_type rq = ''LIMIT'' \<and> rq_price rq \<le> 0 then ''invalid_price''
      else [])"

definition contract_rejection :: "paper_contract option \<Rightarrow> order_request \<Rightarrow> string" where
  "contract_rejection info rq =
     (if rq_time_in_force rq = ''RPI'' \<and> (case info of None \<Rightarrow> True | Some i \<Rightarrow> \<not> pk_supports_rpi i) then ''rpi_unsupported_symbol''
      else case info of
          None \<Rightarrow> []
        | Some i \<Rightarrow>
            if fl (rq_volume rq + EPS12) < pk_min_qty i then ''quantity_below_min''
            else if \<not> is_step_aligned (rq_volume rq) (pk_step_size i) then ''quantity_not_step_aligned''
            else if rq_order_type rq = ''LIMIT'' \<and> \<not> is_step_aligned (rq_price rq) (pk_tick_size i) then ''price_not_tick_aligned''
            else [])"

definition market_rejection :: "paper_contract option \<Rightarrow> order_request \<Rightarrow> venue \<Rightarrow> string" where
  "market_rejection info rq v =
     (case dget (v_books v) (rq_symbol rq) of
        None \<Rightarrow> ''market_data_unavailable''
      | Some book \<Rightarrow>
          if ev_bids book = [] \<or> ev_asks book = [] then ''market_data_unavailable''
          else
            let best_bid = fst (get_best_bid book); best_ask = fst (get_best_ask book);
                reference_price = (if rq_order_type rq = ''LIMIT'' then rq_price rq
                                   else if rq_side rq = ''BUY'' then best_ask else best_bid)
            in if reference_price \<le> 0 then ''market_data_unavailable''
               else if (case info of None \<Rightarrow> False
                        | Some i \<Rightarrow> fl (fl (reference_price * rq_volume rq) + EPS12) < max 0 (pk_min_notional i)) then ''notional_below_min''
               else if rq_time_in_force rq \<in> {''GTX'', ''RPI''} \<and> would_cross rq best_bid best_ask then ''post_only_would_cross''
               else [])"

definition reduce_only_rejection :: "order_request \<Rightarrow> venue \<Rightarrow> string" where
  "reduce_only_rejection rq v =
     (let q = pp_quantity (paper_position_of (rq_symbol rq) v);
          reserved = fsum (map po_remaining (filter (\<lambda>cand. po_active cand \<and> po_symbol cand = rq_symbol rq \<and>
            rq_reduce_only (po_request cand) \<and> po_side cand = rq_side rq) (map snd (v_orders v))));
          reducible = max 0 (fl (\<bar>q\<bar> - reserved))
      in if \<not> rq_reduce_only rq then []
         else if \<bar>q\<bar> \<le> EPS12 then ''reduce_only_without_position''
         else if q > 0 \<and> rq_side rq \<noteq> ''SELL'' then ''reduce_only_wrong_side''
         else if q < 0 \<and> rq_side rq \<noteq> ''BUY'' then ''reduce_only_wrong_side''
         else if rq_volume rq > fl (reducible + EPS9) then ''reduce_only_exceeds_position''
         else [])"

text \<open>\<open>_validate_request\<close> on the request it has normalised in place.\<close>

definition validate_request :: "venue_config \<Rightarrow> paper_contract option \<Rightarrow> order_request \<Rightarrow> venue \<Rightarrow> string" where
  "validate_request c info rq v =
     str_or (request_form_rejection c rq) (str_or (contract_rejection info rq)
       (str_or (market_rejection info rq v) (reduce_only_rejection rq v)))"

definition same_request :: "order_request \<Rightarrow> order_request \<Rightarrow> bool" where
  "same_request l r \<longleftrightarrow> upper (rq_symbol l) = upper (rq_symbol r) \<and> upper (rq_side l) = upper (rq_side r) \<and>
     upper (rq_order_type l) = upper (rq_order_type r) \<and> upper (rq_time_in_force l) = upper (rq_time_in_force r) \<and>
     \<bar>fl (rq_price l - rq_price r)\<bar> \<le> EPS12 \<and> \<bar>fl (rq_volume l - rq_volume r)\<bar> \<le> EPS12 \<and>
     rq_post_only l = rq_post_only r \<and> rq_reduce_only l = rq_reduce_only r"

definition zero_padded :: "nat \<Rightarrow> int \<Rightarrow> string" where
  "zero_padded width n = (let s = str_of_int n in replicate (width - length s) CHR ''0'' @ s)"

definition new_paper_order :: "int \<Rightarrow> order_request \<Rightarrow> string \<Rightarrow> venue \<Rightarrow> paper_order" where
  "new_paper_order now_ms rq oid v = \<lparr>po_client_oid = oid, po_exchange_oid = ''PAPER-'' @ zero_padded 20 (v_exchange_sequence v + 1),
     po_request = rq, po_accept_seq = v_accept_sequence v + 1, po_update_ms = now_ms, po_status = P_STAGED, po_committed = False,
     po_cum_filled_qty = 0, po_cumulative_cost = 0, po_avg_price = 0, po_queue_ahead = 0,
     po_cancel_generation_at_stage = dgetd (v_cancel_generations v) (rq_symbol rq) 0,
     po_pending_cancel_reason = [], po_terminal_reason = [], po_queue_inserted = False\<rparr>"

definition stage_order ::
  "venue_config \<Rightarrow> paper_contract option \<Rightarrow> int \<Rightarrow> order_request \<Rightarrow> string \<Rightarrow> venue \<Rightarrow> venue \<times> command_result" where
  "stage_order c info now_ms rq0 oid v =
     (case dget (v_orders v) oid of
        Some existing \<Rightarrow>
          (v, if same_request (po_request existing) rq0 then command CO_ACKNOWLEDGED (po_exchange_oid existing) [] []
              else command CO_REJECTED [] ''PAPER_DUPLICATE_CLIENT_ID'' ''client order ID already belongs to another request'')
      | None \<Rightarrow>
          let rq = request_upper rq0; why = validate_request c info rq v; po = new_paper_order now_ms rq oid v in
          if why \<noteq> [] then (v, command CO_REJECTED [] ''PAPER_ORDER_REJECTED'' why)
          else (prune_terminal_orders c (v\<lparr>v_accept_sequence := v_accept_sequence v + 1, v_exchange_sequence := v_exchange_sequence v + 1,
                  v_orders := dset oid po (v_orders v),
                  v_exchange_to_client := dset (po_exchange_oid po) oid (v_exchange_to_client v)\<rparr>),
                command CO_ACKNOWLEDGED (po_exchange_oid po) [] []))"

text \<open>\<open>_cancel_staged_order\<close> and \<open>_reject_staged_order\<close>.\<close>

definition end_staged_order :: "paper_status \<Rightarrow> string \<Rightarrow> int \<Rightarrow> string \<Rightarrow> venue \<Rightarrow> venue" where
  "end_staged_order status reason now_ms oid v =
     (case dget (v_orders v) oid of
        None \<Rightarrow> v
      | Some po \<Rightarrow>
          let po1 = po\<lparr>po_committed := True, po_status := status, po_terminal_reason := reason, po_update_ms := now_ms\<rparr>;
              po2 = (if status = P_CANCELED then po1\<lparr>po_pending_cancel_reason := []\<rparr> else po1)
          in emit_order_event po2 0 0 (-1) (v\<lparr>v_orders := dset oid po2 (v_orders v)\<rparr>))"

text \<open>\<open>clock\<close>: the answer of \<open>_clock_health_rejection\<close>, empty when the clock is healthy.\<close>

definition commit_staged_order ::
  "venue_config \<Rightarrow> paper_contract option \<Rightarrow> string \<Rightarrow> int \<Rightarrow> string \<Rightarrow> venue \<Rightarrow> venue \<times> bool" where
  "commit_staged_order c info clock now_ms oid v =
     (case dget (v_orders v) oid of
        None \<Rightarrow> (v, False)
      | Some po \<Rightarrow>
          if po_status po \<noteq> P_STAGED then (v, po_committed po \<or> po_status po \<in> set TERMINAL_ORDER_STATUSES)
          else if po_pending_cancel_reason po \<noteq> [] \<or>
                  dgetd (v_cancel_generations v) (po_symbol po) 0 \<noteq> po_cancel_generation_at_stage po
          then (end_staged_order P_CANCELED (str_or (po_pending_cancel_reason po) ''PAPER_CANCEL_ALL_BARRIER'') now_ms oid v, True)
          else if clock \<noteq> [] then (end_staged_order P_REJECTED clock now_ms oid v, True)
          else if validate_request c info (request_upper (po_request po)) v \<noteq> []
          then (end_staged_order P_REJECTED (validate_request c info (request_upper (po_request po)) v) now_ms oid
                  (update_order oid (\<lambda>po. po\<lparr>po_request := request_upper (po_request po)\<rparr>) v), True)
          else
            let po1 = po\<lparr>po_request := request_upper (po_request po), po_committed := True, po_status := P_NEW, po_update_ms := now_ms\<rparr>;
                v1 = emit_order_event po1 0 0 (-1) (v\<lparr>v_orders := dset oid po1 (v_orders v)\<rparr>)
            in (if immediate_only (po_request po1) then match_immediate c now_ms oid v1
                else if po_tif po1 \<notin> {''GTX'', ''RPI''} then match_immediate c now_ms oid v1
                else insert_into_local_queue oid v1, True))"

definition find_order :: "string \<Rightarrow> venue \<Rightarrow> paper_order option" where
  "find_order identifier v =
     (case dget (v_orders v) identifier of
        Some po \<Rightarrow> Some po
      | None \<Rightarrow> (case dget (v_exchange_to_client v) identifier of
          None \<Rightarrow> None | Some client_oid \<Rightarrow> if client_oid = [] then None else dget (v_orders v) client_oid))"

definition cancel_by_request :: "int \<Rightarrow> string \<Rightarrow> string \<Rightarrow> venue \<Rightarrow> venue \<times> bool" where
  "cancel_by_request now_ms symbol0 identifier v =
     (let symbol = upper symbol0 in
      case find_order identifier v of
        None \<Rightarrow> (v, False)
      | Some po \<Rightarrow>
          if symbol \<noteq> [] \<and> po_symbol po \<noteq> symbol then (v, False)
          else if po_status po = P_STAGED
          then (update_order (po_client_oid po)
                  (\<lambda>po. po\<lparr>po_pending_cancel_reason := ''PAPER_CANCEL_BEFORE_COMMIT'', po_update_ms := now_ms\<rparr>) v, True)
          else if \<not> po_active po then (v, False)
          else (cancel_paper_order now_ms (po_client_oid po) v, True))"

definition cancel_all_internal :: "int \<Rightarrow> string \<Rightarrow> venue \<Rightarrow> venue" where
  "cancel_all_internal now_ms symbol0 v =
     (let symbol = upper symbol0;
          v1 = v\<lparr>v_cancel_generations := dset symbol (dgetd (v_cancel_generations v) symbol 0 + 1) (v_cancel_generations v)\<rparr>;
          orders = sort_key po_accept_seq (map snd (v_orders v1))
      in fold (\<lambda>po v. if po_symbol po \<noteq> symbol then v else cancel_paper_order now_ms (po_client_oid po) v) orders v1)"

definition set_dms_internal :: "venue_config \<Rightarrow> rat \<Rightarrow> string \<Rightarrow> int \<Rightarrow> venue \<Rightarrow> venue res" where
  "set_dms_internal c now symbol countdown_ms v =
     (if symbol \<notin> set (vc_symbols c) then Inl (ValueError ''unknown paper DMS symbol'')
      else if countdown_ms < 0 then Inl (ValueError ''countdown_time_ms cannot be negative'')
      else Inr (if countdown_ms = 0 then v\<lparr>v_dms_deadlines := ddel symbol (v_dms_deadlines v)\<rparr>
                else v\<lparr>v_dms_deadlines := dset symbol (fl (now + fl (of_int countdown_ms / 1000))) (v_dms_deadlines v)\<rparr>))"

definition check_dms_deadlines :: "rat \<Rightarrow> int \<Rightarrow> venue \<Rightarrow> venue" where
  "check_dms_deadlines now now_ms v =
     fold (\<lambda>symbol v. cancel_all_internal now_ms symbol (v\<lparr>v_dms_deadlines := ddel symbol (v_dms_deadlines v)\<rparr>))
       (map fst (filter (\<lambda>(symbol, deadline). deadline \<le> now) (v_dms_deadlines v))) v"

definition rollback_abandoned_stage :: "string \<Rightarrow> venue \<Rightarrow> venue" where
  "rollback_abandoned_stage oid v =
     (case dget (v_orders v) oid of
        None \<Rightarrow> v
      | Some po \<Rightarrow>
          if po_status po \<noteq> P_STAGED \<or> po_committed po then v
          else v\<lparr>v_orders := ddel oid (v_orders v), v_exchange_to_client := ddel (po_exchange_oid po) (v_exchange_to_client v)\<rparr>)"

subsection \<open>Runs\<close>

datatype venue_op =
    Stage "paper_contract option" order_request string bool    \<comment> \<open>abandoned by its caller\<close>
  | Commit "paper_contract option" string string               \<comment> \<open>clock rejection, client id\<close>
  | Cancel string string
  | Cancel_all_orders string
  | Set_dms string int
  | Book string book_event
  | Market_trade agg_trade
  | Idle

definition dispatch_command :: "venue_config \<Rightarrow> rat \<Rightarrow> int \<Rightarrow> venue_op \<Rightarrow> venue \<Rightarrow> venue" where
  "dispatch_command c now now_ms x v = (case x of
      Stage info rq oid abandoned \<Rightarrow>
        (let v1 = fst (stage_order c info now_ms rq oid v) in if abandoned then rollback_abandoned_stage oid v1 else v1)
    | Commit info clock oid \<Rightarrow> fst (commit_staged_order c info clock now_ms oid v)
    | Cancel symbol identifier \<Rightarrow> fst (cancel_by_request now_ms symbol identifier v)
    | Cancel_all_orders symbol \<Rightarrow> cancel_all_internal now_ms symbol v
    | Set_dms symbol countdown_ms \<Rightarrow> (case set_dms_internal c now symbol countdown_ms v of Inl _ \<Rightarrow> v | Inr v' \<Rightarrow> v')
    | Book symbol book \<Rightarrow> on_book c symbol book v
    | Market_trade trade \<Rightarrow> fst (on_market_trade c now_ms trade v)
    | Idle \<Rightarrow> v)"

text \<open>One turn of the worker: the dead-man switch first, then the command. The check after a command is the one of the
  next turn, with \<open>Idle\<close> when the queue is empty. A message of a superseded book generation is \<open>Idle\<close>, and so are the commands that
  change none of this state (mark prices, queries, account messages); a shutdown is a sequence of \<open>Cancel_all_orders\<close>.\<close>

definition worker_step :: "venue_config \<Rightarrow> rat \<times> int \<times> venue_op \<Rightarrow> venue \<Rightarrow> venue" where
  "worker_step c turn v = (case turn of (now, now_ms, x) \<Rightarrow> dispatch_command c now now_ms x (check_dms_deadlines now now_ms v))"

definition venue_init :: "(string, rat) dict \<Rightarrow> venue" where
  "venue_init balances = \<lparr>v_orders = [], v_exchange_to_client = [], v_positions = [], v_books = [], v_liquidity = [],
     v_last_market_trade_id = [], v_balances = balances, v_trades = [], v_dms_deadlines = [], v_cancel_generations = [],
     v_accept_sequence = 0, v_exchange_sequence = 0, v_event_sequence = 0, v_paper_trade_sequence = 0, v_published = [], v_fills = []\<rparr>"

end
