(* ===== verification/Paper_Safety.thy ===== *)
theory Paper_Safety
  imports Paper_Venue
begin

text \<open>
  What holds of the paper venue in every reachable state. A property that is closed under the elementary changes of the venue
  (a fill, the end of a live order, the end or the activation of a staged one, staging, removal, a raised cancel generation)
  holds after every command: the locale \<open>venue_closed\<close> says so once, and is interpreted for the invariant of the ledger and for the cancel
  barrier.
\<close>

subsection \<open>What the queue operations leave alone\<close>

text \<open>An order without its place in the queue; the venue's orders by id, so reduced.\<close>

definition po_core :: "paper_order \<Rightarrow> paper_order" where
  "po_core po = po\<lparr>po_queue_ahead := 0, po_queue_inserted := False\<rparr>"

definition cores :: "venue \<Rightarrow> string \<Rightarrow> paper_order option" where
  "cores v k = map_option po_core (dget (v_orders v) k)"

definition requeued :: "venue \<Rightarrow> venue \<Rightarrow> bool" where
  "requeued v v' \<longleftrightarrow> cores v' = cores v \<and> dkeys (v_orders v') = dkeys (v_orders v) \<and> v'\<lparr>v_orders := []\<rparr> = v\<lparr>v_orders := []\<rparr>"

lemma requeued_refl [simp]: "requeued v v"
  by (simp add: requeued_def)

lemma requeued_trans: "requeued u v \<Longrightarrow> requeued v w \<Longrightarrow> requeued u w"
  by (simp add: requeued_def)

lemma po_core_simps [simp]:
  "po_client_oid (po_core po) = po_client_oid po" "po_exchange_oid (po_core po) = po_exchange_oid po" "po_request (po_core po) = po_request po"
  "po_accept_seq (po_core po) = po_accept_seq po" "po_status (po_core po) = po_status po" "po_committed (po_core po) = po_committed po"
  "po_cum_filled_qty (po_core po) = po_cum_filled_qty po" "po_remaining (po_core po) = po_remaining po" "po_active (po_core po) = po_active po"
  "po_cancel_generation_at_stage (po_core po) = po_cancel_generation_at_stage po"
  "po_pending_cancel_reason (po_core po) = po_pending_cancel_reason po"
  by (simp_all add: po_core_def po_remaining_def po_active_def)

lemma po_core_queue [simp]:
  "po_core (po\<lparr>po_queue_ahead := q\<rparr>) = po_core po" "po_core (po\<lparr>po_queue_inserted := b\<rparr>) = po_core po"
  by (simp_all add: po_core_def)

lemma requeued_each: "(\<And>po. po_core (f po) = po_core po) \<Longrightarrow> requeued v (each_order f v)"
  by (auto simp: requeued_def each_order_def cores_def map_of_map fun_eq_iff option.map_comp comp_def)

lemma dkeys_update: "dget d k \<noteq> None \<Longrightarrow> dkeys (dset k x d) = dkeys d"
  by (induction d) (auto split: if_splits)

lemma requeued_update: "(\<And>po. po_core (f po) = po_core po) \<Longrightarrow> requeued v (update_order oid f v)"
  by (auto simp: requeued_def update_order_def cores_def fun_eq_iff dkeys_update split: option.split)

lemma requeued_initial [simp]: "requeued v (set_initial_queue_ahead oid v)"
  by (simp add: set_initial_queue_ahead_def requeued_update Let_def split: option.split)

lemma requeued_insert [simp]: "requeued v (insert_into_local_queue oid v)"
  unfolding insert_into_local_queue_def
  by (auto split: option.split intro!: requeued_trans [OF _ requeued_each] requeued_trans [OF _ requeued_update])

lemma requeued_remove [simp]: "requeued v (remove_from_later_local_queue po q v)"
  unfolding remove_from_later_local_queue_def
  by (auto intro!: requeued_trans [OF _ requeued_update] requeued_each)

lemma requeued_cancel_ahead [simp]: "requeued v (apply_conservative_cancel_ahead c sy old new v)"
  unfolding apply_conservative_cancel_ahead_def by (rule requeued_each) (simp add: Let_def split: option.split)

subsection \<open>The invariant of the venue\<close>

text \<open>What a fill respects: the order is live, the fill is no larger than what is left of it, a taker keeps to the limit, a maker trades at it,
  a post-only order never takes, and a reduce-only order only takes from the position.\<close>

definition within_limit :: "order_request \<Rightarrow> rat \<Rightarrow> bool" where
  "within_limit rq price \<longleftrightarrow> rq_order_type rq = ''LIMIT'' \<longrightarrow>
     (if rq_side rq = ''BUY'' then price \<le> fl (rq_price rq + EPS12) else price \<ge> fl (rq_price rq - EPS12))"

definition fill_terms :: "order_request \<Rightarrow> rat \<Rightarrow> bool \<Rightarrow> bool" where
  "fill_terms rq price is_maker \<longleftrightarrow>
     (if is_maker then price = rq_price rq else within_limit rq price \<and> rq_time_in_force rq \<notin> {''GTX'', ''RPI''})"

definition fill_ok :: "fill_note \<Rightarrow> bool" where
  "fill_ok n \<longleftrightarrow>
     (let po = fn_order n; t = fn_trade n; q = pp_quantity (fn_position n) in
      representable q \<and> po_active po \<and> po_committed po \<and> pt_symbol t = po_symbol po \<and> pt_side t = po_side po \<and>
      EPS12 < pt_qty t \<and> pt_qty t \<le> po_remaining po \<and> fill_terms (po_request po) (pt_price t) (pt_maker t) \<and>
      pt_realized_pnl t = snd (apply_position_fill (pt_side t) (pt_qty t) (pt_price t) (fn_position n)) \<and>
      (rq_reduce_only (po_request po) \<longrightarrow>
         (if pt_side t = ''SELL'' then pt_qty t \<le> q else pt_side t = ''BUY'' \<and> pt_qty t \<le> - q)))"

text \<open>The ledger as the replay of the fills.\<close>

definition own_fills :: "int \<Rightarrow> fill_note list \<Rightarrow> rat list" where
  "own_fills accept_seq ns = map (pt_qty \<circ> fn_trade) (filter (\<lambda>n. po_accept_seq (fn_order n) = accept_seq) ns)"

definition replay_position :: "string \<Rightarrow> fill_note list \<Rightarrow> paper_position" where
  "replay_position symbol ns =
     foldl (\<lambda>p t. fst (apply_position_fill (pt_side t) (pt_qty t) (pt_price t) p)) no_position
       (filter (\<lambda>t. pt_symbol t = symbol) (map fn_trade ns))"

definition replay_balance :: "rat \<Rightarrow> string \<Rightarrow> fill_note list \<Rightarrow> rat" where
  "replay_balance initial asset ns =
     foldl (\<lambda>b t. fl (b + fl (pt_realized_pnl t - pt_commission t))) initial
       (filter (\<lambda>t. pt_commission_asset t = asset) (map fn_trade ns))"

definition order_ok :: "int \<Rightarrow> fill_note list \<Rightarrow> string \<Rightarrow> paper_order \<Rightarrow> bool" where
  "order_ok last_seq ns k po \<longleftrightarrow> po_client_oid po = k \<and> (po_status po = P_STAGED) = (\<not> po_committed po) \<and> po_accept_seq po \<le> last_seq \<and>
     request_upper (po_request po) = po_request po \<and> po_cum_filled_qty po = fsum (own_fills (po_accept_seq po) ns)"

definition seq_unique :: "(string \<Rightarrow> paper_order option) \<Rightarrow> bool" where
  "seq_unique m \<longleftrightarrow> (\<forall>k j po qo. m k = Some po \<longrightarrow> m j = Some qo \<longrightarrow> po_accept_seq po = po_accept_seq qo \<longrightarrow> k = j)"

definition orders_ok :: "venue \<Rightarrow> bool" where
  "orders_ok v \<longleftrightarrow> wf_dict (v_orders v) \<and> seq_unique (cores v) \<and>
     (\<forall>k po. cores v k = Some po \<longrightarrow> order_ok (v_accept_sequence v) (v_fills v) k po) \<and>
     (\<forall>n\<in>set (v_fills v). po_accept_seq (fn_order n) \<le> v_accept_sequence v)"

definition ledger_ok :: "(string, rat) dict \<Rightarrow> venue \<Rightarrow> bool" where
  "ledger_ok b0 v \<longleftrightarrow> (\<forall>n\<in>set (v_fills v). fill_ok n) \<and>
     (\<forall>symbol. paper_position_of symbol v = replay_position symbol (v_fills v)) \<and>
     (\<forall>asset. dgetd (v_balances v) asset 0 = replay_balance (dgetd b0 asset 0) asset (v_fills v))"

definition venue_inv :: "(string, rat) dict \<Rightarrow> venue \<Rightarrow> bool" where
  "venue_inv b0 v \<longleftrightarrow> orders_ok v \<and> ledger_ok b0 v"

lemma requeued_field: "requeued v v' \<Longrightarrow> (\<And>w os. f (w\<lparr>v_orders := os\<rparr>) = f w) \<Longrightarrow> f v' = f v"
  by (metis requeued_def)

lemma requeued_D:
  assumes "requeued v v'"
  shows "v_fills v' = v_fills v" "v_positions v' = v_positions v" "v_balances v' = v_balances v" "v_accept_sequence v' = v_accept_sequence v"
    "v_cancel_generations v' = v_cancel_generations v" "v_books v' = v_books v" "v_liquidity v' = v_liquidity v"
    "v_dms_deadlines v' = v_dms_deadlines v" "cores v' = cores v"
  by (rule requeued_field [OF assms], simp)+ (use assms in \<open>simp add: requeued_def\<close>)

text \<open>The fields the invariant reads.\<close>

definition footprint :: "venue \<Rightarrow> _" where
  "footprint v = (cores v, dkeys (v_orders v), v_fills v, v_positions v, v_balances v, v_accept_sequence v)"

lemma footprint_D:
  "footprint v' = footprint v \<Longrightarrow> cores v' = cores v \<and> dkeys (v_orders v') = dkeys (v_orders v) \<and> v_fills v' = v_fills v \<and>
     v_positions v' = v_positions v \<and> v_balances v' = v_balances v \<and> v_accept_sequence v' = v_accept_sequence v"
  by (simp add: footprint_def)

lemma inv_footprint: "footprint v' = footprint v \<Longrightarrow> venue_inv b0 v' = venue_inv b0 v"
  using footprint_D [of v' v] by (simp add: venue_inv_def orders_ok_def ledger_ok_def paper_position_of_def)

lemma footprint_requeued: "requeued v v' \<Longrightarrow> footprint v' = footprint v"
  using requeued_D [of v v'] by (simp add: footprint_def requeued_def)

lemma inv_requeued: "requeued v v' \<Longrightarrow> venue_inv b0 v' = venue_inv b0 v"
  by (rule inv_footprint) (rule footprint_requeued)

lemma footprint_simps [simp]:
  "footprint (emit_order_event po q p t v) = footprint v" "footprint (set_opposite_level po p q v) = footprint v"
  "footprint (v\<lparr>v_cancel_generations := x1\<rparr>) = footprint v" "footprint (v\<lparr>v_dms_deadlines := x2\<rparr>) = footprint v"
  "footprint (v\<lparr>v_books := x3\<rparr>) = footprint v" "footprint (v\<lparr>v_liquidity := x4\<rparr>) = footprint v"
  "footprint (v\<lparr>v_last_market_trade_id := x5\<rparr>) = footprint v" "footprint (v\<lparr>v_exchange_to_client := x6\<rparr>) = footprint v"
  "footprint (v\<lparr>v_exchange_sequence := x7\<rparr>) = footprint v"
  by (simp_all add: footprint_def emit_order_event_def set_opposite_level_def cores_def fun_eq_iff Let_def split: option.split prod.split)

lemma inv_fields [simp]:
  "venue_inv b0 (emit_order_event po q p t v) = venue_inv b0 v" "venue_inv b0 (set_opposite_level po p q v) = venue_inv b0 v"
  "venue_inv b0 (v\<lparr>v_cancel_generations := x1\<rparr>) = venue_inv b0 v" "venue_inv b0 (v\<lparr>v_dms_deadlines := x2\<rparr>) = venue_inv b0 v"
  "venue_inv b0 (v\<lparr>v_last_market_trade_id := x5\<rparr>) = venue_inv b0 v" "venue_inv b0 (v\<lparr>v_exchange_to_client := x6\<rparr>) = venue_inv b0 v"
  by (rule inv_footprint, simp)+

lemma cores_simps [simp]:
  "cores (emit_order_event po q p t v) = cores v" "cores (set_opposite_level po' p' q' v) = cores v"
  "cores (v\<lparr>v_orders := dset oid po (v_orders v)\<rparr>) = (cores v)(oid \<mapsto> po_core po)"
  "cores (v\<lparr>v_orders := ddel oid (v_orders v)\<rparr>) = (cores v)(oid := None)"
  by (auto simp: cores_def emit_order_event_def set_opposite_level_def fun_eq_iff Let_def split: option.split prod.split)

lemma coresI: "dget (v_orders v) k = Some po \<Longrightarrow> cores v k = Some (po_core po)"
  by (simp add: cores_def)

lemma cores_SomeD: "cores v k = Some po \<Longrightarrow> \<exists>qo. dget (v_orders v) k = Some qo \<and> po = po_core qo"
  by (auto simp: cores_def)

lemma seq_unique_update: "seq_unique m \<Longrightarrow> m k = Some po \<Longrightarrow> po_accept_seq po' = po_accept_seq po \<Longrightarrow> seq_unique (m(k \<mapsto> po'))"
  by (auto simp: seq_unique_def)

lemma seq_unique_delete: "seq_unique m \<Longrightarrow> seq_unique (m(k := None))"
  by (auto simp: seq_unique_def)

lemma seq_unique_insert: "seq_unique m \<Longrightarrow> (\<And>j qo. m j = Some qo \<Longrightarrow> po_accept_seq qo < po_accept_seq po) \<Longrightarrow> seq_unique (m(k \<mapsto> po))"
  by (fastforce simp: seq_unique_def)

text \<open>An entry replaced by one for the same order, and an entry removed.\<close>

lemma inv_replace:
  assumes "venue_inv b0 v" and "dget (v_orders v) oid = Some po" and "po_client_oid po' = po_client_oid po" "po_accept_seq po' = po_accept_seq po"
    "po_cum_filled_qty po' = po_cum_filled_qty po" "(po_status po' = P_STAGED) = (\<not> po_committed po')"
    "request_upper (po_request po') = po_request po'"
  shows "venue_inv b0 (v\<lparr>v_orders := dset oid po' (v_orders v)\<rparr>)"
proof -
  have c: "cores v oid = Some (po_core po)" using assms(2) by (rule coresI)
  then have ok: "order_ok (v_accept_sequence v) (v_fills v) oid (po_core po)" and u: "seq_unique (cores v)"
    using assms(1) by (simp_all add: venue_inv_def orders_ok_def)
  have "order_ok (v_accept_sequence v) (v_fills v) oid (po_core po')" using ok assms(3-7) by (simp add: order_ok_def)
  moreover have "seq_unique ((cores v)(oid \<mapsto> po_core po'))" using u c by (rule seq_unique_update) (simp add: assms(4))
  ultimately show ?thesis using assms(1) by (simp add: venue_inv_def orders_ok_def ledger_ok_def paper_position_of_def)
qed

lemma inv_remove: "venue_inv b0 v \<Longrightarrow> venue_inv b0 (v\<lparr>v_orders := ddel oid (v_orders v)\<rparr>)"
  by (simp add: venue_inv_def orders_ok_def ledger_ok_def paper_position_of_def seq_unique_delete)

lemma fsum_append [simp]: "fsum (xs @ [x]) = fl (fsum xs + x)"
  by (simp add: fsum_def)

lemma replay_append:
  "own_fills a (ns @ [n]) = own_fills a ns @ (if po_accept_seq (fn_order n) = a then [pt_qty (fn_trade n)] else [])"
  "replay_position sy (ns @ [n]) = (let t = fn_trade n in
     if pt_symbol t = sy then fst (apply_position_fill (pt_side t) (pt_qty t) (pt_price t) (replay_position sy ns)) else replay_position sy ns)"
  "replay_balance b asset (ns @ [n]) = (let t = fn_trade n in
     if pt_commission_asset t = asset then fl (replay_balance b asset ns + fl (pt_realized_pnl t - pt_commission t)) else replay_balance b asset ns)"
  by (simp_all add: own_fills_def replay_position_def replay_balance_def Let_def)

lemma filled_order_simps [simp]:
  "po_client_oid (filled_order ms q p po) = po_client_oid po" "po_accept_seq (filled_order ms q p po) = po_accept_seq po"
  "po_committed (filled_order ms q p po) = po_committed po" "po_request (filled_order ms q p po) = po_request po"
  "po_cum_filled_qty (filled_order ms q p po) = fl (po_cum_filled_qty po + q)" "po_status (filled_order ms q p po) \<in> {P_FILLED, P_PARTIALLY_FILLED}"
  by (simp_all add: filled_order_def Let_def)

lemma EPS_pos [simp]: "0 < EPS12" "0 < EPS9"
  by (simp_all add: EPS12_def EPS9_def fl_pos)

lemma cap_reduces:
  assumes "rq_reduce_only (po_request po)" and "EPS12 < q" and "q \<le> reduce_only_fill_cap po v"
  shows "if po_side po = ''SELL'' then q \<le> pp_quantity (paper_position_of (po_symbol po) v)
    else po_side po = ''BUY'' \<and> q \<le> - pp_quantity (paper_position_of (po_symbol po) v)"
proof -
  have "reduce_only_fill_cap po v \<noteq> 0" using assms(2,3) EPS_pos(1) by linarith
  moreover have "x < - EPS12 \<Longrightarrow> x < 0" for x using EPS_pos(1) by linarith
  ultimately show ?thesis using assms(1,3) by (auto simp: reduce_only_fill_cap_def Let_def abs_of_neg split: if_splits)
qed

lemma fill_representable: "representable (pp_quantity (fst (apply_position_fill side q price p)))"
  by (auto simp: apply_position_fill_def no_position_def Let_def)

lemma replay_representable: "representable (pp_quantity (replay_position sy ns))"
proof (induction ns rule: rev_induct)
  case Nil
  then show ?case by (simp add: replay_position_def no_position_def)
qed (simp add: replay_append Let_def fill_representable)

text \<open>The quantity a fill takes.\<close>

definition fill_size :: "paper_order \<Rightarrow> rat \<Rightarrow> venue \<Rightarrow> rat" where
  "fill_size po q v = min (min q (po_remaining po)) (reduce_only_fill_cap po v)"

lemma apply_fill_cases:
  assumes "dget (v_orders v) oid = Some po"
  obtains "apply_paper_fill c ms oid q price mk v = v"
  | t p trades where "apply_paper_fill c ms oid q price mk v = emit_order_event (filled_order ms (fill_size po q v) price po) (fill_size po q v) price (pt_id t)
        (v\<lparr>v_positions := dset (po_symbol po) p (v_positions v),
           v_balances := dset (pt_commission_asset t) (fl (dgetd (v_balances v) (pt_commission_asset t) 0 + fl (pt_realized_pnl t - pt_commission t))) (v_balances v),
           v_orders := dset oid (filled_order ms (fill_size po q v) price po) (v_orders v), v_paper_trade_sequence := pt_id t, v_trades := trades,
           v_fills := v_fills v @ [\<lparr>fn_order = po, fn_position = paper_position_of (po_symbol po) v, fn_trade = t\<rparr>]\<rparr>)"
      "EPS12 < fill_size po q v" "pt_symbol t = po_symbol po" "pt_side t = po_side po" "pt_qty t = fill_size po q v" "pt_price t = price" "pt_maker t = mk"
      "(p, pt_realized_pnl t) = apply_position_fill (po_side po) (fill_size po q v) price (paper_position_of (po_symbol po) v)"
proof (cases "fill_size po q v \<le> EPS12")
  case True
  then show ?thesis using assms that(1) by (simp add: apply_paper_fill_def fill_size_def Let_def)
next
  case False
  define ap where "ap = apply_position_fill (po_side po) (fill_size po q v) price (paper_position_of (po_symbol po) v)"
  define t where "t = \<lparr>pt_id = v_paper_trade_sequence v + 1, pt_symbol = po_symbol po, pt_exchange_oid = po_exchange_oid po, pt_side = po_side po,
      pt_price = price, pt_qty = fill_size po q v, pt_realized_pnl = snd ap, pt_commission = fl (fl (fill_size po q v * price) * fee_rate c po mk),
      pt_commission_asset = quote_asset (po_symbol po), pt_maker = mk\<rparr>"
  have "apply_paper_fill c ms oid q price mk v = emit_order_event (filled_order ms (fill_size po q v) price po) (fill_size po q v) price (pt_id t)
        (v\<lparr>v_positions := dset (po_symbol po) (fst ap) (v_positions v),
           v_balances := dset (pt_commission_asset t) (fl (dgetd (v_balances v) (pt_commission_asset t) 0 + fl (pt_realized_pnl t - pt_commission t))) (v_balances v),
           v_orders := dset oid (filled_order ms (fill_size po q v) price po) (v_orders v), v_paper_trade_sequence := pt_id t,
           v_trades := bounded_append (vc_max_trade_history c) t (v_trades v),
           v_fills := v_fills v @ [\<lparr>fn_order = po, fn_position = paper_position_of (po_symbol po) v, fn_trade = t\<rparr>]\<rparr>)"
    using assms False unfolding apply_paper_fill_def fill_size_def [symmetric] Let_def
    by (simp add: t_def ap_def case_prod_unfold)
  then show ?thesis by (rule that(2)) (use False in \<open>simp_all add: t_def ap_def\<close>)
qed

lemma inv_apply_fill:
  assumes inv: "venue_inv b0 v" and oid: "dget (v_orders v) oid = Some po" and "po_active po" "po_committed po"
    and "fill_terms (po_request po) price mk"
  shows "venue_inv b0 (apply_paper_fill c ms oid q price mk v)"
  using oid
proof (cases rule: apply_fill_cases [of v oid po c ms q price mk])
  case (2 t p trades)
  let ?n = "\<lparr>fn_order = po, fn_position = paper_position_of (po_symbol po) v, fn_trade = t\<rparr>"
  let ?po = "filled_order ms (fill_size po q v) price po"
  have c: "cores v oid = Some (po_core po)" using oid by (rule coresI)
  then have ok: "order_ok (v_accept_sequence v) (v_fills v) oid (po_core po)" and u: "seq_unique (cores v)"
    using inv by (simp_all add: venue_inv_def orders_ok_def)
  have others: "order_ok (v_accept_sequence v) (v_fills v @ [?n]) k qo" if "cores v k = Some qo" "k \<noteq> oid" for k qo
  proof -
    have "po_accept_seq qo \<noteq> po_accept_seq po" using u c that by (fastforce simp: seq_unique_def)
    then show ?thesis using inv that(1) by (simp add: venue_inv_def orders_ok_def order_ok_def replay_append)
  qed
  have own: "order_ok (v_accept_sequence v) (v_fills v @ [?n]) oid (po_core ?po)"
    using ok 2(5) filled_order_simps(6) [of ms "fill_size po q v" price po] assms(4) by (auto simp: order_ok_def replay_append)
  have "seq_unique ((cores v)(oid \<mapsto> po_core ?po))" using u c by (rule seq_unique_update) simp
  moreover have "fill_ok ?n"
    using replay_representable [of "po_symbol po" "v_fills v"] inv [unfolded venue_inv_def ledger_ok_def] 2(2-8) assms(3-5) cap_reduces [of po "fill_size po q v" v]
    by (auto simp: fill_ok_def Let_def fill_size_def dest: arg_cong [of _ _ snd])
  ultimately have facts: "seq_unique ((cores v)(oid \<mapsto> po_core ?po))" "fill_ok ?n" by simp_all
  define w where "w = v\<lparr>v_positions := dset (po_symbol po) p (v_positions v),
           v_balances := dset (pt_commission_asset t) (fl (dgetd (v_balances v) (pt_commission_asset t) 0 + fl (pt_realized_pnl t - pt_commission t))) (v_balances v),
           v_orders := dset oid ?po (v_orders v), v_paper_trade_sequence := pt_id t, v_trades := trades, v_fills := v_fills v @ [?n]\<rparr>"
  have "cores w = (cores v)(oid \<mapsto> po_core ?po)" by (auto simp: cores_def fun_eq_iff w_def)
  then have "orders_ok w"
    using inv facts(1) own others ok unfolding orders_ok_def venue_inv_def by (auto simp: order_ok_def w_def)
  moreover have "ledger_ok b0 w"
  proof -
    have p: "p = fst (apply_position_fill (po_side po) (fill_size po q v) price (paper_position_of (po_symbol po) v))"
      using arg_cong [OF 2(8), of fst] by simp
    have "paper_position_of sy w = (if sy = po_symbol po then p else paper_position_of sy v)" for sy
      by (simp add: paper_position_of_def w_def)
    then show ?thesis using inv facts(2) 2(3-6)
      by (simp add: ledger_ok_def venue_inv_def w_def replay_append Let_def p)
  qed
  ultimately have "venue_inv b0 w" by (simp add: venue_inv_def)
  then show ?thesis unfolding 2(1) w_def [symmetric] by simp
qed (use inv in simp)

subsection \<open>Elementary changes\<close>

definition same_order :: "paper_order \<Rightarrow> paper_order \<Rightarrow> bool" where
  "same_order po' po \<longleftrightarrow> po_client_oid po' = po_client_oid po \<and> po_accept_seq po' = po_accept_seq po \<and>
     po_cum_filled_qty po' = po_cum_filled_qty po \<and> po_request po' = po_request po \<and>
     po_cancel_generation_at_stage po' = po_cancel_generation_at_stage po"

definition generation_of :: "string \<Rightarrow> venue \<Rightarrow> int" where
  "generation_of symbol v = dgetd (v_cancel_generations v) symbol 0"

definition past_barrier :: "venue \<Rightarrow> paper_order \<Rightarrow> bool" where
  "past_barrier v po \<longleftrightarrow> generation_of (po_symbol po) v \<noteq> po_cancel_generation_at_stage po"

definition fresh_order :: "venue \<Rightarrow> string \<Rightarrow> paper_order \<Rightarrow> bool" where
  "fresh_order v oid po \<longleftrightarrow> dget (v_orders v) oid = None \<and> po_accept_seq po = v_accept_sequence v + 1 \<and> po_client_oid po = oid \<and>
     po_status po = P_STAGED \<and> \<not> po_committed po \<and> po_cum_filled_qty po = 0 \<and> request_upper (po_request po) = po_request po \<and>
     po_cancel_generation_at_stage po = generation_of (po_symbol po) v"

definition view :: "venue \<Rightarrow> _" where
  "view v = (footprint v, v_cancel_generations v)"

lemma view_requeued: "requeued v v' \<Longrightarrow> view v' = view v"
  using footprint_requeued [of v v'] requeued_D(5) [of v v'] by (simp add: view_def)

lemma view_simps [simp]:
  "view (emit_order_event po q p t v) = view v" "view (set_opposite_level po p q v) = view v"
  "view (v\<lparr>v_dms_deadlines := x2\<rparr>) = view v" "view (v\<lparr>v_books := x3, v_liquidity := x4\<rparr>) = view v"
  "view (v\<lparr>v_last_market_trade_id := x5\<rparr>) = view v" "view (v\<lparr>v_exchange_to_client := x6\<rparr>) = view v"
  "view (v\<lparr>v_exchange_sequence := x7\<rparr>) = view v"
  by (simp_all add: view_def) (simp_all add: footprint_def emit_order_event_def set_opposite_level_def cores_def fun_eq_iff Let_def
      split: option.split prod.split)

lemma inv_add:
  assumes inv: "venue_inv b0 v" and po: "fresh_order v oid po"
  shows "venue_inv b0 (v\<lparr>v_accept_sequence := v_accept_sequence v + 1, v_orders := dset oid po (v_orders v)\<rparr>)"
proof -
  let ?w = "v\<lparr>v_accept_sequence := v_accept_sequence v + 1, v_orders := dset oid po (v_orders v)\<rparr>"
  have old: "order_ok (v_accept_sequence v) (v_fills v) k qo" if "cores v k = Some qo" for k qo
    using inv that by (simp add: venue_inv_def orders_ok_def)
  have c: "cores ?w = (cores v)(oid \<mapsto> po_core po)" by (auto simp: cores_def fun_eq_iff)
  have "own_fills (v_accept_sequence v + 1) (v_fills v) = []"
    using inv by (auto simp: own_fills_def venue_inv_def orders_ok_def filter_empty_conv)
  then have new: "order_ok (v_accept_sequence v + 1) (v_fills v) oid (po_core po)" using po by (simp add: order_ok_def fsum_def fresh_order_def)
  have "order_ok (v_accept_sequence v + 1) (v_fills v) k qo" if "cores v k = Some qo" for k qo
    using old [OF that] by (simp add: order_ok_def)
  with new have "\<forall>k qo. ((cores v)(oid \<mapsto> po_core po)) k = Some qo \<longrightarrow> order_ok (v_accept_sequence v + 1) (v_fills v) k qo"
    by simp
  moreover have "seq_unique ((cores v)(oid \<mapsto> po_core po))"
    using inv old po by (intro seq_unique_insert) (force simp: venue_inv_def orders_ok_def order_ok_def fresh_order_def)+
  moreover have "\<forall>n\<in>set (v_fills v). po_accept_seq (fn_order n) \<le> v_accept_sequence v + 1" "wf_dict (v_orders v)"
    using inv by (auto simp: venue_inv_def orders_ok_def)
  ultimately have "orders_ok ?w" unfolding orders_ok_def c by simp
  then show ?thesis using inv by (simp add: venue_inv_def ledger_ok_def paper_position_of_def)
qed

lemma inv_same:
  assumes "venue_inv b0 v" and "dget (v_orders v) oid = Some po" and "same_order po' po" and "(po_status po' = P_STAGED) = (\<not> po_committed po')"
  shows "venue_inv b0 (v\<lparr>v_orders := dset oid po' (v_orders v)\<rparr>)"
proof -
  have "order_ok (v_accept_sequence v) (v_fills v) oid (po_core po)" using assms(1) coresI [OF assms(2)] by (simp add: venue_inv_def orders_ok_def)
  then show ?thesis using assms(3,4) by (intro inv_replace [OF assms(1,2)]) (simp_all add: same_order_def order_ok_def)
qed

subsection \<open>What a step does to the other orders\<close>

lemma apply_fill_others: "k \<noteq> oid \<Longrightarrow> cores (apply_paper_fill c ms oid q price mk v) k = cores v k"
  by (auto simp: apply_paper_fill_def cores_def emit_order_event_def Let_def case_prod_unfold split: option.split)

lemma v_orders_frame [simp]: "v_orders (set_opposite_level po price q v) = v_orders v" "v_orders (emit_order_event po q price t v) = v_orders v"
  by (auto simp: set_opposite_level_def emit_order_event_def Let_def split: option.split)

lemma apply_fill_own:
  assumes "dget (v_orders v) oid = Some po"
  shows "\<exists>qo. dget (v_orders (apply_paper_fill c ms oid q price mk v)) oid = Some qo \<and> po_request qo = po_request po \<and> po_committed qo = po_committed po"
  using assms by (cases rule: apply_fill_cases [of v oid po c ms q price mk]) (simp_all add: assms)

lemma end_order_cases:
  assumes "dget (v_orders v) oid = Some po"
  obtains "end_order st ms oid v = v" "\<not> po_active po"
  | w where "requeued (v\<lparr>v_orders := dset oid (po\<lparr>po_status := st, po_update_ms := ms\<rparr>) (v_orders v)\<rparr>) w" "po_active po"
      "end_order st ms oid v = emit_order_event (po\<lparr>po_status := st, po_update_ms := ms\<rparr>) 0 0 (-1) w"
  using assms that requeued_remove by (cases "po_active po") (fastforce simp: end_order_def Let_def)+

lemma end_order_others:
  assumes "k \<noteq> oid"
  shows "cores (end_order st ms oid v) k = cores v k"
proof (cases "dget (v_orders v) oid")
  case (Some po)
  then show ?thesis by (cases rule: end_order_cases [of v oid po st ms]) (use assms in \<open>auto simp: requeued_D(9)\<close>)
qed (simp add: end_order_def)

lemma trade_against_others: "k \<noteq> oid \<Longrightarrow> cores (trade_against c ms t oid v) k = cores v k"
  using apply_fill_others [of k oid] end_order_others [of k oid] requeued_D(9) [OF requeued_update]
  by (simp add: trade_against_def expire_order_def Let_def split: option.split)

lemma eligible_within: "price \<in> set (eligible_prices c po v) \<Longrightarrow> within_limit (po_request po) price"
  by (auto simp: eligible_prices_def price_is_executable_def within_limit_def Let_def split: if_splits)

lemma distinct_chosen: "distinct (map f xs) \<Longrightarrow> distinct (map f (sort_key g (filter P xs)))"
  by (auto simp: distinct_map inj_on_def)

text \<open>The candidates of a trade are live when chosen, and a fill of one leaves the others live.\<close>

definition live_in :: "venue \<Rightarrow> string \<Rightarrow> bool" where
  "live_in v oid \<longleftrightarrow> (\<exists>po. cores v oid = Some po \<and> po_active po \<and> po_committed po)"

lemma keyed: "venue_inv b0 v \<Longrightarrow> dget (v_orders v) k = Some po \<Longrightarrow> po_client_oid po = k"
  using coresI [of v k po] unfolding venue_inv_def orders_ok_def order_ok_def by (metis po_core_simps(1))

lemma keyed_list:
  assumes "venue_inv b0 v"
  shows "map po_client_oid (map snd (v_orders v)) = dkeys (v_orders v)"
    and "po \<in> snd ` set (v_orders v) \<Longrightarrow> dget (v_orders v) (po_client_oid po) = Some po"
proof -
  have wf: "wf_dict (v_orders v)" using assms by (simp add: venue_inv_def orders_ok_def)
  have "po_client_oid qo = k" if "(k, qo) \<in> set (v_orders v)" for k qo using keyed [OF assms map_of_is_SomeI [OF wf that]] .
  then show "map po_client_oid (map snd (v_orders v)) = dkeys (v_orders v)"
    "po \<in> snd ` set (v_orders v) \<Longrightarrow> dget (v_orders v) (po_client_oid po) = Some po"
    using map_of_is_SomeI [OF wf] by fastforce+
qed

lemma str_or_Nil: "str_or a b = [] \<longleftrightarrow> a = [] \<and> b = []"
  by (simp add: str_or_def)

lemma admitted_form:
  assumes "request_form_rejection c rq = []" and "rq_order_type rq = ''MARKET''"
  shows "rq_time_in_force rq \<in> {''GTC'', ''IOC'', ''FOK''}"
proof (rule ccontr)
  assume "rq_time_in_force rq \<notin> {''GTC'', ''IOC'', ''FOK''}"
  then have "request_form_rejection c rq \<noteq> []" using assms(2) unfolding request_form_rejection_def by (simp only: if_split) simp
  then show False using assms(1) by simp
qed

lemma admitted_tif:
  assumes "validate_request c info rq v = []" and "immediate_only rq \<or> rq_time_in_force rq \<notin> {''GTX'', ''RPI''}"
  shows "rq_time_in_force rq \<notin> {''GTX'', ''RPI''}"
proof -
  have "request_form_rejection c rq = []" using assms(1) by (simp add: validate_request_def str_or_Nil)
  then show ?thesis using assms(2) admitted_form [of c rq] by (auto simp: immediate_only_def)
qed

lemma request_upper_idem [simp]: "request_upper (request_upper rq) = request_upper rq"
  by (simp add: request_upper_def str_or_def)

lemma new_order_fresh: "dget (v_orders v) oid = None \<Longrightarrow> fresh_order v oid (new_paper_order ms (request_upper rq) oid v)"
  by (simp add: new_paper_order_def fresh_order_def generation_of_def)

subsection \<open>Properties closed under the elementary changes\<close>

locale venue_closed =
  fixes b0 :: "(string, rat) dict" and P :: "venue \<Rightarrow> bool"
  assumes P_inv: "P v \<Longrightarrow> venue_inv b0 v"
    and P_view: "P v \<Longrightarrow> view v' = view v \<Longrightarrow> P v'"
    and P_fill: "P v \<Longrightarrow> dget (v_orders v) oid = Some po \<Longrightarrow> po_active po \<Longrightarrow> po_committed po \<Longrightarrow> fill_terms (po_request po) price mk \<Longrightarrow>
      P (apply_paper_fill c ms oid q price mk v)"
    and P_end: "P v \<Longrightarrow> dget (v_orders v) oid = Some po \<Longrightarrow> po_active po \<Longrightarrow> same_order po' po \<Longrightarrow> po_committed po' \<Longrightarrow>
      po_status po' \<noteq> P_STAGED \<Longrightarrow> P (v\<lparr>v_orders := dset oid po' (v_orders v)\<rparr>)"
    and P_settle: "P v \<Longrightarrow> dget (v_orders v) oid = Some po \<Longrightarrow> po_status po = P_STAGED \<Longrightarrow> same_order po' po \<Longrightarrow> po_committed po' \<Longrightarrow>
      po_status po' \<noteq> P_STAGED \<Longrightarrow> po_status po' = P_CANCELED \<or> \<not> past_barrier v po \<Longrightarrow> P (v\<lparr>v_orders := dset oid po' (v_orders v)\<rparr>)"
    and P_touch: "P v \<Longrightarrow> dget (v_orders v) oid = Some po \<Longrightarrow> po_status po = P_STAGED \<Longrightarrow> same_order po' po \<Longrightarrow>
      po_status po' = P_STAGED \<Longrightarrow> \<not> po_committed po' \<Longrightarrow> P (v\<lparr>v_orders := dset oid po' (v_orders v)\<rparr>)"
    and P_add: "P v \<Longrightarrow> fresh_order v oid po \<Longrightarrow>
      P (v\<lparr>v_accept_sequence := v_accept_sequence v + 1, v_orders := dset oid po (v_orders v)\<rparr>)"
    and P_remove: "P v \<Longrightarrow> P (v\<lparr>v_orders := ddel oid (v_orders v)\<rparr>)"
    and P_bump: "P v \<Longrightarrow> P (v\<lparr>v_cancel_generations := dset sy (generation_of sy v + 1) (v_cancel_generations v)\<rparr>)"
begin

lemma P_requeued: "P v \<Longrightarrow> requeued v v' \<Longrightarrow> P v'"
  using P_view view_requeued by blast

lemma P_emit: "P v \<Longrightarrow> P (emit_order_event po q p t v)"
  by (erule P_view) simp

lemma P_insert: "P v \<Longrightarrow> P (insert_into_local_queue oid v)"
  by (erule P_requeued) simp

lemma stored:
  assumes "P v" and "dget (v_orders v) k = Some po"
  shows "po_client_oid po = k" "(po_status po = P_STAGED) = (\<not> po_committed po)" "request_upper (po_request po) = po_request po"
proof -
  have "order_ok (v_accept_sequence v) (v_fills v) k (po_core po)"
    using P_inv [OF assms(1)] coresI [OF assms(2)] by (simp add: venue_inv_def orders_ok_def)
  then show "po_client_oid po = k" "(po_status po = P_STAGED) = (\<not> po_committed po)" "request_upper (po_request po) = po_request po"
    by (simp_all add: order_ok_def)
qed

lemma P_end_order:
  assumes "P v" and "st \<noteq> P_STAGED"
  shows "P (end_order st ms oid v)"
proof (cases "dget (v_orders v) oid")
  case (Some po)
  then show ?thesis
  proof (cases rule: end_order_cases [of v oid po st ms])
    case (2 w)
    have "po_committed po" using stored(2) [OF assms(1) Some] 2(2) by (auto simp: po_active_def ACTIVE_ORDER_STATUSES_def)
    then have "P (v\<lparr>v_orders := dset oid (po\<lparr>po_status := st, po_update_ms := ms\<rparr>) (v_orders v)\<rparr>)"
      using assms(2) by (intro P_end [OF assms(1) Some 2(2)]) (simp_all add: same_order_def)
    then have "P w" using P_requeued 2(1) by blast
    then show ?thesis unfolding 2(3) by (rule P_emit)
  qed (use assms in simp)
qed (use assms in \<open>simp add: end_order_def\<close>)

lemma P_match_levels:
  assumes "P v" and "dget (v_orders v) oid = Some po" and "po_committed po"
    and "\<forall>price\<in>set prices. within_limit (po_request po) price" and "po_tif po \<notin> {''GTX'', ''RPI''}"
  shows "P (match_levels c ms oid prices v)"
  using assms
proof (induction prices arbitrary: v po)
  case (Cons price prices)
  have terms: "fill_terms (po_request po) price False" using Cons.prems by (auto simp: fill_terms_def)
  show ?case
  proof (cases "\<not> po_active po \<or> po_remaining po \<le> EPS12 \<or> max 0 (dgetd (opposite_levels po v) price 0) \<le> EPS12")
    case True
    then show ?thesis using Cons.IH [OF Cons.prems(1-3)] Cons.prems by (auto simp: Let_def)
  next
    case False
    define available quantity where "available = max 0 (dgetd (opposite_levels po v) price 0)"
      and "quantity = min (min (po_remaining po) available) (reduce_only_fill_cap po v)"
    define w where "w = set_opposite_level po price (max 0 (fl (available - quantity))) v"
    have w: "dget (v_orders w) oid = Some po" "P w" using Cons.prems(1,2) P_view [of v w] by (simp_all add: w_def)
    have "P (apply_paper_fill c ms oid quantity price False w)"
      using False Cons.prems(3) terms by (intro P_fill [OF w(2,1)]) auto
    moreover obtain qo where "dget (v_orders (apply_paper_fill c ms oid quantity price False w)) oid = Some qo" "po_request qo = po_request po"
      "po_committed qo = po_committed po" using apply_fill_own [OF w(1)] by blast
    ultimately have "P (match_levels c ms oid prices (apply_paper_fill c ms oid quantity price False w))"
      using Cons.IH Cons.prems by auto
    then show ?thesis using Cons.prems(1,2) False by (auto simp: Let_def available_def quantity_def w_def)
  qed
qed simp

lemma P_match_immediate:
  assumes "P v" and "dget (v_orders v) oid = Some po" and "po_tif po \<notin> {''GTX'', ''RPI''}"
  shows "P (match_immediate c ms oid v)"
proof (cases "po_committed po")
  case True
  have "P (match_levels c ms oid (eligible_prices c po v) v)"
    using eligible_within by (intro P_match_levels [OF assms(1,2) True _ assms(3)]) blast
  moreover have "P (settle_remainder ms oid w)" if "P w" for w
    using that by (auto simp: settle_remainder_def expire_order_def P_end_order P_insert split: option.split)
  ultimately show ?thesis using assms(1,2) by (auto simp: match_immediate_def expire_order_def P_end_order P_insert)
qed (use assms in \<open>simp add: match_immediate_def\<close>)

lemma P_trade_against:
  assumes "P v" and "dget (v_orders v) oid = Some po" and "po_active po" "po_committed po"
  shows "P (trade_against c ms t oid v)"
proof -
  let ?w = "\<lambda>q. update_order oid (\<lambda>po. po\<lparr>po_queue_ahead := q\<rparr>) v"
  have queue: "P (?w q)" for q using assms(1) by (rule P_requeued) (simp add: requeued_update)
  have terms: "fill_terms (po_request po) (rq_price (po_request po)) True" by (simp add: fill_terms_def)
  have w: "dget (v_orders (?w q)) oid = Some (po\<lparr>po_queue_ahead := q\<rparr>)" for q using assms(2) by (simp add: update_order_def)
  have "P (apply_paper_fill c ms oid x (rq_price (po_request po)) True (?w q))" for x q
    using assms(3,4) terms by (intro P_fill [OF queue w]) (simp_all add: po_active_def)
  moreover have "P (apply_paper_fill c ms oid x (rq_price (po_request po)) True v)" for x
    using assms terms by (intro P_fill [OF assms(1,2)])
  ultimately show ?thesis
    using assms(1,2) by (auto simp: trade_against_def expire_order_def P_end_order queue Let_def)
qed

lemma P_trade_fold:
  assumes "P v" and "distinct oids" and "\<forall>oid\<in>set oids. live_in v oid"
  shows "P (fold (trade_against c ms t) oids v)"
  using assms
proof (induction oids arbitrary: v)
  case (Cons oid oids)
  obtain po where po: "dget (v_orders v) oid = Some po" "po_active po" "po_committed po"
    using Cons.prems(3) cores_SomeD by (fastforce simp: live_in_def)
  have "\<forall>k\<in>set oids. live_in (trade_against c ms t oid v) k"
  proof
    fix k assume "k \<in> set oids"
    moreover from this have "k \<noteq> oid" using Cons.prems(2) by auto
    ultimately show "live_in (trade_against c ms t oid v) k"
      using Cons.prems(3) trade_against_others [of k oid c ms t v] by (simp add: live_in_def)
  qed
  then show ?case using Cons.IH [OF P_trade_against [OF Cons.prems(1) po]] Cons.prems(2) by simp
qed simp

lemma P_market_trade:
  assumes "P v"
  shows "P (fst (on_market_trade c ms t v))"
proof -
  define v1 where "v1 = (if at_trade_id t \<ge> 0
    then v\<lparr>v_last_market_trade_id := dset (at_symbol t) (at_trade_id t) (v_last_market_trade_id v)\<rparr> else v)"
  have v1: "P v1" using assms P_view [of v v1] by (simp add: v1_def)
  note inv = P_inv [OF v1]
  have "distinct (map po_client_oid (map snd (v_orders v1)))"
    unfolding keyed_list(1) [OF inv] using inv by (simp add: venue_inv_def orders_ok_def)
  then have "distinct (map po_client_oid (trade_candidates t v1))"
    unfolding trade_candidates_def Let_def by (rule distinct_chosen)
  moreover have "\<forall>oid\<in>set (map po_client_oid (trade_candidates t v1)). live_in v1 oid"
    using keyed_list(2) [OF inv] coresI by (fastforce simp: trade_candidates_def live_in_def Let_def)
  ultimately have "P (fold (trade_against c ms t) (map po_client_oid (trade_candidates t v1)) v1)" by (rule P_trade_fold [OF v1])
  then show ?thesis using assms by (simp add: on_market_trade_def v1_def [symmetric] Let_def)
qed

lemma P_removed: "P v \<Longrightarrow> P (v\<lparr>v_orders := ddel oid (v_orders v), v_exchange_to_client := x\<rparr>)"
  by (rule P_view [OF P_remove [of v oid]]) (simp_all add: view_def footprint_def cores_def fun_eq_iff)

lemma P_prune:
  assumes "P v"
  shows "P (prune_terminal_orders c v)"
proof -
  have each: "P (fold (\<lambda>po v. v\<lparr>v_orders := ddel (po_client_oid po) (v_orders v),
      v_exchange_to_client := ddel (po_exchange_oid po) (v_exchange_to_client v)\<rparr>) pos w)" if "P w" for pos w
    using that by (induction pos arbitrary: w) (simp_all add: P_removed)
  show ?thesis unfolding prune_terminal_orders_def Let_def using assms by (simp only: if_split) (blast intro: each)
qed

lemma P_stage:
  assumes "P v"
  shows "P (fst (stage_order c info ms rq oid v))"
proof -
  have "P (v\<lparr>v_accept_sequence := v_accept_sequence v + 1, v_exchange_sequence := x, v_orders := dset oid po (v_orders v), v_exchange_to_client := y\<rparr>)"
    if "fresh_order v oid po" for po x y
    by (rule P_view [OF P_add [OF assms that]]) (simp add: view_def footprint_def cores_def fun_eq_iff)
  moreover have "fresh_order v oid (new_paper_order ms (request_upper rq) oid v)" if "dget (v_orders v) oid = None"
    using that by (rule new_order_fresh)
  ultimately show ?thesis using assms by (auto simp: stage_order_def Let_def P_prune split: option.split)
qed

lemma P_end_staged:
  assumes "P v" and "dget (v_orders v) oid = Some po" and "po_status po = P_STAGED" and "st = P_CANCELED \<or> st = P_REJECTED \<and> \<not> past_barrier v po"
  shows "P (end_staged_order st why ms oid v)"
proof -
  have "P (v\<lparr>v_orders := dset oid po' (v_orders v)\<rparr>)" if "same_order po' po" "po_committed po'" "po_status po' = st" for po'
    using that assms(4) by (intro P_settle [OF assms(1-3)]) auto
  then show ?thesis using assms(2) by (auto simp: end_staged_order_def same_order_def Let_def intro!: P_emit)
qed

lemma P_commit:
  assumes "P v"
  shows "P (fst (commit_staged_order c info clock ms oid v))"
proof (cases "dget (v_orders v) oid")
  case (Some po)
  have upper: "request_upper (po_request po) = po_request po" using stored(3) [OF assms Some] .
  have "update_order oid (\<lambda>po. po\<lparr>po_request := request_upper (po_request po)\<rparr>) v = v"
    using Some upper by (simp add: update_order_def update_triv)
  show ?thesis
  proof (cases "po_status po = P_STAGED \<and> \<not> past_barrier v po \<and> po_pending_cancel_reason po = []")
    case True
    define po1 where "po1 = po\<lparr>po_committed := True, po_status := P_NEW, po_update_ms := ms\<rparr>"
    define v1 where "v1 = emit_order_event po1 0 0 (-1) (v\<lparr>v_orders := dset oid po1 (v_orders v)\<rparr>)"
    have "P (v\<lparr>v_orders := dset oid po1 (v_orders v)\<rparr>)"
      using True by (intro P_settle [OF assms Some]) (simp_all add: po1_def same_order_def)
    then have v1: "P v1" "dget (v_orders v1) oid = Some po1" by (simp_all add: v1_def P_emit)
    have "P (match_immediate c ms oid v1)"
      if "validate_request c info (po_request po) v = []" "immediate_only (po_request po) \<or> po_tif po \<notin> {''GTX'', ''RPI''}"
      using P_match_immediate [OF v1] admitted_tif [OF that] by (simp add: po1_def)
    then show ?thesis using assms True Some P_insert [OF v1(1)] P_end_staged [OF assms Some] \<open>update_order _ _ v = v\<close>
      unfolding commit_staged_order_def Some option.case Let_def upper v1_def po1_def
      by (auto simp: upper)
  next
    case False
    then show ?thesis using assms P_end_staged [OF assms Some]
      by (auto simp: commit_staged_order_def Some past_barrier_def generation_of_def)
  qed
qed (use assms in \<open>simp add: commit_staged_order_def\<close>)

lemma find_stored: "P v \<Longrightarrow> find_order x v = Some po \<Longrightarrow> dget (v_orders v) (po_client_oid po) = Some po"
  using stored(1) by (auto simp: find_order_def split: option.splits if_splits)

lemma P_cancel:
  assumes "P v"
  shows "P (fst (cancel_by_request ms symbol identifier v))"
proof (cases "find_order identifier v")
  case (Some po)
  note at = find_stored [OF assms Some]
  have "P (update_order (po_client_oid po) (\<lambda>po. po\<lparr>po_pending_cancel_reason := r, po_update_ms := ms\<rparr>) v)" if "po_status po = P_STAGED" for r
    unfolding update_order_def at option.case using stored(2) [OF assms at] that
    by (intro P_touch [OF assms at]) (simp_all add: same_order_def)
  then show ?thesis using assms by (auto simp: cancel_by_request_def Some cancel_paper_order_def P_end_order Let_def)
qed (use assms in \<open>simp add: cancel_by_request_def\<close>)

lemma P_cancel_all:
  assumes "P v"
  shows "P (cancel_all_internal ms symbol v)"
proof -
  have each: "P (fold (\<lambda>po v. if po_symbol po \<noteq> sy then v else cancel_paper_order ms (po_client_oid po) v) pos w)" if "P w" for pos w sy
    using that by (induction pos arbitrary: w) (auto simp: cancel_paper_order_def P_end_order)
  show ?thesis unfolding cancel_all_internal_def Let_def
    by (rule each) (rule P_bump [OF assms, unfolded generation_of_def])
qed

lemma P_dms:
  assumes "P v"
  shows "P (check_dms_deadlines now ms v)"
proof -
  have each: "P (fold (\<lambda>symbol v. cancel_all_internal ms symbol (v\<lparr>v_dms_deadlines := ddel symbol (v_dms_deadlines v)\<rparr>)) symbols w)"
    if "P w" for symbols w
    using that
  proof (induction symbols arbitrary: w)
    case (Cons symbol symbols)
    have "P (w\<lparr>v_dms_deadlines := ddel symbol (v_dms_deadlines w)\<rparr>)" by (rule P_view [OF Cons.prems]) simp
    then show ?case using Cons.IH P_cancel_all by simp
  qed simp
  show ?thesis unfolding check_dms_deadlines_def using assms by (rule each)
qed

lemma P_book:
  assumes "P v"
  shows "P (on_book c symbol book v)"
proof -
  define v1 where "v1 = (case dget (v_books v) symbol of
      Some previous \<Rightarrow> if vc_cancel_ahead_fraction c > 0 then apply_conservative_cancel_ahead c symbol previous book v else v | None \<Rightarrow> v)"
  have "P v1" using assms P_requeued [OF assms requeued_cancel_ahead] by (simp add: v1_def split: option.split)
  then show ?thesis by (rule P_view) (simp add: on_book_def v1_def [symmetric] Let_def)
qed

lemma P_dispatch: "P v \<Longrightarrow> P (dispatch_command c now ms x v)"
proof (cases x)
  case (Set_dms symbol ms')
  assume "P v"
  then have "P (v\<lparr>v_dms_deadlines := d\<rparr>)" for d by (rule P_view) simp
  then show ?thesis using Set_dms \<open>P v\<close> by (auto simp: dispatch_command_def set_dms_internal_def)
qed (auto simp: dispatch_command_def rollback_abandoned_stage_def P_stage P_removed P_commit P_cancel P_cancel_all P_book P_market_trade Let_def
    split: option.split)

lemma P_step: "P v \<Longrightarrow> P (worker_step c turn v)"
  by (auto simp: worker_step_def P_dispatch P_dms split: prod.split)

end

sublocale venue_closed \<subseteq> steps: invariant_system "worker_step c" P for c
  by unfold_locales (rule P_step)

subsection \<open>The ledger\<close>

interpretation ledger_inv: venue_closed b0 "venue_inv b0"
proof unfold_locales
  fix v v' assume "venue_inv b0 v" "view v' = view v"
  then show "venue_inv b0 v'" using inv_footprint [of v' v] by (simp add: view_def)
qed (auto intro: inv_apply_fill inv_same inv_add inv_remove)

lemma inv_init: "venue_inv b0 (venue_init b0)"
  by (simp add: venue_inv_def orders_ok_def ledger_ok_def venue_init_def cores_def seq_unique_def paper_position_of_def
      replay_position_def replay_balance_def)

lemma inv_reachable: "venue_inv b0 (run_ops (worker_step c) turns (venue_init b0))"
  by (rule ledger_inv.steps.run_inv [OF inv_init])

text \<open>Claim C4: the paper ledger is the replay of its fills. After any sequence of commands, book updates and public trades, the position in every
  symbol is what the fills of that symbol make of an empty position, every balance is the initial one with the realised profits and the commissions
  of the fills in that asset, and what an order has filled is the sum of its own fills; nothing else touches them.\<close>

theorem paper_ledger_replays:
  assumes "v = run_ops (worker_step c) turns (venue_init b0)"
  shows "paper_position_of symbol v = replay_position symbol (v_fills v) \<and>
    dgetd (v_balances v) asset 0 = replay_balance (dgetd b0 asset 0) asset (v_fills v) \<and>
    (\<forall>po\<in>snd ` set (v_orders v). po_cum_filled_qty po = fsum (own_fills (po_accept_seq po) (v_fills v)))"
proof -
  have inv: "venue_inv b0 v" unfolding assms by (rule inv_reachable)
  have "po_cum_filled_qty po = fsum (own_fills (po_accept_seq po) (v_fills v))" if "po \<in> snd ` set (v_orders v)" for po
    using inv coresI [OF keyed_list(2) [OF inv that]] by (fastforce simp: venue_inv_def orders_ok_def order_ok_def)
  then show ?thesis using inv by (simp add: venue_inv_def ledger_ok_def)
qed

text \<open>A reduce-only fill moves the position towards zero and not beyond.\<close>

lemma reduced_position:
  assumes "representable q" and "if side = ''SELL'' then x \<le> q else side = ''BUY'' \<and> x \<le> - q" and "0 < x" and "pp_quantity p = q"
  shows "let q' = pp_quantity (fst (apply_position_fill side x price p)) in (0 \<le> q' \<and> q' \<le> q) \<or> (q \<le> q' \<and> q' \<le> 0)"
proof (cases "side = ''SELL''")
  case True
  then have "0 \<le> fl (q - x)" "fl (q - x) \<le> q" using assms(1-3) by (auto intro: fl_le_rep)
  then show ?thesis using True assms by (auto simp: apply_position_fill_def no_position_def Let_def)
next
  case False
  then have "fl (q + x) \<le> 0" "q \<le> fl (q + x)" using assms(1-3) fl_le_rep [of 0 "q + x"] by (auto intro: fl_ge_rep)
  then show ?thesis using False assms by (auto simp: apply_position_fill_def no_position_def Let_def)
qed

text \<open>Claim C12: every fill of the paper venue keeps to the terms of its order. The order was live and released by the OMS when it was filled, the fill is not
  larger than what was left of it, a taking fill is no worse than the limit (up to the tolerance of the code), a resting order is
  filled at its limit, a post-only order (GTX or RPI) is never filled as a taker, and a reduce-only order never turns or enlarges the position.\<close>

theorem paper_fills_keep_terms:
  assumes "v = run_ops (worker_step c) turns (venue_init b0)" and "n \<in> set (v_fills v)"
  shows "let po = fn_order n; rq = po_request po; t = fn_trade n; q = pp_quantity (fn_position n);
      q' = pp_quantity (fst (apply_position_fill (pt_side t) (pt_qty t) (pt_price t) (fn_position n))) in
    po_active po \<and> po_committed po \<and> 0 < pt_qty t \<and> pt_qty t \<le> po_remaining po \<and>
    (rq_order_type rq = ''LIMIT'' \<and> \<not> pt_maker t \<longrightarrow>
       (if rq_side rq = ''BUY'' then pt_price t \<le> fl (rq_price rq + EPS12) else pt_price t \<ge> fl (rq_price rq - EPS12))) \<and>
    (pt_maker t \<longrightarrow> pt_price t = rq_price rq) \<and> (rq_time_in_force rq \<in> {''GTX'', ''RPI''} \<longrightarrow> pt_maker t) \<and>
    (rq_reduce_only rq \<longrightarrow> (0 \<le> q' \<and> q' \<le> q) \<or> (q \<le> q' \<and> q' \<le> 0))"
proof -
  define po rq t p where defs: "po = fn_order n" "rq = po_request po" "t = fn_trade n" "p = fn_position n"
  have ok: "fill_ok n" using inv_reachable [of b0 c turns] assms by (simp add: venue_inv_def ledger_ok_def)
  have live: "po_active po" "po_committed po" "pt_qty t \<le> po_remaining po" and terms: "fill_terms rq (pt_price t) (pt_maker t)"
    and rep: "representable (pp_quantity p)" and "EPS12 < pt_qty t"
    and side: "rq_reduce_only rq \<Longrightarrow> if pt_side t = ''SELL'' then pt_qty t \<le> pp_quantity p else pt_side t = ''BUY'' \<and> pt_qty t \<le> - pp_quantity p"
    using ok unfolding fill_ok_def Let_def defs by simp_all
  then have pos: "0 < pt_qty t" by (blast intro: less_trans [OF EPS_pos(1)])
  have taker: "rq_order_type rq = ''LIMIT'' \<and> \<not> pt_maker t \<longrightarrow>
       (if rq_side rq = ''BUY'' then pt_price t \<le> fl (rq_price rq + EPS12) else pt_price t \<ge> fl (rq_price rq - EPS12))"
    using terms unfolding fill_terms_def within_limit_def by presburger
  have maker: "pt_maker t \<longrightarrow> pt_price t = rq_price rq" "rq_time_in_force rq \<in> {''GTX'', ''RPI''} \<longrightarrow> pt_maker t"
    using terms unfolding fill_terms_def by presburger+
  have "rq_reduce_only rq \<longrightarrow> (let q' = pp_quantity (fst (apply_position_fill (pt_side t) (pt_qty t) (pt_price t) p)) in
      (0 \<le> q' \<and> q' \<le> pp_quantity p) \<or> (pp_quantity p \<le> q' \<and> q' \<le> 0))"
    using side by (intro impI reduced_position [OF rep _ pos]) simp_all
  then show ?thesis using live pos taker maker unfolding Let_def defs by blast
qed

subsection \<open>The cancel barrier\<close>

text \<open>No order carries a cancel generation from the future.\<close>

definition stamps_ok :: "venue \<Rightarrow> bool" where
  "stamps_ok v \<longleftrightarrow> (\<forall>k po. cores v k = Some po \<longrightarrow> po_cancel_generation_at_stage po \<le> generation_of (po_symbol po) v)"

text \<open>The order with acceptance number \<open>a\<close> is over, or staged behind a barrier; its fills are \<open>fs\<close>.\<close>

definition barred :: "int \<Rightarrow> string \<Rightarrow> rat list \<Rightarrow> venue \<Rightarrow> bool" where
  "barred a sy fs v \<longleftrightarrow> a \<le> v_accept_sequence v \<and> own_fills a (v_fills v) = fs \<and>
     (\<forall>k po. cores v k = Some po \<longrightarrow> po_accept_seq po = a \<longrightarrow> po_status po \<in> set TERMINAL_ORDER_STATUSES \<or>
        po_status po = P_STAGED \<and> po_symbol po = sy \<and> po_cancel_generation_at_stage po < generation_of sy v)"

lemma same_order_core: "same_order po' po \<Longrightarrow> po_accept_seq (po_core po') = po_accept_seq po \<and> po_request (po_core po') = po_request po \<and>
    po_cancel_generation_at_stage (po_core po') = po_cancel_generation_at_stage po"
  by (simp add: same_order_def)

lemma generation_frame [simp]:
  "generation_of sy (v\<lparr>v_orders := os\<rparr>) = generation_of sy v" "generation_of sy (v\<lparr>v_accept_sequence := a\<rparr>) = generation_of sy v"
  by (simp_all add: generation_of_def)

lemma fill_generations [simp]: "v_cancel_generations (apply_paper_fill c ms oid q price mk v) = v_cancel_generations v"
  "v_accept_sequence (apply_paper_fill c ms oid q price mk v) = v_accept_sequence v"
  by (simp_all add: apply_paper_fill_def emit_order_event_def Let_def case_prod_unfold split: option.split)

lemma cores_filled:
  assumes "dget (v_orders v) oid = Some po" and "cores (apply_paper_fill c ms oid q price mk v) k = Some qo"
  shows "\<exists>ro. cores v k = Some ro \<and> po_accept_seq qo = po_accept_seq ro \<and> po_request qo = po_request ro \<and>
    po_cancel_generation_at_stage qo = po_cancel_generation_at_stage ro \<and> (k \<noteq> oid \<longrightarrow> qo = ro)"
proof (cases "k = oid")
  case True
  have "cores v oid = Some (po_core po)" using assms(1) by (rule coresI)
  with assms True show ?thesis
    by (cases rule: apply_fill_cases [OF assms(1), of c ms q price mk]) (auto simp: cores_def filled_order_def Let_def)
qed (use assms apply_fill_others in simp)

text \<open>A property that rests on the invariant of the ledger.\<close>

locale venue_extra =
  fixes b0 :: "(string, rat) dict" and Q :: "venue \<Rightarrow> bool"
  assumes Q_view: "Q v \<Longrightarrow> view v' = view v \<Longrightarrow> Q v'"
    and Q_fill: "venue_inv b0 v \<Longrightarrow> Q v \<Longrightarrow> dget (v_orders v) oid = Some po \<Longrightarrow> po_active po \<Longrightarrow> Q (apply_paper_fill c ms oid q price mk v)"
    and Q_change: "venue_inv b0 v \<Longrightarrow> Q v \<Longrightarrow> dget (v_orders v) oid = Some po \<Longrightarrow> same_order po' po \<Longrightarrow>
      po_active po \<or> po_status po = P_STAGED \<and> (po_status po' \<in> {P_STAGED, P_CANCELED} \<or> \<not> past_barrier v po) \<Longrightarrow>
      Q (v\<lparr>v_orders := dset oid po' (v_orders v)\<rparr>)"
    and Q_add: "venue_inv b0 v \<Longrightarrow> Q v \<Longrightarrow> fresh_order v oid po \<Longrightarrow>
      Q (v\<lparr>v_accept_sequence := v_accept_sequence v + 1, v_orders := dset oid po (v_orders v)\<rparr>)"
    and Q_remove: "Q v \<Longrightarrow> Q (v\<lparr>v_orders := ddel oid (v_orders v)\<rparr>)"
    and Q_bump: "Q v \<Longrightarrow> Q (v\<lparr>v_cancel_generations := dset sy (generation_of sy v + 1) (v_cancel_generations v)\<rparr>)"

sublocale venue_extra \<subseteq> closed: venue_closed b0 "\<lambda>v. venue_inv b0 v \<and> Q v"
proof unfold_locales
  fix v v' assume "venue_inv b0 v \<and> Q v" "view v' = view v"
  then show "venue_inv b0 v' \<and> Q v'" using Q_view inv_footprint [of v' v] by (auto simp: view_def)
qed (auto intro: inv_apply_fill inv_same inv_add inv_remove Q_fill Q_change Q_add Q_remove Q_bump)

interpretation stamps: venue_extra b0 stamps_ok
proof unfold_locales
  fix v v' assume "stamps_ok v" "view v' = view v"
  then show "stamps_ok v'" by (simp add: stamps_ok_def view_def footprint_def generation_of_def)
next
  fix v c ms oid po price mk q assume v: "stamps_ok v" and at: "dget (v_orders v) oid = Some po"
  show "stamps_ok (apply_paper_fill c ms oid q price mk v)"
    using v cores_filled [OF at, of c ms q price mk] unfolding stamps_ok_def generation_of_def by fastforce
next
  fix v oid po po' assume v: "stamps_ok v" and at: "dget (v_orders v) oid = Some po" "same_order po' po"
  then show "stamps_ok (v\<lparr>v_orders := dset oid po' (v_orders v)\<rparr>)"
    using coresI [OF at(1)] same_order_core [OF at(2)] by (fastforce simp: stamps_ok_def)
next
  fix v oid po assume v: "stamps_ok v" and new: "fresh_order v oid po"
  have "cores (v\<lparr>v_accept_sequence := v_accept_sequence v + 1, v_orders := dset oid po (v_orders v)\<rparr>) = (cores v)(oid \<mapsto> po_core po)"
    by (auto simp: cores_def fun_eq_iff)
  then show "stamps_ok (v\<lparr>v_accept_sequence := v_accept_sequence v + 1, v_orders := dset oid po (v_orders v)\<rparr>)"
    using v new by (simp add: stamps_ok_def fresh_order_def)
next
  fix v sy assume v: "stamps_ok v"
  have "cores (v\<lparr>v_cancel_generations := g\<rparr>) = cores v" for g by (simp add: cores_def fun_eq_iff)
  then show "stamps_ok (v\<lparr>v_cancel_generations := dset sy (generation_of sy v + 1) (v_cancel_generations v)\<rparr>)"
    using v by (force simp: stamps_ok_def generation_of_def)
qed (simp add: stamps_ok_def)

lemma barred_inactive:
  assumes "barred a sy fs v" and "dget (v_orders v) oid = Some po" and "po_active po"
  shows "po_accept_seq po \<noteq> a"
proof
  assume "po_accept_seq po = a"
  then have "po_status po \<in> set TERMINAL_ORDER_STATUSES \<or> po_status po = P_STAGED"
    using assms(1) coresI [OF assms(2)] by (fastforce simp: barred_def)
  then show False using assms(3) by (auto simp: po_active_def ACTIVE_ORDER_STATUSES_def TERMINAL_ORDER_STATUSES_def)
qed

lemma own_fills_filled:
  assumes "dget (v_orders v) oid = Some po" and "po_accept_seq po \<noteq> a"
  shows "own_fills a (v_fills (apply_paper_fill c ms oid q price mk v)) = own_fills a (v_fills v)"
  by (cases rule: apply_fill_cases [OF assms(1), of c ms q price mk])
    (use assms(2) in \<open>simp_all add: emit_order_event_def replay_append Let_def\<close>)

interpretation barrier: venue_extra b0 "barred a sy fs"
proof unfold_locales
  fix v v' assume "barred a sy fs v" "view v' = view v"
  then show "barred a sy fs v'" by (simp add: barred_def view_def footprint_def generation_of_def)
next
  fix v c ms oid po price mk q assume v: "barred a sy fs v" and at: "dget (v_orders v) oid = Some po" "po_active po"
  note other = barred_inactive [OF v at]
  have gen: "generation_of sy (apply_paper_fill c ms oid q price mk v) = generation_of sy v" by (simp add: generation_of_def)
  have "po_status qo \<in> set TERMINAL_ORDER_STATUSES \<or> po_status qo = P_STAGED \<and> po_symbol qo = sy \<and> po_cancel_generation_at_stage qo < generation_of sy v"
    if qo: "cores (apply_paper_fill c ms oid q price mk v) k = Some qo" "po_accept_seq qo = a" for k qo
  proof -
    obtain ro where ro: "cores v k = Some ro" "po_accept_seq qo = po_accept_seq ro" "k \<noteq> oid \<longrightarrow> qo = ro"
      using cores_filled [OF at(1) qo(1)] by blast
    then have "k \<noteq> oid" using other coresI [OF at(1)] qo(2) by auto
    then show ?thesis using ro v qo(2) by (simp add: barred_def)
  qed
  then show "barred a sy fs (apply_paper_fill c ms oid q price mk v)"
    using v own_fills_filled [OF at(1) other] by (simp add: barred_def gen)
next
  fix v oid po po' assume v: "barred a sy fs v" and at: "dget (v_orders v) oid = Some po" "same_order po' po"
    and how: "po_active po \<or> po_status po = P_STAGED \<and> (po_status po' \<in> {P_STAGED, P_CANCELED} \<or> \<not> past_barrier v po)"
  have "po_status po' \<in> set TERMINAL_ORDER_STATUSES \<or> po_status po' = P_STAGED \<and> po_symbol po' = sy \<and> po_cancel_generation_at_stage po' < generation_of sy v"
    if mine: "po_accept_seq po' = a"
  proof -
    have a: "po_accept_seq po = a" using mine at(2) by (simp add: same_order_def)
    then have "\<not> po_active po" using barred_inactive [OF v at(1)] by blast
    then have staged: "po_status po = P_STAGED" and how': "po_status po' \<in> {P_STAGED, P_CANCELED} \<or> \<not> past_barrier v po" using how by auto
    have "po_status po \<notin> set TERMINAL_ORDER_STATUSES" using staged by (simp add: TERMINAL_ORDER_STATUSES_def)
    then have "po_symbol po = sy" "po_cancel_generation_at_stage po < generation_of sy v"
      using v coresI [OF at(1)] a by (fastforce simp: barred_def)+
    then show ?thesis using how' at(2) by (auto simp: past_barrier_def same_order_def TERMINAL_ORDER_STATUSES_def)
  qed
  then show "barred a sy fs (v\<lparr>v_orders := dset oid po' (v_orders v)\<rparr>)" using v by (simp add: barred_def)
next
  fix v oid po assume v: "barred a sy fs v" and new: "fresh_order v oid po"
  have "cores (v\<lparr>v_accept_sequence := v_accept_sequence v + 1, v_orders := dset oid po (v_orders v)\<rparr>) = (cores v)(oid \<mapsto> po_core po)"
    by (auto simp: cores_def fun_eq_iff)
  then show "barred a sy fs (v\<lparr>v_accept_sequence := v_accept_sequence v + 1, v_orders := dset oid po (v_orders v)\<rparr>)"
    using v new by (auto simp: barred_def fresh_order_def)
next
  fix v sy' assume v: "barred a sy fs v"
  have "cores (v\<lparr>v_cancel_generations := g\<rparr>) = cores v" for g by (simp add: cores_def fun_eq_iff)
  then show "barred a sy fs (v\<lparr>v_cancel_generations := dset sy' (generation_of sy' v + 1) (v_cancel_generations v)\<rparr>)"
    using v by (force simp: barred_def generation_of_def)
qed (simp add: barred_def)

subsection \<open>A symbol-wide cancel\<close>

lemma end_order_frame:
  "v_fills (end_order st ms oid v) = v_fills v" "v_cancel_generations (end_order st ms oid v) = v_cancel_generations v"
  "v_accept_sequence (end_order st ms oid v) = v_accept_sequence v"
proof -
  have "v_fills (end_order st ms oid v) = v_fills v \<and> v_cancel_generations (end_order st ms oid v) = v_cancel_generations v \<and>
      v_accept_sequence (end_order st ms oid v) = v_accept_sequence v"
  proof (cases "dget (v_orders v) oid")
    case (Some po)
    then show ?thesis by (cases rule: end_order_cases [of v oid po st ms]) (auto simp: emit_order_event_def Let_def dest: requeued_D)
  qed (simp add: end_order_def)
  then show "v_fills (end_order st ms oid v) = v_fills v" "v_cancel_generations (end_order st ms oid v) = v_cancel_generations v"
    "v_accept_sequence (end_order st ms oid v) = v_accept_sequence v" by simp_all
qed

text \<open>Each order keeps its identity; the cancelled one is no longer live.\<close>

lemma end_order_core:
  assumes "cores (end_order P_CANCELED ms oid v) k = Some qo"
  shows "\<exists>po. cores v k = Some po \<and> po_accept_seq qo = po_accept_seq po \<and> po_symbol qo = po_symbol po \<and>
    po_cancel_generation_at_stage qo = po_cancel_generation_at_stage po \<and> (po_active qo \<longrightarrow> po_active po \<and> k \<noteq> oid) \<and>
    (po_status qo = P_STAGED \<longrightarrow> po_status po = P_STAGED)"
proof (cases "k = oid")
  case True
  then obtain po where po: "dget (v_orders v) oid = Some po"
    using assms by (cases "dget (v_orders v) oid") (auto simp: end_order_def cores_def)
  then show ?thesis using assms True coresI [OF po]
    by (cases rule: end_order_cases [OF po, of P_CANCELED ms]) (auto simp: requeued_D(9) po_active_def ACTIVE_ORDER_STATUSES_def)
qed (use assms end_order_others in auto)

definition cancel_in :: "int \<Rightarrow> string \<Rightarrow> paper_order \<Rightarrow> venue \<Rightarrow> venue" where
  "cancel_in ms sy po v = (if po_symbol po \<noteq> sy then v else cancel_paper_order ms (po_client_oid po) v)"

lemma cancel_fold_frame:
  "v_fills (fold (cancel_in ms sy) pos v) = v_fills v" "v_cancel_generations (fold (cancel_in ms sy) pos v) = v_cancel_generations v"
  "v_accept_sequence (fold (cancel_in ms sy) pos v) = v_accept_sequence v"
  by (induction pos arbitrary: v) (simp_all add: cancel_in_def cancel_paper_order_def end_order_frame)

lemma cancel_fold_core:
  assumes "cores (fold (cancel_in ms sy) pos v) k = Some qo"
  shows "\<exists>po. cores v k = Some po \<and> po_accept_seq qo = po_accept_seq po \<and> po_symbol qo = po_symbol po \<and>
    po_cancel_generation_at_stage qo = po_cancel_generation_at_stage po \<and>
    (po_active qo \<longrightarrow> po_active po \<and> (\<forall>ro\<in>set pos. po_symbol ro = sy \<longrightarrow> po_client_oid ro \<noteq> k)) \<and>
    (po_status qo = P_STAGED \<longrightarrow> po_status po = P_STAGED)"
  using assms
proof (induction pos arbitrary: v)
  case (Cons ro pos)
  obtain po where po: "cores (cancel_in ms sy ro v) k = Some po" "po_accept_seq qo = po_accept_seq po" "po_symbol qo = po_symbol po"
    "po_cancel_generation_at_stage qo = po_cancel_generation_at_stage po"
    "po_active qo \<longrightarrow> po_active po \<and> (\<forall>ro\<in>set pos. po_symbol ro = sy \<longrightarrow> po_client_oid ro \<noteq> k)"
    "po_status qo = P_STAGED \<longrightarrow> po_status po = P_STAGED"
    using Cons.IH [of "cancel_in ms sy ro v"] Cons.prems by auto
  show ?case
  proof (cases "po_symbol ro = sy")
    case True
    then have "cores (end_order P_CANCELED ms (po_client_oid ro) v) k = Some po" using po(1) by (simp add: cancel_in_def cancel_paper_order_def)
    from end_order_core [OF this] po(2-) show ?thesis by auto
  next
    case False
    then show ?thesis using po by (auto simp: cancel_in_def)
  qed
qed auto

lemma cancel_all_fold: "cancel_all_internal ms symbol v = fold (cancel_in ms (upper symbol)) (sort_key po_accept_seq (map snd (v_orders v)))
    (v\<lparr>v_cancel_generations := dset (upper symbol) (generation_of (upper symbol) v + 1) (v_cancel_generations v)\<rparr>)"
  by (simp add: cancel_all_internal_def cancel_in_def [abs_def] generation_of_def Let_def)

lemma cancel_all_core:
  assumes "venue_inv b0 v" and "cores (cancel_all_internal ms symbol v) k = Some qo"
  shows "\<exists>po. cores v k = Some po \<and> po_accept_seq qo = po_accept_seq po \<and> po_symbol qo = po_symbol po \<and>
    po_cancel_generation_at_stage qo = po_cancel_generation_at_stage po \<and> (po_active qo \<longrightarrow> po_symbol qo \<noteq> upper symbol)"
proof -
  have c: "cores (v\<lparr>v_cancel_generations := g\<rparr>) = cores v" for g by (simp add: cores_def fun_eq_iff)
  obtain po where po: "cores v k = Some po" "po_accept_seq qo = po_accept_seq po" "po_symbol qo = po_symbol po"
    "po_cancel_generation_at_stage qo = po_cancel_generation_at_stage po"
    "po_active qo \<longrightarrow> (\<forall>ro\<in>snd ` set (v_orders v). po_symbol ro = upper symbol \<longrightarrow> po_client_oid ro \<noteq> k)"
    using cancel_fold_core [OF assms(2) [unfolded cancel_all_fold]] unfolding c by auto
  obtain ro where ro: "dget (v_orders v) k = Some ro" "po = po_core ro" using cores_SomeD [OF po(1)] by blast
  then have "ro \<in> snd ` set (v_orders v)" "po_client_oid ro = k" using map_of_SomeD keyed [OF assms(1)] by force+
  then show ?thesis using po ro(2) by auto
qed

lemma cancel_all_barred:
  assumes "venue_inv b0 v" and "stamps_ok v" and "po \<in> snd ` set (v_orders v)" and "po_symbol po = upper symbol"
  shows "barred (po_accept_seq po) (upper symbol) (own_fills (po_accept_seq po) (v_fills v)) (cancel_all_internal ms symbol v)"
proof -
  note at = keyed_list(2) [OF assms(1,3)]
  have ok: "order_ok (v_accept_sequence v) (v_fills v) (po_client_oid po) (po_core po)" and u: "seq_unique (cores v)"
    using assms(1) coresI [OF at] by (simp_all add: venue_inv_def orders_ok_def)
  have gen: "generation_of (upper symbol) (cancel_all_internal ms symbol v) = generation_of (upper symbol) v + 1"
    by (simp add: cancel_all_fold cancel_fold_frame generation_of_def)
  have "po_status qo \<in> set TERMINAL_ORDER_STATUSES \<or> po_status qo = P_STAGED \<and> po_symbol qo = upper symbol \<and>
      po_cancel_generation_at_stage qo < generation_of (upper symbol) v + 1"
    if qo: "cores (cancel_all_internal ms symbol v) k = Some qo" "po_accept_seq qo = po_accept_seq po" for k qo
  proof -
    obtain ro where ro: "cores v k = Some ro" "po_accept_seq qo = po_accept_seq ro" "po_symbol qo = po_symbol ro"
      "po_cancel_generation_at_stage qo = po_cancel_generation_at_stage ro" "po_active qo \<longrightarrow> po_symbol qo \<noteq> upper symbol"
      using cancel_all_core [OF assms(1) qo(1)] by blast
    have "k = po_client_oid po" using u ro(1,2) qo(2) coresI [OF at] by (fastforce simp: seq_unique_def)
    then have "ro = po_core po" using ro(1) coresI [OF at] by simp
    then have sy: "po_symbol qo = upper symbol" using ro(3) assms(4) by simp
    then have "\<not> po_active qo" using ro(5) by blast
    then have "po_status qo \<in> set TERMINAL_ORDER_STATUSES \<or> po_status qo = P_STAGED"
      by (cases "po_status qo") (simp_all add: po_active_def ACTIVE_ORDER_STATUSES_def TERMINAL_ORDER_STATUSES_def)
    moreover have "po_cancel_generation_at_stage ro \<le> generation_of (po_symbol ro) v" using assms(2) ro(1) by (simp add: stamps_ok_def)
    ultimately show ?thesis using ro(3,4) sy by auto
  qed
  moreover have "v_fills (cancel_all_internal ms symbol v) = v_fills v" "v_accept_sequence (cancel_all_internal ms symbol v) = v_accept_sequence v"
    by (simp_all add: cancel_all_fold cancel_fold_frame)
  moreover have "po_accept_seq po \<le> v_accept_sequence v" using ok by (simp add: order_ok_def)
  ultimately show ?thesis unfolding barred_def gen by simp
qed

lemma stamps_reachable: "stamps_ok (run_ops (worker_step c) turns (venue_init b0))"
proof -
  have "venue_inv b0 (venue_init b0) \<and> stamps_ok (venue_init b0)" using inv_init by (simp add: stamps_ok_def venue_init_def cores_def)
  then show ?thesis using stamps.closed.steps.run_inv by blast
qed

text \<open>Claim C9: a symbol-wide cancel of the paper venue is final. Every order of the symbol that the venue knows at that moment, live or staged and still waiting
  for its commit, is never live again and never filled again, whatever commands, books and trades follow; a later commit of a staged one finds the
  raised generation and cancels it.\<close>

theorem cancel_all_is_final:
  assumes "v = run_ops (worker_step c) turns (venue_init b0)" and "po \<in> snd ` set (v_orders v)" and "po_symbol po = upper symbol"
    and "v' = run_ops (worker_step c) turns' (cancel_all_internal ms symbol v)"
  shows "own_fills (po_accept_seq po) (v_fills v') = own_fills (po_accept_seq po) (v_fills v) \<and>
    (\<forall>po'\<in>snd ` set (v_orders v'). po_accept_seq po' = po_accept_seq po \<longrightarrow> \<not> po_active po')"
proof -
  have inv: "venue_inv b0 v" "stamps_ok v" unfolding assms(1) by (rule inv_reachable stamps_reachable)+
  have "venue_inv b0 (cancel_all_internal ms symbol v) \<and>
      barred (po_accept_seq po) (upper symbol) (own_fills (po_accept_seq po) (v_fills v)) (cancel_all_internal ms symbol v)"
    using ledger_inv.P_cancel_all [OF inv(1)] cancel_all_barred [OF inv assms(2,3)] by blast
  then have fin: "venue_inv b0 v'" "barred (po_accept_seq po) (upper symbol) (own_fills (po_accept_seq po) (v_fills v)) v'"
    unfolding assms(4) using barrier.closed.steps.run_inv by blast+
  have "\<not> po_active po'" if "po' \<in> snd ` set (v_orders v')" "po_accept_seq po' = po_accept_seq po" for po'
    using barred_inactive [OF fin(2) keyed_list(2) [OF fin(1) that(1)]] that(2) by blast
  then show ?thesis using fin(2) by (simp add: barred_def)
qed

subsection \<open>The queue of a price level\<close>

definition demo_venue_config :: venue_config where
  "demo_venue_config = \<lparr>vc_symbols = [''A''], vc_rpi_fill_model = ''disabled'', vc_cancel_ahead_fraction = 0,
     vc_market_order_max_slippage_bps = 100, vc_maker_fee = 0, vc_taker_fee = 0, vc_rpi_commission_rate = 0, vc_rpi_commission_rates = [],
     vc_max_order_history = 100, vc_max_trade_history = 100\<rparr>"

definition quoted_book :: "rat \<Rightarrow> book_event" where
  "quoted_book q = \<lparr>ev_bids = [(99, q)], ev_asks = [(101, 5)], ev_top_bids = [], ev_top_asks = [], ev_best_bid_price = 99,
     ev_best_bid_volume = q, ev_best_ask_price = 101, ev_best_ask_volume = 5, ev_depth_levels = 1\<rparr>"

definition bid_request :: "rat \<Rightarrow> order_request" where
  "bid_request volume = \<lparr>rq_symbol = ''A'', rq_price = 99, rq_volume = volume, rq_side = ''BUY'', rq_order_type = ''LIMIT'',
     rq_time_in_force = ''GTX'', rq_post_only = True, rq_reduce_only = False, rq_self_trade_prevention_mode = []\<rparr>"

definition public_sale :: "int \<Rightarrow> rat \<Rightarrow> rat \<times> int \<times> venue_op" where
  "public_sale i q = (0, 0, Market_trade \<lparr>at_symbol = ''A'', at_trade_id = i, at_price = 99, at_quantity = q, at_maker_is_buyer = True\<rparr>)"

text \<open>Two bids at one price; between them the displayed quantity of the level falls from 100 to 10.\<close>

definition two_bids :: "(rat \<times> int \<times> venue_op) list" where
  "two_bids = map (\<lambda>x. (0, 0, x)) [Book ''A'' (quoted_book 100), Stage None (bid_request 5) ''a'' False, Commit None [] ''a'',
     Book ''A'' (quoted_book 10), Stage None (bid_request 100) ''b'' False, Commit None [] ''b'']"

definition fills_of :: "venue \<Rightarrow> (string \<times> rat) list" where
  "fills_of v = map (\<lambda>n. (po_client_oid (fn_order n), pt_qty (fn_trade n))) (v_fills v)"

text \<open>The states in between, evaluated: \<open>b\<close> stands behind 15 although \<open>a\<close>, which came first, stands behind 100.\<close>

definition bid_a :: "rat \<Rightarrow> paper_order" where
  "bid_a ahead = \<lparr>po_client_oid = ''a'', po_exchange_oid = ''PAPER-00000000000000000001'', po_request = bid_request 5,
     po_accept_seq = 1, po_update_ms = 0, po_status = P_NEW, po_committed = True, po_cum_filled_qty = 0, po_cumulative_cost = 0,
     po_avg_price = 0, po_queue_ahead = ahead, po_cancel_generation_at_stage = 0, po_pending_cancel_reason = [], po_terminal_reason = [],
     po_queue_inserted = True\<rparr>"

definition bid_b :: "rat \<Rightarrow> paper_order" where
  "bid_b ahead = \<lparr>po_client_oid = ''b'', po_exchange_oid = ''PAPER-00000000000000000002'', po_request = bid_request 100,
     po_accept_seq = 2, po_update_ms = 0, po_status = P_NEW, po_committed = True, po_cum_filled_qty = 0, po_cumulative_cost = 0,
     po_avg_price = 0, po_queue_ahead = ahead, po_cancel_generation_at_stage = 0, po_pending_cancel_reason = [], po_terminal_reason = [],
     po_queue_inserted = True\<rparr>"

definition accepted_event :: "int \<Rightarrow> string \<Rightarrow> paper_event" where
  "accepted_event seq oid = \<lparr>pe_seq = seq, pe_client_oid = oid, pe_status = P_NEW, pe_filled_qty = 0, pe_filled_price = 0,
     pe_cum_filled_qty = 0, pe_trade_id = - 1\<rparr>"

definition bids_placed :: venue where
  "bids_placed = (venue_init [])\<lparr>v_orders := [(''a'', bid_a 100), (''b'', bid_b 15)],
     v_exchange_to_client := [(''PAPER-00000000000000000001'', ''a''), (''PAPER-00000000000000000002'', ''b'')],
     v_books := [(''A'', quoted_book 10)], v_liquidity := [(''A'', [(99, 10)], [(101, 5)])], v_accept_sequence := 2, v_exchange_sequence := 2,
     v_event_sequence := 2, v_published := [accepted_event 1 ''a'', accepted_event 2 ''b'']\<rparr>"

definition sale_of_b :: paper_trade where
  "sale_of_b = \<lparr>pt_id = 1, pt_symbol = ''A'', pt_exchange_oid = ''PAPER-00000000000000000002'', pt_side = ''BUY'', pt_price = 99, pt_qty = 15,
     pt_realized_pnl = 0, pt_commission = 0, pt_commission_asset = ''USDT'', pt_maker = True\<rparr>"

definition first_sale :: venue where
  "first_sale = bids_placed\<lparr>v_orders := [(''a'', bid_a 70), (''b'', (bid_b 0)\<lparr>po_status := P_PARTIALLY_FILLED, po_cum_filled_qty := 15,
       po_cumulative_cost := 1485, po_avg_price := 99\<rparr>)],
     v_positions := [(''A'', \<lparr>pp_quantity = 15, pp_entry_price = 99\<rparr>)], v_last_market_trade_id := [(''A'', 1)], v_balances := [(''USDT'', 0)],
     v_trades := [sale_of_b], v_event_sequence := 3, v_paper_trade_sequence := 1,
     v_published := v_published bids_placed @ [\<lparr>pe_seq = 3, pe_client_oid = ''b'', pe_status = P_PARTIALLY_FILLED, pe_filled_qty = 15,
       pe_filled_price = 99, pe_cum_filled_qty = 15, pe_trade_id = 1\<rparr>],
     v_fills := [\<lparr>fn_order = bid_b 0, fn_position = \<lparr>pp_quantity = 0, pp_entry_price = 0\<rparr>, fn_trade = sale_of_b\<rparr>]\<rparr>"

definition bid_placed :: venue where
  "bid_placed = (venue_init [])\<lparr>v_orders := [(''a'', bid_a 100)], v_exchange_to_client := [(''PAPER-00000000000000000001'', ''a'')],
     v_books := [(''A'', quoted_book 100)], v_liquidity := [(''A'', [(99, 100)], [(101, 5)])], v_accept_sequence := 1, v_exchange_sequence := 1,
     v_event_sequence := 1, v_published := [accepted_event 1 ''a'']\<rparr>"

lemma two_bids_placed: "run_ops (worker_step demo_venue_config) two_bids (venue_init []) = bids_placed"
proof -
  have "run_ops (worker_step demo_venue_config) (take 3 two_bids) (venue_init []) = bid_placed" by code_simp
  moreover have "run_ops (worker_step demo_venue_config) (drop 3 two_bids) bid_placed = bids_placed" by code_simp
  ultimately show ?thesis using run_ops_append [of "worker_step demo_venue_config" "take 3 two_bids" "drop 3 two_bids"] by simp
qed

lemma first_sale_run: "worker_step demo_venue_config (public_sale 1 30) bids_placed = first_sale"
  by code_simp

lemma second_sale_run: "fills_of (worker_step demo_venue_config (public_sale 2 80) first_sale) = [(''b'', 15), (''a'', 5), (''b'', 80)]"
  by code_simp

text \<open>The matching engine does not keep the order of arrival at a price, nor the traded quantity. A bid's place in the queue is the quantity
  displayed when it arrives plus the local bids before it, and each bid counts its place down on its own. When the displayed quantity has fallen in between,
  the later bid stands before the earlier one and is filled first; and once it has overtaken, one public sale of 80 fills 85.\<close>

theorem later_bid_fills_first:
  "fills_of (run_ops (worker_step demo_venue_config) (two_bids @ [public_sale 1 30]) (venue_init [])) = [(''b'', 15)] \<and>
   fills_of (run_ops (worker_step demo_venue_config) (two_bids @ [public_sale 1 30, public_sale 2 80]) (venue_init [])) =
     [(''b'', 15), (''a'', 5), (''b'', 80)]"
  by (simp add: run_ops_append two_bids_placed first_sale_run second_sale_run) (simp add: fills_of_def first_sale_def bid_b_def sale_of_b_def)

subsection \<open>A taker sweeps the book\<close>

lemma fill_liquidity [simp]: "v_liquidity (apply_paper_fill c ms oid x price mk v) = v_liquidity v"
  by (simp add: apply_paper_fill_def emit_order_event_def Let_def case_prod_unfold split: option.split)

lemma opposite_levels_set:
  "po_request qo = po_request po \<Longrightarrow> opposite_levels qo v = opposite_levels po v"
  "opposite_levels po (apply_paper_fill c ms oid x price mk v) = opposite_levels po v"
  by (auto simp: opposite_levels_def split: option.split)

lemma opposite_levels_other:
  "p \<noteq> price \<Longrightarrow> dgetd (opposite_levels po (set_opposite_level po price q v)) p 0 = dgetd (opposite_levels po v) p 0"
  by (simp add: opposite_levels_def set_opposite_level_def split: option.split prod.split)

text \<open>The fills of one sweep, told from the order as it was before: each note has the order as the fill met it, and its quantity is the
  least of what the order still wants, what the book showed at the price, and what the position a reduce-only order reduces leaves.\<close>

definition fill_cap_at :: "fill_note \<Rightarrow> rat" where
  "fill_cap_at n = reduce_only_fill_cap (fn_order n) ((venue_init [])\<lparr>v_positions := [(po_symbol (fn_order n), fn_position n)]\<rparr>)"

fun sweep_of :: "int \<Rightarrow> (rat \<Rightarrow> rat) \<Rightarrow> paper_order \<Rightarrow> fill_note list \<Rightarrow> bool" where
  "sweep_of ms shown po [] = True"
| "sweep_of ms shown po (n # ns) \<longleftrightarrow> fn_order n = po \<and>
     pt_qty (fn_trade n) = min (min (po_remaining po) (shown (pt_price (fn_trade n)))) (fill_cap_at n) \<and>
     sweep_of ms shown (filled_order ms (pt_qty (fn_trade n)) (pt_price (fn_trade n)) po) ns"

lemma cap_cong:
  "po_request qo = po_request po \<Longrightarrow> po_remaining qo = po_remaining po \<Longrightarrow>
   paper_position_of (po_symbol po) w = paper_position_of (po_symbol po) v \<Longrightarrow> reduce_only_fill_cap qo w = reduce_only_fill_cap po v"
  by (simp add: reduce_only_fill_cap_def Let_def cong: if_cong)

lemma EPS_order: "EPS12 \<le> EPS9"
  unfolding EPS12_def EPS9_def by (intro fl_mono) simp

lemma taken_fill:
  assumes "dget (v_orders v) oid = Some po" "q \<le> po_remaining po" "q \<le> reduce_only_fill_cap po v" "EPS12 < q"
  obtains n where "v_fills (apply_paper_fill c ms oid q price False v) = v_fills v @ [n]" "fn_order n = po" "pt_price (fn_trade n) = price"
    "pt_qty (fn_trade n) = q" "fill_cap_at n = reduce_only_fill_cap po v"
    "dget (v_orders (apply_paper_fill c ms oid q price False v)) oid = Some (filled_order ms q price po)"
proof -
  have size: "fill_size po q v = q" using assms(2,3) by (simp add: fill_size_def)
  show ?thesis
  proof (cases rule: apply_fill_cases [OF assms(1), of c ms q price False])
    case 1
    have "v_fills (apply_paper_fill c ms oid q price False v) \<noteq> v_fills v"
      using assms(1,4) size by (simp add: apply_paper_fill_def fill_size_def emit_order_event_def Let_def case_prod_unfold)
    with 1 show ?thesis by simp
  next
    case (2 t p trades)
    show ?thesis
    proof (rule that [of "\<lparr>fn_order = po, fn_position = paper_position_of (po_symbol po) v, fn_trade = t\<rparr>"])
      show "fill_cap_at \<lparr>fn_order = po, fn_position = paper_position_of (po_symbol po) v, fn_trade = t\<rparr> = reduce_only_fill_cap po v"
        unfolding fill_cap_at_def by (rule cap_cong) (simp_all add: paper_position_of_def dgetd_def)
    qed (simp_all add: 2 size emit_order_event_def Let_def)
  qed
qed

lemma match_levels_sweep:
  assumes "dget (v_orders v) oid = Some po" and "distinct prices" and "\<forall>p\<in>set prices. dgetd (opposite_levels po v) p 0 = shown p"
    and "po_active po \<or> po_remaining po \<le> EPS9"
  shows "\<exists>ns qo. v_fills (match_levels c ms oid prices v) = v_fills v @ ns \<and> sweep_of ms shown po ns \<and>
    map (\<lambda>n. pt_price (fn_trade n)) ns = take (length ns) (filter (\<lambda>p. EPS12 < shown p) prices) \<and>
    dget (v_orders (match_levels c ms oid prices v)) oid = Some qo \<and>
    (length ns = length (filter (\<lambda>p. EPS12 < shown p) prices) \<or> po_remaining qo \<le> EPS9 \<or>
     reduce_only_fill_cap qo (match_levels c ms oid prices v) \<le> EPS12)"
  using assms
proof (induction prices arbitrary: v po)
  case Nil
  then show ?case by (intro exI [of _ "[]"]) simp
next
  case (Cons price prices)
  define available quantity where "available = max 0 (dgetd (opposite_levels po v) price 0)"
    and "quantity = min (min (po_remaining po) available) (reduce_only_fill_cap po v)"
  define w where "w = set_opposite_level po price (max 0 (fl (available - quantity))) v"
  define u where "u = apply_paper_fill c ms oid quantity price False w"
  have shown: "EPS12 < shown price \<longleftrightarrow> EPS12 < available" using Cons.prems(3) less_trans [OF EPS_pos(1)] by (auto simp: available_def less_max_iff_disj)
  consider (stop) "\<not> po_active po \<or> po_remaining po \<le> EPS12 \<or> EPS12 < available \<and> quantity \<le> EPS12"
    | (skip) "po_active po" "\<not> po_remaining po \<le> EPS12" "available \<le> EPS12"
    | (fill) "po_active po" "\<not> po_remaining po \<le> EPS12" "EPS12 < available" "EPS12 < quantity" by linarith
  then show ?case
  proof cases
    case stop
    then have "match_levels c ms oid (price # prices) v = v" using Cons.prems(1) by (auto simp: Let_def available_def quantity_def)
    moreover have "po_remaining po \<le> EPS9 \<or> reduce_only_fill_cap po v \<le> EPS12"
      using stop Cons.prems(4) EPS_order by (auto simp: quantity_def min_le_iff_disj)
    ultimately show ?thesis using Cons.prems(1) by (intro exI [of _ "[]"]) simp
  next
    case skip
    then have "match_levels c ms oid (price # prices) v = match_levels c ms oid prices v"
      using Cons.prems(1) by (simp add: Let_def available_def)
    with Cons.IH [OF Cons.prems(1)] Cons.prems(2-4) shown skip(3) show ?thesis by (simp del: match_levels.simps)
  next
    case fill
    then have step: "match_levels c ms oid (price # prices) v = match_levels c ms oid prices u"
      using Cons.prems(1) by (auto simp: Let_def available_def quantity_def w_def u_def)
    have w: "dget (v_orders w) oid = Some po" "v_fills w = v_fills v" "reduce_only_fill_cap po w = reduce_only_fill_cap po v"
      using Cons.prems(1) by (auto simp: w_def set_opposite_level_def paper_position_of_def intro!: cap_cong split: option.split prod.split)
    obtain n where n: "v_fills u = v_fills v @ [n]" "fn_order n = po" "pt_price (fn_trade n) = price" "pt_qty (fn_trade n) = quantity"
        "fill_cap_at n = reduce_only_fill_cap po v" "dget (v_orders u) oid = Some (filled_order ms quantity price po)"
    proof (rule taken_fill [OF w(1) _ _ fill(4), of c ms price])
      show "quantity \<le> po_remaining po" "quantity \<le> reduce_only_fill_cap po w" by (simp_all add: quantity_def w(3))
    qed (use w that in \<open>simp add: u_def\<close>)
    let ?qo = "filled_order ms quantity price po"
    have "dgetd (opposite_levels ?qo u) p 0 = shown p" if "p \<in> set prices" for p
    proof -
      have "p \<noteq> price" using that Cons.prems(2) by auto
      then show ?thesis
        using that Cons.prems(3) by (simp add: opposite_levels_set(1) [of ?qo po] opposite_levels_set(2) u_def w_def opposite_levels_other)
    qed
    moreover have "po_active ?qo \<or> po_remaining ?qo \<le> EPS9"
      by (simp add: filled_order_def po_active_def po_remaining_def ACTIVE_ORDER_STATUSES_def Let_def)
    ultimately obtain ns qo where ns: "v_fills (match_levels c ms oid prices u) = v_fills u @ ns" "sweep_of ms shown ?qo ns"
      "map (\<lambda>n. pt_price (fn_trade n)) ns = take (length ns) (filter (\<lambda>p. EPS12 < shown p) prices)"
      "dget (v_orders (match_levels c ms oid prices u)) oid = Some qo"
      "length ns = length (filter (\<lambda>p. EPS12 < shown p) prices) \<or> po_remaining qo \<le> EPS9 \<or>
       reduce_only_fill_cap qo (match_levels c ms oid prices u) \<le> EPS12"
      using Cons.IH [OF n(6)] Cons.prems(2) by auto
    have "0 < shown price" using shown fill(3) less_trans [OF EPS_pos(1)] by blast
    then have "available = shown price" using Cons.prems(3) by (simp add: available_def)
    then have size: "min (min (po_remaining po) (shown price)) (reduce_only_fill_cap po v) = quantity" by (simp add: quantity_def)
    show ?thesis unfolding step
    proof (intro exI conjI)
      show "v_fills (match_levels c ms oid prices u) = v_fills v @ (n # ns)" using ns(1) n(1) by simp
      show "sweep_of ms shown po (n # ns)" using ns(2) by (simp add: n(2-5) size)
      show "map (\<lambda>n. pt_price (fn_trade n)) (n # ns) = take (length (n # ns)) (filter (\<lambda>p. EPS12 < shown p) (price # prices))"
        using ns(3) n(3) shown fill(3) by simp
      show "length (n # ns) = length (filter (\<lambda>p. EPS12 < shown p) (price # prices)) \<or> po_remaining qo \<le> EPS9 \<or>
          reduce_only_fill_cap qo (match_levels c ms oid prices u) \<le> EPS12"
        using ns(5) shown fill(3) by simp
    qed (rule ns(4))
  qed
qed

lemma insert_fills [simp]: "v_fills (insert_into_local_queue oid v) = v_fills v"
  by (rule requeued_D(1)) simp

lemma eligible_sorted:
  assumes "wf_dict (opposite_levels po v)"
  shows "sorted_wrt (if po_side po = ''BUY'' then (<) else (>)) (eligible_prices c po v)" "distinct (eligible_prices c po v)"
proof -
  have "sorted_wrt (<) (sort (dkeys (opposite_levels po v)))" using assms by (simp add: strict_sorted_iff)
  then show "sorted_wrt (if po_side po = ''BUY'' then (<) else (>)) (eligible_prices c po v)"
    by (simp add: eligible_prices_def sorted_wrt_filter sorted_wrt_rev)
  show "distinct (eligible_prices c po v)" using assms by (simp add: eligible_prices_def Let_def)
qed

lemma requeued_order:
  assumes "requeued w w'" "dget (v_orders w) oid = Some qo"
  shows "\<exists>qo'. dget (v_orders w') oid = Some qo' \<and> po_request qo' = po_request qo \<and> po_remaining qo' = po_remaining qo"
proof -
  have "map_option po_core (dget (v_orders w') oid) = Some (po_core qo)"
    using requeued_D(9) [OF assms(1)] assms(2) by (simp add: cores_def fun_eq_iff)
  then obtain qo' where qo': "dget (v_orders w') oid = Some qo'" "po_core qo' = po_core qo" by auto
  then show ?thesis using po_core_simps(3,8) by metis
qed

lemma end_order_keeps:
  assumes "dget (v_orders w) oid = Some qo"
  shows "v_positions (end_order st ms oid w) = v_positions w \<and>
    (\<exists>qo'. dget (v_orders (end_order st ms oid w)) oid = Some qo' \<and> po_request qo' = po_request qo \<and> po_remaining qo' = po_remaining qo)"
proof (cases rule: end_order_cases [OF assms, of st ms])
  case (2 u)
  from requeued_order [OF 2(1), of oid "qo\<lparr>po_status := st, po_update_ms := ms\<rparr>"] requeued_D(2) [OF 2(1)] show ?thesis
    by (simp add: 2(3) emit_order_event_def po_remaining_def Let_def)
qed (use assms in simp)

lemma settle_keeps:
  assumes "dget (v_orders w) oid = Some qo"
  shows "v_fills (settle_remainder ms oid w) = v_fills w \<and> v_positions (settle_remainder ms oid w) = v_positions w \<and>
    (\<exists>qo'. dget (v_orders (settle_remainder ms oid w)) oid = Some qo' \<and> po_request qo' = po_request qo \<and> po_remaining qo' = po_remaining qo)"
proof -
  have "v_fills (insert_into_local_queue oid w) = v_fills w" "v_positions (insert_into_local_queue oid w) = v_positions w"
    by (rule requeued_D, simp)+
  with requeued_order [OF requeued_insert assms] end_order_keeps [OF assms] assms show ?thesis
    by (simp add: settle_remainder_def expire_order_def end_order_frame)
qed

lemma shown_levels:
  assumes "wf_dict (opposite_levels po v)"
  shows "sorted_wrt (if po_side po = ''BUY'' then (<) else (>)) (filter (\<lambda>p. EPS12 < dgetd (opposite_levels po v) p 0) (eligible_prices c po v))"
    "set (filter (\<lambda>p. EPS12 < dgetd (opposite_levels po v) p 0) (eligible_prices c po v)) =
     {p. price_is_executable c po p v \<and> EPS12 < dgetd (opposite_levels po v) p 0}"
proof -
  show "sorted_wrt (if po_side po = ''BUY'' then (<) else (>)) (filter (\<lambda>p. EPS12 < dgetd (opposite_levels po v) p 0) (eligible_prices c po v))"
    by (rule sorted_wrt_filter [OF eligible_sorted(1) [OF assms]])
  have "p \<in> set (dkeys (opposite_levels po v))" if "EPS12 < dgetd (opposite_levels po v) p 0" for p
  proof (rule ccontr)
    assume "p \<notin> set (dkeys (opposite_levels po v))"
    then have "dgetd (opposite_levels po v) p 0 = 0" by (simp add: dgetd_def map_of_eq_None_iff [THEN iffD2])
    with that less_imp_le [OF EPS_pos(1)] show False by simp
  qed
  then show "set (filter (\<lambda>p. EPS12 < dgetd (opposite_levels po v) p 0) (eligible_prices c po v)) =
     {p. price_is_executable c po p v \<and> EPS12 < dgetd (opposite_levels po v) p 0}"
    by (auto simp: eligible_prices_def Let_def)
qed

text \<open>Claim C30: a taker sweeps the book from the best price on. Let an active, committed order meet the liquidity of its symbol. Take the prices at which the
  order may execute and more than the tolerance is shown, from the lowest ask up for a buy and from the highest bid down for a sell.
  The fills of the immediate match are at the first of these prices, one fill each and none left out; each fill takes the
  least of what the order still wants, of what is shown and, for a reduce-only order, of what the position leaves; and all the prices were taken unless
  the order is filled or its reduce-only cap is used up. An order that is not active or not committed, has no liquidity or is a fill-or-kill
  that the book cannot fill gets no fill.\<close>

theorem taker_sweeps_best_first:
  assumes "dget (v_orders v) oid = Some po" and "wf_dict (opposite_levels po v)" and "v' = match_immediate c ms oid v"
    and "shown = (\<lambda>p. dgetd (opposite_levels po v) p 0)"
  shows "\<exists>ns levels po'. v_fills v' = v_fills v @ ns \<and> dget (v_orders v') oid = Some po' \<and>
    sorted_wrt (if po_side po = ''BUY'' then (<) else (>)) levels \<and> set levels = {p. price_is_executable c po p v \<and> EPS12 < shown p} \<and>
    (if po_active po \<and> po_committed po \<and> dget (v_liquidity v) (po_symbol po) \<noteq> None \<and> \<not> (po_tif po = ''FOK'' \<and> fok_unfilled c po v)
     then map (\<lambda>n. pt_price (fn_trade n)) ns = take (length ns) levels \<and> sweep_of ms shown po ns \<and>
       (length ns = length levels \<or> po_remaining po' \<le> EPS9 \<or> reduce_only_fill_cap po' v' \<le> EPS12)
     else ns = [])"
proof -
  let ?es = "eligible_prices c po v"
  let ?goes = "po_active po \<and> po_committed po \<and> dget (v_liquidity v) (po_symbol po) \<noteq> None \<and> \<not> (po_tif po = ''FOK'' \<and> fok_unfilled c po v)"
  let ?levels = "filter (\<lambda>p. EPS12 < shown p) ?es"
  have levels: "sorted_wrt (if po_side po = ''BUY'' then (<) else (>)) ?levels" "set ?levels = {p. price_is_executable c po p v \<and> EPS12 < shown p}"
    unfolding assms(4) by (rule shown_levels [OF assms(2)])+
  show ?thesis
  proof (cases ?goes)
    case True
    then have step: "v' = settle_remainder ms oid (match_levels c ms oid ?es v)"
      using assms(1) by (auto simp: assms(3) match_immediate_def)
    obtain ns qo where ns: "v_fills (match_levels c ms oid ?es v) = v_fills v @ ns" "sweep_of ms shown po ns"
      "map (\<lambda>n. pt_price (fn_trade n)) ns = take (length ns) ?levels" "dget (v_orders (match_levels c ms oid ?es v)) oid = Some qo"
      "length ns = length ?levels \<or> po_remaining qo \<le> EPS9 \<or> reduce_only_fill_cap qo (match_levels c ms oid ?es v) \<le> EPS12"
    proof -
      have "\<forall>p\<in>set ?es. dgetd (opposite_levels po v) p 0 = shown p" by (simp add: assms(4))
      from match_levels_sweep [OF assms(1) eligible_sorted(2) [OF assms(2)] this, of c ms] True that show thesis by blast
    qed
    obtain qo' where qo': "v_fills v' = v_fills v @ ns" "dget (v_orders v') oid = Some qo'" "po_request qo' = po_request qo"
      "po_remaining qo' = po_remaining qo" "v_positions v' = v_positions (match_levels c ms oid ?es v)"
      using settle_keeps [OF ns(4), of ms] ns(1) by (auto simp: step)
    then have "reduce_only_fill_cap qo' v' = reduce_only_fill_cap qo (match_levels c ms oid ?es v)"
      by (intro cap_cong) (simp_all add: paper_position_of_def)
    with True qo' ns levels show ?thesis by (intro exI [of _ ns] exI [of _ ?levels] exI [of _ qo']) simp
  next
    case False
    obtain e i where "dget (v_orders (end_order P_EXPIRED ms oid v)) oid = Some e" "dget (v_orders (insert_into_local_queue oid v)) oid = Some i"
      using end_order_keeps [OF assms(1)] requeued_order [OF requeued_insert assms(1)] by blast
    then have "v_fills v' = v_fills v \<and> (\<exists>po'. dget (v_orders v') oid = Some po')"
      using False assms(1) by (auto simp: assms(3) match_immediate_def expire_order_def end_order_frame)
    with False levels show ?thesis by (intro exI [of _ "[]"] exI [of _ ?levels]) auto
  qed
qed

subsection \<open>Witnesses\<close>

lemma demo_sold: "first_sale = run_ops (worker_step demo_venue_config) (two_bids @ [public_sale 1 30]) (venue_init [])"
  by (simp add: run_ops_append two_bids_placed first_sale_run)

lemma first_sale_simps:
  "v_fills first_sale = [\<lparr>fn_order = bid_b 0, fn_position = \<lparr>pp_quantity = 0, pp_entry_price = 0\<rparr>, fn_trade = sale_of_b\<rparr>]"
  "map snd (v_orders bids_placed) = [bid_a 100, bid_b 15]" "v_fills bids_placed = []"
  by (simp_all add: first_sale_def bids_placed_def venue_init_def)

theorem paper_ledger_replays_witness:
  "paper_position_of ''A'' first_sale = replay_position ''A'' (v_fills first_sale) \<and> v_fills first_sale \<noteq> []"
  using paper_ledger_replays [OF demo_sold, of "''A''" "''USDT''"] by (simp add: first_sale_simps)

theorem paper_fills_keep_terms_witness: "pt_maker sale_of_b \<and> pt_price sale_of_b = 99 \<and> pt_qty sale_of_b \<le> po_remaining (bid_b 0)"
  using paper_fills_keep_terms [OF demo_sold, of "hd (v_fills first_sale)"] by (simp add: first_sale_simps bid_b_def bid_request_def Let_def)

theorem cancel_all_is_final_witness:
  "own_fills 1 (v_fills (run_ops (worker_step demo_venue_config) [public_sale 1 30, public_sale 2 80] (cancel_all_internal 0 ''A'' bids_placed))) = []"
proof -
  have "bid_a 100 \<in> set (map snd (v_orders bids_placed))" unfolding first_sale_simps by simp
  then have "bid_a 100 \<in> snd ` set (v_orders bids_placed)" by simp
  moreover have "po_symbol (bid_a 100) = upper ''A''" "po_accept_seq (bid_a 100) = 1"
    by (simp_all add: bid_a_def bid_request_def upper_def upper_char_def)
  ultimately show ?thesis
    using cancel_all_is_final [OF two_bids_placed [symmetric], where symbol = "''A''" and po = "bid_a 100" and ms = 0 and turns' = "[public_sale 1 30, public_sale 2 80]", OF _ _ refl]
    by (simp add: own_fills_def first_sale_simps)
qed

text \<open>A bid at 99 meets asks of 1 at 98, of 2 at 97 and of 5 at 120, and takes 2 at 97 and then 1 at 98.\<close>

theorem taker_sweeps_best_first_witness:
  "let v = match_immediate demo_venue_config 0 ''b'' (bids_placed\<lparr>v_liquidity := [(''A'', [], [(98, 1), (120, 5), (97, 2)])]\<rparr>) in
   map (\<lambda>n. (pt_price (fn_trade n), pt_qty (fn_trade n))) (v_fills v) = [(97, 2), (98, 1)] \<and>
   (\<exists>levels. sorted_wrt (<) levels \<and> map (\<lambda>n. pt_price (fn_trade n)) (v_fills v) = take 2 levels)"
proof -
  let ?v = "bids_placed\<lparr>v_liquidity := [(''A'', [], [(98, 1), (120, 5), (97, 2)])]\<rparr>"
  let ?w = "match_immediate demo_venue_config 0 ''b'' ?v"
  have at: "dget (v_orders ?v) ''b'' = Some (bid_b 15)" "po_side (bid_b 15) = ''BUY''" "wf_dict (opposite_levels (bid_b 15) ?v)"
    "po_active (bid_b 15)" "po_committed (bid_b 15)" "dget (v_liquidity ?v) (po_symbol (bid_b 15)) \<noteq> None" "po_tif (bid_b 15) \<noteq> ''FOK''"
    by (simp_all add: bids_placed_def bid_b_def bid_request_def opposite_levels_def po_active_def ACTIVE_ORDER_STATUSES_def)
  have fills: "map (\<lambda>n. (pt_price (fn_trade n), pt_qty (fn_trade n))) (v_fills ?w) = [(97, 2), (98, 1)]" by code_simp
  obtain levels where "sorted_wrt (<) levels" "map (\<lambda>n. pt_price (fn_trade n)) (v_fills ?w) = take (length (v_fills ?w)) levels"
    using taker_sweeps_best_first [OF at(1,3) refl refl, of demo_venue_config 0] at by (auto simp: first_sale_simps)
  moreover have "length (v_fills ?w) = 2" using arg_cong [OF fills, of length] by simp
  ultimately show ?thesis using fills by (auto simp: Let_def)
qed

end
