(* ===== verification/Paper_Gateway.thy ===== *)
theory Paper_Gateway
  imports Paper_Safety Order_Dispatch
begin

text \<open>
  The paper gateway as a gateway of the OMS: \<open>BinancePaperGateway.send_order\<close> (\<open>gateway/binance/paper_gateway.py\<close>) keeps the same
  contract as the REST gateway, with the venue of \<open>Paper_Venue\<close> in the place of the exchange. The dispatch of the OMS is proved once against the contract,
  so its guarantees hold for paper trading too.

  Arguments stand for the readiness of the gateway, the clock, what other threads do before the guard runs, and how the call of the worker
  ends: it runs the command on some state of the venue, or the caller gives up.
\<close>

record 's paper_env =
  pn_ready :: bool
  pn_resyncing :: bool                        \<comment> \<open>the book of the symbol is being resynchronised\<close>
  pn_clock :: "string \<times> string"               \<comment> \<open>\<open>_clock_health_rejection\<close>\<close>
  pn_client_oid :: string
  pn_wait :: "'s \<Rightarrow> 's"
  pn_failure :: "(string \<times> string) option"    \<comment> \<open>code and text of the exception of the call\<close>
  pn_config :: venue_config
  pn_contract :: "paper_contract option"
  pn_now_ms :: int
  pn_venue :: venue

definition paper_staged :: "'s paper_env \<Rightarrow> order_request \<Rightarrow> venue \<times> command_result" where
  "paper_staged env rq = stage_order (pn_config env) (pn_contract env) (pn_now_ms env) rq (pn_client_oid env) (pn_venue env)"

definition paper_send_order ::
  "'s paper_env \<Rightarrow> 's guard \<Rightarrow> order_request \<Rightarrow> 's \<Rightarrow> 's \<times> 's list \<times> (string + command_result)" where
  "paper_send_order env guard rq s =
     (let refuse = (\<lambda>code message s. (s, [], Inr (command CO_REJECTED [] code message))) in
      if \<not> pn_ready env then refuse ''PAPER_NOT_READY'' ''paper gateway is not ready for new orders'' s
      else if \<not> rq_reduce_only rq \<and> pn_resyncing env
      then refuse ''PAPER_ORDERBOOK_NOT_READY'' (upper (rq_symbol rq) @ '' paper order book is resynchronizing'') s
      else if fst (pn_clock env) \<noteq> [] then refuse (fst (pn_clock env)) (snd (pn_clock env)) s
      else case guard (pn_wait env s) of
          (s1, Guard_raised e) \<Rightarrow> refuse ''PRE_SEND_GUARD_UNAVAILABLE'' e s1
        | (s1, Verdict allowed code message) \<Rightarrow>
            if \<not> allowed then refuse code message s1
            else case pn_failure env of
                Some (code, message) \<Rightarrow> (s1, [s1], Inr (command CO_UNKNOWN [] code message))
              | None \<Rightarrow> (s1, [s1], Inr (snd (paper_staged env rq))))"

text \<open>What a rejection and an acknowledgement mean in the venue: it took no order; it holds the order under that id.\<close>

definition paper_refused :: "'s paper_env \<Rightarrow> order_request \<Rightarrow> bool" where
  "paper_refused env rq \<longleftrightarrow> pn_failure env = None \<and> fst (paper_staged env rq) = pn_venue env"

definition paper_accepted :: "'s paper_env \<Rightarrow> order_request \<Rightarrow> string \<Rightarrow> bool" where
  "paper_accepted env rq x \<longleftrightarrow> pn_failure env = None \<and>
     (\<forall>b0. venue_inv b0 (pn_venue env) \<longrightarrow>
        (\<exists>po. dget (v_orders (fst (paper_staged env rq))) (pn_client_oid env) = Some po \<and> po_exchange_oid po = x))"

lemma stage_rejected: "cr_outcome (snd (stage_order c info ms rq oid v)) = CO_REJECTED \<Longrightarrow> fst (stage_order c info ms rq oid v) = v"
  by (auto simp: stage_order_def command_def Let_def split: option.splits if_splits)

text \<open>Pruning removes only orders that are over.\<close>

lemma prune_keeps:
  assumes "venue_inv b0 v" and "dget (v_orders v) oid = Some po" and "po_status po \<notin> set TERMINAL_ORDER_STATUSES"
  shows "dget (v_orders (prune_terminal_orders c v)) oid = Some po"
proof -
  let ?drop = "\<lambda>po v. v\<lparr>v_orders := ddel (po_client_oid po) (v_orders v), v_exchange_to_client := ddel (po_exchange_oid po) (v_exchange_to_client v)\<rparr>"
  have fold: "dget (v_orders (fold ?drop pos w)) oid = dget (v_orders w) oid" if "\<forall>qo\<in>set pos. po_client_oid qo \<noteq> oid" for pos :: "paper_order list" and w :: venue
    using that by (induction pos arbitrary: w) auto
  have "po_client_oid qo \<noteq> oid" if "qo \<in> snd ` set (v_orders v)" "po_status qo \<in> set TERMINAL_ORDER_STATUSES" for qo
    using keyed_list(2) [OF assms(1) that(1)] assms(2,3) that(2) by auto
  then have "\<forall>qo\<in>set (take n (sort_key g (filter (\<lambda>po. po_status po \<in> set TERMINAL_ORDER_STATUSES) (map snd (v_orders v))))). po_client_oid qo \<noteq> oid"
    for n and g :: "paper_order \<Rightarrow> int \<times> int"
    using set_take_subset by fastforce
  then show ?thesis using fold assms(2) by (simp add: prune_terminal_orders_def Let_def)
qed

lemma stage_acknowledged:
  assumes "venue_inv b0 v" and "cr_outcome (snd (stage_order c info ms rq oid v)) = CO_ACKNOWLEDGED"
  shows "\<exists>po. dget (v_orders (fst (stage_order c info ms rq oid v))) oid = Some po \<and>
    po_exchange_oid po = cr_exchange_oid (snd (stage_order c info ms rq oid v))"
proof (cases "dget (v_orders v) oid")
  case None
  define po where "po = new_paper_order ms (request_upper rq) oid v"
  define w where "w = v\<lparr>v_accept_sequence := v_accept_sequence v + 1, v_exchange_sequence := v_exchange_sequence v + 1,
      v_orders := dset oid po (v_orders v), v_exchange_to_client := dset (po_exchange_oid po) oid (v_exchange_to_client v)\<rparr>"
  have stage: "stage_order c info ms rq oid v = (prune_terminal_orders c w, command CO_ACKNOWLEDGED (po_exchange_oid po) [] [])"
    using None assms(2) by (auto simp: stage_order_def command_def po_def w_def Let_def split: if_splits)
  have new: "fresh_order v oid po" unfolding po_def using None by (rule new_order_fresh)
  have "venue_inv b0 w"
    by (rule ledger_inv.P_view [OF inv_add [OF assms(1) new]]) (simp add: w_def view_def footprint_def cores_def fun_eq_iff)
  then have "dget (v_orders (prune_terminal_orders c w)) oid = Some po"
    using new by (intro prune_keeps) (simp_all add: w_def fresh_order_def TERMINAL_ORDER_STATUSES_def)
  then show ?thesis by (simp add: stage command_def)
next
  case (Some po)
  then show ?thesis using assms(2) by (auto simp: stage_order_def command_def split: if_splits)
qed

lemma paper_send_cases:
  assumes "paper_send_order env guard rq s = (s', sent, r)"
  obtains cr where "sent = []" "r = Inr cr" "cr_outcome cr = CO_REJECTED"
  | code message cr where "sent = [s']" "guard (pn_wait env s) = (s', Verdict True code message)" "r = Inr cr"
      "case pn_failure env of Some _ \<Rightarrow> cr_outcome cr = CO_UNKNOWN | None \<Rightarrow> cr = snd (paper_staged env rq)"
  using assms by (auto simp: paper_send_order_def command_def Let_def split: if_splits prod.splits verdict.splits option.splits)

interpretation paper: guarded_gateway paper_send_order paper_refused paper_accepted
proof unfold_locales
  fix env :: "'s paper_env" and guard rq s s' sent r
  assume send: "paper_send_order env guard rq s = (s', sent, r)"
  show "length sent \<le> 1" using send by (cases rule: paper_send_cases) auto
  show "\<exists>s0 code message. guard s0 = (x, Verdict True code message)" if "x \<in> set sent" for x
    using send that by (cases rule: paper_send_cases) auto
next
  fix env :: "'s paper_env" and guard rq s s' sent cr
  assume send: "paper_send_order env guard rq s = (s', sent, Inr cr)"
  show "sent = [] \<or> paper_refused env rq" if "cr_outcome cr = CO_REJECTED"
    using send that by (cases rule: paper_send_cases) (auto simp: paper_refused_def paper_staged_def stage_rejected split: option.splits)
  show "sent \<noteq> [] \<and> paper_accepted env rq (cr_exchange_oid cr)" if "cr_outcome cr = CO_ACKNOWLEDGED"
    using send that by (cases rule: paper_send_cases) (auto simp: paper_accepted_def paper_staged_def stage_acknowledged split: option.splits)
qed

interpretation paper_dispatch: dispatch_gateway paper_send_order paper_refused paper_accepted ..

text \<open>Claim C29: paper trading is dispatched under the same rules as live trading. Over the paper gateway the OMS sends at most one command per order, and
  only in a state in which the final fence lets it pass; a rejection it reports means that nothing was sent or the venue is unchanged,
  and an acknowledgement that the venue holds the order under the id reported.\<close>

theorem paper_sent_only_through_fence:
  assumes "dispatch_order (Some (commands paper_send_order env)) plain c fe fe' tk now token rq g = (g', sent, cr)"
  shows "length sent \<le> 1 \<and>
    (\<forall>x\<in>set sent. \<exists>g0 code message. may_leave c fe' tk g0 \<and>
       transport_pre_send_guard c fe' tk now token rq g0 = (x, Verdict True code message)) \<and>
    (cr_outcome cr = CO_REJECTED \<longrightarrow> sent = [] \<or> fst (paper_staged env rq) = pn_venue env) \<and>
    (cr_outcome cr = CO_ACKNOWLEDGED \<longrightarrow> sent \<noteq> [] \<and> (\<forall>b0. venue_inv b0 (pn_venue env) \<longrightarrow>
       (\<exists>po. dget (v_orders (fst (paper_staged env rq))) (pn_client_oid env) = Some po \<and> po_exchange_oid po = cr_exchange_oid cr)))"
  using paper_dispatch.dispatch_sent [OF assms] paper_dispatch.dispatch_truthful [OF assms]
  unfolding paper_refused_def paper_accepted_def by blast

definition demo_paper :: "dispatching paper_env" where
  "demo_paper = \<lparr>pn_ready = True, pn_resyncing = False, pn_clock = ([], []), pn_client_oid = ''c1'', pn_wait = on_gate (\<lambda>_. demo_live),
     pn_failure = None, pn_config = demo_venue_config, pn_contract = None, pn_now_ms = 0, pn_venue = bids_placed\<rparr>"

lemma demo_paper_sent:
  "dispatch_order (Some (commands paper_send_order demo_paper)) (Inr Raw_nothing) demo_policy demo_fence demo_fence demo_ticket (Fin 1) ''t'' demo_request demo_going =
   (demo_going, [demo_going], command CO_REJECTED [] ''PAPER_ORDER_REJECTED'' ''unknown_symbol'')"
proof -
  have same: "demo_going\<lparr>g_terminal_reason := [], g_reservation := None\<rparr> = demo_going" "on_gate (\<lambda>_. demo_live) demo_going = demo_going"
    "reserve_transport_message now token rq demo_going = (demo_going, Inr [])" for now token rq
    by (simp_all add: demo_going_def on_gate_def on_oms_def reserve_transport_message_def reserve_token_def idle_budget_def)
  have guard: "transport_pre_send_guard demo_policy demo_fence demo_ticket (Fin 1) ''t'' demo_request demo_going = (demo_going, Verdict True [] [])"
    by (simp add: transport_pre_send_guard_def checked_fence_def demo_live_fence same)
  have "request_form_rejection demo_venue_config (request_upper demo_request) = ''unknown_symbol''"
    by (simp add: request_form_rejection_def demo_venue_config_def demo_request_def request_upper_def upper_def upper_char_def)
  then have "snd (paper_staged demo_paper demo_request) = command CO_REJECTED [] ''PAPER_ORDER_REJECTED'' ''unknown_symbol''"
    by (simp add: paper_staged_def demo_paper_def stage_order_def validate_request_def str_or_def bids_placed_def)
  then show ?thesis
    by (simp add: dispatch_order_def checked_fence_def demo_live_fence same commands_def paper_send_order_def guard demo_paper_def)
qed

theorem paper_sent_only_through_fence_witness:
  "\<exists>cr. dispatch_order (Some (commands paper_send_order demo_paper)) (Inr Raw_nothing) demo_policy demo_fence demo_fence demo_ticket (Fin 1) ''t''
      demo_request demo_going = (demo_going, [demo_going], cr) \<and> cr_outcome cr = CO_REJECTED \<and> fst (paper_staged demo_paper demo_request) = bids_placed"
  using paper_sent_only_through_fence [OF demo_paper_sent] demo_paper_sent by (simp add: command_def demo_paper_def)

end
