(* ===== verification/Rate_Limit.thy ===== *)
theory Rate_Limit
  imports Chronos_Prelude Op_System
begin

text \<open>
  The request-weight coordinator of \<open>infrastructure/binance_rate_limit_budget.py\<close>. The SQLite file that the
  processes share is a record: the table of attempts and the single state row. Every operation is one
  transaction; an argument \<open>fault\<close> says whether SQLite fails during it, in which case the transaction is
  rolled back. Clock values are arguments, and so is the parser of the date form of \<open>Retry-After\<close>.
  Timestamps are below 2 to the 53, where \<open>now // 60\<close> is the exact floor of the quotient.
\<close>

subsection \<open>State\<close>

record rate_budget =
  rl_enabled :: bool
  rl_request_weight_limit :: int
  rl_emergency_reserve :: int
  rl_trading_reserve :: int
  rl_sqlite_timeout_sec :: pyfloat

record attempt =
  at_minute_bucket :: int
  at_weight :: int
  at_priority :: string
  at_endpoint :: string
  at_created_at :: rat

record rate_state =
  rs_remote_bucket :: int
  rs_remote_used :: int
  rs_blocked_until :: rat
  rs_retry_reason :: string
  rs_updated_at :: rat

record rate_db =
  db_attempts :: "attempt list"
  db_state :: "rate_state option"

record rate_decision =
  rd_allowed :: bool
  rd_reason :: string
  rd_retry_after_sec :: rat
  rd_emergency_bypass :: bool

definition DEFAULT_REQUEST_WEIGHT_LIMIT :: int where "DEFAULT_REQUEST_WEIGHT_LIMIT = 2400"
definition DEFAULT_EMERGENCY_RESERVE :: int where "DEFAULT_EMERGENCY_RESERVE = 300"
definition DEFAULT_TRADING_RESERVE :: int where "DEFAULT_TRADING_RESERVE = 300"

definition rate_budget_init :: "pyval \<Rightarrow> pyval \<Rightarrow> pyval \<Rightarrow> pyval \<Rightarrow> pyval \<Rightarrow> rate_budget res" where
  "rate_budget_init request_weight_limit emergency_reserve trading_reserve enabled sqlite_timeout_sec =
     bindE (int_of request_weight_limit) (\<lambda>limit.
     bindE (int_of emergency_reserve) (\<lambda>emergency.
     bindE (int_of trading_reserve) (\<lambda>trading.
     bindE (float_of sqlite_timeout_sec) (\<lambda>timeout.
     if limit \<le> 0 then Inl (ValueError ''request_weight_limit must be positive'')
     else if limit > DEFAULT_REQUEST_WEIGHT_LIMIT then Inl (ValueError ''request_weight_limit exceeds 2400'')
     else if \<not> (0 \<le> emergency \<and> emergency < limit) then Inl (ValueError ''emergency_reserve'')
     else if trading < 0 \<or> trading + emergency \<ge> limit then Inl (ValueError ''trading_reserve'')
     else if truthy enabled \<and> (trading \<le> 0 \<or> emergency \<le> 0) then Inl (ValueError ''positive reserves'')
     else Inr \<lparr>rl_enabled = truthy enabled, rl_request_weight_limit = limit,
       rl_emergency_reserve = emergency, rl_trading_reserve = trading,
       rl_sqlite_timeout_sec = (if flt (Fin (fl (1 / 20))) timeout then timeout else Fin (fl (1 / 20)))\<rparr>))))"

definition from_config :: "(string \<times> pyval) list \<Rightarrow> rate_budget res" where
  "from_config settings = rate_budget_init
     (vget settings ''request_weight_limit'' (PInt DEFAULT_REQUEST_WEIGHT_LIMIT))
     (vget settings ''emergency_reserve'' (PInt DEFAULT_EMERGENCY_RESERVE))
     (vget settings ''trading_reserve'' (PInt DEFAULT_TRADING_RESERVE))
     (vget settings ''enabled'' (PBool True))
     (vget settings ''sqlite_timeout_sec'' (PFloat (Fin 2)))"

text \<open>\<open>_initialize\<close>: the tables exist and the state row is there; an existing file keeps its content.\<close>

definition initialize_db :: "rate_db option \<Rightarrow> rate_db" where
  "initialize_db file =
     (let db = (case file of None \<Rightarrow> \<lparr>db_attempts = [], db_state = None\<rparr> | Some d \<Rightarrow> d) in
      case db_state db of
        None \<Rightarrow> db\<lparr>db_state := Some \<lparr>rs_remote_bucket = -1, rs_remote_used = 0, rs_blocked_until = 0,
                    rs_retry_reason = [], rs_updated_at = 0\<rparr>\<rparr>
      | Some _ \<Rightarrow> db)"

definition background_limit :: "rate_budget \<Rightarrow> int" where
  "background_limit c = rl_request_weight_limit c - rl_emergency_reserve c - rl_trading_reserve c"

definition trading_limit :: "rate_budget \<Rightarrow> int" where
  "trading_limit c = rl_request_weight_limit c - rl_emergency_reserve c"

definition valid_now :: "pyfloat \<Rightarrow> rat res" where
  "valid_now value = (case value of
      Fin t \<Rightarrow> if t \<le> 0 then Inl (ValueError ''now_epoch'') else Inr t
    | _ \<Rightarrow> Inl (ValueError ''now_epoch''))"

definition minute_bucket :: "rat \<Rightarrow> int" where
  "minute_bucket now = \<lfloor>now / 60\<rfloor>"

text \<open>\<open>max(0.05, (bucket + 1) * 60.0 - now_epoch)\<close>.\<close>

definition until_next_minute :: "rat \<Rightarrow> rat" where
  "until_next_minute now =
     max (fl (1 / 20)) (fl (fl (fl (of_int (minute_bucket now + 1)) * 60) - now))"

subsection \<open>Admission\<close>

datatype priority_class = Emergency | Trading | Background

definition priority_of :: "string \<Rightarrow> priority_class" where
  "priority_of priority =
     (let p = lower (strip (str_or priority ''normal'')) in
      if p \<in> {''emergency'', ''safety'', ''reduce_only''} then Emergency
      else if p \<in> {''trading'', ''order''} then Trading else Background)"

fun recorded_priority :: "priority_class \<Rightarrow> string" where
  "recorded_priority Emergency = ''emergency''"
| "recorded_priority Trading = ''trading''"
| "recorded_priority Background = ''background''"

fun class_limit :: "rate_budget \<Rightarrow> priority_class \<Rightarrow> int" where
  "class_limit c Emergency = rl_request_weight_limit c"
| "class_limit c Trading = trading_limit c"
| "class_limit c Background = background_limit c"

fun exhausted_reason :: "priority_class \<Rightarrow> string" where
  "exhausted_reason Emergency = ''exchange_request_weight_limit_exhausted''"
| "exhausted_reason Trading = ''emergency_request_weight_reserve_protected''"
| "exhausted_reason Background = ''trading_request_weight_reserve_protected''"

definition used_weight :: "(attempt \<Rightarrow> bool) \<Rightarrow> attempt list \<Rightarrow> int" where
  "used_weight P xs = sum_list (map at_weight (filter P xs))"

definition state_row :: "rate_db \<Rightarrow> rate_state" where
  "state_row db = (case db_state db of
      None \<Rightarrow> \<lparr>rs_remote_bucket = -1, rs_remote_used = 0, rs_blocked_until = 0,
               rs_retry_reason = [], rs_updated_at = 0\<rparr>
    | Some s \<Rightarrow> s)"

definition observed_used :: "int \<Rightarrow> rate_db \<Rightarrow> int" where
  "observed_used bucket db =
     (let s = state_row db; rb = (if rs_remote_bucket s = 0 then -1 else rs_remote_bucket s) in
      if rb = bucket then rs_remote_used s else 0)"

definition local_used :: "int \<Rightarrow> rate_db \<Rightarrow> int" where
  "local_used bucket db = used_weight (\<lambda>a. at_minute_bucket a = bucket) (db_attempts db)"

definition allow :: rate_decision where
  "allow = \<lparr>rd_allowed = True, rd_reason = [], rd_retry_after_sec = 0, rd_emergency_bypass = False\<rparr>"

definition refuse :: "string \<Rightarrow> rat \<Rightarrow> rate_decision" where
  "refuse why sec = \<lparr>rd_allowed = False, rd_reason = why, rd_retry_after_sec = sec, rd_emergency_bypass = False\<rparr>"

definition acquire_transaction ::
  "rate_budget \<Rightarrow> int \<Rightarrow> priority_class \<Rightarrow> string \<Rightarrow> rat \<Rightarrow> rate_db \<Rightarrow> rate_db \<times> rate_decision" where
  "acquire_transaction c weight prio endpoint now db =
     (let bucket = minute_bucket now;
          db1 = db\<lparr>db_attempts := filter (\<lambda>a. \<not> at_minute_bucket a < bucket - 1) (db_attempts db)\<rparr>;
          s = state_row db1
      in if rs_blocked_until s > now
         then (db1, refuse (str_or (rs_retry_reason s) ''exchange_retry_after'') (fl (rs_blocked_until s - now)))
         else if max (local_used bucket db1) (observed_used bucket db1) + weight > class_limit c prio
         then (db1, refuse (exhausted_reason prio) (until_next_minute now))
         else (db1\<lparr>db_attempts := db_attempts db1 @
                 [\<lparr>at_minute_bucket = bucket, at_weight = weight, at_priority = recorded_priority prio,
                   at_endpoint = take 160 endpoint, at_created_at = now\<rparr>]\<rparr>, allow))"

definition acquire ::
  "rate_budget \<Rightarrow> int \<Rightarrow> string \<Rightarrow> string \<Rightarrow> pyfloat \<Rightarrow> string option \<Rightarrow> rate_db \<Rightarrow> rate_db \<times> rate_decision res" where
  "acquire c weight0 priority endpoint now_epoch fault db =
     (let weight = max 0 weight0; prio = priority_of priority in
      if \<not> rl_enabled c \<or> weight = 0 then (db, Inr allow)
      else if weight > rl_request_weight_limit c
      then (db, Inr (refuse ''request_weight_exceeds_exchange_limit'' 60))
      else case valid_now now_epoch of
          Inl e \<Rightarrow> (db, Inl e)
        | Inr now \<Rightarrow>
            (case fault of
               None \<Rightarrow> (let (db', d) = acquire_transaction c weight prio endpoint now db in (db', Inr d))
             | Some exc \<Rightarrow>
                 if prio = Emergency
                 then (db, Inr \<lparr>rd_allowed = True, rd_reason = ''coordinator_unavailable:'' @ exc,
                             rd_retry_after_sec = 0, rd_emergency_bypass = True\<rparr>)
                 else (db, Inr (refuse (''coordinator_unavailable:'' @ exc) (until_next_minute now)))))"

subsection \<open>Responses of the exchange\<close>

definition normalized_headers :: "(string \<times> string) list \<Rightarrow> (string, string) dict" where
  "normalized_headers headers = fold (\<lambda>(k, v). dset (lower (strip k)) v) headers []"

text \<open>\<open>_non_negative_int\<close>: an overflow of \<open>int(float(..))\<close> is not caught.\<close>

definition non_negative_int :: "string option \<Rightarrow> int option res" where
  "non_negative_int value = (case value of
      None \<Rightarrow> Inr None
    | Some s \<Rightarrow>
        (case bindE (float_of_string s) trunc_float of
           Inr n \<Rightarrow> Inr (Some (max 0 n))
         | Inl OverflowError \<Rightarrow> Inl OverflowError
         | Inl _ \<Rightarrow> Inr None))"

definition parse_retry_after :: "(string \<Rightarrow> rat option) \<Rightarrow> string option \<Rightarrow> rat \<Rightarrow> rat" where
  "parse_retry_after parse_date value now = (case value of
      None \<Rightarrow> 0
    | Some s \<Rightarrow>
        if s = [] then 0
        else case float_of_string s of
            Inr (Fin x) \<Rightarrow> max 0 x
          | Inr _ \<Rightarrow> 0
          | Inl _ \<Rightarrow> (case parse_date s of None \<Rightarrow> 0 | Some ts \<Rightarrow> max 0 (fl (ts - now))))"

definition retry_delay :: "(string \<Rightarrow> rat option) \<Rightarrow> (string, string) dict \<Rightarrow> int \<Rightarrow> rat \<Rightarrow> rat" where
  "retry_delay parse_date normalized status now =
     (let r = parse_retry_after parse_date (dget normalized ''retry-after'') now in
      if (status = 418 \<or> status = 429) \<and> r \<le> 0
      then (if status = 418 then 120 else until_next_minute now) else r)"

definition record_transaction :: "int option \<Rightarrow> rat \<Rightarrow> int \<Rightarrow> rat \<Rightarrow> rate_db \<Rightarrow> rate_db" where
  "record_transaction used retry_after status now db =
     (let bucket = minute_bucket now; s = state_row db;
          (rb, ru) = (case used of
              None \<Rightarrow> (rs_remote_bucket s, rs_remote_used s)
            | Some u \<Rightarrow>
                if (if rs_remote_bucket s = 0 then -1 else rs_remote_bucket s) = bucket
                then (rs_remote_bucket s, max (rs_remote_used s) u) else (bucket, u));
          (bl, why) = (if retry_after > 0
              then (max (rs_blocked_until s) (fl (now + retry_after)),
                    ''exchange_retry_after_status_'' @ str_of_int status)
              else (rs_blocked_until s, rs_retry_reason s))
      in db\<lparr>db_state := map_option (\<lambda>_.
           \<lparr>rs_remote_bucket = (if rb = 0 then -1 else rb), rs_remote_used = ru, rs_blocked_until = bl,
            rs_retry_reason = why, rs_updated_at = now\<rparr>) (db_state db)\<rparr>)"

definition record_response ::
  "rate_budget \<Rightarrow> (string \<Rightarrow> rat option) \<Rightarrow> (string \<times> string) list \<Rightarrow> int \<Rightarrow> pyfloat \<Rightarrow> string option \<Rightarrow>
   rate_db \<Rightarrow> rate_db \<times> unit res" where
  "record_response c parse_date headers status now_epoch fault db =
     (if \<not> rl_enabled c then (db, Inr ())
      else let normalized = normalized_headers headers in
      case non_negative_int (dget normalized ''x-mbx-used-weight-1m'') of
        Inl e \<Rightarrow> (db, Inl e)
      | Inr used \<Rightarrow>
          (case valid_now now_epoch of
             Inl e \<Rightarrow> (db, Inl e)
           | Inr now \<Rightarrow>
               let retry_after = retry_delay parse_date normalized status now in
               if used = None \<and> retry_after \<le> 0 then (db, Inr ())
               else case fault of
                   Some exc \<Rightarrow> (db, Inl (DatabaseError exc))
                 | None \<Rightarrow> (record_transaction used retry_after status now db, Inr ())))"

record rate_report =
  rr_minute_bucket :: int
  rr_local_used_weight :: int
  rr_remote_used_weight :: int
  rr_effective_used_weight :: int
  rr_blocked_for_sec :: rat
  rr_retry_reason :: string

definition rate_snapshot :: "rate_budget \<Rightarrow> pyfloat \<Rightarrow> string option \<Rightarrow> rate_db \<Rightarrow> rate_report option res" where
  "rate_snapshot c now_epoch fault db =
     bindE (valid_now now_epoch) (\<lambda>now.
     if \<not> rl_enabled c then Inr None
     else case fault of
         Some exc \<Rightarrow> Inl (DatabaseError exc)
       | None \<Rightarrow>
           let bucket = minute_bucket now; l = local_used bucket db; r = observed_used bucket db in
           Inr (Some \<lparr>rr_minute_bucket = bucket, rr_local_used_weight = l, rr_remote_used_weight = r,
             rr_effective_used_weight = max l r,
             rr_blocked_for_sec = max 0 (fl (rs_blocked_until (state_row db) - now)),
             rr_retry_reason = rs_retry_reason (state_row db)\<rparr>))"

subsection \<open>The weight table\<close>

datatype rate_op =
    Acquire int string string pyfloat "string option"
  | Response "(string \<times> string) list" int pyfloat "string option"

fun rate_step :: "rate_budget \<Rightarrow> (string \<Rightarrow> rat option) \<Rightarrow> rate_op \<Rightarrow> rate_db \<Rightarrow> rate_db" where
  "rate_step c pd (Acquire w p ep now fault) db = fst (acquire c w p ep now fault db)"
| "rate_step c pd (Response hs st now fault) db = fst (record_response c pd hs st now fault db)"

text \<open>The weight recorded in a minute by requests of the given recorded priorities.\<close>

definition minute_weight :: "string list \<Rightarrow> int \<Rightarrow> rate_db \<Rightarrow> int" where
  "minute_weight ps bucket db =
     used_weight (\<lambda>a. at_minute_bucket a = bucket \<and> at_priority a \<in> set ps) (db_attempts db)"

definition weights_ok :: "attempt list \<Rightarrow> bool" where
  "weights_ok xs \<longleftrightarrow> (\<forall>a \<in> set xs. 0 < at_weight a \<and>
     at_priority a \<in> {''emergency'', ''trading'', ''background''})"

lemma used_weight_simps [simp]:
  "used_weight P [] = 0" "used_weight P (xs @ ys) = used_weight P xs + used_weight P ys"
  "used_weight P (x # xs) = (if P x then at_weight x else 0) + used_weight P xs"
  by (simp_all add: used_weight_def)

lemma used_weight_mono:
  "weights_ok xs \<Longrightarrow> (\<And>a. P a \<Longrightarrow> Q a) \<Longrightarrow> used_weight P xs \<le> used_weight Q xs"
  by (induction xs) (auto simp: weights_ok_def add_mono intro: add_increasing)

lemma used_weight_filter: "used_weight P (filter Q xs) = used_weight (\<lambda>a. P a \<and> Q a) xs"
  by (induction xs) auto

lemma used_weight_split:
  assumes "weights_ok xs"
  shows "used_weight P xs = used_weight (\<lambda>a. P a \<and> at_priority a = ''background'') xs +
    used_weight (\<lambda>a. P a \<and> at_priority a = ''trading'') xs +
    used_weight (\<lambda>a. P a \<and> at_priority a = ''emergency'') xs"
  using assms by (induction xs) (auto simp: weights_ok_def)

lemma minute_weight_pair:
  "minute_weight [''background'', ''trading''] bucket db =
     minute_weight [''background''] bucket db + minute_weight [''trading''] bucket db"
proof -
  have "used_weight (\<lambda>a. P a \<and> at_priority a \<in> set [''background'', ''trading'']) xs =
      used_weight (\<lambda>a. P a \<and> at_priority a \<in> set [''background'']) xs +
      used_weight (\<lambda>a. P a \<and> at_priority a \<in> set [''trading'']) xs" for P xs
    by (induction xs) auto
  then show ?thesis by (simp only: minute_weight_def)
qed

lemma minute_weight_split:
  assumes "weights_ok (db_attempts db)"
  shows "local_used bucket db = minute_weight [''background''] bucket db +
    minute_weight [''trading''] bucket db + minute_weight [''emergency''] bucket db"
  using used_weight_split [OF assms, of "\<lambda>a. at_minute_bucket a = bucket"]
  by (simp add: local_used_def minute_weight_def)

definition table_inv :: "rate_budget \<Rightarrow> rate_db \<Rightarrow> bool" where
  "table_inv c db \<longleftrightarrow> weights_ok (db_attempts db) \<and> (\<forall>bucket.
     local_used bucket db \<le> rl_request_weight_limit c \<and>
     minute_weight [''background'', ''trading''] bucket db \<le> trading_limit c \<and>
     minute_weight [''background''] bucket db \<le> background_limit c)"

text \<open>Deleting attempts and appending one that fits its class keep the invariant.\<close>

lemma table_inv_delete:
  assumes "table_inv c db"
  shows "table_inv c (db\<lparr>db_attempts := filter Q (db_attempts db)\<rparr>)"
proof -
  have "used_weight P (filter Q (db_attempts db)) \<le> used_weight P (db_attempts db)" for P
    using assms by (auto simp: used_weight_filter table_inv_def intro: used_weight_mono)
  note le = order_trans [OF this]
  from assms show ?thesis
    by (auto simp: table_inv_def local_used_def minute_weight_def weights_ok_def intro!: le)
qed

lemma minute_weight_le_local:
  "weights_ok (db_attempts db) \<Longrightarrow> minute_weight ps bucket db \<le> local_used bucket db"
  unfolding minute_weight_def local_used_def by (rule used_weight_mono) auto

lemma table_inv_append:
  assumes "table_inv c db" "0 < w" "local_used bucket db + w \<le> class_limit c prio"
    and "0 < rl_emergency_reserve c" "0 < rl_trading_reserve c"
  shows "table_inv c (db\<lparr>db_attempts := db_attempts db @
    [\<lparr>at_minute_bucket = bucket, at_weight = w, at_priority = recorded_priority prio,
      at_endpoint = ep, at_created_at = now\<rparr>]\<rparr>)"
proof -
  have ok: "weights_ok (db_attempts db)" using assms(1) by (simp add: table_inv_def)
  let ?db = "db\<lparr>db_attempts := db_attempts db @
    [\<lparr>at_minute_bucket = bucket, at_weight = w, at_priority = recorded_priority prio,
      at_endpoint = ep, at_created_at = now\<rparr>]\<rparr>"
  have loc: "local_used k ?db = local_used k db + (if k = bucket then w else 0)" for k
    by (simp add: local_used_def)
  have mw: "minute_weight ps k ?db =
      minute_weight ps k db + (if k = bucket \<and> recorded_priority prio \<in> set ps then w else 0)" for ps k
    by (simp add: minute_weight_def)
  have "weights_ok (db_attempts ?db)" using ok assms(2) by (cases prio) (auto simp: weights_ok_def)
  moreover note minute_weight_le_local [OF ok, of "[''background'']" bucket]
    minute_weight_le_local [OF ok, of "[''background'', ''trading'']" bucket]
  ultimately show ?thesis
    using assms unfolding table_inv_def loc mw
    by (cases prio) (auto simp: trading_limit_def background_limit_def)
qed

definition rate_config :: "rate_budget \<Rightarrow> bool" where
  "rate_config c \<longleftrightarrow> rl_enabled c \<and> 0 < rl_emergency_reserve c \<and> 0 < rl_trading_reserve c \<and>
     rl_trading_reserve c + rl_emergency_reserve c < rl_request_weight_limit c \<and>
     rl_request_weight_limit c \<le> 2400"

lemma rate_config_init:
  assumes "rate_budget_init l e tr en to = Inr c" "rl_enabled c"
  shows "rate_config c"
  using assms by (auto simp: rate_budget_init_def rate_config_def res_simps DEFAULT_REQUEST_WEIGHT_LIMIT_def
      split: if_splits)

lemma acquire_transaction_inv:
  assumes "table_inv c db" "rate_config c" "0 < w"
  shows "table_inv c (fst (acquire_transaction c w prio ep now db))"
proof -
  let ?db1 = "db\<lparr>db_attempts := filter (\<lambda>a. \<not> at_minute_bucket a < minute_bucket now - 1) (db_attempts db)\<rparr>"
  have "table_inv c ?db1" using assms(1) by (rule table_inv_delete)
  with assms table_inv_append [OF this assms(3), of "minute_bucket now" prio]
  show ?thesis by (auto simp: acquire_transaction_def Let_def rate_config_def)
qed

lemma record_transaction_attempts: "db_attempts (record_transaction u r st now db) = db_attempts db"
  by (auto simp: record_transaction_def Let_def split: prod.splits)

lemma rate_step_inv:
  assumes "rate_config c" "table_inv c db"
  shows "table_inv c (rate_step c pd x db)"
proof (cases x)
  case (Acquire w p ep now fault)
  have "table_inv c db'" if "acquire_transaction c (max 0 w) (priority_of p) ep t db = (db', d)" "max 0 w \<noteq> 0"
    for t db' d
    using acquire_transaction_inv [OF assms(2,1), of "max 0 w" "priority_of p" ep t] that by simp
  with assms(2) show ?thesis
    by (auto simp: Acquire acquire_def Let_def split: sum.splits option.splits prod.splits)
next
  case (Response hs st now fault)
  have "table_inv c (record_transaction u r s t db)" for u r s t
    using assms(2) by (simp add: table_inv_def record_transaction_attempts local_used_def minute_weight_def)
  with assms(2) show ?thesis
    by (auto simp: Response record_response_def Let_def split: sum.splits option.splits)
qed

lemma empty_table: "table_inv c (initialize_db None)" if "rate_config c"
  using that by (simp add: table_inv_def initialize_db_def weights_ok_def local_used_def minute_weight_def
      rate_config_def trading_limit_def background_limit_def)

interpretation rate: invariant_system "rate_step c pd" "\<lambda>db. rate_config c \<and> table_inv c db" for c pd
  by unfold_locales (simp add: rate_step_inv)

lemma rate_reach:
  assumes "rate_budget_init l e tr en to = Inr c" "rl_enabled c"
    and "db = run_ops (rate_step c pd) xs (initialize_db None)"
  shows "rate_config c" "table_inv c db"
  using rate.run_inv [of c "initialize_db None"] rate_config_init [OF assms(1,2)] assms(3) empty_table by auto

lemma state_row_update [simp]: "state_row (db\<lparr>db_attempts := xs\<rparr>) = state_row db"
  by (simp add: state_row_def)

lemma observed_used_update [simp]: "observed_used bucket (db\<lparr>db_attempts := xs\<rparr>) = observed_used bucket db"
  by (simp add: observed_used_def)

lemma acquire_state: "db_state (fst (acquire c w p ep now fault db)) = db_state db"
  by (auto simp: acquire_def acquire_transaction_def Let_def split: sum.splits option.splits prod.splits)

lemma record_transaction_state:
  "(db_state (record_transaction u r st now db) = None) = (db_state db = None)"
  "rs_blocked_until (state_row db) \<le> rs_blocked_until (state_row (record_transaction u r st now db))"
  "db_state db \<noteq> None \<Longrightarrow> 0 < r \<Longrightarrow>
     fl (now + r) \<le> rs_blocked_until (state_row (record_transaction u r st now db))"
  by (auto simp: record_transaction_def state_row_def Let_def split: prod.splits option.splits)

interpretation block: monotone_system "rate_step c pd" "\<lambda>db. db_state db \<noteq> None"
  "\<lambda>db. rs_blocked_until (state_row db)" for c pd
proof unfold_locales
  fix db :: rate_db and x assume "db_state db \<noteq> None"
  then show "db_state (rate_step c pd x db) \<noteq> None"
    by (cases x) (auto simp: acquire_state record_response_def record_transaction_state(1) Let_def simp del: not_None_eq
        split: sum.splits option.splits)
next
  fix db :: rate_db and x assume "db_state db \<noteq> None"
  show "rs_blocked_until (state_row db) \<le> rs_blocked_until (state_row (rate_step c pd x db))"
  proof (cases x)
    case (Acquire w p ep now fault)
    then show ?thesis by (simp add: state_row_def acquire_state)
  next
    case (Response hs st now fault)
    then show ?thesis
      by (auto simp: record_response_def record_transaction_state Let_def split: sum.splits option.splits)
  qed
qed

lemma until_next_minute_pos: "0 < until_next_minute now"
proof -
  have "0 < fl (1 / 20)" by (simp add: fl_pos)
  then show ?thesis unfolding until_next_minute_def by (simp add: less_max_iff_disj)
qed

lemma acquire_blocked:
  assumes "rl_enabled c" "0 < w" "t < rs_blocked_until (state_row db)"
    and "acquire c w p ep (Fin t) None db = (db', Inr d)"
  shows "\<not> rd_allowed d"
  using assms by (auto simp: acquire_def acquire_transaction_def Let_def refuse_def valid_now_def
      split: if_splits sum.splits prod.splits)

subsection \<open>The stream of admissions\<close>

text \<open>
  What the clients were granted, in order, whether or not the table still has it or ever had it. Each entry has the minute of its
  clock reading, its weight and class, and whether it was let through without a record because SQLite failed.
\<close>

record admission =
  ad_minute :: int
  ad_weight :: int
  ad_class :: priority_class
  ad_bypass :: bool

fun granted :: "rate_budget \<Rightarrow> rate_op \<Rightarrow> rate_db \<Rightarrow> admission list" where
  "granted c (Acquire w p ep (Fin t) fault) db = (case snd (acquire c w p ep (Fin t) fault db) of
      Inr d \<Rightarrow> if rd_allowed d \<and> 0 < w
        then [\<lparr>ad_minute = minute_bucket t, ad_weight = w, ad_class = priority_of p, ad_bypass = rd_emergency_bypass d\<rparr>] else []
    | Inl _ \<Rightarrow> [])"
| "granted c _ db = []"

fun admissions :: "rate_budget \<Rightarrow> (string \<Rightarrow> rat option) \<Rightarrow> rate_op list \<Rightarrow> rate_db \<Rightarrow> admission list" where
  "admissions c pd [] db = []"
| "admissions c pd (x # xs) db = granted c x db @ admissions c pd xs (rate_step c pd x db)"

text \<open>The weight granted in a minute to requests of the given classes that did not bypass the coordinator.\<close>

definition granted_weight :: "priority_class set \<Rightarrow> int \<Rightarrow> admission list \<Rightarrow> int" where
  "granted_weight P m as = sum_list (map ad_weight (filter (\<lambda>a. ad_minute a = m \<and> ad_class a \<in> P \<and> \<not> ad_bypass a) as))"

text \<open>The clocks are steady when no transaction reads a minute more than one before the minute of an earlier transaction. A table keeps
  the current and the previous minute, so it is enough for every minute still to be spent in to have its rows.\<close>

fun reading :: "rate_op \<Rightarrow> int option" where
  "reading (Acquire w p ep (Fin t) None) = Some (minute_bucket t)"
| "reading _ = None"

definition not_behind :: "rate_op \<Rightarrow> rate_op \<Rightarrow> bool" where
  "not_behind x y \<longleftrightarrow> (case (reading x, reading y) of (Some a, Some b) \<Rightarrow> a - 1 \<le> b | _ \<Rightarrow> True)"

definition steady :: "rate_op list \<Rightarrow> bool" where
  "steady xs = sorted_wrt not_behind xs"

fun faulted :: "rate_op \<Rightarrow> bool" where
  "faulted (Acquire w p ep now fault) = (fault \<noteq> None)"
| "faulted _ = False"

lemma granted_weight_simps [simp]:
  "granted_weight P m [] = 0" "granted_weight P m (xs @ ys) = granted_weight P m xs + granted_weight P m ys"
  "granted_weight P m [a] = (if ad_minute a = m \<and> ad_class a \<in> P \<and> \<not> ad_bypass a then ad_weight a else 0)"
  by (simp_all add: granted_weight_def)

lemma granted_weight_mono:
  "\<forall>a\<in>set as. 0 < ad_weight a \<Longrightarrow> P \<subseteq> Q \<Longrightarrow> granted_weight P m as \<le> granted_weight Q m as"
  by (induction as) (auto simp: granted_weight_def intro: add_increasing)

text \<open>The limits on a stream, and that a stream is in the table: in every minute that no earlier transaction has left behind, the
  table holds the granted weight.\<close>

definition stream_ok :: "rate_budget \<Rightarrow> admission list \<Rightarrow> bool" where
  "stream_ok c as \<longleftrightarrow> (\<forall>a\<in>set as. 0 < ad_weight a) \<and> (\<forall>m. granted_weight UNIV m as \<le> rl_request_weight_limit c \<and>
     granted_weight {Trading, Background} m as \<le> trading_limit c \<and> granted_weight {Background} m as \<le> background_limit c)"

definition tabled :: "rate_op list \<Rightarrow> admission list \<Rightarrow> rate_db \<Rightarrow> bool" where
  "tabled before as db \<longleftrightarrow>
     (\<forall>m. (\<forall>x\<in>set before. \<forall>b. reading x = Some b \<longrightarrow> b - 1 \<le> m) \<longrightarrow> local_used m db = granted_weight UNIV m as)"

lemma stream_ok_append:
  assumes "stream_ok c as" "rate_config c" "0 < w" "granted_weight UNIV b as + w \<le> class_limit c prio"
  shows "stream_ok c (as @ [\<lparr>ad_minute = b, ad_weight = w, ad_class = prio, ad_bypass = False\<rparr>])"
proof -
  have pos: "\<forall>a\<in>set as. 0 < ad_weight a" using assms(1) by (simp add: stream_ok_def)
  have "granted_weight {Trading, Background} b as \<le> granted_weight UNIV b as" "granted_weight {Background} b as \<le> granted_weight UNIV b as"
    by (rule granted_weight_mono [OF pos], simp)+
  with assms show ?thesis
    by (cases prio) (auto simp: stream_ok_def trading_limit_def background_limit_def rate_config_def)
qed

lemma local_used_prune: "b - 1 \<le> m \<Longrightarrow>
  local_used m (db\<lparr>db_attempts := filter (\<lambda>a. \<not> at_minute_bucket a < b - 1) (db_attempts db)\<rparr>) = local_used m db"
  by (simp add: local_used_def used_weight_filter) (rule arg_cong [of _ _ "\<lambda>P. used_weight P _"], auto)

text \<open>A granted request had room in the table, or it is a bypass; a transaction keeps the weights of its own, the previous and all
  later minutes but for what it grants.\<close>

lemma local_used_snoc:
  "local_used m (db\<lparr>db_attempts := xs @ [a]\<rparr>) = local_used m (db\<lparr>db_attempts := xs\<rparr>) + (if at_minute_bucket a = m then at_weight a else 0)"
  by (simp add: local_used_def)

lemma transaction_weight:
  assumes "acquire_transaction c w prio ep now db = (db', d)"
  shows "rd_allowed d \<Longrightarrow> \<not> rd_emergency_bypass d \<and> local_used (minute_bucket now) db + w \<le> class_limit c prio"
    and "minute_bucket now - 1 \<le> m \<Longrightarrow>
      local_used m db' = local_used m db + (if rd_allowed d \<and> m = minute_bucket now then w else 0)"
  using assms local_used_prune [of "minute_bucket now" "minute_bucket now" db] local_used_prune [of "minute_bucket now" m db]
  by (auto simp: acquire_transaction_def Let_def refuse_def allow_def local_used_snoc split: if_splits)

lemma admitted_room:
  assumes "rl_enabled c" "0 < w" "acquire c w p ep (Fin t) fault db = (db', Inr d)" "rd_allowed d"
  shows "if rd_emergency_bypass d then priority_of p = Emergency \<and> fault \<noteq> None \<and> db' = db
    else fault = None \<and> local_used (minute_bucket t) db + w \<le> class_limit c (priority_of p) \<and>
      (\<forall>m. minute_bucket t - 1 \<le> m \<longrightarrow> local_used m db' = local_used m db + (if m = minute_bucket t then w else 0))"
proof (cases fault)
  case None
  then have "acquire_transaction c w (priority_of p) ep t db = (db', d)"
    using assms by (auto simp: acquire_def refuse_def valid_now_def Let_def split: if_splits prod.splits)
  from transaction_weight [OF this] assms(4) None show ?thesis by simp
next
  case (Some exc)
  with assms show ?thesis by (auto simp: acquire_def refuse_def Let_def split: if_splits sum.splits)
qed

lemma acquire_kept:
  assumes "rl_enabled c" "acquire c w p ep (Fin t) fault db = (db', r)" "\<And>d. r = Inr d \<Longrightarrow> rd_allowed d \<Longrightarrow> w \<le> 0"
    and "fault = None \<Longrightarrow> minute_bucket t - 1 \<le> m"
  shows "local_used m db' = local_used m db"
proof (cases "\<exists>d. acquire_transaction c (max 0 w) (priority_of p) ep t db = (db', d) \<and> r = Inr d \<and> 0 < w \<and> fault = None")
  case True
  then obtain d where "acquire_transaction c (max 0 w) (priority_of p) ep t db = (db', d)" "\<not> rd_allowed d" "fault = None"
    using assms(3) by fastforce
  with transaction_weight(2) [OF this(1), of m] assms(4) show ?thesis by simp
next
  case False
  with assms(1,2) have "db' = db"
    by (auto simp: acquire_def valid_now_def max_def Let_def split: if_splits sum.splits option.splits prod.splits)
  then show ?thesis by simp
qed

lemma granted_step:
  assumes "rate_config c" "stream_ok c as" "tabled before as db" "\<forall>x\<in>set before. not_behind x y"
  shows "stream_ok c (as @ granted c y db) \<and> tabled (before @ [y]) (as @ granted c y db) (rate_step c pd y db)"
proof (cases y)
  case (Response hs st now fault)
  have "local_used m (fst (record_response c pd hs st now fault db)) = local_used m db" for m
    by (auto simp: record_response_def Let_def local_used_def record_transaction_attempts split: sum.splits option.splits)
  with assms(2,3) show ?thesis by (simp add: Response tabled_def)
next
  case (Acquire w p ep now fault)
  show ?thesis
  proof (cases now)
    case (Fin t)
    obtain db' r where a: "acquire c w p ep (Fin t) fault db = (db', r)" by fastforce
    have en: "rl_enabled c" using assms(1) by (simp add: rate_config_def)
    have after: "rate_step c pd y db = db'" "reading y = (if fault = None then Some (minute_bucket t) else None)"
      by (simp_all add: Acquire Fin a) (cases fault; simp)
    show ?thesis
    proof (cases "\<exists>d. r = Inr d \<and> rd_allowed d \<and> 0 < w")
      case True
      then obtain d where d: "r = Inr d" "rd_allowed d" "0 < w" by blast
      note g = admitted_room [OF en d(3) a [unfolded d(1)] d(2)]
      have y: "granted c y db = [\<lparr>ad_minute = minute_bucket t, ad_weight = w, ad_class = priority_of p, ad_bypass = rd_emergency_bypass d\<rparr>]"
        using d by (simp add: Acquire Fin a)
      have room: "local_used (minute_bucket t) db = granted_weight UNIV (minute_bucket t) as" if "fault = None"
        using assms(3,4) that by (fastforce simp: tabled_def not_behind_def Acquire Fin)
      show ?thesis
      proof (cases "rd_emergency_bypass d")
        case True
        with g d assms(2,3) show ?thesis by (auto simp: y after stream_ok_def tabled_def)
      next
        case False
        with g have f: "fault = None" "local_used (minute_bucket t) db + w \<le> class_limit c (priority_of p)"
          "\<And>m. minute_bucket t - 1 \<le> m \<Longrightarrow> local_used m db' = local_used m db + (if m = minute_bucket t then w else 0)"
          by auto
        from stream_ok_append [OF assms(2,1) d(3), of "minute_bucket t" "priority_of p"] f(1,2) room
        show ?thesis using False assms(3) f(1,3) by (auto simp: y after tabled_def)
      qed
    next
      case False
      then have "local_used m db' = local_used m db" if "fault = None \<longrightarrow> minute_bucket t - 1 \<le> m" for m
        using acquire_kept [OF en a, of m] that by force
      moreover have "granted c y db = []" using False by (auto simp: Acquire Fin a split: sum.splits)
      ultimately show ?thesis using assms(2,3) by (auto simp: after tabled_def)
    qed
  qed (use assms in \<open>auto simp: Acquire tabled_def acquire_def valid_now_def Let_def\<close>)
qed

lemma admissions_ok:
  assumes "rate_config c" "stream_ok c as" "tabled before as db" "sorted_wrt not_behind (before @ xs)"
  shows "stream_ok c (as @ admissions c pd xs db)"
  using assms(2-4)
proof (induction xs arbitrary: as before db)
  case (Cons x xs)
  from Cons.prems(3) have "\<forall>y\<in>set before. not_behind y x" by (auto simp: sorted_wrt_append)
  note step = granted_step [OF assms(1) Cons.prems(1,2) this, of pd]
  from Cons.IH [OF step [THEN conjunct1] step [THEN conjunct2]] Cons.prems(3) show ?case by simp
qed simp

lemma granted_bypass:
  assumes "rl_enabled c" "a \<in> set (admissions c pd xs db)" "ad_bypass a"
  shows "ad_class a = Emergency \<and> (\<exists>x\<in>set xs. faulted x)"
  using assms(2)
proof (induction xs arbitrary: db)
  case (Cons x xs)
  have "ad_class a = Emergency \<and> faulted x" if "a \<in> set (granted c x db)"
  proof (cases "(c, x, db)" rule: granted.cases)
    case (1 c' w p ep t fault db')
    then show ?thesis
      using that assms(3) admitted_room [OF assms(1), of w p ep t fault db] 
      by (cases "acquire c w p ep (Fin t) fault db") (auto split: sum.splits if_splits)
  qed (use that in auto)
  with Cons show ?case by auto
qed simp

subsection \<open>Properties\<close>

text \<open>Claim C18: the coordinator keeps every minute within its limits. Let any clients send admissions and exchange responses in any
  interleaving, with any SQLite failures, and let their clocks be steady: no transaction reads a minute more than one before the minute of an
  earlier transaction. Then, of everything that was granted, whatever was since deleted from the table, the weight granted through the
  table in any minute stays within the exchange limit, its trading and background part leaves the emergency reserve free, and its
  background part leaves the trading reserve free too. What was granted around the table are only emergency requests, and only when SQLite
  failed.\<close>

theorem granted_weight_bounds:
  assumes "rate_budget_init l e tr en to = Inr c" "rl_enabled c" "steady xs"
    and "as = admissions c pd xs (initialize_db None)"
  shows "granted_weight UNIV minute as \<le> rl_request_weight_limit c \<and> rl_request_weight_limit c \<le> 2400 \<and>
    granted_weight {Trading, Background} minute as \<le> rl_request_weight_limit c - rl_emergency_reserve c \<and>
    granted_weight {Background} minute as \<le> rl_request_weight_limit c - rl_emergency_reserve c - rl_trading_reserve c \<and>
    (\<forall>a\<in>set as. ad_bypass a \<longrightarrow> ad_class a = Emergency \<and> (\<exists>x\<in>set xs. faulted x))"
proof -
  have c: "rate_config c" using rate_config_init [OF assms(1,2)] .
  then have "stream_ok c []" "tabled [] [] (initialize_db None)"
    by (simp_all add: stream_ok_def tabled_def rate_config_def trading_limit_def background_limit_def initialize_db_def local_used_def)
  from admissions_ok [OF c this, of xs pd] assms(3) have "stream_ok c as" by (simp add: assms(4) steady_def)
  with c granted_bypass [OF assms(2), of _ pd xs] show ?thesis
    by (auto simp: stream_ok_def rate_config_def trading_limit_def background_limit_def assms(4))
qed

definition demo_rate :: rate_budget where
  "demo_rate = \<lparr>rl_enabled = True, rl_request_weight_limit = 100, rl_emergency_reserve = 30,
     rl_trading_reserve = 20, rl_sqlite_timeout_sec = Fin 2\<rparr>"

definition demo_requests :: "rate_op list" where
  "demo_requests = [Acquire 40 ''normal'' ''/depth'' (Fin 600) None, Acquire 40 ''normal'' ''/depth'' (Fin 601) None,
     Acquire 20 ''order'' ''/order'' (Fin 602) None]"

definition demo_db :: rate_db where
  "demo_db = run_ops (rate_step demo_rate (\<lambda>_. None)) demo_requests (initialize_db None)"

lemma demo_rate_init: "rate_budget_init (PInt 100) (PInt 30) (PInt 20) (PBool True) (PFloat (Fin 2)) = Inr demo_rate"
  "rl_enabled demo_rate"
  by code_simp+

text \<open>Two background requests, the second refused, an order, an emergency that bypasses a failed SQLite, a request of the next minute,
  and one of a clock that lags behind by seconds and finds the first minute still full.\<close>

definition demo_stream :: "rate_op list" where
  "demo_stream = demo_requests @ [Acquire 90 ''emergency'' ''/order'' (Fin 610) (Some ''locked''),
     Acquire 40 ''normal'' ''/depth'' (Fin 661) None, Acquire 20 ''order'' ''/order'' (Fin 659) None]"

theorem granted_weight_bounds_witness:
  "granted_weight UNIV 10 (admissions demo_rate (\<lambda>_. None) demo_stream (initialize_db None)) = 60 \<and>
   granted_weight {Trading, Background} 10 (admissions demo_rate (\<lambda>_. None) demo_stream (initialize_db None)) \<le> 70 \<and>
   length (admissions demo_rate (\<lambda>_. None) demo_stream (initialize_db None)) = 4"
proof -
  have "steady demo_stream" "length (admissions demo_rate (\<lambda>_. None) demo_stream (initialize_db None)) = 4"
    "granted_weight UNIV 10 (admissions demo_rate (\<lambda>_. None) demo_stream (initialize_db None)) = 60" by code_simp+
  with granted_weight_bounds [OF demo_rate_init _ refl, of demo_stream 10] show ?thesis by (simp add: demo_rate_def)
qed

text \<open>Claim C32: the emergency reserve is there for emergencies. A valid emergency request of positive weight, at most the exchange limit, is
  granted if no back-off of the exchange is in force, its weight and the emergency weight already spent in the minute fit the
  emergency reserve, and its weight and the exchange's own count for the minute fit the limit; how much trading and background
  weight the clients have spent in the minute plays no part. When SQLite fails it is granted under none of these three conditions.\<close>

theorem emergency_reserve_available:
  assumes "rate_budget_init l e tr en to = Inr c" "rl_enabled c"
    and "db = run_ops (rate_step c pd) xs (initialize_db None)"
    and "priority_of p = Emergency" "0 < w" "w \<le> rl_request_weight_limit c" "0 < now"
    and "fault = None \<longrightarrow> rs_blocked_until (state_row db) \<le> now \<and>
      minute_weight [''emergency''] (minute_bucket now) db + w \<le> rl_emergency_reserve c \<and>
      observed_used (minute_bucket now) db + w \<le> rl_request_weight_limit c"
  shows "\<exists>d. snd (acquire c w p ep (Fin now) fault db) = Inr d \<and> rd_allowed d"
proof (cases fault)
  case (Some exc)
  then show ?thesis using assms by (simp add: acquire_def valid_now_def Let_def)
next
  case None
  let ?b = "minute_bucket now"
  let ?db1 = "db\<lparr>db_attempts := filter (\<lambda>a. \<not> at_minute_bucket a < ?b - 1) (db_attempts db)\<rparr>"
  have t: "table_inv c db" using rate_reach [OF assms(1-3)] by simp
  have loc: "local_used ?b ?db1 = local_used ?b db"
    by (simp add: local_used_def used_weight_filter, rule arg_cong [of _ _ "\<lambda>P. used_weight P _"]) auto
  have "minute_weight [''background''] ?b db + minute_weight [''trading''] ?b db \<le> trading_limit c"
    using t by (simp add: table_inv_def flip: minute_weight_pair)
  moreover have "weights_ok (db_attempts db)" using t by (simp add: table_inv_def)
  ultimately have "local_used ?b db + w \<le> rl_request_weight_limit c"
    using None assms(8) minute_weight_split [of db ?b] by (simp add: trading_limit_def)
  with None assms loc show ?thesis
    by (simp add: acquire_def valid_now_def Let_def acquire_transaction_def allow_def max_def)
qed

theorem emergency_reserve_available_witness:
  "(\<exists>d. snd (acquire demo_rate 30 ''emergency'' ''/allOpenOrders'' (Fin 603) None demo_db) = Inr d \<and> rd_allowed d) \<and>
   (\<exists>d. snd (acquire demo_rate 30 ''emergency'' ''/allOpenOrders'' (Fin 603) (Some ''OperationalError'') demo_db) =
     Inr d \<and> rd_allowed d)"
proof -
  have "priority_of ''emergency'' = Emergency" "rs_blocked_until (state_row demo_db) \<le> 603 \<and>
      minute_weight [''emergency''] (minute_bucket 603) demo_db + 30 \<le> rl_emergency_reserve demo_rate \<and>
      observed_used (minute_bucket 603) demo_db + 30 \<le> rl_request_weight_limit demo_rate"
    by code_simp+
  with emergency_reserve_available [OF demo_rate_init demo_db_def, of "''emergency''" 30 603 None "''/allOpenOrders''"]
    emergency_reserve_available [OF demo_rate_init demo_db_def, of "''emergency''" 30 603
      "Some ''OperationalError''" "''/allOpenOrders''"]
  show ?thesis by (simp add: demo_rate_def)
qed

text \<open>The exchange's back-off is respected. Once a response with status 418 or 429 is recorded,
  no request of any priority is admitted by the coordinator before the back-off has passed, whatever
  other admissions and responses happen in between and whichever client asks.\<close>

theorem retry_after_respected:
  assumes "rl_enabled c" "status = 418 \<or> status = 429" "db_state db \<noteq> None"
    and "record_response c pd headers status (Fin now) None db = (db1, Inr ())"
    and "t < fl (now + retry_delay pd (normalized_headers headers) status now)" "0 < w"
    and "acquire c w p ep (Fin t) None (run_ops (rate_step c pd) xs db1) = (db2, Inr d)"
  shows "\<not> rd_allowed d"
proof -
  let ?r = "retry_delay pd (normalized_headers headers) status now"
  have r: "0 < ?r" using assms(2) until_next_minute_pos by (auto simp: retry_delay_def Let_def not_le)
  obtain u where db1: "db1 = record_transaction u ?r status now db"
    using assms(1,4) r by (auto simp: record_response_def Let_def valid_now_def split: sum.splits if_splits)
  have "db_state db1 \<noteq> None" "fl (now + ?r) \<le> rs_blocked_until (state_row db1)"
    using record_transaction_state(1,3) assms(3) r unfolding db1 by auto
  with block.run_mono [of db1 c pd xs] assms(5) have "t < rs_blocked_until (state_row (run_ops (rate_step c pd) xs db1))"
    by linarith
  with acquire_blocked [OF assms(1,6)] assms(7) show ?thesis by blast
qed

theorem retry_after_respected_witness:
  "\<exists>db1 d. record_response demo_rate (\<lambda>_. None) [] 418 (Fin 603) None demo_db = (db1, Inr ()) \<and>
     snd (acquire demo_rate 1 ''emergency'' ''/order'' (Fin 700) None
       (run_ops (rate_step demo_rate (\<lambda>_. None)) demo_requests db1)) = Inr d \<and> \<not> rd_allowed d"
proof -
  obtain db1 where r: "record_response demo_rate (\<lambda>_. None) [] 418 (Fin 603) None demo_db = (db1, Inr ())"
    by (simp add: record_response_def normalized_headers_def non_negative_int_def demo_rate_def valid_now_def
        retry_delay_def parse_retry_after_def)
  have st: "db_state demo_db \<noteq> None" by code_simp
  have t: "700 < fl (603 + retry_delay (\<lambda>_. None) (normalized_headers []) 418 603)"
    by (simp add: retry_delay_def normalized_headers_def parse_retry_after_def)
  obtain db2 d where a: "acquire demo_rate 1 ''emergency'' ''/order'' (Fin 700) None
      (run_ops (rate_step demo_rate (\<lambda>_. None)) demo_requests db1) = (db2, Inr d)"
    by (cases "acquire_transaction demo_rate 1 (priority_of ''emergency'') ''/order'' 700
          (run_ops (rate_step demo_rate (\<lambda>_. None)) demo_requests db1)")
      (simp add: acquire_def demo_rate_def valid_now_def)
  from retry_after_respected [OF demo_rate_init(2) _ st r t _ a] r a show ?thesis by auto
qed

end
