(* ===== verification/Guard_Replay.thy ===== *)
theory Guard_Replay
  imports Guard_Table Event_Types Op_System
begin

text \<open>
  Recovery of the freeze guards and of the lifecycle from the journal: the guard and lifecycle branches
  of \<open>rebuild_from_log\<close> in \<open>oms/journal_rebuilder.py\<close>, and the journal records that
  \<open>oms/guard_manager.py\<close> writes ahead of every guard change. A journal record is a record
  of the payload fields these branches read; a string field that a payload lacks is empty, a
  missing number is 0. The replay starts from an empty checkpoint, and a write that failed left no record.
\<close>

subsection \<open>Journal records\<close>

record jrec =
  j_kind :: string
  j_symbol :: string
  j_venue :: string
  j_strategy_id :: string
  j_reason :: string
  j_owner :: string
  j_previous_reason :: string
  j_epoch :: int
  j_state :: "string option"
  j_manual_rearm_required :: "bool option"

definition blank_rec :: jrec where
  "blank_rec = \<lparr>j_kind = [], j_symbol = [], j_venue = [], j_strategy_id = [], j_reason = [], j_owner = [],
     j_previous_reason = [], j_epoch = 0, j_state = None, j_manual_rearm_required = None\<rparr>"

record replay =
  rp_symbols :: guard_table
  rp_venues :: guard_table
  rp_strategy_guards :: "(string, string) dict"
  rp_strategy_symbol_guards :: "(string, string) dict"
  rp_last_lifecycle :: "string option"
  rp_last_freeze_reason :: string
  rp_last_halt_reason :: string
  rp_manual_rearm_required :: bool

definition replay_init :: replay where
  "replay_init = \<lparr>rp_symbols = empty_guards, rp_venues = empty_guards, rp_strategy_guards = [],
     rp_strategy_symbol_guards = [], rp_last_lifecycle = None, rp_last_freeze_reason = [],
     rp_last_halt_reason = [], rp_manual_rearm_required = False\<rparr>"

subsection \<open>Replay of one record\<close>

text \<open>The effective reason after a record was replayed; the replay keeps no effective epoch.\<close>

definition replay_effective :: "string \<Rightarrow> guard_table \<Rightarrow> guard_table" where
  "replay_effective k t = (case records_of k t of
      [] \<Rightarrow> t\<lparr>gt_records := ddel k (gt_records t), gt_guards := ddel k (gt_guards t)\<rparr>
    | (_, r) # rs \<Rightarrow> t\<lparr>gt_guards := dset k (fst (newest r rs)) (gt_guards t)\<rparr>)"

definition replay_frozen :: "(string \<Rightarrow> string) \<Rightarrow> string \<Rightarrow> jrec \<Rightarrow> guard_table \<Rightarrow> guard_table" where
  "replay_frozen owner_of key0 j t =
     (let k = upper key0; reason = j_reason j in
      if k = [] \<or> reason = [] then t
      else
        let owner = str_or (j_owner j) (owner_of reason);
            epoch = (if j_epoch j \<le> 0 then dgetd (gt_counters t) k 0 + 1 else j_epoch j);
            records = records_of k t;
            existing_epoch = (case dget records owner of None \<Rightarrow> 0 | Some r \<Rightarrow> snd r);
            records' = (if epoch \<ge> existing_epoch then dset owner (reason, epoch) records else records)
        in replay_effective k
             (t\<lparr>gt_counters := dset k (max epoch (dgetd (gt_counters t) k 0)) (gt_counters t),
               gt_records := dset k records' (gt_records t)\<rparr>))"

definition replay_remaining :: "jrec \<Rightarrow> (string, string \<times> int) dict \<Rightarrow> (string, string \<times> int) dict" where
  "replay_remaining j records =
     (if j_owner j \<noteq> [] then
        (case dget records (j_owner j) of
           None \<Rightarrow> records
         | Some (reason, epoch) \<Rightarrow>
             if (j_epoch j \<le> 0 \<or> epoch = j_epoch j) \<and>
                (j_previous_reason j = [] \<or> reason = j_previous_reason j)
             then ddel (j_owner j) records else records)
      else if j_previous_reason j \<noteq> [] then
        filter (\<lambda>(_, (reason, epoch)).
          \<not> (reason = j_previous_reason j \<and> (j_epoch j \<le> 0 \<or> epoch = j_epoch j))) records
      else [])"

definition replay_cleared :: "string \<Rightarrow> jrec \<Rightarrow> guard_table \<Rightarrow> guard_table" where
  "replay_cleared key0 j t =
     (let k = upper key0 in
      if k = [] then t
      else replay_effective k (t\<lparr>gt_records := dset k (replay_remaining j (records_of k t)) (gt_records t)\<rparr>))"

definition replay_strategy :: "jrec \<Rightarrow> replay \<Rightarrow> replay" where
  "replay_strategy j r =
     (let sid = strip (j_strategy_id j); symbol = upper (j_symbol j); reason = j_reason j;
          pair = sid @ ''|'' @ symbol in
      if j_kind j \<in> {''strategy_frozen'', ''strategy_freeze_reasserted''} then
        (if sid \<noteq> [] \<and> reason \<noteq> [] then
           (if symbol \<noteq> [] then r\<lparr>rp_strategy_symbol_guards := dset pair reason (rp_strategy_symbol_guards r)\<rparr>
            else r\<lparr>rp_strategy_guards := dset sid reason (rp_strategy_guards r)\<rparr>)
         else r)
      else if j_kind j = ''strategy_symbol_frozen'' then
        (if sid \<noteq> [] \<and> symbol \<noteq> [] \<and> reason \<noteq> []
         then r\<lparr>rp_strategy_symbol_guards := dset pair reason (rp_strategy_symbol_guards r)\<rparr> else r)
      else if j_kind j = ''strategy_unfrozen'' then
        (if sid \<noteq> [] \<and> symbol \<noteq> [] then r\<lparr>rp_strategy_symbol_guards := ddel pair (rp_strategy_symbol_guards r)\<rparr>
         else if sid \<noteq> [] then r\<lparr>rp_strategy_guards := ddel sid (rp_strategy_guards r)\<rparr> else r)
      else r)"

definition replay_stopped :: "jrec \<Rightarrow> replay \<Rightarrow> replay" where
  "replay_stopped j r =
     r\<lparr>rp_last_lifecycle := (case j_state j of
         None \<Rightarrow> rp_last_lifecycle r | Some s \<Rightarrow> if s = [] then rp_last_lifecycle r else Some s),
       rp_manual_rearm_required := (rp_manual_rearm_required r \<or> j_manual_rearm_required j = Some True)\<rparr>"

definition replay_lifecycle :: "jrec \<Rightarrow> replay \<Rightarrow> replay" where
  "replay_lifecycle j r =
     (let reason = j_reason j in
      if j_kind j = ''lifecycle'' then
        let r1 = r\<lparr>rp_last_lifecycle := j_state j\<rparr> in
        if j_state j = Some ''FROZEN'' \<and> reason \<noteq> [] then r1\<lparr>rp_last_freeze_reason := reason\<rparr>
        else if j_state j = Some ''HALTED'' then
          r1\<lparr>rp_last_halt_reason := (if reason \<noteq> [] then reason else rp_last_halt_reason r),
             rp_manual_rearm_required := (case j_manual_rearm_required j of None \<Rightarrow> True | Some b \<Rightarrow> b)\<rparr>
        else if j_state j = Some ''LIVE'' then
          r1\<lparr>rp_manual_rearm_required := False, rp_last_halt_reason := [], rp_last_freeze_reason := []\<rparr>
        else r1
      else if j_kind j \<in> {''full_reset_completed'', ''reconcile_cleared'', ''rearm_completed''} then
        let st = (case j_state j of None \<Rightarrow> ''LIVE'' | Some s \<Rightarrow> str_or s ''LIVE'');
            r1 = r\<lparr>rp_last_lifecycle := Some st\<rparr> in
        if st = ''LIVE'' then
          r1\<lparr>rp_manual_rearm_required := False, rp_last_freeze_reason := [],
             rp_last_halt_reason := (if j_kind j = ''rearm_completed'' then [] else rp_last_halt_reason r)\<rparr>
        else r1
      else if j_kind j \<in> {''reconcile_requested'', ''reconcile_started'', ''full_reset_started''} then
        r\<lparr>rp_last_lifecycle := Some ''RECONCILING''\<rparr>
      else if j_kind j \<in> {''bootstrap_guarded'', ''freeze_reasserted''} then
        r\<lparr>rp_last_freeze_reason := (if reason \<noteq> [] then reason else rp_last_freeze_reason r),
          rp_last_lifecycle := (if rp_last_lifecycle r \<noteq> Some ''HALTED'' then Some ''FROZEN'' else rp_last_lifecycle r)\<rparr>
      else if j_kind j = ''halt_reasserted'' then
        r\<lparr>rp_last_lifecycle := Some ''HALTED'',
          rp_last_halt_reason := (if reason \<noteq> [] then reason else rp_last_halt_reason r),
          rp_manual_rearm_required := True\<rparr>
      else if j_kind j = ''oms_stopped'' then
        replay_stopped j r
      else r)"

definition symbol_frozen_kinds :: "string list" where
  "symbol_frozen_kinds = [''symbol_frozen'', ''symbol_freeze_reasserted'']"

definition symbol_cleared_kinds :: "string list" where
  "symbol_cleared_kinds = [''symbol_unfrozen'', ''symbol_guard_cleared'']"

definition venue_frozen_kinds :: "string list" where
  "venue_frozen_kinds = [''venue_frozen'', ''venue_freeze_reasserted'']"

definition venue_cleared_kinds :: "string list" where
  "venue_cleared_kinds = [''venue_unfrozen'', ''venue_guard_cleared'']"

definition replay_record :: "jrec \<Rightarrow> replay \<Rightarrow> replay" where
  "replay_record j r =
     (if j_kind j \<in> set symbol_frozen_kinds
      then r\<lparr>rp_symbols := replay_frozen symbol_guard_owner (j_symbol j) j (rp_symbols r)\<rparr>
      else if j_kind j \<in> set symbol_cleared_kinds
      then r\<lparr>rp_symbols := replay_cleared (j_symbol j) j (rp_symbols r)\<rparr>
      else if j_kind j \<in> set venue_frozen_kinds
      then r\<lparr>rp_venues := replay_frozen venue_guard_owner (j_venue j) j (rp_venues r)\<rparr>
      else if j_kind j \<in> set venue_cleared_kinds
      then r\<lparr>rp_venues := replay_cleared (j_venue j) j (rp_venues r)\<rparr>
      else if j_kind j \<in> {''strategy_frozen'', ''strategy_freeze_reasserted'', ''strategy_symbol_frozen'', ''strategy_unfrozen''}
      then replay_strategy j r
      else replay_lifecycle j r)"

subsection \<open>What the guard manager writes\<close>

text \<open>The symbol and the venue guards differ in the audit kinds, the key field, the owner function and
  the default reason.\<close>

record guard_side =
  gs_frozen :: "string list"
  gs_cleared :: "string list"
  gs_key :: "jrec \<Rightarrow> string"
  gs_set_key :: "string \<Rightarrow> jrec \<Rightarrow> jrec"
  gs_owner :: "string \<Rightarrow> string"
  gs_default :: string

definition symbol_side :: guard_side where
  "symbol_side = \<lparr>gs_frozen = symbol_frozen_kinds, gs_cleared = symbol_cleared_kinds, gs_key = j_symbol,
     gs_set_key = (\<lambda>k j. j\<lparr>j_symbol := k\<rparr>), gs_owner = symbol_guard_owner, gs_default = ''symbol_guarded''\<rparr>"

definition venue_side :: guard_side where
  "venue_side = \<lparr>gs_frozen = venue_frozen_kinds, gs_cleared = venue_cleared_kinds, gs_key = j_venue,
     gs_set_key = (\<lambda>k j. j\<lparr>j_venue := k\<rparr>), gs_owner = venue_guard_owner, gs_default = ''venue_guarded''\<rparr>"

definition freeze_journal :: "guard_side \<Rightarrow> string \<Rightarrow> string \<Rightarrow> guard_table \<Rightarrow> jrec" where
  "freeze_journal sd k reason t =
     (let t1 = ensure_records (gs_owner sd) k t; owner = gs_owner sd reason;
          previous_owner_reason = (case dget (records_of k t1) owner of None \<Rightarrow> [] | Some r \<Rightarrow> fst r) in
      gs_set_key sd k (blank_rec\<lparr>
        j_kind := (if previous_owner_reason \<noteq> reason then gs_frozen sd ! 0 else gs_frozen sd ! 1),
        j_reason := reason, j_previous_reason := dgetd (gt_guards t) k [], j_owner := owner,
        j_epoch := next_epoch k t1\<rparr>))"

text \<open>A clear that selects exactly one record, and what it writes.\<close>

definition clear_target ::
  "guard_side \<Rightarrow> string \<Rightarrow> string option \<Rightarrow> int option \<Rightarrow> string \<Rightarrow> guard_table \<Rightarrow> (string \<times> string \<times> int) option" where
  "clear_target sd k expected_reason expected_epoch expected_owner t =
     (case clear_candidates expected_reason expected_epoch expected_owner
             (records_of k (ensure_records (gs_owner sd) k t)) of
        [target] \<Rightarrow> Some target
      | _ \<Rightarrow> None)"

definition clear_journal ::
  "guard_side \<Rightarrow> string \<Rightarrow> string \<Rightarrow> string \<times> string \<times> int \<Rightarrow> guard_table \<Rightarrow> jrec" where
  "clear_journal sd k why target t =
     (case target of (owner, reason, epoch) \<Rightarrow>
        let remaining = filter (\<lambda>(ow, _). ow \<noteq> owner) (records_of k (ensure_records (gs_owner sd) k t)) in
        gs_set_key sd k (blank_rec\<lparr>
          j_kind := (if remaining \<noteq> [] then gs_cleared sd ! 1 else gs_cleared sd ! 0),
          j_reason := str_or why reason, j_previous_reason := reason, j_owner := owner, j_epoch := epoch\<rparr>))"

text \<open>The reason a journal failure latches: the reason an earlier failure sealed the gate with, if there is one.\<close>

definition latch_reason :: "string \<Rightarrow> string \<Rightarrow> string \<Rightarrow> string" where
  "latch_reason context exc seal = str_or seal (''durable_journal_unavailable:'' @ context @ '':'' @ exc)"

datatype guard_cmd =
    Freeze_key string string bool
  | Clear_key string string "string option" "int option" string bool
  | Latch_key string string string string

text \<open>
  One command on a table with its journal. A freeze and a conditional clear write their record first; the flag says whether the
  journal took it, and where it did not the call raises with the table as \<open>_ensure_*_guard_records_locked\<close> left it.
  \<open>Latch_key\<close> is the guard that \<open>_latch_journal_failure_locked\<close> installs with no record at all; its last argument is the seal reason that
  an earlier journal failure left, empty if there is none. The last component collects the keys and owners whose guard stands without a record;
  the program has no such variable.
\<close>

fun guard_cmd_step ::
  "guard_side \<Rightarrow> guard_cmd \<Rightarrow> guard_table \<times> jrec list \<times> (string \<times> string) set \<Rightarrow> guard_table \<times> jrec list \<times> (string \<times> string) set" where
  "guard_cmd_step sd (Freeze_key k reason ok) (t, js, lost) =
     (if k = [] then (t, js, lost)
      else let k' = upper k; reason' = str_or reason (gs_default sd) in
        if ok then (install_guard (gs_owner sd) k' reason' t, js @ [freeze_journal sd k' reason' t],
                    lost - {(k', gs_owner sd reason')})
        else (ensure_records (gs_owner sd) k' t, js, lost))"
| "guard_cmd_step sd (Clear_key k why er ee eo ok) (t, js, lost) =
     (if k = [] then (t, js, lost)
      else let k' = upper k; t1 = ensure_records (gs_owner sd) k' t in
        case clear_target sd k' er ee eo t of
          None \<Rightarrow> (t1, js, lost)
        | Some tg \<Rightarrow>
            if ok then (release_guard k' (fst tg) t1, js @ [clear_journal sd k' why tg t], lost - {(k', fst tg)})
            else (t1, js, lost))"
| "guard_cmd_step sd (Latch_key k context exc seal) (t, js, lost) =
     (if k = [] then (t, js, lost)
      else let k' = upper k; t1 = ensure_records (gs_owner sd) k' t;
               reason = latch_reason context exc seal; owner = gs_owner sd reason in
        if dget (records_of k' t1) owner \<noteq> None then (t1, js, lost)
        else (commit_guard k' owner reason (next_epoch k' t1) t1, js, insert (k', owner) lost))"

subsection \<open>The replayed table simulates the live one\<close>

definition replay_side :: "guard_side \<Rightarrow> jrec \<Rightarrow> guard_table \<Rightarrow> guard_table" where
  "replay_side sd j t =
     (if j_kind j \<in> set (gs_frozen sd) then replay_frozen (gs_owner sd) (gs_key sd j) j t
      else if j_kind j \<in> set (gs_cleared sd) then replay_cleared (gs_key sd j) j t else t)"

definition live_ok :: "guard_table \<Rightarrow> bool" where
  "live_ok t \<longleftrightarrow> gt_wf t \<and> (\<forall>k. 0 \<le> dgetd (gt_counters t) k 0 \<and>
     distinct (map (snd \<circ> snd) (records_of k t)) \<and>
     (\<forall>ow r e. (ow, (r, e)) \<in> set (records_of k t) \<longrightarrow> r \<noteq> [] \<and> 0 < e))"

text \<open>A replayed table is coherent when each key's reason is the one of its newest record, and it follows a live table when it has
  exactly the records of the live table whose guard did not go without a record, and its epoch counters are not ahead.\<close>

definition replay_agree :: "string \<Rightarrow> guard_table \<Rightarrow> bool" where
  "replay_agree k rt \<longleftrightarrow> wf_dict (records_of k rt) \<and>
     dget (gt_guards rt) k = (case records_of k rt of [] \<Rightarrow> None | (_, r) # rs \<Rightarrow> Some (fst (newest r rs)))"

definition follows :: "(string \<times> string) set \<Rightarrow> guard_table \<Rightarrow> guard_table \<Rightarrow> bool" where
  "follows lost rt t \<longleftrightarrow> (\<forall>k. replay_agree k rt \<and> dgetd (gt_counters rt) k 0 \<le> dgetd (gt_counters t) k 0 \<and>
     (\<forall>ow. dget (records_of k rt) ow = (if (k, ow) \<in> lost then None else dget (records_of k t) ow)))"

lemma replay_effective_frame [simp]:
  "records_of j (replay_effective k t) = records_of j t"
  "gt_counters (replay_effective k t) = gt_counters t"
  by (auto simp: replay_effective_def split: list.splits)

lemma replay_agree_effective:
  assumes "wf_dict (records_of k rt)" "j \<noteq> k \<Longrightarrow> replay_agree j rt"
  shows "replay_agree j (replay_effective k rt)"
proof (cases "j = k")
  case True
  with assms(1) show ?thesis
    by (cases "records_of k rt") (auto simp: replay_agree_def replay_effective_def)
next
  case False
  then have "dget (gt_guards (replay_effective k rt)) j = dget (gt_guards rt) j"
    by (cases "records_of k rt") (auto simp: replay_effective_def)
  with assms(2) [OF False] show ?thesis by (simp add: replay_agree_def)
qed

text \<open>The newest record is the same for two dictionaries with the same content, as no two records of a key share an epoch.\<close>

lemma newest_content:
  assumes "wf_dict (x # xs)" "wf_dict (y # ys)" "map_of (x # xs) = map_of (y # ys)" "distinct (map (snd \<circ> snd) (y # ys))"
  shows "newest (snd x) xs = newest (snd y) ys"
proof -
  have content: "set (x # xs) = set (y # ys)" using assms(1-3) by (metis map_of_inject_set)
  have "newest (snd y) ys \<in> snd ` set (y # ys)" using newest_in [of "snd y" ys] by simp
  then obtain ow where mem: "(ow, newest (snd y) ys) \<in> set (y # ys)" by fastforce
  have "r = newest (snd y) ys \<or> snd r < snd (newest (snd y) ys)" if "(o', r) \<in> set (y # ys)" for o' r
  proof -
    have "snd r \<le> snd (newest (snd y) ys)" using that newest_ge(1) [of "snd y" ys] newest_ge(2) [of r ys "snd y"] by force
    moreover have "(o', r) = (ow, newest (snd y) ys)" if "snd r = snd (newest (snd y) ys)"
      using inj_onD [OF distinct_map [THEN iffD1, OF assms(4), THEN conjunct2], of "(o', r)" "(ow, newest (snd y) ys)"]
        that mem \<open>(o', r) \<in> set (y # ys)\<close> by simp
    ultimately show ?thesis by force
  qed
  with mem content show ?thesis by (intro newest_unique) auto
qed

lemma follows_effective:
  assumes "follows lost rt t" "live_ok t" "\<forall>ow. (k, ow) \<notin> lost"
  shows "dget (gt_guards rt) k = dget (gt_guards t) k"
proof -
  have rt: "replay_agree k rt" and eq: "map_of (records_of k rt) = map_of (records_of k t)"
    using assms(1,3) by (auto simp: follows_def)
  have t: "guards_agree k t" "wf_dict (records_of k t)" "distinct (map (snd \<circ> snd) (records_of k t))"
    using assms(2) by (auto simp: live_ok_def gt_wf_def records_ok_def)
  show ?thesis
  proof (cases "records_of k rt")
    case Nil
    then have "records_of k t = []" using eq by (metis map_of_eq_empty_iff)
    with Nil rt t(1) show ?thesis by (simp add: replay_agree_def guards_agree_def)
  next
    case (Cons x xs)
    then obtain y ys where y: "records_of k t = y # ys" using eq by (metis map_of_eq_empty_iff list.exhaust)
    with Cons rt eq t(2,3) have "newest (snd x) xs = newest (snd y) ys"
      by (intro newest_content) (simp_all add: replay_agree_def)
    with Cons y rt t(1) show ?thesis by (auto simp: replay_agree_def guards_agree_def split: prod.splits)
  qed
qed

lemma candidates_in_records:
  "clear_candidates er ee eo records = [x] \<Longrightarrow> x \<in> set records"
proof -
  have "set (clear_candidates er ee eo records) \<subseteq> set records"
    by (auto simp: clear_candidates_def map_of_SomeD split: option.splits if_splits)
  then show "clear_candidates er ee eo records = [x] \<Longrightarrow> x \<in> set records" by auto
qed

lemma remaining_is_delete:
  assumes "live_ok t" "(ow, (r, e)) \<in> set (records_of k t)" "wf_dict R" "set R \<subseteq> set (records_of k t)"
    and "j_owner j = ow" "j_previous_reason j = r" "j_epoch j = e"
  shows "replay_remaining j R = ddel ow R"
proof -
  have wf: "wf_dict (records_of k t)" and d: "distinct (map (snd \<circ> snd) (records_of k t))"
    and re: "r \<noteq> []" "0 < e"
    using assms(1,2) by (auto simp: live_ok_def gt_wf_def records_ok_def)
  have epoch: "x = (ow, (r, e))" if "x \<in> set (records_of k t)" "snd (snd x) = e" for x
    using d assms(2) that by (force simp: distinct_map inj_on_def)
  have key: "x = (ow, (r, e))" if "x \<in> set (records_of k t)" "fst x = ow" for x
    using wf assms(2) that by (metis eq_key_imp_eq_value prod.collapse)
  have sel: "(fst (snd x) = r \<and> snd (snd x) = e) = (fst x = ow)" if "x \<in> set R" for x
  proof -
    from that assms(4) have "x \<in> set (records_of k t)" by blast
    from epoch [OF this] key [OF this] show ?thesis by (metis fst_conv snd_conv)
  qed
  show ?thesis
  proof (cases "ow = []")
    case True
    from sel have "filter (\<lambda>x. \<not> (fst (snd x) = r \<and> snd (snd x) = e)) R = filter (\<lambda>x. fst x \<noteq> ow) R"
      by (intro filter_cong refl) simp
    then show ?thesis using True re assms(5-7) by (simp add: replay_remaining_def AList.delete_eq case_prod_unfold neq_commute [of "[]"])
  next
    case named: False
    show ?thesis
    proof (cases "dget R ow")
      case None
      then have "ddel ow R = R" by (intro AList.delete_id) (simp add: map_of_eq_None_iff)
      with None named show ?thesis by (simp add: replay_remaining_def assms(5))
    next
      case (Some x)
      with assms(4) key [of "(ow, x)"] have "x = (r, e)" by (auto dest: map_of_SomeD)
      with Some named show ?thesis by (simp add: replay_remaining_def assms(5-7))
    qed
  qed
qed

lemma install_live_ok:
  assumes "live_ok t" "reason \<noteq> []"
  shows "live_ok (install_guard owner k reason t)"
proof -
  have wf: "gt_wf t" using assms(1) by (simp add: live_ok_def)
  note ens = ensure_records_wf [OF wf]
  let ?n = "next_epoch k (ensure_records owner k t)"
  have n: "e < ?n" if "(ow, (r, e)) \<in> set (records_of k t)" for ow r e
    using next_epoch_gt(2) [of ow r e k "ensure_records owner k t"] that by (simp add: ens)
  have "0 \<le> dgetd (gt_counters t) k 0" using assms(1) by (simp add: live_ok_def)
  then have pos: "0 < ?n" using next_epoch_gt(1) [of "ensure_records owner k t" k] by (simp add: ens)
  have dist: "distinct (map (snd \<circ> snd) (dset ow (r, m) d))"
    if "distinct (map (snd \<circ> snd) d)" "\<And>o' r e. (o', (r, e)) \<in> set d \<Longrightarrow> e < m"
    for ow :: string and r :: string and m :: int and d
    using that
  proof (induction d)
    case (Cons x d)
    have lt: "snd (snd y) < m" if "y \<in> set (x # d)" for y
      using Cons.prems(2) [of "fst y" "fst (snd y)" "snd (snd y)"] that by simp
    have "distinct (map (snd \<circ> snd) (dset ow (r, m) d))"
    proof (rule Cons.IH)
      show "distinct (map (snd \<circ> snd) d)" using Cons.prems(1) by (simp add: comp_def)
      show "e < m" if "(o', (r, e)) \<in> set d" for o' r e using lt [of "(o', (r, e))"] that by simp
    qed
    moreover have "snd (snd x) \<notin> (snd \<circ> snd) ` set (dset ow (r, m) d)"
      using Cons.prems(1) lt [of x] by (auto dest!: mem_dset)
    moreover have "m \<notin> (snd \<circ> snd) ` set d" using lt by fastforce
    ultimately show ?case using Cons.prems(1) by (cases x) (simp add: comp_def)
  qed simp
  have recs: "records_of j (install_guard owner k reason t) =
      (if j = k then dset (owner reason) (reason, ?n) (records_of k t) else records_of j t)" for j
    by (simp add: install_guard_def commit_guard_def Let_def ens)
  have cnt: "dgetd (gt_counters (install_guard owner k reason t)) j 0 = (if j = k then ?n else dgetd (gt_counters t) j 0)" for j
    by (simp add: install_guard_def commit_guard_def Let_def ens)
  have "distinct (map (snd \<circ> snd) (dset (owner reason) (reason, ?n) (records_of k t)))"
    using assms(1) n by (intro dist) (auto simp: live_ok_def)
  moreover have "r \<noteq> [] \<and> 0 < e" if "(ow, (r, e)) \<in> set (dset (owner reason) (reason, ?n) (records_of k t))" for ow r e
    using mem_dset [OF that] pos assms by (auto simp: live_ok_def)
  ultimately show ?thesis
    using assms(1) gt_wf_install [OF wf, of owner k reason] pos
    unfolding live_ok_def recs cnt by auto
qed

lemma release_live_ok:
  assumes "live_ok t" shows "live_ok (release_guard k ow t)"
proof -
  have recs: "records_of j (release_guard k ow t) = (if j = k then ddel ow (records_of k t) else records_of j t)"
    and cnt: "gt_counters (release_guard k ow t) = gt_counters t" for j
    by (simp_all add: release_guard_def)
  have "distinct (map (snd \<circ> snd) (ddel ow (records_of k t)))"
    using assms by (auto simp: live_ok_def AList.delete_eq distinct_map_filter)
  with assms gt_wf_release [of t k ow] show ?thesis
    unfolding live_ok_def recs cnt by auto
qed

lemma ensure_live_ok:
  assumes "live_ok t"
  shows "live_ok (ensure_records owner k t)" "follows lost rt (ensure_records owner k t) = follows lost rt t"
  using assms ensure_records_wf [of t] gt_wf_ensure [of t owner k]
  by (auto simp: live_ok_def follows_def)

locale guard_journal =
  fixes sd :: guard_side
  assumes set_key [simp]: "gs_key sd (gs_set_key sd k j) = k" "j_kind (gs_set_key sd k j) = j_kind j"
      "j_reason (gs_set_key sd k j) = j_reason j" "j_owner (gs_set_key sd k j) = j_owner j"
      "j_previous_reason (gs_set_key sd k j) = j_previous_reason j" "j_epoch (gs_set_key sd k j) = j_epoch j"
    and two_kinds: "length (gs_frozen sd) = 2" "length (gs_cleared sd) = 2"
    and kinds_disjoint: "set (gs_frozen sd) \<inter> set (gs_cleared sd) = {}"
    and default_reason: "gs_default sd \<noteq> []"
begin

lemma frozen_kind: "gs_frozen sd ! 0 \<in> set (gs_frozen sd)" "gs_frozen sd ! 1 \<in> set (gs_frozen sd)"
  using two_kinds by simp_all

lemma cleared_kind:
  "gs_cleared sd ! 0 \<in> set (gs_cleared sd) - set (gs_frozen sd)"
  "gs_cleared sd ! 1 \<in> set (gs_cleared sd) - set (gs_frozen sd)"
proof -
  have "gs_cleared sd ! 0 \<in> set (gs_cleared sd)" "gs_cleared sd ! 1 \<in> set (gs_cleared sd)"
    using two_kinds by simp_all
  with kinds_disjoint show "gs_cleared sd ! 0 \<in> set (gs_cleared sd) - set (gs_frozen sd)"
    "gs_cleared sd ! 1 \<in> set (gs_cleared sd) - set (gs_frozen sd)" by auto
qed

lemma replay_freeze:
  assumes "live_ok t" "follows lost rt t" "k \<noteq> []" "upper k = k" "reason \<noteq> []"
  shows "follows (lost - {(k, gs_owner sd reason)}) (replay_side sd (freeze_journal sd k reason t) rt)
    (install_guard (gs_owner sd) k reason t)"
proof -
  have wf: "gt_wf t" using assms(1) by (simp add: live_ok_def)
  note ens = ensure_records_wf [OF wf]
  let ?j = "freeze_journal sd k reason t" and ?ow = "gs_owner sd reason"
  let ?t1 = "ensure_records (gs_owner sd) k t" and ?n = "next_epoch k (ensure_records (gs_owner sd) k t)"
  have j: "j_reason ?j = reason" "j_owner ?j = ?ow" "j_epoch ?j = ?n" "gs_key sd ?j = k" "j_kind ?j \<in> set (gs_frozen sd)"
    by (simp_all add: freeze_journal_def Let_def frozen_kind [unfolded One_nat_def])
  have "0 \<le> dgetd (gt_counters t) k 0" using assms(1) by (simp add: live_ok_def)
  then have pos: "0 < ?n" "dgetd (gt_counters t) k 0 < ?n"
    using next_epoch_gt(1) [of ?t1 k] by (simp_all add: ens)
  have rt: "\<And>i. replay_agree i rt" "\<And>i. dgetd (gt_counters rt) i 0 \<le> dgetd (gt_counters t) i 0"
    "\<And>i ow. dget (records_of i rt) ow = (if (i, ow) \<in> lost then None else dget (records_of i t) ow)"
    using assms(2) by (auto simp: follows_def)
  have max: "max ?n (dgetd (gt_counters rt) k 0) = ?n" using rt(2) [of k] pos(2) by simp
  have old: "(case dget (records_of k rt) ?ow of None \<Rightarrow> 0 | Some r \<Rightarrow> snd r) \<le> ?n"
    using pos(1) next_epoch_gt(2) [of ?ow _ _ k ?t1]
    by (auto simp: rt(3) ens less_imp_le split: option.split dest!: map_of_SomeD)
  have own: "str_or ?ow (gs_owner sd reason) = ?ow" by (simp add: str_or_def)
  let ?rt = "rt\<lparr>gt_counters := dset k ?n (gt_counters rt),
      gt_records := dset k (dset ?ow (reason, ?n) (records_of k rt)) (gt_records rt)\<rparr>"
  have rep: "replay_side sd ?j rt = replay_effective k ?rt"
    using assms(3-5) pos old max j by (simp add: replay_side_def replay_frozen_def Let_def own)
  have live: "records_of i (install_guard (gs_owner sd) k reason t) =
      (if i = k then dset ?ow (reason, ?n) (records_of k t) else records_of i t)"
    "dgetd (gt_counters (install_guard (gs_owner sd) k reason t)) i 0 = (if i = k then ?n else dgetd (gt_counters t) i 0)" for i
    by (simp_all add: install_guard_def commit_guard_def Let_def ens)
  have "replay_agree i (replay_effective k ?rt)" for i
    using rt(1) [of i] rt(1) [of k] by (intro replay_agree_effective) (auto simp: replay_agree_def)
  then show ?thesis unfolding rep follows_def by (auto simp: live rt)
qed

lemma replay_clear:
  assumes "live_ok t" "follows lost rt t" "k \<noteq> []" "upper k = k" "clear_target sd k er ee eo t = Some tg"
  shows "follows (lost - {(k, fst tg)}) (replay_side sd (clear_journal sd k why tg t) rt)
    (release_guard k (fst tg) (ensure_records (gs_owner sd) k t))"
proof -
  have wf: "gt_wf t" using assms(1) by (simp add: live_ok_def)
  note ens = ensure_records_wf [OF wf]
  obtain ow r e where tg: "tg = (ow, (r, e))" by (metis prod.collapse)
  have mem: "(ow, (r, e)) \<in> set (records_of k t)"
    using assms(5) candidates_in_records tg by (auto simp: clear_target_def ens split: list.splits)
  let ?j = "clear_journal sd k why tg t"
  have j: "j_owner ?j = ow" "j_previous_reason ?j = r" "j_epoch ?j = e" "gs_key sd ?j = k"
      "j_kind ?j \<in> set (gs_cleared sd)" "j_kind ?j \<notin> set (gs_frozen sd)"
    using cleared_kind by (auto simp: clear_journal_def tg Let_def)
  have rt: "\<And>i. replay_agree i rt" "\<And>i. dgetd (gt_counters rt) i 0 \<le> dgetd (gt_counters t) i 0"
    "\<And>i ow. dget (records_of i rt) ow = (if (i, ow) \<in> lost then None else dget (records_of i t) ow)"
    using assms(2) by (auto simp: follows_def)
  have wfR: "wf_dict (records_of k rt)" using rt(1) [of k] by (simp add: replay_agree_def)
  have sub: "set (records_of k rt) \<subseteq> set (records_of k t)"
  proof
    fix x assume "x \<in> set (records_of k rt)"
    then have "dget (records_of k rt) (fst x) = Some (snd x)" using wf_dict_mem [OF wfR, of "fst x" "snd x"] by simp
    then have "dget (records_of k t) (fst x) = Some (snd x)" by (simp add: rt(3) split: if_splits)
    then show "x \<in> set (records_of k t)" by (metis map_of_SomeD prod.collapse)
  qed
  let ?rt = "rt\<lparr>gt_records := dset k (ddel ow (records_of k rt)) (gt_records rt)\<rparr>"
  have rep: "replay_side sd ?j rt = replay_effective k ?rt"
    using assms(3,4) j remaining_is_delete [OF assms(1) mem wfR sub j(1-3)]
    by (simp add: replay_side_def replay_cleared_def Let_def)
  have "replay_agree i (replay_effective k ?rt)" for i
    using rt(1) [of i] wfR by (intro replay_agree_effective) (auto simp: replay_agree_def)
  then show ?thesis
    unfolding rep follows_def by (auto simp: release_guard_def tg ens rt)
qed

lemma unrecorded_freeze:
  assumes "live_ok t" "follows lost rt t" "dget (records_of k t) (gs_owner sd reason) = None"
  shows "follows (insert (k, gs_owner sd reason) lost) rt (install_guard (gs_owner sd) k reason t)"
proof -
  have wf: "gt_wf t" using assms(1) by (simp add: live_ok_def)
  have "dgetd (gt_counters rt) k 0 \<le> dgetd (gt_counters t) k 0" using assms(2) by (simp add: follows_def)
  also have "\<dots> \<le> next_epoch k (ensure_records (gs_owner sd) k t)"
    using next_epoch_gt(1) [of "ensure_records (gs_owner sd) k t" k] by (simp add: ensure_records_wf [OF wf])
  finally have "dgetd (gt_counters rt) k 0 \<le> next_epoch k (ensure_records (gs_owner sd) k t)" .
  moreover have "dget (records_of i rt) ow = (if (i, ow) \<in> lost then None else dget (records_of i t) ow)"
    "dgetd (gt_counters rt) i 0 \<le> dgetd (gt_counters t) i 0" "replay_agree i rt" for i ow
    using assms(2) by (auto simp: follows_def)
  ultimately show ?thesis
    unfolding follows_def using assms(3)
    by (auto simp: install_guard_def commit_guard_def Let_def ensure_records_wf [OF wf])
qed

definition journalled :: "guard_table \<times> jrec list \<times> (string \<times> string) set \<Rightarrow> bool" where
  "journalled s \<longleftrightarrow> (case s of (t, js, lost) \<Rightarrow> live_ok t \<and> follows lost (fold (replay_side sd) js empty_guards) t)"

lemma journalled_step: "journalled s \<Longrightarrow> journalled (guard_cmd_step sd c s)"
proof -
  assume s: "journalled s"
  obtain t js lost where ts: "s = (t, js, lost)" by (metis prod.collapse)
  have ok: "live_ok t" and sim: "follows lost (fold (replay_side sd) js empty_guards) t"
    using s ts by (auto simp: journalled_def)
  note ens = ensure_live_ok [OF ok] ensure_records_wf [of t]
  show ?thesis
  proof (cases c)
    case (Freeze_key k reason okay)
    have "str_or reason (gs_default sd) \<noteq> []" using default_reason by (simp add: str_or_def)
    then show ?thesis
      using ts s ens sim install_live_ok [OF ok] replay_freeze [OF ok sim, of "upper k"]
      by (cases "k = []") (simp_all add: Freeze_key Let_def journalled_def)
  next
    case (Clear_key k why er ee eo okay)
    show ?thesis
      using ts s ens sim release_live_ok replay_clear [OF ok sim, of "upper k"]
      by (cases "k = []") (auto simp: Clear_key Let_def journalled_def split: option.split)
  next
    case (Latch_key k ctx exc seal)
    let ?reason = "latch_reason ctx exc seal"
    have wf: "gt_wf t" using ok by (simp add: live_ok_def)
    have "?reason \<noteq> []" by (simp add: latch_reason_def str_or_def)
    then have "live_ok (install_guard (gs_owner sd) (upper k) ?reason t)" by (rule install_live_ok [OF ok])
    with ts s ens(1,2) sim unrecorded_freeze [OF ok sim, of "upper k" ?reason] show ?thesis
      by (cases "k = []"; cases "dget (records_of (upper k) t) (gs_owner sd ?reason)")
        (simp_all add: Latch_key Let_def journalled_def ensure_records_wf [OF wf] install_guard_def)
  qed
qed

lemma nothing_lost:
  assumes "\<forall>k context exc seal. Latch_key k context exc seal \<notin> set cmds" "snd (snd s) = {}"
  shows "snd (snd (run_ops (guard_cmd_step sd) cmds s)) = {}"
  using assms
proof (induction cmds arbitrary: s)
  case (Cons c cmds)
  obtain t js lost where s: "s = (t, js, lost)" by (metis prod.collapse)
  have "snd (snd (guard_cmd_step sd c s)) = {}"
    using Cons.prems s by (cases c) (auto simp: Let_def split: option.split)
  with Cons show ?case by simp
qed simp

end

interpretation symbols: guard_journal symbol_side
  by unfold_locales (simp_all add: symbol_side_def symbol_frozen_kinds_def symbol_cleared_kinds_def)

interpretation venues: guard_journal venue_side
  by unfold_locales (simp_all add: venue_side_def venue_frozen_kinds_def venue_cleared_kinds_def)

interpretation symbol_run: invariant_system "guard_cmd_step symbol_side" symbols.journalled
  by unfold_locales (rule symbols.journalled_step)

interpretation venue_run: invariant_system "guard_cmd_step venue_side" venues.journalled
  by unfold_locales (rule venues.journalled_step)

lemma journalled_init:
  "symbols.journalled (empty_guards, [], {})" "venues.journalled (empty_guards, [], {})"
  by (simp_all add: symbols.journalled_def venues.journalled_def live_ok_def follows_def replay_agree_def)
    (simp_all add: empty_guards_def records_of_def)

text \<open>Whatever else is in the journal, the symbol table depends on the symbol records only, and the venue
  table on the venue records.\<close>

lemma kind_lists:
  "set symbol_frozen_kinds \<inter> set venue_frozen_kinds = {}" "set symbol_frozen_kinds \<inter> set venue_cleared_kinds = {}"
  "set symbol_cleared_kinds \<inter> set venue_frozen_kinds = {}" "set symbol_cleared_kinds \<inter> set venue_cleared_kinds = {}"
  by (simp_all add: symbol_frozen_kinds_def symbol_cleared_kinds_def venue_frozen_kinds_def venue_cleared_kinds_def)

lemma other_records_frame:
  "rp_symbols (replay_strategy j r) = rp_symbols r" "rp_venues (replay_strategy j r) = rp_venues r"
  "rp_symbols (replay_lifecycle j r) = rp_symbols r" "rp_venues (replay_lifecycle j r) = rp_venues r"
  by (simp_all add: replay_strategy_def replay_lifecycle_def replay_stopped_def Let_def)

lemma replay_record_tables:
  "rp_symbols (replay_record j r) = replay_side symbol_side j (rp_symbols r)"
  "rp_venues (replay_record j r) = replay_side venue_side j (rp_venues r)"
proof -
  show "rp_symbols (replay_record j r) = replay_side symbol_side j (rp_symbols r)"
    by (simp add: replay_record_def replay_side_def symbol_side_def other_records_frame)
  consider "j_kind j \<in> set symbol_frozen_kinds \<union> set symbol_cleared_kinds"
    | "j_kind j \<notin> set symbol_frozen_kinds" "j_kind j \<notin> set symbol_cleared_kinds" by blast
  then show "rp_venues (replay_record j r) = replay_side venue_side j (rp_venues r)"
  proof cases
    case 1
    then have "j_kind j \<notin> set venue_frozen_kinds" "j_kind j \<notin> set venue_cleared_kinds"
      using kind_lists by blast+
    with 1 show ?thesis by (auto simp: replay_record_def replay_side_def venue_side_def)
  next
    case 2
    then show ?thesis by (simp add: replay_record_def replay_side_def venue_side_def other_records_frame)
  qed
qed

definition side_kinds :: "guard_side \<Rightarrow> string set" where
  "side_kinds sd = set (gs_frozen sd) \<union> set (gs_cleared sd)"

lemma replay_side_filter:
  "fold (replay_side sd) js t = fold (replay_side sd) (filter (\<lambda>j. j_kind j \<in> side_kinds sd) js) t"
  by (induction js arbitrary: t) (auto simp: replay_side_def side_kinds_def)

lemma replay_tables:
  "rp_symbols (fold replay_record js r) = fold (replay_side symbol_side) js (rp_symbols r)"
  "rp_venues (fold replay_record js r) = fold (replay_side venue_side) js (rp_venues r)"
  by (induction js arbitrary: r) (simp_all add: replay_record_tables)

subsection \<open>Properties\<close>

text \<open>Claim C10: a restart recovers every freeze that reached the journal, and only those. Let the symbol and the venue commands run in any
  order and number, each journal write succeed or fail, and every failure latch its symbol without a record; let the journal interleave
  the records of both sides with any other records, each side in the order it was written. Replay the journal from nothing. Then every
  owner that froze a venue, and every owner that froze a symbol except a guard a journal failure itself installed, has the same reason and epoch
  as in the running system; such an unrecorded guard is not recovered and nothing stands in its place; and a venue, and a symbol without one,
  shows the same effective reason.\<close>

theorem guard_replay_exact:
  assumes "(st, sjs, lost) = run_ops (guard_cmd_step symbol_side) scmds (empty_guards, [], {})"
    and "(vt, vjs, none) = run_ops (guard_cmd_step venue_side) vcmds (empty_guards, [], {})"
    and "\<forall>k context exc seal. Latch_key k context exc seal \<notin> set vcmds"
    and "filter (\<lambda>j. j_kind j \<in> side_kinds symbol_side) journal = sjs"
    and "filter (\<lambda>j. j_kind j \<in> side_kinds venue_side) journal = vjs"
    and "r = fold replay_record journal replay_init"
  shows "dget (records_of k (rp_symbols r)) ow = (if (k, ow) \<in> lost then None else dget (records_of k st) ow) \<and>
    ((\<forall>ow. (k, ow) \<notin> lost) \<longrightarrow> dget (gt_guards (rp_symbols r)) k = dget (gt_guards st) k) \<and>
    dget (records_of k (rp_venues r)) ow = dget (records_of k vt) ow \<and>
    dget (gt_guards (rp_venues r)) k = dget (gt_guards vt) k"
proof -
  have "symbols.journalled (st, sjs, lost)" "venues.journalled (vt, vjs, none)"
    using symbol_run.run_inv [OF journalled_init(1)] venue_run.run_inv [OF journalled_init(2)] assms(1,2) by metis+
  moreover have "none = {}" using venues.nothing_lost [OF assms(3), of "(empty_guards, [], {})"] assms(2) by (metis snd_conv)
  moreover have "rp_symbols r = fold (replay_side symbol_side) sjs empty_guards"
    "rp_venues r = fold (replay_side venue_side) vjs empty_guards"
    using replay_side_filter [of symbol_side journal empty_guards] replay_side_filter [of venue_side journal empty_guards]
    by (simp_all add: assms(4-6) replay_tables replay_init_def)
  ultimately have f: "follows lost (rp_symbols r) st" "live_ok st" "follows {} (rp_venues r) vt" "live_ok vt"
    by (simp_all add: symbols.journalled_def venues.journalled_def)
  have "(\<forall>ow. (k, ow) \<notin> lost) \<longrightarrow> dget (gt_guards (rp_symbols r)) k = dget (gt_guards st) k"
    "dget (gt_guards (rp_venues r)) k = dget (gt_guards vt) k"
    using follows_effective [OF f(1,2)] follows_effective [OF f(3,4)] by simp_all
  with f(1,3) show ?thesis by (simp add: follows_def)
qed

definition demo_cmds :: "guard_cmd list" where
  "demo_cmds = [Freeze_key ''btcusdt'' ''latency:900ms'' True, Freeze_key ''BTCUSDT'' ''divergence:2'' True,
     Clear_key ''BTCUSDT'' ''ok'' None None ''divergence'' True, Freeze_key ''BTCUSDT'' ''divergence:3'' False,
     Latch_key ''ETHUSDT'' ''audit'' ''disk full'' []]"

theorem guard_replay_exact_witness:
  "\<exists>st js lost. run_ops (guard_cmd_step symbol_side) demo_cmds (empty_guards, [], {}) = (st, js, lost) \<and> length js = 3 \<and>
     (\<exists>ow. (''ETHUSDT'', ow) \<in> lost \<and> dget (records_of ''ETHUSDT'' (rp_symbols (fold replay_record js replay_init))) ow = None) \<and>
     dget (gt_guards (rp_symbols (fold replay_record js replay_init))) ''BTCUSDT'' = Some ''latency:900ms''"
proof -
  let ?ow = "''durable_journal_unavailable:audit:disk full''"
  obtain st js lost where s: "run_ops (guard_cmd_step symbol_side) demo_cmds (empty_guards, [], {}) = (st, js, lost)"
    by (metis prod.collapse)
  have "(\<lambda>(st, js, lost). filter (\<lambda>j. j_kind j \<in> side_kinds symbol_side) js = js \<and>
      filter (\<lambda>j. j_kind j \<in> side_kinds venue_side) js = [] \<and> length js = 3 \<and>
      dget (gt_guards st) ''BTCUSDT'' = Some ''latency:900ms'' \<and> lost = {(''ETHUSDT'', ?ow)})
      (run_ops (guard_cmd_step symbol_side) demo_cmds (empty_guards, [], {}))" by code_simp
  then have facts: "filter (\<lambda>j. j_kind j \<in> side_kinds symbol_side) js = js" "filter (\<lambda>j. j_kind j \<in> side_kinds venue_side) js = []"
    "length js = 3" "dget (gt_guards st) ''BTCUSDT'' = Some ''latency:900ms''" "lost = {(''ETHUSDT'', ?ow)}" by (simp_all add: s)
  have none: "(empty_guards, [], {}) = run_ops (guard_cmd_step venue_side) [] (empty_guards, [], {})"
    "\<forall>k context exc seal. Latch_key k context exc seal \<notin> set []" by simp_all
  note replay = guard_replay_exact [OF s [symmetric] none facts(1,2) refl]
  have "dget (records_of ''ETHUSDT'' (rp_symbols (fold replay_record js replay_init))) ?ow = None"
    using replay [of "''ETHUSDT''" ?ow] by (simp add: facts(5))
  moreover have "dget (gt_guards (rp_symbols (fold replay_record js replay_init))) ''BTCUSDT'' = Some ''latency:900ms''"
    using replay [of "''BTCUSDT''"] by (simp add: facts(4,5))
  ultimately show ?thesis using s facts(3,5) by blast
qed

text \<open>The records that demand and that lift a manual rearm.\<close>

definition demands_rearm :: "jrec \<Rightarrow> bool" where
  "demands_rearm j \<longleftrightarrow> j_kind j = ''halt_reasserted'' \<or>
     (j_kind j = ''lifecycle'' \<and> j_state j = Some ''HALTED'' \<and> j_manual_rearm_required j \<noteq> Some False)"

definition lifts_rearm :: "jrec \<Rightarrow> bool" where
  "lifts_rearm j \<longleftrightarrow>
     (j_kind j = ''lifecycle'' \<and> (j_state j = Some ''LIVE'' \<or>
        (j_state j = Some ''HALTED'' \<and> j_manual_rearm_required j = Some False))) \<or>
     (j_kind j \<in> {''full_reset_completed'', ''reconcile_cleared'', ''rearm_completed''} \<and>
        (j_state j = None \<or> j_state j = Some [] \<or> j_state j = Some ''LIVE''))"

definition guard_kinds :: "string set" where
  "guard_kinds = set symbol_frozen_kinds \<union> set symbol_cleared_kinds \<union> set venue_frozen_kinds \<union>
    set venue_cleared_kinds \<union> {''strategy_frozen'', ''strategy_freeze_reasserted'', ''strategy_symbol_frozen'', ''strategy_unfrozen''}"

lemma lifecycle_kind: "j_kind j \<notin> guard_kinds \<Longrightarrow> replay_record j r = replay_lifecycle j r"
  by (simp add: guard_kinds_def replay_record_def)

lemma guard_kinds_frame:
  assumes "j_kind j \<in> guard_kinds"
  shows "rp_manual_rearm_required (replay_record j r) = rp_manual_rearm_required r" "\<not> demands_rearm j" "\<not> lifts_rearm j"
proof -
  have "rp_manual_rearm_required (replay_strategy j r) = rp_manual_rearm_required r"
    by (simp add: replay_strategy_def Let_def)
  with assms show "rp_manual_rearm_required (replay_record j r) = rp_manual_rearm_required r"
    by (auto simp: replay_record_def guard_kinds_def)
  show "\<not> demands_rearm j" "\<not> lifts_rearm j"
    using assms by (auto simp: guard_kinds_def demands_rearm_def lifts_rearm_def symbol_frozen_kinds_def symbol_cleared_kinds_def
        venue_frozen_kinds_def venue_cleared_kinds_def)
qed

lemma rearm_step:
  "demands_rearm j \<Longrightarrow> rp_manual_rearm_required (replay_record j r)"
  "\<not> lifts_rearm j \<Longrightarrow> rp_manual_rearm_required r \<Longrightarrow> rp_manual_rearm_required (replay_record j r)"
proof -
  have "(demands_rearm j \<longrightarrow> rp_manual_rearm_required (replay_record j r)) \<and>
    (\<not> lifts_rearm j \<longrightarrow> rp_manual_rearm_required r \<longrightarrow> rp_manual_rearm_required (replay_record j r))"
  proof (cases "j_kind j \<in> guard_kinds")
    case True
    then show ?thesis using guard_kinds_frame by blast
  next
    case False
    have "demands_rearm j \<Longrightarrow> rp_manual_rearm_required (replay_lifecycle j r)"
      unfolding demands_rearm_def
      by (elim disjE conjE; cases "j_manual_rearm_required j") (simp_all add: replay_lifecycle_def Let_def)
    moreover have "rp_manual_rearm_required (replay_lifecycle j r)" if "\<not> lifts_rearm j" "rp_manual_rearm_required r"
    proof (cases "j_kind j = ''lifecycle''")
      case True
      then show ?thesis using that
        by (cases "j_state j"; cases "j_manual_rearm_required j") (simp_all add: lifts_rearm_def replay_lifecycle_def Let_def)
    next
      case False
      show ?thesis
      proof (cases "j_kind j \<in> {''full_reset_completed'', ''reconcile_cleared'', ''rearm_completed''}")
        case True
        with that(1) have "j_state j \<noteq> None \<and> j_state j \<noteq> Some [] \<and> j_state j \<noteq> Some ''LIVE''"
          unfolding lifts_rearm_def by argo
        then have "(case j_state j of None \<Rightarrow> ''LIVE'' | Some s \<Rightarrow> str_or s ''LIVE'') \<noteq> ''LIVE''"
          by (auto simp: str_or_def split: option.split)
        with True False that(2) show ?thesis by (simp only: replay_lifecycle_def Let_def if_False if_True) simp
      next
        case not_done: False
        with False that(2) show ?thesis
          by (simp only: replay_lifecycle_def Let_def if_False) (simp add: replay_stopped_def)
      qed
    qed
    ultimately show ?thesis unfolding lifecycle_kind [OF False] by blast
  qed
  then show "demands_rearm j \<Longrightarrow> rp_manual_rearm_required (replay_record j r)"
    "\<not> lifts_rearm j \<Longrightarrow> rp_manual_rearm_required r \<Longrightarrow> rp_manual_rearm_required (replay_record j r)" by auto
qed

text \<open>A restart does not lift a halt. Once the journal holds a halt that demands a manual rearm, the
  replay of the whole journal still demands it, whatever guards, freezes, reconciliations, stops and
  other records follow, until a record that reports the system live again.\<close>

theorem halt_survives_restart:
  assumes "journal = before @ j # after" "demands_rearm j" "\<forall>x \<in> set after. \<not> lifts_rearm x"
  shows "rp_manual_rearm_required (fold replay_record journal r)"
proof -
  have "rp_manual_rearm_required r \<Longrightarrow> rp_manual_rearm_required (fold replay_record after r)" for r
    using assms(3) by (induction after arbitrary: r) (simp_all add: rearm_step(2))
  with assms(1,2) rearm_step(1) show ?thesis by simp
qed

theorem halt_survives_restart_witness:
  "rp_manual_rearm_required (fold replay_record
     [blank_rec\<lparr>j_kind := ''lifecycle'', j_state := Some ''HALTED'', j_reason := ''x''\<rparr>,
      blank_rec\<lparr>j_kind := ''reconcile_started''\<rparr>, blank_rec\<lparr>j_kind := ''oms_stopped'', j_state := Some ''HALTED''\<rparr>] replay_init)"
  by (rule halt_survives_restart [of _ "[]" "blank_rec\<lparr>j_kind := ''lifecycle'', j_state := Some ''HALTED'', j_reason := ''x''\<rparr>"
        "[blank_rec\<lparr>j_kind := ''reconcile_started''\<rparr>, blank_rec\<lparr>j_kind := ''oms_stopped'', j_state := Some ''HALTED''\<rparr>]"])
    (simp_all add: demands_rearm_def lifts_rearm_def blank_rec_def)

end
