(* ===== verification/Sidecar_Control.thy ===== *)
theory Sidecar_Control
  imports Chronos_Prelude Op_System
begin

text \<open>
  The independent risk sidecar: \<open>SidecarControlController\<close> of \<open>risk/sidecar_control_state.py\<close> with its kill
  latch, stages, quiesce, stop and two-phase rearm, and the handlers of \<open>risk/sidecar_core.py\<close> that drive
  it. What the core observes (heartbeat, exchange snapshot, risk and funding decisions, flat proof) and
  whether a state write succeeds are arguments of the handlers. The decision fields of the observation
  itself are not part of the state.
\<close>

subsection \<open>State\<close>

datatype stage =
    ARMED | QUIESCED | FAILED | FLATTENING | CANCEL_PENDING | FLAT_VERIFIED | CANCEL_VERIFIED

fun stage_name :: "stage \<Rightarrow> string" where
  "stage_name ARMED = ''ARMED''"
| "stage_name QUIESCED = ''QUIESCED''"
| "stage_name FAILED = ''FAILED''"
| "stage_name FLATTENING = ''FLATTENING''"
| "stage_name CANCEL_PENDING = ''CANCEL_PENDING''"
| "stage_name FLAT_VERIFIED = ''FLAT_VERIFIED''"
| "stage_name CANCEL_VERIFIED = ''CANCEL_VERIFIED''"

type_synonym proof_binding = "string list option"

record prepared =
  pr_token :: string
  pr_reason :: string
  pr_expires_at :: rat
  pr_generation :: int
  pr_proof_binding :: proof_binding

record control_config =
  cc_cancel_retry_sec :: rat
  cc_flatten_enabled :: bool
  cc_flatten_retry_sec :: rat
  cc_flat_verification_checks :: int
  cc_rearm_prepare_ttl_sec :: rat
  cc_parent_loss_flatten_delay_sec :: rat
  cc_orphan_exit_sec :: rat

record control =
  k_generation :: int
  k_kill_latched :: bool
  k_kill_reason :: string
  k_stage :: stage
  k_unsafe_since :: rat
  k_flat_verification_count :: int
  k_last_verified_snapshot_sequence :: int
  k_quiesced :: bool
  k_quiesce_reason :: string
  k_quiesced_at :: rat
  k_quiesce_snapshot_sequence :: int
  k_stop_requested :: bool
  k_stop_request_id :: string
  k_cancel_on_stop :: bool
  k_last_quiesce :: "string \<times> bool option \<times> string \<times> bool"
  k_last_shutdown_resume :: "string \<times> bool option \<times> string \<times> bool"
  k_last_stop :: "string \<times> bool option \<times> string \<times> bool \<times> bool \<times> bool \<times> bool option"
  k_prepared_rearm :: "prepared option"
  k_last_rearm :: "string \<times> string \<times> bool option \<times> string \<times> string"
  k_parent_stale_since :: rat
  k_parent_stale_snapshot_sequence :: int
  k_last_cancel_attempt_at :: rat
  k_last_flatten_attempt_at :: rat

definition control_init :: control where
  "control_init = \<lparr>k_generation = 0, k_kill_latched = False, k_kill_reason = [], k_stage = ARMED,
     k_unsafe_since = 0, k_flat_verification_count = 0, k_last_verified_snapshot_sequence = 0,
     k_quiesced = False, k_quiesce_reason = [], k_quiesced_at = 0, k_quiesce_snapshot_sequence = 0,
     k_stop_requested = False, k_stop_request_id = [], k_cancel_on_stop = True,
     k_last_quiesce = ([], None, [], False), k_last_shutdown_resume = ([], None, [], False),
     k_last_stop = ([], None, [], False, False, False, None), k_prepared_rearm = None,
     k_last_rearm = ([], [], None, [], []), k_parent_stale_since = 0,
     k_parent_stale_snapshot_sequence = 0, k_last_cancel_attempt_at = 0, k_last_flatten_attempt_at = 0\<rparr>"

subsection \<open>The controller\<close>

definition transition_snapshot ::
  "control_config \<Rightarrow> control \<Rightarrow> bool \<times> string \<times> stage \<times> bool \<times> bool \<times> string \<times> rat \<times> int" where
  "transition_snapshot c s =
     (k_kill_latched s, k_kill_reason s, k_stage s,
      k_stage s = FLAT_VERIFIED \<and> k_flat_verification_count s \<ge> cc_flat_verification_checks c,
      k_quiesced s, k_quiesce_reason s, k_quiesced_at s, k_quiesce_snapshot_sequence s)"

definition bump_if_changed ::
  "control_config \<Rightarrow> bool \<times> string \<times> stage \<times> bool \<times> bool \<times> string \<times> rat \<times> int \<Rightarrow> control \<Rightarrow> control" where
  "bump_if_changed c before s =
     (if transition_snapshot c s \<noteq> before then s\<lparr>k_generation := k_generation s + 1\<rparr> else s)"

definition reset_flat_verification :: "control_config \<Rightarrow> control \<Rightarrow> control" where
  "reset_flat_verification c s = bump_if_changed c (transition_snapshot c s)
     (s\<lparr>k_flat_verification_count := 0, k_last_verified_snapshot_sequence := 0\<rparr>)"

definition latch_kill :: "control_config \<Rightarrow> string \<Rightarrow> control \<Rightarrow> control" where
  "latch_kill c reason s =
     (if k_kill_latched s then s
      else bump_if_changed c (transition_snapshot c s)
        (s\<lparr>k_kill_latched := True, k_kill_reason := str_or reason ''independent_hard_risk_breach''\<rparr>))"

text \<open>\<open>persist(event, require_path)\<close>: None is success, \<open>Some e\<close> a failure with that error, on which the durable
  state has already failed closed.\<close>

definition fail_closed :: "string \<Rightarrow> control \<Rightarrow> control" where
  "fail_closed reason s = s\<lparr>k_kill_latched := True, k_kill_reason := str_or reason ''sidecar_state_error'',
     k_stage := FAILED\<rparr>"

definition run_persist :: "string option \<Rightarrow> control \<Rightarrow> control" where
  "run_persist p s = (case p of None \<Rightarrow> s | Some e \<Rightarrow> fail_closed e s)"

definition begin_quiesced :: "control_config \<Rightarrow> string \<Rightarrow> int \<Rightarrow> rat \<Rightarrow> control \<Rightarrow> control" where
  "begin_quiesced c reason snapshot_sequence wall_time s =
     bump_if_changed c (transition_snapshot c s)
       (s\<lparr>k_quiesced := True, k_quiesce_reason := str_or reason ''operator_quiesce'',
         k_quiesced_at := (if k_quiesced_at s \<le> 0 then wall_time else k_quiesced_at s),
         k_quiesce_snapshot_sequence := snapshot_sequence, k_stage := QUIESCED, k_prepared_rearm := None\<rparr>)"

definition enter_quiesced ::
  "control_config \<Rightarrow> string \<Rightarrow> int \<Rightarrow> rat \<Rightarrow> string option \<Rightarrow> control \<Rightarrow> control \<times> bool \<times> string" where
  "enter_quiesced c reason snapshot_sequence wall_time p s =
     (let s1 = begin_quiesced c reason snapshot_sequence wall_time s; s2 = run_persist p s1 in
      case p of
        None \<Rightarrow> (s2, True, [])
      | Some persist_error \<Rightarrow>
          let why = str_or persist_error ''quiesce_state_persist_failed'';
              s3 = bump_if_changed c (transition_snapshot c s2)
                (s2\<lparr>k_quiesced := False, k_quiesce_reason := [], k_quiesced_at := 0,
                    k_quiesce_snapshot_sequence := 0, k_kill_latched := True, k_kill_reason := why,
                    k_stage := FAILED, k_prepared_rearm := None, k_flat_verification_count := 0,
                    k_last_verified_snapshot_sequence := 0\<rparr>)
          in (s3\<lparr>k_last_cancel_attempt_at := 0, k_last_flatten_attempt_at := 0\<rparr>, False, why))"

definition request_quiesce ::
  "control_config \<Rightarrow> string \<Rightarrow> string \<Rightarrow> int \<Rightarrow> rat \<Rightarrow> string option \<Rightarrow> control \<Rightarrow> control \<times> bool \<times> string" where
  "request_quiesce c request_id reason snapshot_sequence wall_time p s =
     (if request_id = [] then
        (s\<lparr>k_last_quiesce := (request_id, Some False, ''request_id_missing'', False)\<rparr>, False, ''request_id_missing'')
      else
        let (s1, persisted, err) = enter_quiesced c (str_or reason ''operator_quiesce'') snapshot_sequence wall_time p s;
            result_reason = (if persisted then ''supervisor_quiesced'' else str_or err ''quiesce_state_persist_failed'')
        in (s1\<lparr>k_last_quiesce := (request_id, Some persisted, result_reason, persisted)\<rparr>, persisted, result_reason))"

definition takeover_from_quiesce ::
  "control_config \<Rightarrow> string \<Rightarrow> string option \<Rightarrow> control \<Rightarrow> control \<times> bool \<times> string" where
  "takeover_from_quiesce c reason p s =
     (let s1 = bump_if_changed c (transition_snapshot c s)
            (s\<lparr>k_quiesced := False, k_quiesce_reason := [], k_quiesced_at := 0, k_quiesce_snapshot_sequence := 0,
               k_kill_latched := True, k_kill_reason := str_or reason ''quiesce_safety_takeover'',
               k_stage := FLATTENING, k_prepared_rearm := None, k_flat_verification_count := 0,
               k_last_verified_snapshot_sequence := 0\<rparr>);
          s2 = run_persist p s1
      in (s2\<lparr>k_last_cancel_attempt_at := 0, k_last_flatten_attempt_at := 0\<rparr>, p = None,
          (case p of None \<Rightarrow> [] | Some e \<Rightarrow> e)))"

definition request_shutdown_resume ::
  "control_config \<Rightarrow> string \<Rightarrow> string \<Rightarrow> string option \<Rightarrow> control \<Rightarrow> control \<times> bool \<times> string" where
  "request_shutdown_resume c request_id reason p s =
     (if request_id = [] then
        (s\<lparr>k_last_shutdown_resume := (request_id, Some False, ''request_id_missing'', False)\<rparr>, False, ''request_id_missing'')
      else
        let (s1, persisted, err) = takeover_from_quiesce c (str_or reason ''shutdown account truth drift'') p s;
            result_reason = (if persisted then ''supervisor_shutdown_guard_resumed''
                             else str_or err ''shutdown_resume_state_persist_failed'')
        in (s1\<lparr>k_last_shutdown_resume := (request_id, Some persisted, result_reason, persisted)\<rparr>, persisted, result_reason))"

definition request_stop :: "string \<Rightarrow> bool \<Rightarrow> control \<Rightarrow> control" where
  "request_stop request_id cancel_orders s =
     s\<lparr>k_stop_requested := True, k_stop_request_id := request_id, k_cancel_on_stop := cancel_orders\<rparr>"

datatype stop_plan = TAKEOVER string string | WAIT | QUIESCE string | CANCEL_PLAN | REJECT string

definition counts_text :: "int \<Rightarrow> int \<Rightarrow> string" where
  "counts_text orders positions = '':open_orders='' @ str_of_int orders @ '':positions='' @ str_of_int positions"

definition make_stop_plan :: "bool \<Rightarrow> string \<Rightarrow> int \<Rightarrow> int \<Rightarrow> int \<Rightarrow> control \<Rightarrow> stop_plan" where
  "make_stop_plan exchange_valid exchange_reason orders positions snapshot_sequence s =
     (if k_quiesced s then
        if \<not> exchange_valid then
          let reason = str_or exchange_reason ''stop_exchange_truth_stale'' in
          TAKEOVER reason (''stop_guard_exchange_truth_invalid:'' @ reason)
        else if orders \<noteq> 0 \<or> positions \<noteq> 0 then
          TAKEOVER (''stop_guard_account_not_flat'' @ counts_text orders positions)
            (''stop_guard_account_not_flat'' @ counts_text orders positions)
        else if snapshot_sequence \<le> k_quiesce_snapshot_sequence s then WAIT
        else QUIESCE (str_or (k_quiesce_reason s) ''stop_after_flat_snapshot'')
      else if k_cancel_on_stop s then CANCEL_PLAN
      else REJECT ''stop_without_cancel_requires_quiesced'')"

definition finish_stop :: "bool \<Rightarrow> string \<Rightarrow> bool \<Rightarrow> bool \<Rightarrow> bool option \<Rightarrow> control \<Rightarrow> control" where
  "finish_stop accepted reason cancel_requested cancel_attempted cancel_ok s =
     s\<lparr>k_last_stop := (k_stop_request_id s, Some accepted, reason, k_quiesced s, cancel_requested, cancel_attempted, cancel_ok),
       k_stop_requested := False\<rparr>"

definition fail_pending_stop_after_takeover :: "string \<Rightarrow> control \<Rightarrow> control" where
  "fail_pending_stop_after_takeover reason s =
     (if \<not> k_stop_requested s then s
      else finish_stop False (''stop_guard_takeover:'' @ reason) (k_cancel_on_stop s) False None s)"

definition quiesce_takeover_reason :: "bool \<Rightarrow> string \<Rightarrow> bool \<Rightarrow> string \<Rightarrow> int \<Rightarrow> int \<Rightarrow> string" where
  "quiesce_takeover_reason parent_healthy parent_error exchange_valid exchange_reason orders positions =
     (if \<not> parent_healthy then str_or parent_error ''quiesce_parent_heartbeat_stale''
      else if \<not> exchange_valid then str_or exchange_reason ''quiesce_exchange_truth_stale''
      else if orders \<noteq> 0 \<or> positions \<noteq> 0 then ''quiesce_account_truth_drift'' @ counts_text orders positions
      else [])"

definition record_rearm :: "string \<Rightarrow> string \<Rightarrow> bool \<Rightarrow> string \<Rightarrow> string \<Rightarrow> control \<Rightarrow> control" where
  "record_rearm request_id phase accepted reason token s =
     s\<lparr>k_last_rearm := (request_id, phase, Some accepted, reason, token)\<rparr>"

definition rearm_control_gate :: "string \<Rightarrow> rat \<Rightarrow> rat \<Rightarrow> control \<Rightarrow> bool \<times> string" where
  "rearm_control_gate parent_error parent_age parent_timeout s =
     (if k_quiesced s then (False, ''supervisor_quiesced'')
      else if \<not> k_kill_latched s then (False, ''kill_latch_not_set'')
      else if parent_error \<noteq> [] then (False, parent_error)
      else if max 0 parent_age > parent_timeout then (False, ''parent_heartbeat_stale'')
      else (True, []))"

definition rearm_truth_gate ::
  "bool \<Rightarrow> string \<Rightarrow> bool \<Rightarrow> string \<Rightarrow> string \<Rightarrow> string \<Rightarrow> string \<Rightarrow> string \<Rightarrow> int \<Rightarrow> int \<Rightarrow> control \<Rightarrow> bool \<times> string" where
  "rearm_truth_gate exchange_healthy exchange_reason snapshot_fresh snapshot_pending_reason
     risk_action risk_reason funding_action funding_reason orders positions s =
     (if \<not> exchange_healthy then (False, str_or exchange_reason ''exchange_snapshot_failed'')
      else if \<not> snapshot_fresh then (False, snapshot_pending_reason)
      else if risk_action \<noteq> ''NONE'' then (False, str_or risk_reason ''risk_breach_remains'')
      else if funding_action \<noteq> ''NONE'' then (False, str_or funding_reason ''funding_guard_not_healthy'')
      else if orders \<noteq> 0 then (False, ''open_orders_remain'')
      else if positions \<noteq> 0 then (False, ''positions_remain'')
      else if k_kill_latched s \<and> k_stage s \<noteq> FLAT_VERIFIED
      then (False, ''flat_not_verified:'' @ stage_name (k_stage s))
      else (True, []))"

definition prepare_rearm ::
  "control_config \<Rightarrow> string \<Rightarrow> string \<Rightarrow> rat \<Rightarrow> bool \<times> string \<Rightarrow> proof_binding \<Rightarrow> string \<Rightarrow> control \<Rightarrow> control \<times> bool \<times> string \<times> string" where
  "prepare_rearm c request_id reason now safety binding fresh_token s =
     (if request_id = [] then
        (record_rearm request_id ''PREPARE'' False ''request_id_missing'' [] s, False, [], ''request_id_missing'')
      else if \<not> fst safety then
        (record_rearm request_id ''PREPARE'' False (snd safety) [] (s\<lparr>k_prepared_rearm := None\<rparr>), False, [], snd safety)
      else
        (record_rearm request_id ''PREPARE'' True ''rearm_prepared'' fresh_token
           (s\<lparr>k_prepared_rearm := Some \<lparr>pr_token = fresh_token, pr_reason = str_or reason ''operator_rearm'',
              pr_expires_at = fl (now + cc_rearm_prepare_ttl_sec c), pr_generation = k_generation s,
              pr_proof_binding = binding\<rparr>\<rparr>), True, fresh_token, ''rearm_prepared''))"

definition refuse_commit :: "string \<Rightarrow> string \<Rightarrow> control \<Rightarrow> control \<times> bool \<times> string" where
  "refuse_commit request_id reason s = (record_rearm request_id ''COMMIT'' False reason [] s, False, reason)"

text \<open>With nothing prepared the token compared against is empty, so every token is refused.\<close>

definition validate_rearm_commit ::
  "string \<Rightarrow> string \<Rightarrow> rat \<Rightarrow> proof_binding \<Rightarrow> control \<Rightarrow> control \<times> bool \<times> string" where
  "validate_rearm_commit request_id token now binding s =
     (case k_prepared_rearm s of
        None \<Rightarrow> refuse_commit request_id ''rearm_token_invalid'' s
      | Some pr \<Rightarrow>
          if token = [] \<or> token \<noteq> pr_token pr then refuse_commit request_id ''rearm_token_invalid'' s
          else if now > pr_expires_at pr
          then refuse_commit request_id ''rearm_prepare_expired'' (s\<lparr>k_prepared_rearm := None\<rparr>)
          else if pr_generation pr \<noteq> k_generation s
          then refuse_commit request_id ''rearm_generation_changed'' (s\<lparr>k_prepared_rearm := None\<rparr>)
          else if pr_proof_binding pr \<noteq> binding
          then refuse_commit request_id ''rearm_proof_binding_changed'' (s\<lparr>k_prepared_rearm := None\<rparr>)
          else (s, True, []))"

definition reject_rearm_commit :: "string \<Rightarrow> string \<Rightarrow> control \<Rightarrow> control \<times> bool \<times> string" where
  "reject_rearm_commit request_id reason s = refuse_commit request_id reason (s\<lparr>k_prepared_rearm := None\<rparr>)"

record rearm_checkpoint =
  ck_kill_latched :: bool
  ck_kill_reason :: string
  ck_stage :: stage
  ck_flat_verification_count :: int
  ck_last_verified_snapshot_sequence :: int

definition begin_rearm_commit :: "control_config \<Rightarrow> control \<Rightarrow> control \<times> rearm_checkpoint" where
  "begin_rearm_commit c s =
     (bump_if_changed c (transition_snapshot c s)
        (s\<lparr>k_kill_latched := False, k_kill_reason := [], k_stage := ARMED, k_flat_verification_count := 0,
           k_last_verified_snapshot_sequence := 0, k_prepared_rearm := None\<rparr>),
      \<lparr>ck_kill_latched = k_kill_latched s, ck_kill_reason = k_kill_reason s, ck_stage = k_stage s,
       ck_flat_verification_count = k_flat_verification_count s,
       ck_last_verified_snapshot_sequence = k_last_verified_snapshot_sequence s\<rparr>)"

definition finish_rearm_commit ::
  "control_config \<Rightarrow> string \<Rightarrow> string option \<Rightarrow> rearm_checkpoint \<Rightarrow> control \<Rightarrow> control \<times> bool \<times> string" where
  "finish_rearm_commit c request_id p ck s =
     (case p of
        Some reason \<Rightarrow>
          refuse_commit request_id (str_or reason ''state_persist_failed'')
            (bump_if_changed c (transition_snapshot c s)
              (s\<lparr>k_kill_latched := ck_kill_latched ck, k_kill_reason := ck_kill_reason ck, k_stage := ck_stage ck,
                 k_flat_verification_count := ck_flat_verification_count ck,
                 k_last_verified_snapshot_sequence := ck_last_verified_snapshot_sequence ck\<rparr>))
      | None \<Rightarrow> (record_rearm request_id ''COMMIT'' True ''rearm_committed'' [] s, True, ''rearm_committed''))"

definition abort_rearm :: "string \<Rightarrow> control \<Rightarrow> control \<times> bool" where
  "abort_rearm token s =
     (case k_prepared_rearm s of
        None \<Rightarrow> (s, False)
      | Some pr \<Rightarrow> if token = [] \<or> token \<noteq> pr_token pr then (s, False) else (s\<lparr>k_prepared_rearm := None\<rparr>, True))"

subsection \<open>Observations and stages\<close>

datatype flat_proof = No_engine | Captured | Proof_failed string

record observation =
  ob_now :: rat
  ob_wall_time :: rat
  ob_parent_error :: string
  ob_parent_age :: rat
  ob_parent_timeout :: rat
  ob_exchange_valid :: bool
  ob_exchange_healthy :: bool
  ob_exchange_reason :: string
  ob_snapshot_fresh :: bool
  ob_snapshot_pending_reason :: string
  ob_risk_action :: string
  ob_risk_reason :: string
  ob_funding_action :: string
  ob_funding_reason :: string
  ob_open_orders :: int
  ob_positions :: int
  ob_sequence :: int
  ob_flat_proof :: flat_proof
  ob_cancel_ok :: bool
  ob_cancel_reason :: string

definition parent_healthy :: "observation \<Rightarrow> bool" where
  "parent_healthy ob \<longleftrightarrow> ob_parent_error ob = [] \<and> ob_parent_age ob \<le> ob_parent_timeout ob"

definition exposure_seen :: "observation \<Rightarrow> bool" where
  "exposure_seen ob \<longleftrightarrow> ob_open_orders ob \<noteq> 0 \<or> ob_positions ob \<noteq> 0"

text \<open>\<open>now - last >= retry\<close>, or no attempt yet.\<close>

definition retry_due :: "rat \<Rightarrow> rat \<Rightarrow> rat \<Rightarrow> bool" where
  "retry_due now last_at retry \<longleftrightarrow> last_at \<le> 0 \<or> fl (now - last_at) \<ge> retry"

definition request_actions :: "control_config \<Rightarrow> string \<Rightarrow> observation \<Rightarrow> control \<Rightarrow> control \<times> bool \<times> bool" where
  "request_actions c action ob s =
     (if k_stage s = FLAT_VERIFIED then (s, False, False)
      else
        let cancel = retry_due (ob_now ob) (k_last_cancel_attempt_at s) (cc_cancel_retry_sec c);
            s1 = (if cancel then s\<lparr>k_stage := CANCEL_PENDING\<rparr> else s);
            kill = (action = ''KILL'' \<and> cc_flatten_enabled c)
        in (if kill then s1\<lparr>k_stage := FLATTENING\<rparr> else s1, cancel,
            kill \<and> (exposure_seen ob \<or> \<not> ob_exchange_valid ob) \<and>
              retry_due (ob_now ob) (k_last_flatten_attempt_at s) (cc_flatten_retry_sec c)))"

definition verify_flat :: "control_config \<Rightarrow> string \<Rightarrow> observation \<Rightarrow> control \<Rightarrow> control" where
  "verify_flat c action ob s =
     (if \<not> ob_exchange_valid ob then s
      else if action = ''KILL'' \<and> cc_flatten_enabled c then
        let s1 = (if \<not> exposure_seen ob \<and>
                    (parent_healthy ob \<or> ob_sequence ob > k_parent_stale_snapshot_sequence s) \<and>
                    ob_sequence ob > k_last_verified_snapshot_sequence s
                  then s\<lparr>k_last_verified_snapshot_sequence := ob_sequence ob,
                         k_flat_verification_count := k_flat_verification_count s + 1\<rparr>
                  else if exposure_seen ob
                  then s\<lparr>k_stage := FLATTENING, k_flat_verification_count := 0,
                         k_last_verified_snapshot_sequence := ob_sequence ob\<rparr>
                  else s)
        in if k_flat_verification_count s1 \<ge> cc_flat_verification_checks c
           then s1\<lparr>k_stage := FLAT_VERIFIED\<rparr> else s1
      else if ob_open_orders ob = 0 then s\<lparr>k_stage := CANCEL_VERIFIED\<rparr>
      else s)"

definition advance_risk_stage ::
  "control_config \<Rightarrow> bool \<Rightarrow> string \<Rightarrow> observation \<Rightarrow> control \<Rightarrow> control \<times> bool \<times> bool" where
  "advance_risk_stage c healthy action ob s =
     (let before = transition_snapshot c s in
      if healthy then
        (bump_if_changed c before
           (s\<lparr>k_unsafe_since := 0, k_stage := ARMED, k_flat_verification_count := 0,
              k_last_verified_snapshot_sequence := 0\<rparr>), False, False)
      else
        let s1 = s\<lparr>k_unsafe_since := (if k_unsafe_since s \<le> 0 then ob_now ob else k_unsafe_since s)\<rparr>;
            s2 = (if k_stage s1 = FLAT_VERIFIED \<and> (\<not> ob_exchange_valid ob \<or> exposure_seen ob)
                  then s1\<lparr>k_stage := FLATTENING, k_flat_verification_count := 0,
                          k_last_verified_snapshot_sequence := 0\<rparr> else s1);
            (s3, cancel, flatten) = request_actions c action ob s2
        in (bump_if_changed c before (verify_flat c action ob s3), cancel, flatten))"

definition should_keep_running :: "control_config \<Rightarrow> observation \<Rightarrow> control \<Rightarrow> bool" where
  "should_keep_running c ob s \<longleftrightarrow> \<not> (\<not> parent_healthy ob \<and> k_parent_stale_since s > 0 \<and>
     fl (ob_now ob - k_parent_stale_since s) \<ge> cc_orphan_exit_sec c \<and> k_stage s = FLAT_VERIFIED \<and>
     ob_exchange_valid ob \<and> ob_open_orders ob = 0 \<and> ob_positions ob = 0 \<and>
     k_flat_verification_count s \<ge> cc_flat_verification_checks c \<and>
     k_last_verified_snapshot_sequence s = ob_sequence ob \<and>
     k_last_verified_snapshot_sequence s > k_parent_stale_snapshot_sequence s)"

subsection \<open>The core's handlers\<close>

definition update_parent_stale_state :: "control_config \<Rightarrow> observation \<Rightarrow> control \<Rightarrow> control" where
  "update_parent_stale_state c ob s =
     (if parent_healthy ob then s\<lparr>k_parent_stale_since := 0, k_parent_stale_snapshot_sequence := 0\<rparr>
      else if k_parent_stale_since s \<le> 0
      then reset_flat_verification c (s\<lparr>k_parent_stale_since := ob_now ob,
             k_parent_stale_snapshot_sequence := ob_sequence ob\<rparr>)
      else s)"

text \<open>The action and its reason that \<open>step\<close> derives before the latch.\<close>

definition raw_action :: "control_config \<Rightarrow> observation \<Rightarrow> control \<Rightarrow> string \<times> string" where
  "raw_action c ob s =
     (let a0 = (if ob_exchange_valid ob \<or> ob_risk_action ob = ''KILL'' then ob_risk_action ob else ''REDUCE_ONLY'');
          action = (if a0 = ''NONE'' \<and> ob_funding_action ob \<noteq> ''NONE'' then ob_funding_action ob else a0)
      in if \<not> parent_healthy ob then
           if action = ''KILL'' then (''KILL'', str_or (ob_risk_reason ob) ''independent_hard_risk_breach'')
           else if cc_flatten_enabled c \<and>
                   max 0 (fl (ob_now ob - k_parent_stale_since s)) \<ge> cc_parent_loss_flatten_delay_sec c
           then (''KILL'', ''parent_heartbeat_stale_flatten'')
           else (''REDUCE_ONLY'', str_or (ob_parent_error ob) ''parent_heartbeat_stale'')
         else if \<not> ob_exchange_valid ob then
           (action, str_or (if action = ''KILL'' then ob_risk_reason ob else ob_exchange_reason ob) ''exchange_health_stale'')
         else if action \<noteq> ''NONE'' then
           (action, str_or (if ob_risk_action ob \<noteq> ''NONE'' then ob_risk_reason ob else ob_funding_reason ob)
              ''independent_risk_breach'')
         else (action, []))"

text \<open>The part of \<open>step\<close> that runs when neither a stop nor a quiesce is pending: first up to the regular state
  write, with outcome \<open>p1\<close>, then the exit decision, with \<open>p2\<close> the outcome of the write after a captured flat proof.
  The result says whether the process keeps running.\<close>

definition risk_stage_state :: "control_config \<Rightarrow> observation \<Rightarrow> string option \<Rightarrow> control \<Rightarrow> control" where
  "risk_stage_state c ob p1 s =
     (let s1 = update_parent_stale_state c ob s;
          (action0, reason0) = raw_action c ob s1;
          s2 = (if action0 = ''KILL'' \<and> \<not> k_kill_latched s1
                then latch_kill c (str_or reason0 (str_or (ob_risk_reason ob) ''independent_hard_risk_breach'')) s1
                else s1);
          action = (if k_kill_latched s2 then ''KILL'' else action0);
          healthy = (parent_healthy ob \<and> ob_exchange_valid ob \<and> action = ''NONE'');
          (s3, cancel, flatten) = advance_risk_stage c healthy action ob s2;
          s4 = (if cancel then s3\<lparr>k_last_cancel_attempt_at := ob_now ob\<rparr> else s3);
          s5 = (if flatten then s4\<lparr>k_last_flatten_attempt_at := ob_now ob\<rparr> else s4)
      in run_persist p1 s5)"

definition main_step ::
  "control_config \<Rightarrow> observation \<Rightarrow> string option \<Rightarrow> string option \<Rightarrow> control \<Rightarrow> control \<times> bool" where
  "main_step c ob p1 p2 s =
     (let s1 = risk_stage_state c ob p1 s in
      if should_keep_running c ob s1 then (s1, True)
      else case ob_flat_proof ob of
          No_engine \<Rightarrow> (s1, False)
        | Proof_failed _ \<Rightarrow> ((reset_flat_verification c s1)\<lparr>k_stage := FLATTENING\<rparr>, True)
        | Captured \<Rightarrow> (case p2 of None \<Rightarrow> (s1, False) | Some e \<Rightarrow> (fail_closed e s1, True)))"

definition complete_stop_request ::
  "control_config \<Rightarrow> observation \<Rightarrow> string option \<Rightarrow> control \<Rightarrow> control \<times> bool option" where
  "complete_stop_request c ob p s =
     (let engine = (ob_flat_proof ob \<noteq> No_engine);
          valid = (k_quiesced s \<and> (if engine then ob_flat_proof ob = Captured else ob_exchange_valid ob));
          why = (case ob_flat_proof ob of
                   Proof_failed e \<Rightarrow> if k_quiesced s then str_or e ''account_wide_flat_proof_failed'' else ob_exchange_reason ob
                 | _ \<Rightarrow> ob_exchange_reason ob);
          orders = (if k_quiesced s \<and> \<not> engine then ob_open_orders ob else 0);
          positions = (if k_quiesced s \<and> \<not> engine then ob_positions ob else 0);
          seq = (if k_quiesced s \<and> engine \<and> valid then max (ob_sequence ob) (k_quiesce_snapshot_sequence s + 1)
                 else ob_sequence ob);
          cancel_requested = k_cancel_on_stop s
      in case make_stop_plan valid why orders positions seq s of
           WAIT \<Rightarrow> (s, None)
         | TAKEOVER reason transition_reason \<Rightarrow>
             (finish_stop False reason cancel_requested False None
                (fst (takeover_from_quiesce c (str_or transition_reason reason) p s)), Some False)
         | QUIESCE reason \<Rightarrow>
             (let (s1, ok, err) = enter_quiesced c reason (ob_sequence ob) (ob_wall_time ob) p s in
              (finish_stop ok (if ok then ''supervisor_stop_ack''
                               else str_or (case p of None \<Rightarrow> [] | Some e \<Rightarrow> e) ''stop_quiesce_state_persist_failed'')
                 cancel_requested False (if cancel_requested then Some True else None) s1, Some ok))
         | CANCEL_PLAN \<Rightarrow>
             (finish_stop False (if ob_cancel_ok ob then ''stop_after_cancel_requires_fresh_quiesce''
                                 else str_or (ob_cancel_reason ob) ''stop_cancel_failed'')
                cancel_requested True (Some (ob_cancel_ok ob))
                (s\<lparr>k_last_cancel_attempt_at := ob_now ob\<rparr>), Some False)
         | REJECT reason \<Rightarrow> (finish_stop False reason cancel_requested False None s, Some False))"

definition step_quiesced ::
  "control_config \<Rightarrow> observation \<Rightarrow> string option \<Rightarrow> string option \<Rightarrow> string option \<Rightarrow> control \<Rightarrow> control \<times> bool" where
  "step_quiesced c ob p0 p1 p2 s =
     (let s1 = update_parent_stale_state c ob s;
          why = quiesce_takeover_reason (parent_healthy ob) (ob_parent_error ob) (ob_exchange_valid ob)
                  (ob_exchange_reason ob) (ob_open_orders ob) (ob_positions ob)
      in if why \<noteq> [] then
           main_step c ob p1 p2 (fail_pending_stop_after_takeover why (fst (takeover_from_quiesce c why p0 s1)))
         else (s1, True))"

text \<open>A pending stop observes the exchange on its own (\<open>ob0\<close>) before the step does (\<open>ob\<close>).\<close>

definition step ::
  "control_config \<Rightarrow> observation \<Rightarrow> observation \<Rightarrow> string option \<Rightarrow> string option \<Rightarrow> string option \<Rightarrow> control \<Rightarrow> control \<times> bool" where
  "step c ob0 ob p0 p1 p2 s =
     (let (s1, stopped) = (if k_stop_requested s then complete_stop_request c ob0 p0 s else (s, None)) in
      case stopped of
        Some accepted \<Rightarrow> (s1, \<not> accepted)
      | None \<Rightarrow> if k_quiesced s1 then step_quiesced c ob p0 p1 p2 s1 else main_step c ob p1 p2 s1)"

definition check_rearm_safety :: "observation \<Rightarrow> control \<Rightarrow> bool \<times> string" where
  "check_rearm_safety ob s =
     (let gate = rearm_control_gate (ob_parent_error ob) (ob_parent_age ob) (ob_parent_timeout ob) s in
      if \<not> fst gate then gate
      else case ob_flat_proof ob of
          Proof_failed e \<Rightarrow> (False, str_or e ''account_wide_flat_proof_failed'')
        | fp \<Rightarrow>
            rearm_truth_gate (ob_exchange_healthy ob) (ob_exchange_reason ob) (ob_snapshot_fresh ob)
              (ob_snapshot_pending_reason ob) (ob_risk_action ob) (ob_risk_reason ob)
              (ob_funding_action ob) (ob_funding_reason ob)
              (if fp = No_engine then ob_open_orders ob else 0) (if fp = No_engine then ob_positions ob else 0) s)"

definition core_prepare_rearm ::
  "control_config \<Rightarrow> string \<Rightarrow> string \<Rightarrow> observation \<Rightarrow> proof_binding \<Rightarrow> string \<Rightarrow> control \<Rightarrow> control \<times> bool \<times> string \<times> string" where
  "core_prepare_rearm c request_id reason ob binding fresh_token s =
     prepare_rearm c request_id reason (ob_now ob)
       (if request_id \<noteq> [] then check_rearm_safety ob s else (False, ''request_id_missing'')) binding fresh_token s"

definition commit_rearm ::
  "control_config \<Rightarrow> string \<Rightarrow> string \<Rightarrow> observation \<Rightarrow> proof_binding \<Rightarrow> string option \<Rightarrow> control \<Rightarrow> control \<times> bool \<times> string" where
  "commit_rearm c request_id token ob binding p s =
     (let (s1, valid, why) = validate_rearm_commit request_id token (ob_now ob) binding s in
      if \<not> valid then (s1, False, why)
      else if \<not> fst (check_rearm_safety ob s1) then reject_rearm_commit request_id (snd (check_rearm_safety ob s1)) s1
      else let (s2, ck) = begin_rearm_commit c s1 in
           finish_rearm_commit c request_id p ck (run_persist p s2))"

subsection \<open>The sidecar as a system of handlers\<close>

datatype sidecar_op =
    Step observation observation "string option" "string option" "string option"
  | Quiesce string string int rat "string option"
  | Shutdown_resume string string "string option"
  | Stop string bool
  | Prepare string string observation proof_binding string
  | Commit string string observation proof_binding "string option"
  | Abort string

fun sidecar_step :: "control_config \<Rightarrow> sidecar_op \<Rightarrow> control \<Rightarrow> control" where
  "sidecar_step c (Step ob0 ob p0 p1 p2) s = fst (step c ob0 ob p0 p1 p2 s)"
| "sidecar_step c (Quiesce rid reason seq wall p) s = fst (request_quiesce c rid reason seq wall p s)"
| "sidecar_step c (Shutdown_resume rid reason p) s = fst (request_shutdown_resume c rid reason p s)"
| "sidecar_step c (Stop rid cancel) s = request_stop rid cancel s"
| "sidecar_step c (Prepare rid reason ob b tok) s = fst (core_prepare_rearm c rid reason ob b tok s)"
| "sidecar_step c (Commit rid tok ob b p) s = fst (commit_rearm c rid tok ob b p s)"
| "sidecar_step c (Abort tok) s = fst (abort_rearm tok s)"

lemma bump_frame [simp]:
  "k_kill_latched (bump_if_changed c b s) = k_kill_latched s"
  "k_kill_reason (bump_if_changed c b s) = k_kill_reason s"
  "k_stage (bump_if_changed c b s) = k_stage s"
  "k_unsafe_since (bump_if_changed c b s) = k_unsafe_since s"
  "k_flat_verification_count (bump_if_changed c b s) = k_flat_verification_count s"
  "k_last_verified_snapshot_sequence (bump_if_changed c b s) = k_last_verified_snapshot_sequence s"
  "k_quiesced (bump_if_changed c b s) = k_quiesced s"
  "k_quiesced_at (bump_if_changed c b s) = k_quiesced_at s"
  "k_quiesce_reason (bump_if_changed c b s) = k_quiesce_reason s"
  "k_quiesce_snapshot_sequence (bump_if_changed c b s) = k_quiesce_snapshot_sequence s"
  "k_stop_requested (bump_if_changed c b s) = k_stop_requested s"
  "k_cancel_on_stop (bump_if_changed c b s) = k_cancel_on_stop s"
  "k_prepared_rearm (bump_if_changed c b s) = k_prepared_rearm s"
  "k_parent_stale_since (bump_if_changed c b s) = k_parent_stale_since s"
  "k_parent_stale_snapshot_sequence (bump_if_changed c b s) = k_parent_stale_snapshot_sequence s"
  "k_last_cancel_attempt_at (bump_if_changed c b s) = k_last_cancel_attempt_at s"
  "k_last_flatten_attempt_at (bump_if_changed c b s) = k_last_flatten_attempt_at s"
  by (simp_all add: bump_if_changed_def)

text \<open>Handlers that only touch what the proofs do not look at.\<close>

lemmas control_defs = reset_flat_verification_def latch_kill_def fail_closed_def run_persist_def
  begin_quiesced_def takeover_from_quiesce_def request_stop_def finish_stop_def
  fail_pending_stop_after_takeover_def record_rearm_def refuse_commit_def reject_rearm_commit_def
  update_parent_stale_state_def

subsection \<open>The kill latch\<close>

lemma latch_kept_simple:
  "k_kill_latched s \<Longrightarrow> k_kill_latched (reset_flat_verification c s)"
  "k_kill_latched (latch_kill c r s)"
  "k_kill_latched s \<Longrightarrow> k_kill_latched (run_persist p s)"
  "k_kill_latched (fst (takeover_from_quiesce c r p s))"
  "k_kill_latched s \<Longrightarrow> k_kill_latched (update_parent_stale_state c ob s)"
  "k_kill_latched (finish_stop a r q t ok s) = k_kill_latched s"
  "k_kill_latched (fail_pending_stop_after_takeover r s) = k_kill_latched s"
  "k_kill_latched (fail_closed e s)"
  by (auto simp: control_defs Let_def split: option.split)

lemma advance_latch: "k_kill_latched (fst (advance_risk_stage c h a ob s)) = k_kill_latched s"
  by (auto simp: advance_risk_stage_def request_actions_def verify_flat_def Let_def split: prod.splits)

lemma enter_quiesced_latch: "k_kill_latched s \<Longrightarrow> k_kill_latched (fst (enter_quiesced c r q w p s))"
  by (cases p) (simp_all add: enter_quiesced_def begin_quiesced_def run_persist_def Let_def)

lemma risk_stage_latch: "k_kill_latched s \<Longrightarrow> k_kill_latched (risk_stage_state c ob p1 s)"
proof -
  assume "k_kill_latched s"
  then have l: "k_kill_latched (update_parent_stale_state c ob s)" by (rule latch_kept_simple)
  then show ?thesis
    by (simp add: risk_stage_state_def Let_def case_prod_unfold advance_latch latch_kept_simple)
qed

lemma main_step_latch: "k_kill_latched s \<Longrightarrow> k_kill_latched (fst (main_step c ob p1 p2 s))"
  using risk_stage_latch [of s c ob p1]
  by (simp add: main_step_def Let_def latch_kept_simple split: flat_proof.split option.split)

lemma complete_stop_latch: "k_kill_latched s \<Longrightarrow> k_kill_latched (fst (complete_stop_request c ob p s))"
  using enter_quiesced_latch [of s c]
  by (auto simp: complete_stop_request_def Let_def latch_kept_simple case_prod_unfold split: stop_plan.split)

lemma step_latch: "k_kill_latched s \<Longrightarrow> k_kill_latched (fst (step c ob0 ob p0 p1 p2 s))"
  using complete_stop_latch [of s c ob0 p0] main_step_latch [of _ c ob p1 p2]
  by (auto simp: step_def step_quiesced_def Let_def latch_kept_simple case_prod_unfold split: option.split)

lemma prepare_latch: "k_kill_latched (fst (core_prepare_rearm c rid r ob b tok s)) = k_kill_latched s"
  by (simp add: core_prepare_rearm_def prepare_rearm_def record_rearm_def)

lemma abort_latch: "k_kill_latched (fst (abort_rearm tok s)) = k_kill_latched s"
  by (simp add: abort_rearm_def split: option.split)

lemma quiesce_latch: "k_kill_latched s \<Longrightarrow> k_kill_latched (fst (request_quiesce c rid r q w p s))"
  using enter_quiesced_latch [of s c] by (auto simp: request_quiesce_def Let_def case_prod_unfold)

lemma resume_latch: "k_kill_latched s \<Longrightarrow> k_kill_latched (fst (request_shutdown_resume c rid r p s))"
  using latch_kept_simple(4) [of c] by (auto simp: request_shutdown_resume_def Let_def case_prod_unfold)

text \<open>What \<open>validate_rearm_commit\<close> demands of the prepared rearm.\<close>

definition prepared_for :: "string \<Rightarrow> rat \<Rightarrow> proof_binding \<Rightarrow> control \<Rightarrow> bool" where
  "prepared_for token now binding s \<longleftrightarrow>
     (case k_prepared_rearm s of
        None \<Rightarrow> False
      | Some pr \<Rightarrow> token \<noteq> [] \<and> token = pr_token pr \<and> now \<le> pr_expires_at pr \<and>
          pr_generation pr = k_generation s \<and> pr_proof_binding pr = binding)"

text \<open>What \<open>_check_rearm_safety\<close> demands of the account and of the controller.\<close>

definition rearm_evidence :: "observation \<Rightarrow> control \<Rightarrow> bool" where
  "rearm_evidence ob s \<longleftrightarrow>
     \<not> k_quiesced s \<and> k_stage s = FLAT_VERIFIED \<and> ob_parent_error ob = [] \<and>
     max 0 (ob_parent_age ob) \<le> ob_parent_timeout ob \<and> ob_exchange_healthy ob \<and> ob_snapshot_fresh ob \<and>
     ob_risk_action ob = ''NONE'' \<and> ob_funding_action ob = ''NONE'' \<and>
     (ob_flat_proof ob = Captured \<or>
      ob_flat_proof ob = No_engine \<and> ob_open_orders ob = 0 \<and> ob_positions ob = 0)"

lemma validate_rearm_iff:
  "fst (snd (validate_rearm_commit rid tok now b s)) \<longleftrightarrow> prepared_for tok now b s"
  by (auto simp: validate_rearm_commit_def prepared_for_def refuse_commit_def split: option.split)

lemma validate_rearm_accepts:
  "prepared_for tok now b s \<Longrightarrow> validate_rearm_commit rid tok now b s = (s, True, [])"
  by (auto simp: validate_rearm_commit_def prepared_for_def split: option.splits)

lemma validate_latch: "k_kill_latched (fst (validate_rearm_commit rid tok now b s)) = k_kill_latched s"
  by (simp add: validate_rearm_commit_def refuse_commit_def record_rearm_def split: option.split)

lemma check_rearm_iff: "fst (check_rearm_safety ob s) \<longleftrightarrow> k_kill_latched s \<and> rearm_evidence ob s"
  by (cases "ob_flat_proof ob")
    (auto simp: check_rearm_safety_def rearm_evidence_def rearm_control_gate_def rearm_truth_gate_def)

lemma commit_latch:
  assumes "k_kill_latched s"
  shows "k_kill_latched (fst (commit_rearm c rid tok ob b p s)) \<longleftrightarrow>
    \<not> (prepared_for tok (ob_now ob) b s \<and> rearm_evidence ob s \<and> p = None)"
proof (cases "prepared_for tok (ob_now ob) b s")
  case False
  then show ?thesis using assms
    by (simp add: commit_rearm_def case_prod_unfold validate_rearm_iff validate_latch Let_def)
next
  case True
  then show ?thesis using assms
    by (simp add: commit_rearm_def validate_rearm_accepts check_rearm_iff control_defs
        begin_rearm_commit_def finish_rearm_commit_def Let_def split: option.split)
qed

text \<open>Claim C33: the kill latch, once set, is released by nothing but a successful rearm commit. Whatever handler
  runs (step, quiesce, stop, shutdown resume, prepare, abort, commit), if the latch was set before and is not
  after, the handler was \<open>commit_rearm\<close> with a token prepared under the present control generation and
  proof binding and not expired, its state write succeeded, and at that moment the supervisor was not quiesced, the
  stage was \<open>FLAT_VERIFIED\<close>, the parent heartbeat was live, the exchange snapshot healthy and fresh, neither
  risk nor funding asked for action, and the account was flat (by a captured account-wide proof, or by
  zero orders and zero positions where no proof engine is configured).
\<close>

theorem kill_latch_released_only_by_commit:
  assumes "k_kill_latched s"
    and "\<not> k_kill_latched (sidecar_step c x s)"
  shows "\<exists>rid tok ob b. x = Commit rid tok ob b None \<and>
    prepared_for tok (ob_now ob) b s \<and> rearm_evidence ob s"
proof (cases x)
  case (Commit rid tok ob b p)
  then show ?thesis using assms commit_latch [of s c rid tok ob b p] by auto
qed (use assms step_latch quiesce_latch resume_latch prepare_latch abort_latch in \<open>auto simp: request_stop_def\<close>)

definition sample_config :: control_config where
  "sample_config = \<lparr>cc_cancel_retry_sec = 1, cc_flatten_enabled = True, cc_flatten_retry_sec = 1,
     cc_flat_verification_checks = 2, cc_rearm_prepare_ttl_sec = 30, cc_parent_loss_flatten_delay_sec = 5,
     cc_orphan_exit_sec = 20\<rparr>"

text \<open>A flat, healthy observation at a moment \<open>t\<close> with snapshot sequence \<open>q\<close> and a parent heartbeat of age \<open>age\<close>.\<close>

definition sample_ob :: "rat \<Rightarrow> rat \<Rightarrow> int \<Rightarrow> observation" where
  "sample_ob t age q = \<lparr>ob_now = t, ob_wall_time = t, ob_parent_error = [], ob_parent_age = age, ob_parent_timeout = 3,
     ob_exchange_valid = True, ob_exchange_healthy = True, ob_exchange_reason = [], ob_snapshot_fresh = True,
     ob_snapshot_pending_reason = [], ob_risk_action = ''NONE'', ob_risk_reason = [], ob_funding_action = ''NONE'',
     ob_funding_reason = [], ob_open_orders = 0, ob_positions = 0, ob_sequence = q, ob_flat_proof = No_engine,
     ob_cancel_ok = True, ob_cancel_reason = []\<rparr>"

definition sample_prepared :: control where
  "sample_prepared = control_init\<lparr>k_kill_latched := True, k_kill_reason := ''drawdown'', k_stage := FLAT_VERIFIED,
     k_flat_verification_count := 2, k_last_verified_snapshot_sequence := 7, k_generation := 4,
     k_prepared_rearm := Some \<lparr>pr_token = ''tok'', pr_reason = ''operator_rearm'', pr_expires_at = 100,
       pr_generation = 4, pr_proof_binding = None\<rparr>\<rparr>"

lemmas sample_sidecar_defs = sample_config_def sample_ob_def sample_prepared_def control_init_def

theorem kill_latch_released_only_by_commit_witness:
  "\<not> k_kill_latched (sidecar_step sample_config (Commit ''r1'' ''tok'' (sample_ob 50 1 8) None None) sample_prepared) \<and>
   (\<exists>rid tok ob b. Commit ''r1'' ''tok'' (sample_ob 50 1 8) None None = Commit rid tok ob b None \<and>
      prepared_for tok (ob_now ob) b sample_prepared \<and> rearm_evidence ob sample_prepared)"
proof -
  have latched: "k_kill_latched sample_prepared" by (simp add: sample_sidecar_defs)
  have evidence: "prepared_for ''tok'' (ob_now (sample_ob 50 1 8)) None sample_prepared"
    "rearm_evidence (sample_ob 50 1 8) sample_prepared"
    by (simp_all add: prepared_for_def rearm_evidence_def sample_sidecar_defs)
  then have released:
    "\<not> k_kill_latched (sidecar_step sample_config (Commit ''r1'' ''tok'' (sample_ob 50 1 8) None None) sample_prepared)"
    using commit_latch [OF latched] by simp
  show ?thesis
    using kill_latch_released_only_by_commit [OF latched released] released by blast
qed

subsection \<open>A failed commit\<close>

text \<open>A rearm commit whose state write fails is refused and undone: although the controller had already
  released the latch before writing and the failing write latched it again for its own reason, the kill
  latch, its reason, the stage, the verification count and the last verified sequence are exactly what they were
  before the request, and the prepared token is spent, so that the same token cannot be committed again.
\<close>

theorem failed_commit_restores:
  assumes "commit_rearm c rid tok ob b (Some e) s = (s', ok, why)"
  shows "\<not> ok \<and> k_kill_latched s' = k_kill_latched s \<and> k_kill_reason s' = k_kill_reason s \<and>
    k_stage s' = k_stage s \<and> k_flat_verification_count s' = k_flat_verification_count s \<and>
    k_last_verified_snapshot_sequence s' = k_last_verified_snapshot_sequence s \<and>
    \<not> prepared_for tok (ob_now ob) b s'"
proof (cases "prepared_for tok (ob_now ob) b s")
  case True
  then show ?thesis using assms
    by (auto simp: commit_rearm_def validate_rearm_accepts control_defs prepared_for_def
        begin_rearm_commit_def finish_rearm_commit_def Let_def split: if_splits)
next
  case False
  obtain s1 w where v: "validate_rearm_commit rid tok (ob_now ob) b s = (s1, False, w)"
    using False validate_rearm_iff by (metis prod.collapse)
  then have "s' = s1" "\<not> ok" using assms by (simp_all add: commit_rearm_def)
  then show ?thesis using v False
    by (auto simp: validate_rearm_commit_def prepared_for_def refuse_commit_def record_rearm_def
        split: option.splits if_splits)
qed

theorem failed_commit_restores_witness:
  "\<exists>s' ok why. commit_rearm sample_config ''r1'' ''tok'' (sample_ob 50 1 8) None (Some ''disk_full'') sample_prepared = (s', ok, why) \<and>
     \<not> ok \<and> why = ''disk_full'' \<and> k_kill_latched s' \<and> k_stage s' = FLAT_VERIFIED \<and> k_kill_reason s' = ''drawdown''"
proof -
  obtain s' ok why where
    run: "commit_rearm sample_config ''r1'' ''tok'' (sample_ob 50 1 8) None (Some ''disk_full'') sample_prepared = (s', ok, why)"
    by (metis prod_cases3)
  have "why = ''disk_full''"
    using run by (auto simp: commit_rearm_def validate_rearm_commit_def check_rearm_safety_def rearm_control_gate_def
        rearm_truth_gate_def begin_rearm_commit_def finish_rearm_commit_def refuse_commit_def str_or_def
        Let_def sample_sidecar_defs)
  moreover have "\<not> ok \<and> k_kill_latched s' \<and> k_stage s' = FLAT_VERIFIED \<and> k_kill_reason s' = ''drawdown''"
    using failed_commit_restores [OF run] by (simp add: sample_sidecar_defs)
  ultimately show ?thesis using run by blast
qed

subsection \<open>The evidence behind an orphan exit\<close>

text \<open>The snapshots that steps saw as valid and flat.\<close>

definition seen_flat :: "observation \<Rightarrow> bool" where
  "seen_flat ob \<longleftrightarrow> ob_exchange_valid ob \<and> \<not> exposure_seen ob"

fun flat_snapshot :: "sidecar_op \<Rightarrow> int set" where
  "flat_snapshot (Step ob0 ob p0 p1 p2) = (if seen_flat ob then {ob_sequence ob} else {})"
| "flat_snapshot _ = {}"

definition flat_snapshots :: "sidecar_op list \<Rightarrow> int set" where
  "flat_snapshots xs = (\<Union>x\<in>set xs. flat_snapshot x)"

text \<open>Every unit of the verification count stands for one flat snapshot of its own, later than the loss of the
  parent while the parent is lost.\<close>

definition counted :: "int set \<Rightarrow> int list \<Rightarrow> control \<Rightarrow> bool" where
  "counted H qs s \<longleftrightarrow> sorted_wrt (<) qs \<and> int (length qs) = k_flat_verification_count s \<and> set qs \<subseteq> H \<and>
     (\<forall>q\<in>set qs. q \<le> k_last_verified_snapshot_sequence s \<and>
        (k_parent_stale_since s > 0 \<longrightarrow> q > k_parent_stale_snapshot_sequence s))"

definition count_backed :: "int set \<Rightarrow> control \<Rightarrow> bool" where
  "count_backed H s \<longleftrightarrow> (\<exists>qs. counted H qs s)"

text \<open>Handlers that leave the fields of the count alone keep it backed, as does any that sets it to zero.\<close>

definition same_count :: "control \<Rightarrow> control \<Rightarrow> bool" where
  "same_count s s' \<longleftrightarrow> k_flat_verification_count s' = k_flat_verification_count s \<and>
     k_last_verified_snapshot_sequence s' = k_last_verified_snapshot_sequence s \<and>
     k_parent_stale_since s' = k_parent_stale_since s \<and>
     k_parent_stale_snapshot_sequence s' = k_parent_stale_snapshot_sequence s"

lemma count_backed_cong: "same_count s s' \<Longrightarrow> count_backed H s' = count_backed H s"
  by (simp add: count_backed_def counted_def same_count_def)

lemma count_backed_same: "count_backed H s \<Longrightarrow> same_count s s' \<Longrightarrow> count_backed H s'"
  by (simp add: count_backed_cong)

lemma count_backed_zero: "k_flat_verification_count s = 0 \<Longrightarrow> count_backed H s"
  by (auto simp: count_backed_def counted_def intro!: exI [of _ "[]"])

lemma count_backed_mono: "count_backed H s \<Longrightarrow> H \<subseteq> H' \<Longrightarrow> count_backed H' s"
  by (auto simp: count_backed_def counted_def)

lemma count_backed_snoc:
  assumes "count_backed H s" and "q \<in> H" and "q > k_last_verified_snapshot_sequence s"
    and "k_parent_stale_since s > 0 \<Longrightarrow> q > k_parent_stale_snapshot_sequence s"
    and "k_flat_verification_count s' = k_flat_verification_count s + 1" "k_last_verified_snapshot_sequence s' = q"
    and "k_parent_stale_since s' = k_parent_stale_since s"
    and "k_parent_stale_snapshot_sequence s' = k_parent_stale_snapshot_sequence s"
  shows "count_backed H s'"
proof -
  obtain qs where "counted H qs s" using assms(1) by (auto simp: count_backed_def)
  then have "counted H (qs @ [q]) s'"
    using assms(2-) by (fastforce simp: counted_def sorted_wrt_append)
  then show ?thesis by (auto simp: count_backed_def)
qed

lemma parent_stale_backed:
  "count_backed H s \<Longrightarrow> count_backed H (update_parent_stale_state c ob s)"
  "parent_healthy ob \<Longrightarrow> k_parent_stale_since (update_parent_stale_state c ob s) = 0"
  by (auto simp: update_parent_stale_state_def reset_flat_verification_def count_backed_zero count_backed_def counted_def)

lemma same_count_simps [simp]:
  "same_count s s"
  "same_count s (bump_if_changed c b s') = same_count s s'"
  by (simp_all add: same_count_def)

lemma verify_flat_backed:
  assumes "count_backed H s" and "seen_flat ob \<Longrightarrow> ob_sequence ob \<in> H"
    and "parent_healthy ob \<Longrightarrow> k_parent_stale_since s = 0"
  shows "count_backed H (verify_flat c a ob s)"
proof -
  define counts where "counts \<longleftrightarrow> ob_exchange_valid ob \<and> a = ''KILL'' \<and> cc_flatten_enabled c \<and> \<not> exposure_seen ob \<and>
    (parent_healthy ob \<or> ob_sequence ob > k_parent_stale_snapshot_sequence s) \<and>
    ob_sequence ob > k_last_verified_snapshot_sequence s"
  consider "counts" | "k_flat_verification_count (verify_flat c a ob s) = 0" | "same_count s (verify_flat c a ob s)"
  proof -
    have "counts \<or> k_flat_verification_count (verify_flat c a ob s) = 0 \<or> same_count s (verify_flat c a ob s)"
      by (simp add: verify_flat_def same_count_def counts_def Let_def split: if_split)
    then show "thesis" using that by blast
  qed
  then show ?thesis
  proof cases
    case 1
    show ?thesis
      by (rule count_backed_snoc [OF assms(1), of "ob_sequence ob"])
        (use 1 assms in \<open>auto simp: counts_def verify_flat_def seen_flat_def Let_def\<close>)
  qed (use assms(1) count_backed_zero count_backed_same in auto)
qed

lemma request_actions_same: "same_count s (fst (request_actions c a ob s))"
  by (simp add: request_actions_def same_count_def Let_def)

lemma advance_stale:
  "k_parent_stale_since (fst (advance_risk_stage c h a ob s)) = k_parent_stale_since s"
  "k_parent_stale_snapshot_sequence (fst (advance_risk_stage c h a ob s)) = k_parent_stale_snapshot_sequence s"
  by (auto simp: advance_risk_stage_def request_actions_def verify_flat_def Let_def split: prod.splits)

lemma advance_backed:
  assumes "count_backed H s" and "seen_flat ob \<Longrightarrow> ob_sequence ob \<in> H"
    and "parent_healthy ob \<Longrightarrow> k_parent_stale_since s = 0"
  shows "count_backed H (fst (advance_risk_stage c h a ob s))"
proof (cases h)
  case True
  then show ?thesis by (simp add: advance_risk_stage_def Let_def count_backed_zero)
next
  case False
  define s1 where "s1 = s\<lparr>k_unsafe_since := (if k_unsafe_since s \<le> 0 then ob_now ob else k_unsafe_since s)\<rparr>"
  define s2 where "s2 = (if k_stage s1 = FLAT_VERIFIED \<and> (\<not> ob_exchange_valid ob \<or> exposure_seen ob)
    then s1\<lparr>k_stage := FLATTENING, k_flat_verification_count := 0, k_last_verified_snapshot_sequence := 0\<rparr> else s1)"
  obtain s3 x y where r: "request_actions c a ob s2 = (s3, x, y)" by (metis prod_cases3)
  have "count_backed H s1" by (rule count_backed_same [OF assms(1)]) (simp add: s1_def same_count_def)
  then have "count_backed H s2" by (simp add: s2_def count_backed_zero)
  moreover have same: "same_count s2 s3" using request_actions_same [of s2 c a ob] r by simp
  ultimately have "count_backed H s3" by (rule count_backed_same)
  moreover have "parent_healthy ob \<Longrightarrow> k_parent_stale_since s3 = 0"
    using same assms(3) by (simp add: same_count_def s2_def s1_def split: if_splits)
  ultimately have "count_backed H (verify_flat c a ob s3)" using assms(2) verify_flat_backed by blast
  moreover have "fst (advance_risk_stage c h a ob s) = bump_if_changed c (transition_snapshot c s) (verify_flat c a ob s3)"
    using False r by (auto simp: advance_risk_stage_def Let_def s1_def s2_def split: if_splits)
  ultimately show ?thesis using count_backed_same same_count_simps by metis
qed

lemma same_count_handlers:
  "same_count s (latch_kill c r s)" "same_count s (run_persist p s)" "same_count s (fail_closed r s)"
  "same_count s (finish_stop a r cr ca ok s)" "same_count s (fail_pending_stop_after_takeover r s)"
  "same_count s (begin_quiesced c r q w s)" "same_count s (request_stop rid cancel s)"
  "same_count s (fst (core_prepare_rearm c rid r ob b tok s))" "same_count s (fst (abort_rearm tok s))"
  "same_count s (fst (validate_rearm_commit rid tok now b s))"
  "same_count s (s\<lparr>k_last_cancel_attempt_at := t\<rparr>)" "same_count s (s\<lparr>k_last_flatten_attempt_at := t\<rparr>)"
  "same_count s (s\<lparr>k_last_quiesce := lq\<rparr>)" "same_count s (s\<lparr>k_last_shutdown_resume := lr\<rparr>)"
  by (simp_all add: same_count_def control_defs core_prepare_rearm_def prepare_rearm_def abort_rearm_def
      validate_rearm_commit_def split: option.split)

lemmas backed_simps = same_count_handlers [THEN count_backed_cong]

lemma takeover_zero: "k_flat_verification_count (fst (takeover_from_quiesce c r p s)) = 0"
  by (simp add: takeover_from_quiesce_def run_persist_def fail_closed_def Let_def split: option.split)

lemma takeover_backed: "count_backed H (fst (takeover_from_quiesce c r p s))"
  by (rule count_backed_zero [OF takeover_zero])

lemma enter_quiesced_backed: "count_backed H s \<Longrightarrow> count_backed H (fst (enter_quiesced c r q w p s))"
  by (cases p) (simp_all add: enter_quiesced_def run_persist_def Let_def backed_simps count_backed_zero)

lemma complete_stop_backed: "count_backed H s \<Longrightarrow> count_backed H (fst (complete_stop_request c ob p s))"
  by (simp add: complete_stop_request_def Let_def case_prod_unfold backed_simps takeover_backed
      enter_quiesced_backed split: stop_plan.split)

lemma commit_backed: "count_backed H s \<Longrightarrow> count_backed H (fst (commit_rearm c rid tok ob b p s))"
proof (cases "prepared_for tok (ob_now ob) b s")
  case False
  assume "count_backed H s"
  then show ?thesis using False count_backed_same [OF _ same_count_handlers(10)]
    by (simp add: commit_rearm_def case_prod_unfold validate_rearm_iff Let_def)
next
  case True
  assume "count_backed H s"
  then show ?thesis using True
    by (auto simp: commit_rearm_def validate_rearm_accepts control_defs same_count_def
        begin_rearm_commit_def finish_rearm_commit_def Let_def
        intro: count_backed_zero count_backed_same [of H s] split: option.split)
qed

lemma risk_stage_backed:
  assumes "count_backed H s" and "seen_flat ob \<Longrightarrow> ob_sequence ob \<in> H"
  shows "count_backed H (risk_stage_state c ob p1 s)"
proof -
  define s1 where "s1 = update_parent_stale_state c ob s"
  have s1: "count_backed H s1" "parent_healthy ob \<Longrightarrow> k_parent_stale_since s1 = 0"
    unfolding s1_def using assms(1) by (auto intro: parent_stale_backed)
  have latched: "count_backed H (latch_kill c r s1)" "parent_healthy ob \<Longrightarrow> k_parent_stale_since (latch_kill c r s1) = 0" for r
    using s1 same_count_handlers(1) [of s1 c r] count_backed_same by (auto simp: same_count_def)
  note adv = advance_backed [OF s1(1) assms(2) s1(2)] advance_backed [OF latched(1) assms(2) latched(2)]
  show ?thesis
    unfolding risk_stage_state_def
    by (simp add: Let_def case_prod_unfold backed_simps adv flip: s1_def)
qed

lemma main_step_backed:
  assumes "count_backed H s" and "seen_flat ob \<Longrightarrow> ob_sequence ob \<in> H"
  shows "count_backed H (fst (main_step c ob p1 p2 s))"
  using risk_stage_backed [OF assms, of c p1]
  by (auto simp: main_step_def Let_def reset_flat_verification_def
      intro: count_backed_zero count_backed_same [OF _ same_count_handlers(3)] split: flat_proof.split option.split)

lemma main_step_exit:
  "main_step c ob p1 p2 s = (s', False) \<Longrightarrow> \<not> should_keep_running c ob s' \<and> (\<forall>e. ob_flat_proof ob \<noteq> Proof_failed e)"
  by (auto simp: main_step_def Let_def split: if_splits flat_proof.splits option.splits)

lemma step_backed:
  assumes "count_backed H s" and "seen_flat ob \<Longrightarrow> ob_sequence ob \<in> H"
  shows "count_backed H (fst (step c ob0 ob p0 p1 p2 s))"
  using complete_stop_backed [OF assms(1), of c ob0 p0] main_step_backed [OF _ assms(2), of _ c p1 p2] assms(1)
  by (auto simp: step_def step_quiesced_def Let_def case_prod_unfold backed_simps takeover_backed
      parent_stale_backed split: option.split)

lemma sidecar_step_backed:
  assumes "count_backed H s"
  shows "count_backed (H \<union> flat_snapshot x) (sidecar_step c x s)"
proof (cases x)
  case (Step ob0 ob p0 p1 p2)
  have "count_backed (H \<union> flat_snapshot x) s" using assms by (rule count_backed_mono) simp
  then show ?thesis unfolding Step by (auto intro: step_backed)
next
  case (Quiesce rid r q w p)
  then show ?thesis using assms enter_quiesced_backed [OF assms]
    by (simp add: request_quiesce_def Let_def case_prod_unfold backed_simps)
next
  case (Shutdown_resume rid r p)
  then show ?thesis using assms
    by (simp add: request_shutdown_resume_def Let_def case_prod_unfold backed_simps takeover_backed)
qed (use assms in \<open>simp_all add: backed_simps commit_backed\<close>)

interpretation sc: evidence_system "sidecar_step c" flat_snapshot count_backed for c
  by unfold_locales (rule sidecar_step_backed)

lemma step_exit:
  assumes "step c ob0 ob p0 p1 p2 s = (s', False)" and "\<not> k_stop_requested s"
  shows "\<not> should_keep_running c ob s' \<and> (\<forall>e. ob_flat_proof ob \<noteq> Proof_failed e)"
  using assms main_step_exit [of c ob p1 p2 _ s']
  by (auto simp: step_def step_quiesced_def Let_def split: if_splits)

text \<open>Claim C34: the sidecar abandons its post (leaves its loop without an accepted stop) only on evidence. Take any
  run of handlers from a state with an empty verification count, which is how every process starts, and a
  step with no stop pending that asks to exit. Then the parent is unhealthy and has been for at
  least \<open>orphan_exit_sec\<close>, the exchange snapshot is valid and shows neither orders nor positions, no
  account-wide flat proof failed, and the account was seen flat by valid
  snapshots at least \<open>flat_verification_checks\<close> times: there are that many snapshot sequences, strictly increasing
  and hence pairwise distinct, each taken after the parent was lost and each the sequence of a valid flat
  snapshot that one of the steps of the run observed.
\<close>

theorem orphan_exit_evidence:
  assumes "k_flat_verification_count s0 = 0"
    and "s = run_ops (sidecar_step c) xs s0" and "\<not> k_stop_requested s"
    and "step c ob0 ob p0 p1 p2 s = (s', False)"
  shows "\<not> parent_healthy ob \<and> seen_flat ob \<and> (\<forall>e. ob_flat_proof ob \<noteq> Proof_failed e) \<and>
    fl (ob_now ob - k_parent_stale_since s') \<ge> cc_orphan_exit_sec c \<and>
    (\<exists>qs. sorted_wrt (<) qs \<and> int (length qs) \<ge> cc_flat_verification_checks c \<and>
       (\<forall>q\<in>set qs. q > k_parent_stale_snapshot_sequence s') \<and>
       set qs \<subseteq> flat_snapshots (xs @ [Step ob0 ob p0 p1 p2]))"
proof -
  have "count_backed ({} \<union> flat_snapshots (xs @ [Step ob0 ob p0 p1 p2])) (run_ops (sidecar_step c) (xs @ [Step ob0 ob p0 p1 p2]) s0)"
    unfolding flat_snapshots_def by (rule sc.run_backs, rule count_backed_zero, rule assms(1))
  then obtain qs where "counted (flat_snapshots (xs @ [Step ob0 ob p0 p1 p2])) qs s'"
    using assms(2,4) by (auto simp: run_ops_append count_backed_def)
  then show ?thesis
    using step_exit [OF assms(4,3)]
    by (auto simp: counted_def should_keep_running_def seen_flat_def exposure_seen_def)
qed

definition orphan_run :: "sidecar_op list" where
  "orphan_run = [Step (sample_ob 1 10 5) (sample_ob 1 10 5) None None None,
     Step (sample_ob 10 19 6) (sample_ob 10 19 6) None None None]"

text \<open>The parent is lost at second 1 with snapshot 5; snapshots 6 and 7 verify a flat account; at second 30 the sidecar
  leaves.\<close>

theorem orphan_exit_evidence_witness:
  "\<exists>s'. step sample_config (sample_ob 30 39 7) (sample_ob 30 39 7) None None None
       (run_ops (sidecar_step sample_config) orphan_run control_init) = (s', False) \<and>
     (\<exists>qs. sorted_wrt (<) qs \<and> int (length qs) \<ge> 2 \<and> (\<forall>q\<in>set qs. q > 5) \<and>
       set qs \<subseteq> flat_snapshots (orphan_run @ [Step (sample_ob 30 39 7) (sample_ob 30 39 7) None None None]))"
proof -
  define s where "s = run_ops (sidecar_step sample_config) orphan_run control_init"
  define r where "r = step sample_config (sample_ob 30 39 7) (sample_ob 30 39 7) None None None s"
  have start: "k_flat_verification_count control_init = 0" "\<not> k_stop_requested s"
    unfolding s_def by code_simp+
  have run: "r = (fst r, False)" "k_parent_stale_snapshot_sequence (fst r) = 5"
    unfolding prod_eq_iff r_def s_def by code_simp+
  show ?thesis
    using orphan_exit_evidence [OF start(1) s_def start(2) run(1) [unfolded r_def]] run
    by (auto simp: s_def r_def sample_config_def)
qed

end
