(* ===== verification/Spec2Isabelle.thy ===== *)
theory Spec2Isabelle
  imports Order_Settlement Paper_Gateway Order_Book Message_Budget Rate_Limit Exposure Guard_Replay Sidecar_Control
begin

text \<open>
  A model of the safety core of ChronosHFT, a high-frequency trading system in Python, and the
  theorems that make it correct.

  \<^bold>\<open>The program.\<close> Market data reaches a local order book per symbol (\<open>data/orderbook.py\<close>) and a cache of
  latest prices (\<open>data/cache.py\<close>). Strategies emit order intents; the order management system (\<open>oms/\<close>)
  submits them (\<open>oms/order_submission.py\<close>): it checks the intent (\<open>oms/validator.py\<close>, \<open>oms/order_policy.py\<close>), the
  margin (\<open>oms/account_manager.py\<close>) and the exposure (\<open>oms/exposure.py\<close>), acquires a permit at the outbound gate
  (\<open>oms/outbound_gate.py\<close>), writes the order to the journal, checks a last fence and the message budget
  (\<open>oms/submit_settlement.py\<close>, \<open>oms/outbound_budget.py\<close>), sends through a gateway (\<open>gateway/binance/rest_gateway.py\<close> to the exchange,
  \<open>gateway/binance/paper_gateway.py\<close> to a simulated venue) and settles the result.
  Freeze guards (\<open>oms/guard_manager.py\<close>), trading modes (\<open>oms/capability_manager.py\<close>), the lifecycle
  (\<open>oms/lifecycle_controller.py\<close>, \<open>oms/full_reset.py\<close>) and the journal-failure latch
  (\<open>oms/durability_manager.py\<close>) close and reopen the gate. All of them share one state under one lock;
  the REST clients of all processes share the request-weight table of
  \<open>infrastructure/binance_rate_limit_budget.py\<close>. After a restart \<open>oms/journal_rebuilder.py\<close> replays the
  journal. A separate process, the risk sidecar (\<open>risk/sidecar_core.py\<close>), watches the parent's heartbeat
  and the exchange's account and flattens the account on its own when either fails.

  \<^bold>\<open>How the code is modelled.\<close> An object is a record, an enum a datatype, a \<open>dict\<close> an association list
  in insertion order, an exception a value \<open>Inl e\<close> beside the state it leaves behind. A float is a rational;
  the result of each float operation is rounded by \<open>fl\<close> of \<open>Py_Float\<close> (53 bits, ties to even, unbounded
  exponent); a float not yet checked by \<open>math.isfinite\<close> is a \<open>pyfloat\<close>. Clock readings, fresh ids, the
  outcome of a journal append, of an SQLite transaction and of a bounded wait are arguments; in the settlement of an order the wait is
  computed from the state and from what the other threads do meanwhile. A failed append leaves no record. A section of
  code under a lock is one step; a method that releases the lock in between is several steps, so
  that the interleavings of threads are the sequences of steps. Nothing needs fuel: every loop is a
  recursion over a list, and the retry loop of the transport counts down the attempts its limit leaves.

  \<^bold>\<open>Theories.\<close>
  \<^item> \<open>Py_Float\<close>, \<open>Chronos_Prelude\<close>: floats, results, dictionaries, strings, decoded JSON values.
  \<^item> \<open>Op_System\<close>: runs of a system; the locales \<open>invariant_system\<close>, \<open>monotone_system\<close> and
    \<open>history_system\<close>, and \<open>evidence_system\<close>, interpreted by the components below.
  \<^item> \<open>Event_Types\<close>: the enums, \<open>OrderIntent\<close> and \<open>OrderRequest\<close> of \<open>event/type.py\<close>.
  \<^item> \<open>OMS_Order\<close>: \<open>Order\<close> of \<open>oms/order.py\<close>, its transitions, fills and journal record. Each call follows one edge
    of the table, terminal states absorb, fill accounting stays within the volume and monotone, records
    round-trip, a record with a number that is not finite is refused.
  \<^item> \<open>Guard_Table\<close>: the owner-and-epoch tables behind the symbol and venue freezes, with the locale
    \<open>freeze_registry\<close> interpreted for both. A freeze holds until its owner is released; a stale clear
    is refused.
  \<^item> \<open>OMS_State\<close>: the shared safety state \<open>oms\<close> and every handler that changes it: gate, permits,
    guards, modes, journal latch, lifecycle, full reset, rearm, reconciliation and quarantine, and the
    step function over all of them. The threads that register, settle and update orders are one more step, which changes the
    order map and the settlements at will.
  \<^item> \<open>OMS_Safety\<close>: an open gate means live, unhalted, unfrozen and unheld; permit counters are exact; for
    all interleavings and journal failures.
  \<^item> \<open>OMS_Lifecycle\<close>: HALTED is left only by rearm or by a bootstrap that had passed its test before the halt, which is a defect; a journal failure and a shutdown stop sends; an
    unchanged gate epoch fences; a full reset cannot undo a concurrent stop; the capability mode is the
    most restrictive constraint.
  \<^item> \<open>Order_Book\<close>: \<open>LocalOrderBook\<close>; the locale \<open>book_side\<close> is interpreted for bids and asks. The cached
    quotes equal a recomputation, deltas refine map update, gaps stop the book, live books are sane.
  \<^item> \<open>Market_Cache\<close>: \<open>LiveDataCache\<close> and the quote getters of \<open>OrderBook\<close>; the locale \<open>latest_store\<close>.
    The mark price is that of the latest valid message.
  \<^item> \<open>Exposure\<close>: \<open>ExposureManager\<close>; the locale \<open>open_aggregate\<close> is interpreted for the six open-quantity
    tables. Positions stay priced, fills round-trip, the aggregates are the resting orders, an
    accepted order cannot breach the position or gross limit, a reduce-only order cannot reverse a position.
  \<^item> \<open>Account\<close>: \<open>AccountManager\<close>. An accepted margin is covered by the equity and the trading budget; an exhausted one is
    recalculated without the exchange's figure.
  \<^item> \<open>Order_Checks\<close>: \<open>OrderValidator\<close> and the rejections of \<open>OMSOrderPolicy\<close>.
  \<^item> \<open>Order_Admission\<close>: \<open>submit_order\<close> up to the durable record of the prepared order, over the state of all the components above. A
    prepared order passed every check and holds one permit; a refused one leaves nothing behind.
  \<^item> \<open>Order_Transport\<close>: the REST gateway's \<open>send_order\<close> over the request loop with guards and retries. The locale
    \<open>guarded_gateway\<close> states what the OMS relies on: one message at most, only past the guard, truthful outcomes.
  \<^item> \<open>Order_Dispatch\<close>: the final fence and the dispatch, proved in the locale \<open>dispatch_gateway\<close> for any such gateway. An order leaves only
    in a state the fence lets pass; the gate did not move between permit and send.
  \<^item> \<open>Order_Settlement\<close>: the second half of \<open>submit_order\<close>. The permit is returned exactly once on every path, an order that may
    live at the exchange is kept, a lost journal write seals the system; a conflicting acknowledgement halts it, because the freeze waits for the order's own settlement.
  \<^item> \<open>Paper_Venue\<close>, \<open>Paper_Safety\<close>: the simulated venue (\<open>paper_state.py\<close>, \<open>paper_matching.py\<close>, \<open>paper_ledger.py\<close> and the worker
    of \<open>paper_gateway.py\<close>). The locale \<open>venue_closed\<close> reduces an invariant of all runs to the few ways orders and
    ledger change. The ledger is the replay of its fills, fills keep to the terms of the order, a
    symbol-wide cancel is final, a taker sweeps the executable prices from the best on and leaves none out; arrival order at a price is not kept.
  \<^item> \<open>Paper_Gateway\<close>: the paper gateway's \<open>send_order\<close> interprets the same gateway contract, so the dispatch theorems hold for
    paper trading.
  \<^item> \<open>Message_Budget\<close>: \<open>OutboundMessageBudget\<close> and \<open>SequenceValidator\<close>. Every window of the stream of granted
    messages respects the limits; the cancel reserve is always available.
  \<^item> \<open>Rate_Limit\<close>: \<open>BinanceRateLimitBudget\<close>. Class limits per minute on the stream of granted requests, under clocks that step back by a
    minute at most; when the emergency reserve is available; the exchange's back-off.
  \<^item> \<open>Guard_Replay\<close>: the guard and lifecycle branches of \<open>rebuild_from_log\<close> and the records the guard
    manager writes; the locale \<open>guard_journal\<close> is interpreted for symbols and venues. Replay restores the
    guards exactly but for those a journal failure installed without a record; a halt survives a restart.
  \<^item> \<open>Sidecar_Control\<close>: \<open>SidecarControlController\<close> and the handlers of \<open>RiskSidecarCore\<close>; the locale
    \<open>evidence_system\<close> is interpreted for its steps. The kill latch is released only by a committed rearm on fresh
    evidence, an orphan exit rests on distinct flat snapshots, a failed commit is undone.

  \<^bold>\<open>Not modelled.\<close> The internal and emergency submissions, which repeat \<open>submit_order\<close> with fewer checks; cancellation, the order monitor and
  the resolution of order truth, which run gateway calls on executor threads; the risk manager, the sidecar's account evaluation and
  state store, and the event engine; the public books, account messages and queries of the paper gateway; the
  bytes of the journal (a failing append is an argument); HTTP, WebSocket, threads and timers; strategies and
  calibration, which compute on numpy arrays; configuration schemas, dashboard, logging and scripts. Log messages and read-only
  getters are left out of modelled components, and texts of error messages are reduced to the check that failed.
  Float overflow and underflow are outside the float model.
\<close>

end
